(* ===== verification/Prelude.thy ===== *)
theory Prelude
  imports Complex_Main "HOL-Library.Sublist" "HOL-Library.Char_ord" "HOL-Library.List_Lexorder"
begin

text \<open>
  Shared vocabulary of the development: Python values that arrive as JSON, Python strings,
  results that may be an exception, keyed rows of a table, and the small lemma library the
  component theories use.

  Strings. A Python \<open>str\<close> is a list of code points; here it is a \<open>string\<close>, whose characters
  are the code points 0 to 255. The code's own literals are ASCII. \<open>utf8_length\<close> is the length of
  the UTF-8 encoding (two bytes from code point 128 on), which is what the size limits count.

  Exceptions. A function that may raise returns a sum: \<open>Inl\<close> the exception, \<open>Inr\<close> the value.
  \<open>bindE\<close> is sequential composition: the first exception ends the computation.
\<close>

named_theorems tx_simps "unfolding rules of the exception plumbing"

type_synonym str = string

subsection \<open>Exceptions\<close>

definition bindE :: "'e + 'a \<Rightarrow> ('a \<Rightarrow> 'e + 'b) \<Rightarrow> 'e + 'b" where
  "bindE m f = (case m of Inl e \<Rightarrow> Inl e | Inr x \<Rightarrow> f x)"

definition guardE :: "bool \<Rightarrow> 'e \<Rightarrow> 'e + unit" where
  "guardE ok e = (if ok then Inr () else Inl e)"

lemma bindE_Inl [simp]: "bindE (Inl e) f = Inl e"
  and bindE_Inr [simp]: "bindE (Inr x) f = f x"
  by (simp_all add: bindE_def)

lemma bindE_eq_Inr [tx_simps]: "bindE m f = Inr y \<longleftrightarrow> (\<exists>x. m = Inr x \<and> f x = Inr y)"
  by (cases m) auto

lemma bindE_eq_Inl: "bindE m f = Inl e \<longleftrightarrow> m = Inl e \<or> (\<exists>x. m = Inr x \<and> f x = Inl e)"
  by (cases m) auto

lemma guardE_eq_Inr [tx_simps]: "guardE ok e = Inr u \<longleftrightarrow> ok"
  by (simp add: guardE_def)

text \<open>The two shapes in which the code raises: on a missing row, and on a failed check.\<close>

lemma case_option_Inr [tx_simps]:
  "(case m of None \<Rightarrow> a | Some x \<Rightarrow> f x) = Inr y \<longleftrightarrow>
     (m = None \<and> a = Inr y) \<or> (\<exists>x. m = Some x \<and> f x = Inr y)"
  by (cases m) auto

lemma case_list_Inr [tx_simps]:
  "(case xs of [] \<Rightarrow> a | x # xs' \<Rightarrow> f x xs') = Inr y \<longleftrightarrow>
     (xs = [] \<and> a = Inr y) \<or> (\<exists>x xs'. xs = x # xs' \<and> f x xs' = Inr y)"
  by (cases xs) auto

lemma if_Inl_Inr [tx_simps]: "(if b then Inl e else m) = Inr y \<longleftrightarrow> \<not> b \<and> m = Inr y"
  by auto

lemma guardE_True [simp]: "guardE True e = Inr ()"
  and guardE_False [simp]: "guardE False e = Inl e"
  by (simp_all add: guardE_def)

lemma bindE_cong [cong]: "m = m' \<Longrightarrow> bindE m f = bindE m' f"
  by simp

subsection \<open>JSON values\<close>

datatype json =
    JNull
  | JBool bool
  | JInt int
  | JFloat real
  | JStr str
  | JList "json list"
  | JObj "(str \<times> json) list"

fun is_JStr :: "json \<Rightarrow> bool" where
  "is_JStr (JStr _) = True"
| "is_JStr _ = False"

fun is_JObj :: "json \<Rightarrow> bool" where
  "is_JObj (JObj _) = True"
| "is_JObj _ = False"

text \<open>\<open>d.get(k)\<close> with the default None (JSON null), and \<open>d.get(k, default)\<close>. The keys of a parsed
  object are distinct, so the first pair decides.\<close>

fun obj_lookup :: "json \<Rightarrow> str \<Rightarrow> json option" where
  "obj_lookup (JObj kvs) k = map_of kvs k"
| "obj_lookup _ k = None"

definition obj_get :: "json \<Rightarrow> str \<Rightarrow> json" where
  "obj_get j k = (case obj_lookup j k of None \<Rightarrow> JNull | Some v \<Rightarrow> v)"

definition obj_get_default :: "json \<Rightarrow> str \<Rightarrow> json \<Rightarrow> json" where
  "obj_get_default j k d = (case obj_lookup j k of None \<Rightarrow> d | Some v \<Rightarrow> v)"

fun obj_keys :: "json \<Rightarrow> str list" where
  "obj_keys (JObj kvs) = map fst kvs"
| "obj_keys _ = []"

text \<open>Python compares numbers across types: \<open>True == 1 == 1.0\<close>.\<close>

fun py_eq_int :: "json \<Rightarrow> int \<Rightarrow> bool" where
  "py_eq_int (JInt i) n = (i = n)"
| "py_eq_int (JBool b) n = ((if b then 1 else 0) = n)"
| "py_eq_int (JFloat r) n = (r = of_int n)"
| "py_eq_int _ n = False"

lemma obj_get_JObj [simp]: "obj_get (JObj kvs) k = (case map_of kvs k of None \<Rightarrow> JNull | Some v \<Rightarrow> v)"
  by (simp add: obj_get_def)

subsection \<open>Strings\<close>

definition code :: "char \<Rightarrow> nat" where
  "code c = of_char c"

definition is_lower :: "char \<Rightarrow> bool" where
  "is_lower c = (97 \<le> code c \<and> code c \<le> 122)"

definition is_upper :: "char \<Rightarrow> bool" where
  "is_upper c = (65 \<le> code c \<and> code c \<le> 90)"

definition is_digit :: "char \<Rightarrow> bool" where
  "is_digit c = (48 \<le> code c \<and> code c \<le> 57)"

text \<open>\<open>str.isspace\<close> and the class \<open>\s\<close> of \<open>re\<close> agree on code points below 256; \<open>\w\<close> holds of the
  alphanumeric code points and the underscore.\<close>

definition is_space :: "char \<Rightarrow> bool" where
  "is_space c = (let n = code c in (9 \<le> n \<and> n \<le> 13) \<or> (28 \<le> n \<and> n \<le> 32) \<or> n = 133 \<or> n = 160)"

definition is_word :: "char \<Rightarrow> bool" where
  "is_word c = (let n = code c in is_digit c \<or> is_upper c \<or> is_lower c \<or> n = 95 \<or> n = 170
     \<or> n = 178 \<or> n = 179 \<or> n = 181 \<or> n = 185 \<or> n = 186 \<or> (188 \<le> n \<and> n \<le> 190)
     \<or> (192 \<le> n \<and> n \<le> 214) \<or> (216 \<le> n \<and> n \<le> 246) \<or> (248 \<le> n \<and> n \<le> 255))"

text \<open>Membership in a list of characters evaluates faster than a comparison of code points.\<close>

lemma inj_code: "inj code"
  by (rule injI) (simp add: code_def)

lemma class_members: "code ` set cs = A \<Longrightarrow> (c \<in> set cs) = (code c \<in> A)"
  using inj_image_mem_iff [OF inj_code, of c "set cs"] by simp

lemma is_lower_members [code]: "is_lower c = (c \<in> set ''abcdefghijklmnopqrstuvwxyz'')"
proof -
  have members: "code ` set ''abcdefghijklmnopqrstuvwxyz'' = {97..122}" by code_simp
  show ?thesis unfolding class_members [OF members] by (simp add: is_lower_def)
qed

lemma is_upper_members [code]: "is_upper c = (c \<in> set ''ABCDEFGHIJKLMNOPQRSTUVWXYZ'')"
proof -
  have members: "code ` set ''ABCDEFGHIJKLMNOPQRSTUVWXYZ'' = {65..90}" by code_simp
  show ?thesis unfolding class_members [OF members] by (simp add: is_upper_def)
qed

lemma is_digit_members [code]: "is_digit c = (c \<in> set ''0123456789'')"
proof -
  have members: "code ` set ''0123456789'' = {48..57}" by code_simp
  show ?thesis unfolding class_members [OF members] by (simp add: is_digit_def)
qed

lemma is_space_members [code]: "is_space c = (c \<in> set [CHR 0x09, CHR 0x0A, CHR 0x0B, CHR 0x0C, CHR 0x0D, CHR 0x1C, CHR 0x1D, CHR 0x1E, CHR 0x1F, CHR 0x20, CHR 0x85, CHR 0xA0])"
proof -
  have members: "code ` set [CHR 0x09, CHR 0x0A, CHR 0x0B, CHR 0x0C, CHR 0x0D, CHR 0x1C, CHR 0x1D, CHR 0x1E, CHR 0x1F, CHR 0x20, CHR 0x85, CHR 0xA0] = {9..13} \<union> {28..32} \<union> {133, 160}" by code_simp
  show ?thesis unfolding class_members [OF members] by (auto simp: is_space_def Let_def)
qed

definition utf8_length :: "str \<Rightarrow> nat" where
  "utf8_length s = sum_list (map (\<lambda>c. if code c < 128 then 1 else 2) s)"

definition py_strip :: "str \<Rightarrow> str" where
  "py_strip s = rev (dropWhile is_space (rev (dropWhile is_space s)))"

lemma utf8_length_ge: "length s \<le> utf8_length s"
  by (induction s) (auto simp: utf8_length_def)

lemma py_strip_Nil [simp]: "py_strip [] = []"
  by (simp add: py_strip_def)

text \<open>The identifier shape \<open>[a-z0-9][a-z0-9._-]{0,127}\<close>, matched against the whole string. It is
  \<open>ID_RE\<close> of the executor and \<open>TOKEN_RE\<close> of the harness.\<close>

definition slug_head :: "char \<Rightarrow> bool" where
  "slug_head c = (is_lower c \<or> is_digit c)"

definition slug_tail :: "char \<Rightarrow> bool" where
  "slug_tail c = (is_lower c \<or> is_digit c \<or> c = CHR ''.'' \<or> c = CHR ''_'' \<or> c = CHR ''-'')"

fun slug_ok :: "str \<Rightarrow> bool" where
  "slug_ok [] = False"
| "slug_ok (c # cs) = (slug_head c \<and> list_all slug_tail cs \<and> length cs \<le> 127)"

lemma slug_ok_nonempty: "slug_ok s \<Longrightarrow> s \<noteq> []"
  by (cases s) auto

lemma slug_ok_length: "slug_ok s \<Longrightarrow> length s \<le> 128"
  by (cases s) auto

lemma slug_tail_head: "slug_head c \<Longrightarrow> slug_tail c"
  by (auto simp: slug_head_def slug_tail_def)

lemma slug_ok_chars: "slug_ok s \<Longrightarrow> c \<in> set s \<Longrightarrow> slug_tail c"
  by (cases s) (auto simp: list_all_iff slug_tail_head)

text \<open>In particular an identifier has no path separator, so it names one directory entry.\<close>

lemma slug_ok_no_slash: "slug_ok s \<Longrightarrow> CHR ''/'' \<notin> set s"
  using slug_ok_chars by (fastforce simp: slug_tail_def is_lower_def is_digit_def code_def)

fun join :: "str \<Rightarrow> str list \<Rightarrow> str" where
  "join sep [] = []"
| "join sep [x] = x"
| "join sep (x # y # zs) = x @ sep @ join sep (y # zs)"

subsection \<open>Rows of a table\<close>

text \<open>A table is the list of its rows in insertion order. \<open>find_row\<close> is the first row that
  satisfies the condition of a query, \<open>update_rows\<close> an UPDATE statement.\<close>

definition find_row :: "('r \<Rightarrow> bool) \<Rightarrow> 'r list \<Rightarrow> 'r option" where
  "find_row P rows = List.find P rows"

definition update_rows :: "('r \<Rightarrow> bool) \<Rightarrow> ('r \<Rightarrow> 'r) \<Rightarrow> 'r list \<Rightarrow> 'r list" where
  "update_rows P f rows = map (\<lambda>r. if P r then f r else r) rows"

definition delete_rows :: "('r \<Rightarrow> bool) \<Rightarrow> 'r list \<Rightarrow> 'r list" where
  "delete_rows P rows = filter (\<lambda>r. \<not> P r) rows"

lemma find_row_Some: "find_row P rows = Some r \<Longrightarrow> r \<in> set rows \<and> P r"
  by (auto simp: find_row_def find_Some_iff)

lemma find_row_None: "find_row P rows = None \<longleftrightarrow> (\<forall>r \<in> set rows. \<not> P r)"
  by (auto simp: find_row_def find_None_iff)

lemma find_row_Nil [simp]: "find_row P [] = None"
  and find_row_Cons [simp]: "find_row P (r # rs) = (if P r then Some r else find_row P rs)"
  by (simp_all add: find_row_def)

lemma find_row_append: "find_row P (xs @ ys) = (case find_row P xs of Some r \<Rightarrow> Some r | None \<Rightarrow> find_row P ys)"
  by (induction xs) auto

lemma update_rows_simps [simp]:
  "update_rows P f [] = []"
  "update_rows P f (r # rs) = (if P r then f r else r) # update_rows P f rs"
  by (simp_all add: update_rows_def)

lemma length_update_rows [simp]: "length (update_rows P f rows) = length rows"
  by (simp add: update_rows_def)

lemma set_update_rows: "x \<in> set (update_rows P f rows) \<longleftrightarrow> (\<exists>r \<in> set rows. x = (if P r then f r else r))"
  by (auto simp: update_rows_def)

lemma ball_update_rows:
  assumes "\<And>r. r \<in> set rows \<Longrightarrow> C r \<Longrightarrow> Q (f r)" and "\<And>r. r \<in> set rows \<Longrightarrow> \<not> C r \<Longrightarrow> Q r"
  shows "\<forall>q \<in> set (update_rows C f rows). Q q"
  using assms by (auto simp: set_update_rows)

lemma map_update_rows_id: "(\<And>r. P r \<Longrightarrow> g (f r) = g r) \<Longrightarrow> map g (update_rows P f rows) = map g rows"
  by (induction rows) auto

lemma delete_rows_simps [simp]:
  "delete_rows P [] = []"
  "delete_rows P (r # rs) = (if P r then delete_rows P rs else r # delete_rows P rs)"
  by (simp_all add: delete_rows_def)

lemma set_delete_rows [simp]: "set (delete_rows P rows) = {r \<in> set rows. \<not> P r}"
  by (auto simp: delete_rows_def)

lemma distinct_map_delete_rows: "distinct (map g rows) \<Longrightarrow> distinct (map g (delete_rows P rows))"
  by (induction rows) (auto simp: delete_rows_def)

lemma distinct_map_key:
  "distinct (map g rows) \<Longrightarrow> r \<in> set rows \<Longrightarrow> r' \<in> set rows \<Longrightarrow> g r = g r' \<Longrightarrow> r = r'"
  by (metis distinct_map inj_onD)

text \<open>Among the rows that satisfy \<open>P\<close>, the column \<open>k\<close> is a key: two of them that agree on it are
  one row, by the row identifier \<open>i\<close>. This is a (partial) UNIQUE index.\<close>

definition key_unique :: "('r \<Rightarrow> bool) \<Rightarrow> ('r \<Rightarrow> 'k) \<Rightarrow> ('r \<Rightarrow> 'i) \<Rightarrow> 'r list \<Rightarrow> bool" where
  "key_unique P k i rows =
     (\<forall>r \<in> set rows. \<forall>q \<in> set rows. P r \<and> P q \<and> k r = k q \<longrightarrow> i r = i q)"

lemma key_uniqueD:
  "key_unique P k i rows \<Longrightarrow> r \<in> set rows \<Longrightarrow> q \<in> set rows \<Longrightarrow> P r \<Longrightarrow> P q \<Longrightarrow> k r = k q \<Longrightarrow> i r = i q"
  unfolding key_unique_def by blast

lemma key_unique_Nil [simp]: "key_unique P k i []"
  by (simp add: key_unique_def)

lemma key_unique_map:
  assumes "key_unique P k i rows" and "\<And>r. r \<in> set rows \<Longrightarrow> P (f r) \<Longrightarrow> P r \<and> k (f r) = k r"
    and "\<And>r. r \<in> set rows \<Longrightarrow> i (f r) = i r"
  shows "key_unique P k i (map f rows)"
  unfolding key_unique_def
proof (intro ballI impI)
  fix r q assume "r \<in> set (map f rows)" "q \<in> set (map f rows)" and h: "P r \<and> P q \<and> k r = k q"
  then obtain r' q' where rq: "r' \<in> set rows" "r = f r'" "q' \<in> set rows" "q = f q'" by auto
  with h assms(2) have "P r'" "k (f r') = k r'" "P q'" "k (f q') = k q'" by auto
  with rq h have "i r' = i q'" using key_uniqueD [OF assms(1), of r' q'] by simp
  with rq assms(3) show "i r = i q" by simp
qed

lemma key_unique_append:
  assumes "key_unique P k i rows" and "P r \<Longrightarrow> \<forall>q \<in> set rows. P q \<longrightarrow> k q \<noteq> k r"
  shows "key_unique P k i (rows @ [r])"
  unfolding key_unique_def
proof (intro ballI impI)
  fix a b assume "a \<in> set (rows @ [r])" "b \<in> set (rows @ [r])" and h: "P a \<and> P b \<and> k a = k b"
  then consider "a \<in> set rows" "b \<in> set rows" | "a = r" "b = r" | "a = r" "b \<in> set rows" | "a \<in> set rows" "b = r"
    by auto
  then show "i a = i b"
    using h assms(2) key_uniqueD [OF assms(1), of a b] by cases auto
qed

lemma key_unique_subset: "key_unique P k i rows \<Longrightarrow> set rows' \<subseteq> set rows \<Longrightarrow> key_unique P k i rows'"
  unfolding key_unique_def by blast

lemma key_unique_update:
  assumes "key_unique P k i rows" and "\<And>r. r \<in> set rows \<Longrightarrow> C r \<Longrightarrow> P (f r) \<Longrightarrow> P r \<and> k (f r) = k r"
    and "\<And>r. r \<in> set rows \<Longrightarrow> C r \<Longrightarrow> i (f r) = i r"
  shows "key_unique P k i (update_rows C f rows)"
  unfolding update_rows_def using assms by (intro key_unique_map) auto

text \<open>Every row of one table has a successor in the other.\<close>

definition rows_le :: "('r \<Rightarrow> 'r \<Rightarrow> bool) \<Rightarrow> 'r list \<Rightarrow> 'r list \<Rightarrow> bool" where
  "rows_le R xs ys = (\<forall>x \<in> set xs. \<exists>y \<in> set ys. R x y)"

lemma rows_le_refl: "(\<And>x. R x x) \<Longrightarrow> rows_le R xs xs"
  by (auto simp: rows_le_def)

lemma rows_le_trans:
  "(\<And>x y z. R x y \<Longrightarrow> R y z \<Longrightarrow> R x z) \<Longrightarrow> rows_le R xs ys \<Longrightarrow> rows_le R ys zs \<Longrightarrow> rows_le R xs zs"
  unfolding rows_le_def by blast

lemma rows_le_append: "(\<And>x. R x x) \<Longrightarrow> rows_le R xs (xs @ ys)"
  by (auto simp: rows_le_def)

lemma rows_le_map: "(\<And>x. x \<in> set xs \<Longrightarrow> R x (f x)) \<Longrightarrow> rows_le R xs (map f xs)"
  by (auto simp: rows_le_def)

lemma rows_le_update:
  "(\<And>x. R x x) \<Longrightarrow> (\<And>x. x \<in> set xs \<Longrightarrow> C x \<Longrightarrow> R x (f x)) \<Longrightarrow> rows_le R xs (update_rows C f xs)"
  unfolding update_rows_def by (rule rows_le_map) simp

end
