(* ===== verification/JsonText.thy ===== *)
theory JsonText
  imports Prelude "HOL-Library.Multiset"
begin

text \<open>
  The text forms that Python gives to values: \<open>int()\<close> and \<open>str()\<close> of integers, \<open>repr\<close> of strings
  and of lists of strings (as f-strings print them), and \<open>json.dumps\<close> with sorted keys and compact
  separators, the canonical form that the code digests. The text of a float is a parameter.
\<close>

subsection \<open>Integers\<close>

definition digit_char :: "nat \<Rightarrow> char" where
  "digit_char n = char_of (48 + n)"

fun nat_str :: "nat \<Rightarrow> str" where
  "nat_str n = (if n < 10 then [digit_char n] else nat_str (n div 10) @ [digit_char (n mod 10)])"

declare nat_str.simps [simp del]

definition int_str :: "int \<Rightarrow> str" where
  "int_str i = (if i < 0 then CHR ''-'' # nat_str (nat (- i)) else nat_str (nat i))"

fun digits_value :: "nat \<Rightarrow> str \<Rightarrow> nat option" where
  "digits_value acc [] = Some acc"
| "digits_value acc (c # cs) = (if is_digit c then digits_value (10 * acc + (code c - 48)) cs else None)"

text \<open>Single underscores may stand between digits.\<close>

fun drop_underscores :: "str \<Rightarrow> str option" where
  "drop_underscores [] = Some []"
| "drop_underscores [c] = (if c = CHR ''_'' then None else Some [c])"
| "drop_underscores (a # b # cs) =
     (if a = CHR ''_'' then None
      else if b = CHR ''_''
      then (case cs of [] \<Rightarrow> None | _ \<Rightarrow> map_option ((#) a) (drop_underscores cs))
      else map_option ((#) a) (drop_underscores (b # cs)))"

definition parse_digits :: "str \<Rightarrow> nat option" where
  "parse_digits s = (if s = [] then None else Option.bind (drop_underscores s) (digits_value 0))"

definition py_int_str :: "str \<Rightarrow> int option" where
  "py_int_str s =
     (case py_strip s of
        [] \<Rightarrow> None
      | c # cs \<Rightarrow>
          if c = CHR ''-'' then map_option (\<lambda>n. - int n) (parse_digits cs)
          else if c = CHR ''+'' then map_option int (parse_digits cs)
          else map_option int (parse_digits (c # cs)))"

text \<open>\<open>int(v)\<close> of a JSON value; None is the TypeError or ValueError.\<close>

fun py_int :: "json \<Rightarrow> int option" where
  "py_int (JInt i) = Some i"
| "py_int (JBool b) = Some (if b then 1 else 0)"
| "py_int (JFloat r) = Some (if 0 \<le> r then \<lfloor>r\<rfloor> else - \<lfloor>- r\<rfloor>)"
| "py_int (JStr s) = py_int_str s"
| "py_int _ = None"

lemma code_digit_char: "n < 10 \<Longrightarrow> code (digit_char n) = 48 + n"
  by (simp add: code_def digit_char_def of_char_of)

lemma digit_char_digit: "n < 10 \<Longrightarrow> is_digit (digit_char n)"
  by (simp add: is_digit_def code_digit_char)

lemma digits_value_append:
  "digits_value a (xs @ ys) = Option.bind (digits_value a xs) (\<lambda>b. digits_value b ys)"
  by (induction xs arbitrary: a) auto

lemma digits_value_nat_str: "digits_value 0 (nat_str n) = Some n"
proof (induction n rule: nat_str.induct)
  case (1 n)
  show ?case
  proof (cases "n < 10")
    case True
    then show ?thesis by (subst nat_str.simps) (simp add: digit_char_digit code_digit_char)
  next
    case False
    then show ?thesis using 1 [OF False]
      by (subst nat_str.simps) (simp add: digits_value_append digit_char_digit code_digit_char)
  qed
qed

lemma nat_str_digits: "list_all is_digit (nat_str n) \<and> nat_str n \<noteq> []"
proof (induction n rule: nat_str.induct)
  case (1 n)
  then show ?case
    by (cases "n < 10"; subst nat_str.simps; subst nat_str.simps) (simp_all add: digit_char_digit)
qed

lemma digit_not_special: "is_digit c \<Longrightarrow> c \<noteq> CHR ''_'' \<and> c \<noteq> CHR ''-'' \<and> c \<noteq> CHR ''+'' \<and> \<not> is_space c"
  by (auto simp: is_digit_def is_space_def code_def Let_def)

lemma drop_underscores_digits: "list_all is_digit s \<Longrightarrow> drop_underscores s = Some s"
  by (induction s rule: drop_underscores.induct) (auto dest: digit_not_special)

lemma dropWhile_none: "(\<And>x. x \<in> set xs \<Longrightarrow> \<not> P x) \<Longrightarrow> dropWhile P xs = xs"
  by (cases xs) auto

lemma py_strip_id: "(\<And>c. c \<in> set s \<Longrightarrow> \<not> is_space c) \<Longrightarrow> py_strip s = s"
  using dropWhile_none [of s is_space] dropWhile_none [of "rev s" is_space] by (simp add: py_strip_def)

lemma parse_nat_str: "parse_digits (nat_str n) = Some n"
  using nat_str_digits [of n] by (simp add: parse_digits_def drop_underscores_digits digits_value_nat_str)

lemma int_str_no_space: "c \<in> set (int_str i) \<Longrightarrow> \<not> is_space c"
  using nat_str_digits digit_not_special
  by (auto simp: int_str_def list_all_iff is_space_def code_def Let_def split: if_splits)

lemma py_int_int_str: "py_int_str (int_str i) = Some i"
proof (cases "i < 0")
  case True
  then have "py_strip (int_str i) = CHR ''-'' # nat_str (nat (- i))"
    by (subst py_strip_id) (auto dest: int_str_no_space, simp add: int_str_def)
  with True show ?thesis by (simp add: py_int_str_def parse_nat_str)
next
  case False
  have strip: "py_strip (int_str i) = nat_str (nat i)"
    using False by (subst py_strip_id) (auto dest: int_str_no_space, simp add: int_str_def)
  obtain c cs where c: "nat_str (nat i) = c # cs" using nat_str_digits [of "nat i"] by (cases "nat_str (nat i)") auto
  with nat_str_digits [of "nat i"] have "is_digit c" by simp
  with c False strip parse_nat_str [of "nat i"] digit_not_special [of c] show ?thesis by (simp add: py_int_str_def)
qed

subsection \<open>Representations\<close>

definition hex_digit :: "nat \<Rightarrow> char" where
  "hex_digit n = (if n < 10 then char_of (48 + n) else char_of (87 + n))"

definition hex2 :: "char \<Rightarrow> str" where
  "hex2 c = [hex_digit (code c div 16), hex_digit (code c mod 16)]"

definition is_printable :: "char \<Rightarrow> bool" where
  "is_printable c = (let n = code c in (32 \<le> n \<and> n \<le> 126) \<or> (161 \<le> n \<and> n \<noteq> 173))"

definition repr_char :: "char \<Rightarrow> char \<Rightarrow> str" where
  "repr_char quote c =
     (if c = quote \<or> c = CHR 0x5C then [CHR 0x5C, c]
      else if code c = 10 then [CHR 0x5C, CHR ''n'']
      else if code c = 13 then [CHR 0x5C, CHR ''r'']
      else if code c = 9 then [CHR 0x5C, CHR ''t'']
      else if is_printable c then [c]
      else CHR 0x5C # CHR ''x'' # hex2 c)"

definition py_repr :: "str \<Rightarrow> str" where
  "py_repr s =
     (let q = (if CHR 0x27 \<in> set s \<and> CHR 0x22 \<notin> set s then CHR 0x22 else CHR 0x27)
      in q # concat (map (repr_char q) s) @ [q])"

definition py_repr_list :: "str list \<Rightarrow> str" where
  "py_repr_list xs = ''['' @ join '', '' (map py_repr xs) @ '']''"

subsection \<open>Canonical JSON\<close>

definition json_escape :: "bool \<Rightarrow> char \<Rightarrow> str" where
  "json_escape ascii c =
     (if c = CHR 0x22 \<or> c = CHR 0x5C then [CHR 0x5C, c]
      else if code c = 10 then [CHR 0x5C, CHR ''n'']
      else if code c = 13 then [CHR 0x5C, CHR ''r'']
      else if code c = 9 then [CHR 0x5C, CHR ''t'']
      else if code c = 12 then [CHR 0x5C, CHR ''f'']
      else if code c = 8 then [CHR 0x5C, CHR ''b'']
      else if code c < 32 \<or> (ascii \<and> 126 < code c) then CHR 0x5C # ''u00'' @ hex2 c
      else [c])"

definition json_string :: "bool \<Rightarrow> str \<Rightarrow> str" where
  "json_string ascii s = CHR 0x22 # concat (map (json_escape ascii) s) @ [CHR 0x22]"

text \<open>\<open>json.dumps(v, sort_keys=True, separators=(",", ":"), ensure_ascii=ascii)\<close>; \<open>fr\<close> prints a
  float.\<close>

fun canonical :: "bool \<Rightarrow> (real \<Rightarrow> str) \<Rightarrow> json \<Rightarrow> str" where
  "canonical ascii fr JNull = ''null''"
| "canonical ascii fr (JBool b) = (if b then ''true'' else ''false'')"
| "canonical ascii fr (JInt i) = int_str i"
| "canonical ascii fr (JFloat r) = fr r"
| "canonical ascii fr (JStr s) = json_string ascii s"
| "canonical ascii fr (JList xs) = ''['' @ join '','' (map (canonical ascii fr) xs) @ '']''"
| "canonical ascii fr (JObj kvs) =
     CHR 0x7B # join '','' (map (\<lambda>(k, t). json_string ascii k @ '':'' @ t)
       (sort_key fst (map (\<lambda>(k, v). (k, canonical ascii fr v)) kvs))) @ [CHR 0x7D]"

text \<open>The order of the keys of an object does not show in the canonical text.\<close>

lemma sort_key_replicate: "sort_key f (replicate n k) = replicate n k"
proof (induction n)
  case (Suc n)
  then show ?case by (cases n) simp_all
qed simp

lemma sort_key_permuted:
  assumes "distinct (map fst xs)" "mset xs = mset ys"
  shows "sort_key fst xs = sort_key (fst :: ('k :: linorder) \<times> 'v \<Rightarrow> 'k) ys"
proof (rule properties_for_sort_key)
  show "mset (sort_key fst ys) = mset xs" using assms(2) by simp
  show "sorted (map fst (sort_key fst ys))" by simp
  fix k assume "k \<in> set (sort_key fst ys)"
  have "inj_on fst (set ys)" using assms by (metis distinct_map set_mset_mset)
  then have one: "filter (\<lambda>x. fst k = fst x) ys = filter (\<lambda>x. x = k) ys"
    using \<open>k \<in> set (sort_key fst ys)\<close> by (intro filter_cong) (auto simp: inj_on_def)
  have "inj_on fst (set xs)" using assms by (simp add: distinct_map)
  moreover have "k \<in> set xs" using \<open>k \<in> set (sort_key fst ys)\<close> assms(2) by (metis set_mset_mset set_sort)
  ultimately have "filter (\<lambda>x. fst k = fst x) xs = filter (\<lambda>x. x = k) xs"
    by (intro filter_cong) (auto simp: inj_on_def)
  moreover have "filter (\<lambda>x. x = k) zs = replicate (count (mset zs) k) k" for zs :: "('k \<times> 'v) list"
    by (induction zs) auto
  ultimately show "filter (\<lambda>x. fst k = fst x) (sort_key fst ys) = filter (\<lambda>x. fst k = fst x) xs"
    using one assms(2) by (simp add: filter_sort sort_key_replicate)
qed

lemma canonical_permuted:
  assumes "distinct (map fst kvs)" "mset kvs = mset kvs'"
  shows "canonical ascii fr (JObj kvs) = canonical ascii fr (JObj kvs')"
proof -
  let ?g = "\<lambda>(k, v). (k, canonical ascii fr v)"
  have "sort_key fst (map ?g kvs) = sort_key fst (map ?g kvs')"
    by (rule sort_key_permuted) (use assms in \<open>simp_all add: o_def case_prod_beta'\<close>)
  then show ?thesis by simp
qed

subsection \<open>String literals are uniquely readable\<close>

lemma code_inj: "code c = n \<Longrightarrow> code d = n \<Longrightarrow> c = d"
  by (auto simp: code_def)

lemma hex_digit_inj: "a < 16 \<Longrightarrow> b < 16 \<Longrightarrow> hex_digit a = hex_digit b \<Longrightarrow> a = b"
proof -
  assume "a < 16" "b < 16" "hex_digit a = hex_digit b"
  moreover from this have "code (hex_digit a) = code (hex_digit b)" by simp
  ultimately show "a = b" by (auto simp: hex_digit_def code_def split: if_splits)
qed

lemma hex2_inj: "hex2 c = hex2 d \<longleftrightarrow> c = d"
proof
  assume h: "hex2 c = hex2 d"
  have "code c < 256" "code d < 256" by (simp_all add: code_def)
  with h have "code c div 16 = code d div 16" "code c mod 16 = code d mod 16"
    by (auto simp: hex2_def intro!: hex_digit_inj)
  then have "code c = code d" by (metis div_mult_mod_eq)
  then show "c = d" by (auto intro: code_inj)
qed simp

lemma hex2_length: "length (hex2 c) = 2"
  by (simp add: hex2_def)

text \<open>The escapes form a prefix code, and none starts with the closing quote.\<close>

lemma json_escape_code:
  "json_escape ascii c @ x = json_escape ascii d @ y \<Longrightarrow> c = d"
  unfolding json_escape_def
  by (auto simp: hex2_inj append_eq_append_conv hex2_length intro: code_inj split: if_splits)

lemma json_escape_quote: "json_escape ascii c @ x \<noteq> CHR 0x22 # y"
  by (auto simp: json_escape_def)

lemma json_body_unique:
  "concat (map (json_escape ascii) s) @ CHR 0x22 # r = concat (map (json_escape ascii) t) @ CHR 0x22 # q \<Longrightarrow> s = t \<and> r = q"
proof (induction s arbitrary: t)
  case Nil
  then show ?case using json_escape_quote [of ascii] by (cases t) (auto dest: sym)
next
  case (Cons c cs)
  show ?case
  proof (cases t)
    case Nil
    with Cons.prems json_escape_quote [of ascii c] show ?thesis by simp
  next
    case (Cons d ds)
    with Cons.prems have "json_escape ascii c @ concat (map (json_escape ascii) cs) @ CHR 0x22 # r
        = json_escape ascii d @ concat (map (json_escape ascii) ds) @ CHR 0x22 # q" by simp
    with json_escape_code have "c = d" by blast
    with Cons Cons.prems Cons.IH [of ds] show ?thesis by simp
  qed
qed

lemma json_string_unique: "json_string ascii s @ r = json_string ascii t @ q \<longleftrightarrow> s = t \<and> r = q"
  using json_body_unique [of ascii s r t q] by (auto simp: json_string_def)

lemma json_string_inj: "json_string ascii s = json_string ascii t \<longleftrightarrow> s = t"
  using json_string_unique [of ascii s "[]" t "[]"] by simp

end
