(* ===== verification/HarnessStore.thy ===== *)
theory HarnessStore
  imports JsonText
begin

text \<open>
  The durable state of the conversation harness: the exceptions of \<open>harness/errors.py\<close>, the
  validators and token records of \<open>harness/model.py\<close>, and the tables of
  \<open>harness/sqlite_store.py\<close> with their constraints. A table is a list of row records in insertion
  order; a write that a PRIMARY KEY, UNIQUE, FOREIGN KEY or NOT NULL constraint refuses is the
  exception \<open>IntegrityError\<close>. Times are the real numbers of the clock the service is given.
\<close>

subsection \<open>Exceptions and validators\<close>

datatype herror =
    ValidationError str
  | NotFound str
  | Conflict str
  | IntegrityError

datatype lifecycle = Active | Waiting | Blocked | Completed | Failed | Cancelled

fun lifecycle_of :: "str \<Rightarrow> lifecycle option" where
  "lifecycle_of s =
     (if s = ''active'' then Some Active
      else if s = ''waiting'' then Some Waiting
      else if s = ''blocked'' then Some Blocked
      else if s = ''completed'' then Some Completed
      else if s = ''failed'' then Some Failed
      else if s = ''cancelled'' then Some Cancelled
      else None)"

definition validate_token :: "json \<Rightarrow> str \<Rightarrow> herror + str" where
  "validate_token value field =
     (case value of
        JStr s \<Rightarrow> if slug_ok s then Inr s else Inl (ValidationError (''invalid '' @ field))
      | _ \<Rightarrow> Inl (ValidationError (''invalid '' @ field)))"

definition validate_lifecycle :: "str \<Rightarrow> herror + lifecycle" where
  "validate_lifecycle value =
     (case lifecycle_of value of
        None \<Rightarrow> Inl (ValidationError ''invalid lifecycle'')
      | Some l \<Rightarrow> Inr l)"

definition validate_ttl :: "json \<Rightarrow> real \<Rightarrow> real \<Rightarrow> herror + real" where
  "validate_ttl value minimum maximum =
     (case (case value of JInt i \<Rightarrow> Some (of_int i) | JFloat r \<Rightarrow> Some r | _ \<Rightarrow> None) of
        None \<Rightarrow> Inl (ValidationError ''invalid ttl'')
      | Some ttl \<Rightarrow>
          if \<not> (minimum \<le> ttl \<and> ttl \<le> maximum) then Inl (ValidationError ''ttl out of range'')
          else Inr ttl)"

record lease_token =
  lt_job_id :: str
  lt_lease_id :: str
  lt_holder_id :: str
  lt_generation :: int
  lt_expires_at :: real

record handoff_token =
  ht_job_id :: str
  ht_handoff_id :: str
  ht_nonce :: str
  ht_expires_at :: real

subsection \<open>Rows\<close>

text \<open>The nullable text columns of \<open>jobs\<close> are one map from the column's name.\<close>

record job_row =
  j_id :: str
  j_version :: int
  j_generation :: int
  j_title :: str
  j_goal :: str
  j_lifecycle :: lifecycle
  j_cols :: "str \<Rightarrow> str option"
  j_created :: real
  j_updated :: real

record lease_row =
  l_job :: str
  l_id :: str
  l_holder :: str
  l_generation :: int
  l_acquired :: real
  l_expires :: real
  l_heartbeat :: real

datatype hstate = HPending | HStarting | HClaimed | HExpired

record handoff_row =
  h_id :: str
  h_job :: str
  h_hash :: str
  h_secret :: "str option"
  h_state :: hstate
  h_created :: real
  h_expires :: real
  h_claimed_at :: "real option"
  h_claimed_by :: "str option"
  h_starting_by :: "str option"
  h_starting_at :: "real option"
  h_starting_expires :: "real option"

datatype opstatus = Started | OpCompleted | OpFailed | Indeterminate

record op_row =
  o_id :: str
  o_job :: str
  o_key :: str
  o_kind :: str
  o_status :: opstatus
  o_target :: "str option"
  o_effect :: "str option"
  o_result :: "json option"
  o_created :: real
  o_finished :: "real option"

record pairing_row =
  p_hash :: str
  p_created :: real
  p_expires :: real
  p_used :: "real option"

record browser_row =
  b_hash :: str
  b_client :: str
  b_created :: real
  b_last_used :: real
  b_revoked :: "real option"

record event_row =
  e_job :: str
  e_type :: str
  e_payload :: json
  e_created :: real

datatype rqstatus = RqStarted | RqCompleted | RqFailed

record request_row =
  r_id :: str
  r_fingerprint :: str
  r_action :: str
  r_status :: rqstatus
  r_response :: "json option"
  r_created :: real
  r_finished :: "real option"

record db =
  jobs :: "job_row list"
  leases :: "lease_row list"
  handoffs :: "handoff_row list"
  operations :: "op_row list"
  pairing_codes :: "pairing_row list"
  browser_tokens :: "browser_row list"
  protocol_requests :: "request_row list"
  events :: "event_row list"

definition empty_db :: db where
  "empty_db = \<lparr>jobs = [], leases = [], handoffs = [], operations = [], pairing_codes = [],
     browser_tokens = [], protocol_requests = [], events = []\<rparr>"

definition open_state :: "hstate \<Rightarrow> bool" where
  "open_state s = (s = HPending \<or> s = HStarting)"

definition unresolved :: "opstatus \<Rightarrow> bool" where
  "unresolved s = (s = Started \<or> s = Indeterminate)"

subsection \<open>Queries by key\<close>

definition job_of :: "db \<Rightarrow> str \<Rightarrow> job_row option" where
  "job_of d jid = find_row (\<lambda>r. j_id r = jid) (jobs d)"

definition lease_of :: "db \<Rightarrow> str \<Rightarrow> lease_row option" where
  "lease_of d jid = find_row (\<lambda>r. l_job r = jid) (leases d)"

definition open_handoff_of :: "db \<Rightarrow> str \<Rightarrow> handoff_row option" where
  "open_handoff_of d jid = find_row (\<lambda>r. h_job r = jid \<and> open_state (h_state r)) (handoffs d)"

subsection \<open>Writes under the table constraints\<close>

definition insert_job :: "job_row \<Rightarrow> db \<Rightarrow> herror + db" where
  "insert_job r d =
     (if j_id r \<in> set (map j_id (jobs d)) then Inl (Conflict ''job already exists'')
      else Inr (d\<lparr>jobs := jobs d @ [r]\<rparr>))"

definition insert_lease :: "lease_row \<Rightarrow> db \<Rightarrow> herror + db" where
  "insert_lease r d =
     (if l_job r \<in> set (map l_job (leases d)) \<or> l_id r \<in> set (map l_id (leases d))
         \<or> l_job r \<notin> set (map j_id (jobs d))
      then Inl IntegrityError
      else Inr (d\<lparr>leases := leases d @ [r]\<rparr>))"

definition insert_handoff :: "handoff_row \<Rightarrow> db \<Rightarrow> herror + db" where
  "insert_handoff r d =
     (if h_id r \<in> set (map h_id (handoffs d)) \<or> h_hash r \<in> set (map h_hash (handoffs d))
         \<or> h_job r \<notin> set (map j_id (jobs d))
         \<or> (open_state (h_state r) \<and> open_handoff_of d (h_job r) \<noteq> None)
      then Inl IntegrityError
      else Inr (d\<lparr>handoffs := handoffs d @ [r]\<rparr>))"

definition insert_operation :: "op_row \<Rightarrow> db \<Rightarrow> herror + db" where
  "insert_operation r d =
     (if o_id r \<in> set (map o_id (operations d)) \<or> o_job r \<notin> set (map j_id (jobs d))
         \<or> (\<exists>q \<in> set (operations d). o_job q = o_job r \<and> o_key q = o_key r)
      then Inl IntegrityError
      else Inr (d\<lparr>operations := operations d @ [r]\<rparr>))"

definition insert_browser :: "browser_row \<Rightarrow> db \<Rightarrow> herror + db" where
  "insert_browser r d =
     (if b_hash r \<in> set (map b_hash (browser_tokens d)) then Inl IntegrityError
      else Inr (d\<lparr>browser_tokens := browser_tokens d @ [r]\<rparr>))"

text \<open>The partial index \<open>one_starting_handoff_per_client\<close> refuses a second reservation by the same
  client. The reservation itself is the UPDATE of \<open>reserve_reentry\<close>.\<close>

definition starting_handoff :: "str \<Rightarrow> real \<Rightarrow> real \<Rightarrow> str \<Rightarrow> db \<Rightarrow> herror + db" where
  "starting_handoff client now until hid d =
     (if \<exists>r \<in> set (handoffs d). h_state r = HStarting \<and> h_starting_by r = Some client \<and> h_id r \<noteq> hid
      then Inl IntegrityError
      else Inr (d\<lparr>handoffs := update_rows (\<lambda>r. h_id r = hid \<and> h_state r = HPending)
             (\<lambda>r. r\<lparr>h_state := HStarting, h_starting_by := Some client, h_starting_at := Some now,
                    h_starting_expires := Some until\<rparr>) (handoffs d)\<rparr>))"

text \<open>\<open>SQLiteHarnessStore.transaction\<close>: an exception rolls the whole transaction back.\<close>

definition transaction :: "(db \<Rightarrow> herror + 'a \<times> db) \<Rightarrow> db \<Rightarrow> (herror + 'a) \<times> db" where
  "transaction f d = (case f d of Inl e \<Rightarrow> (Inl e, d) | Inr (x, d') \<Rightarrow> (Inr x, d'))"

lemma transaction_rollback: "transaction f d = (Inl e, d') \<Longrightarrow> d' = d"
  by (auto simp: transaction_def split: sum.splits prod.splits)

lemma transaction_commit: "transaction f d = (Inr x, d') \<longleftrightarrow> f d = Inr (x, d')"
  by (auto simp: transaction_def split: sum.splits prod.splits)

end
