(* ===== verification/HarnessService.thy ===== *)
theory HarnessService
  imports HarnessStore
begin

text \<open>
  The operations of \<open>HarnessService\<close> (\<open>harness/service.py\<close>) over the tables of
  \<open>HarnessStore\<close>. An operation takes its arguments, the clock reading \<open>now\<close>, the
  random identifiers it draws, and the database; it returns an exception or its result with the
  new database. \<open>transaction\<close> gives the committed state: the old one after an exception.
  \<open>sha\<close> is the SHA-256 hex digest of a string.
\<close>

subsection \<open>Private helpers\<close>

definition log_event :: "str \<Rightarrow> str \<Rightarrow> json \<Rightarrow> real \<Rightarrow> db \<Rightarrow> db" where
  "log_event jid typ payload now d =
     d\<lparr>events := events d @ [\<lparr>e_job = jid, e_type = typ, e_payload = payload, e_created = now\<rparr>]\<rparr>"

definition get_job_row :: "db \<Rightarrow> str \<Rightarrow> herror + job_row" where
  "get_job_row d jid =
     (case job_of d jid of None \<Rightarrow> Inl (NotFound ''job not found'') | Some j \<Rightarrow> Inr j)"

fun terminal :: "lifecycle \<Rightarrow> bool" where
  "terminal Completed = True"
| "terminal Failed = True"
| "terminal Cancelled = True"
| "terminal _ = False"

fun allowed_transition :: "lifecycle \<Rightarrow> lifecycle \<Rightarrow> bool" where
  "allowed_transition Active t = (t \<in> {Waiting, Blocked, Completed, Failed, Cancelled})"
| "allowed_transition Waiting t = (t \<in> {Active, Blocked, Completed, Failed, Cancelled})"
| "allowed_transition Blocked t = (t \<in> {Active, Failed, Cancelled})"
| "allowed_transition _ t = False"

definition require_nonterminal :: "job_row \<Rightarrow> herror + unit" where
  "require_nonterminal j = guardE (\<not> terminal (j_lifecycle j)) (Conflict ''job lifecycle is terminal'')"

definition validate_transition :: "lifecycle \<Rightarrow> lifecycle \<Rightarrow> herror + unit" where
  "validate_transition current target =
     (if current = target then Inr ()
      else if terminal current \<or> \<not> allowed_transition current target
      then Inl (Conflict ''illegal lifecycle transition'')
      else Inr ())"

fun first_by :: "('r \<Rightarrow> real) \<Rightarrow> 'r list \<Rightarrow> 'r option" where
  "first_by f [] = None"
| "first_by f (r # rs) =
     (case first_by f rs of None \<Rightarrow> Some r | Some q \<Rightarrow> if f r \<le> f q then Some r else Some q)"

definition require_no_unresolved :: "db \<Rightarrow> str \<Rightarrow> herror + unit" where
  "require_no_unresolved d jid =
     (case first_by o_created (filter (\<lambda>r. o_job r = jid \<and> unresolved (o_status r)) (operations d)) of
        None \<Rightarrow> Inr ()
      | Some r \<Rightarrow> Inl (Conflict (''job has unresolved operation: '' @ o_id r @ '' ('' @
          (if o_status r = Started then ''started'' else ''indeterminate'') @ '')'')))"

subsection \<open>Expiry\<close>

text \<open>\<open>_expire\<close> in its three statements: drop the job's lease when its time has passed, expire its
  open handoffs, and return a reservation whose start window has passed to the pending state.\<close>

definition close_handoff :: "hstate \<Rightarrow> handoff_row \<Rightarrow> handoff_row" where
  "close_handoff s r = r\<lparr>h_state := s, h_secret := None, h_starting_by := None,
     h_starting_at := None, h_starting_expires := None\<rparr>"

definition reopen_handoff :: "handoff_row \<Rightarrow> handoff_row" where
  "reopen_handoff r = r\<lparr>h_state := HPending, h_starting_by := None,
     h_starting_at := None, h_starting_expires := None\<rparr>"

definition expire_lease :: "str \<Rightarrow> real \<Rightarrow> db \<Rightarrow> db" where
  "expire_lease jid now d =
     (case lease_of d jid of
        None \<Rightarrow> d
      | Some l \<Rightarrow>
          if l_expires l \<le> now
          then log_event jid ''lease_expired''
                 (JObj [(''lease_id'', JStr (l_id l)), (''generation'', JInt (l_generation l))]) now
                 (d\<lparr>leases := delete_rows (\<lambda>r. l_job r = jid) (leases d)\<rparr>)
          else d)"

definition lapsed_handoff :: "str \<Rightarrow> real \<Rightarrow> handoff_row \<Rightarrow> bool" where
  "lapsed_handoff jid now r = (h_job r = jid \<and> open_state (h_state r) \<and> h_expires r \<le> now)"

definition stale_start :: "str \<Rightarrow> real \<Rightarrow> handoff_row \<Rightarrow> bool" where
  "stale_start jid now r =
     (h_job r = jid \<and> h_state r = HStarting \<and> h_expires r > now
      \<and> (case h_starting_expires r of None \<Rightarrow> False | Some t \<Rightarrow> t \<le> now))"

definition opt_str :: "str option \<Rightarrow> json" where
  "opt_str v = (case v of None \<Rightarrow> JNull | Some s \<Rightarrow> JStr s)"

definition expire_handoffs :: "str \<Rightarrow> real \<Rightarrow> db \<Rightarrow> db" where
  "expire_handoffs jid now d =
     (let gone = filter (lapsed_handoff jid now) (handoffs d)
      in fold (\<lambda>r. log_event jid ''handoff_expired'' (JObj [(''handoff_id'', JStr (h_id r))]) now) gone
           (d\<lparr>handoffs := update_rows (lapsed_handoff jid now) (close_handoff HExpired) (handoffs d)\<rparr>))"

definition expire_starts :: "str \<Rightarrow> real \<Rightarrow> db \<Rightarrow> db" where
  "expire_starts jid now d =
     (let stale = filter (stale_start jid now) (handoffs d)
      in fold (\<lambda>r. log_event jid ''handoff_start_expired''
                     (JObj [(''handoff_id'', JStr (h_id r)), (''starting_by'', opt_str (h_starting_by r))]) now) stale
           (d\<lparr>handoffs := update_rows (stale_start jid now) reopen_handoff (handoffs d)\<rparr>))"

definition expire :: "str \<Rightarrow> real \<Rightarrow> db \<Rightarrow> db" where
  "expire jid now d = expire_starts jid now (expire_handoffs jid now (expire_lease jid now d))"

subsection \<open>Jobs\<close>

definition no_cols :: "str \<Rightarrow> str option" where
  "no_cols = (\<lambda>_. None)"

definition create_job :: "json \<Rightarrow> str \<Rightarrow> str \<Rightarrow> str \<Rightarrow> (str \<Rightarrow> str option) \<Rightarrow> real \<Rightarrow> db \<Rightarrow> herror + job_row \<times> db" where
  "create_job job_id title goal lifecycle cols now d =
     bindE (validate_token job_id ''job_id'') (\<lambda>jid.
     bindE (validate_lifecycle lifecycle) (\<lambda>lc.
     if py_strip title = [] \<or> py_strip goal = [] then Inl (ValidationError ''title and goal are required'')
     else
       bindE (insert_job \<lparr>j_id = jid, j_version = 1, j_generation = 0, j_title = py_strip title,
                 j_goal = py_strip goal, j_lifecycle = lc,
                 j_cols = (\<lambda>c. if c \<in> {''repo_url'', ''repo_path'', ''resource_key'', ''workspace_job_id'',
                                       ''next_action'', ''success_condition''} then cols c else None),
                 j_created = now, j_updated = now\<rparr> d) (\<lambda>d1.
       let d2 = log_event jid ''job_created'' (JObj [(''version'', JInt 1)]) now d1
       in bindE (get_job_row d2 jid) (\<lambda>j. Inr (j, d2)))))"

definition get_job :: "json \<Rightarrow> real \<Rightarrow> db \<Rightarrow> herror + job_row \<times> db" where
  "get_job job_id now d =
     bindE (validate_token job_id ''job_id'') (\<lambda>jid.
     bindE (get_job_row d jid) (\<lambda>_.
     let d1 = expire jid now d
     in bindE (get_job_row d1 jid) (\<lambda>j. Inr (j, d1))))"

definition bump_job :: "str \<Rightarrow> int option \<Rightarrow> real \<Rightarrow> db \<Rightarrow> db" where
  "bump_job jid gen now d =
     d\<lparr>jobs := update_rows (\<lambda>r. j_id r = jid)
        (\<lambda>r. r\<lparr>j_generation := (case gen of None \<Rightarrow> j_generation r | Some g \<Rightarrow> g),
               j_version := j_version r + 1, j_updated := now\<rparr>) (jobs d)\<rparr>"

text \<open>\<open>update_job\<close>: the settable columns, and one column assignment of the UPDATE statement.\<close>

definition update_fields :: "str list" where
  "update_fields = [''title'', ''goal'', ''lifecycle'', ''waiting_on'', ''repo_url'', ''repo_path'',
     ''resource_key'', ''workspace_job_id'', ''checkpoint_ref'', ''checkpoint_sha'', ''next_action'',
     ''success_condition'', ''blocked_on'']"

definition set_column :: "str \<Rightarrow> str option \<Rightarrow> job_row \<Rightarrow> herror + job_row" where
  "set_column name v r =
     (if name = ''title'' then (case v of None \<Rightarrow> Inl IntegrityError | Some s \<Rightarrow> Inr (r\<lparr>j_title := s\<rparr>))
      else if name = ''goal'' then (case v of None \<Rightarrow> Inl IntegrityError | Some s \<Rightarrow> Inr (r\<lparr>j_goal := s\<rparr>))
      else if name = ''lifecycle''
      then (case v of None \<Rightarrow> Inl IntegrityError
            | Some s \<Rightarrow> (case lifecycle_of s of None \<Rightarrow> Inl IntegrityError | Some l \<Rightarrow> Inr (r\<lparr>j_lifecycle := l\<rparr>)))
      else Inr (r\<lparr>j_cols := (j_cols r)(name := v)\<rparr>))"

fun set_columns :: "(str \<times> str option) list \<Rightarrow> job_row \<Rightarrow> herror + job_row" where
  "set_columns [] r = Inr r"
| "set_columns ((name, v) # cs) r = bindE (set_column name v r) (set_columns cs)"

definition require_lease :: "str \<Rightarrow> str \<Rightarrow> int \<Rightarrow> real \<Rightarrow> db \<Rightarrow> herror + lease_row \<times> db" where
  "require_lease jid lease_id generation now d =
     (let d1 = expire jid now d
      in case lease_of d1 jid of
           None \<Rightarrow> Inl (Conflict ''job is not leased'')
         | Some l \<Rightarrow>
             if l_id l \<noteq> lease_id \<or> l_generation l \<noteq> generation then Inl (Conflict ''stale lease token'')
             else Inr (l, d1))"

definition new_lifecycle :: "(str \<times> str option) list \<Rightarrow> herror + lifecycle option" where
  "new_lifecycle changes =
     (case map_of changes ''lifecycle'' of
        None \<Rightarrow> Inr None
      | Some None \<Rightarrow> Inl (ValidationError ''invalid lifecycle'')
      | Some (Some s) \<Rightarrow> bindE (validate_lifecycle s) (\<lambda>l. Inr (Some l)))"

definition update_job ::
  "lease_token \<Rightarrow> int \<Rightarrow> (str \<times> str option) list \<Rightarrow> real \<Rightarrow> db \<Rightarrow> herror + job_row \<times> db" where
  "update_job token expected_version changes now d =
     (if \<exists>c \<in> set (map fst changes). c \<notin> set update_fields
      then Inl (ValidationError (''unsupported job fields: ''
             @ py_repr_list (sort (filter (\<lambda>c. c \<notin> set update_fields) (map fst changes)))))
      else bindE (new_lifecycle changes) (\<lambda>lc.
      if changes = [] then Inl (ValidationError ''no changes'')
      else
        bindE (require_lease (lt_job_id token) (lt_lease_id token) (lt_generation token) now d) (\<lambda>(l, d1).
        bindE (get_job_row d1 (lt_job_id token)) (\<lambda>j.
        bindE (require_nonterminal j) (\<lambda>_.
        bindE (require_no_unresolved d1 (lt_job_id token)) (\<lambda>_.
        if j_version j \<noteq> expected_version then Inl (Conflict ''job version changed'')
        else
          bindE (case lc of None \<Rightarrow> Inr () | Some t \<Rightarrow> validate_transition (j_lifecycle j) t) (\<lambda>_.
          bindE (set_columns changes j) (\<lambda>j'.
          let d2 = d1\<lparr>jobs := update_rows (\<lambda>r. j_id r = lt_job_id token \<and> j_version r = expected_version)
                        (\<lambda>r. j'\<lparr>j_version := j_version r + 1, j_updated := now\<rparr>) (jobs d1)\<rparr>;
              d3 = log_event (lt_job_id token) ''job_updated''
                     (JObj [(''fields'', JList (map JStr (sort (map fst changes)))), (''from_version'', JInt expected_version)]) now d2
          in bindE (get_job_row d3 (lt_job_id token)) (\<lambda>r. Inr (r, d3))))))))))"

subsection \<open>Leases\<close>

definition event_lease :: "str \<Rightarrow> str \<Rightarrow> int \<Rightarrow> json" where
  "event_lease lid holder g = JObj [(''lease_id'', JStr lid), (''holder_id'', JStr holder), (''generation'', JInt g)]"

definition renew_row :: "str \<Rightarrow> real \<Rightarrow> real \<Rightarrow> db \<Rightarrow> db" where
  "renew_row jid expires now d =
     d\<lparr>leases := update_rows (\<lambda>r. l_job r = jid) (\<lambda>r. r\<lparr>l_expires := expires, l_heartbeat := now\<rparr>) (leases d)\<rparr>"

definition new_lease :: "str \<Rightarrow> str \<Rightarrow> str \<Rightarrow> int \<Rightarrow> real \<Rightarrow> real \<Rightarrow> lease_row" where
  "new_lease jid lid holder g now expires = \<lparr>l_job = jid, l_id = lid, l_holder = holder,
     l_generation = g, l_acquired = now, l_expires = expires, l_heartbeat = now\<rparr>"

definition acquire_lease ::
  "json \<Rightarrow> json \<Rightarrow> json \<Rightarrow> str \<Rightarrow> real \<Rightarrow> db \<Rightarrow> herror + lease_token \<times> db" where
  "acquire_lease job_id holder_id ttl fresh now d =
     bindE (validate_token job_id ''job_id'') (\<lambda>jid.
     bindE (validate_token holder_id ''holder_id'') (\<lambda>holder.
     bindE (validate_ttl ttl 1 86400) (\<lambda>t.
     bindE (get_job_row d jid) (\<lambda>job.
     let d1 = expire jid now d in
     bindE (require_nonterminal job) (\<lambda>_.
     if open_handoff_of d1 jid \<noteq> None then Inl (Conflict ''job has an open handoff'')
     else case lease_of d1 jid of
       Some current \<Rightarrow>
         if l_holder current \<noteq> holder then Inl (Conflict ''job already leased'')
         else Inr (\<lparr>lt_job_id = jid, lt_lease_id = l_id current, lt_holder_id = holder,
                     lt_generation = l_generation current, lt_expires_at = now + t\<rparr>,
                   log_event jid ''lease_renewed'' (JObj [(''generation'', JInt (l_generation current))]) now
                     (renew_row jid (now + t) now d1))
     | None \<Rightarrow>
         let g = j_generation job + 1 in
         bindE (insert_lease (new_lease jid fresh holder g now (now + t)) d1) (\<lambda>d2.
         Inr (\<lparr>lt_job_id = jid, lt_lease_id = fresh, lt_holder_id = holder,
                lt_generation = g, lt_expires_at = now + t\<rparr>,
              log_event jid ''lease_acquired'' (event_lease fresh holder g) now
                (bump_job jid (Some g) now d2))))))))"

definition renew_lease :: "lease_token \<Rightarrow> json \<Rightarrow> real \<Rightarrow> db \<Rightarrow> herror + lease_token \<times> db" where
  "renew_lease token ttl now d =
     bindE (validate_ttl ttl 1 86400) (\<lambda>t.
     bindE (require_lease (lt_job_id token) (lt_lease_id token) (lt_generation token) now d) (\<lambda>(row, d1).
     Inr (token\<lparr>lt_holder_id := l_holder row, lt_expires_at := now + t\<rparr>,
          log_event (lt_job_id token) ''lease_renewed'' (JObj [(''generation'', JInt (lt_generation token))]) now
            (renew_row (lt_job_id token) (now + t) now d1))))"

definition drop_lease :: "str \<Rightarrow> db \<Rightarrow> db" where
  "drop_lease jid d = d\<lparr>leases := delete_rows (\<lambda>r. l_job r = jid) (leases d)\<rparr>"

definition release_lease :: "lease_token \<Rightarrow> real \<Rightarrow> db \<Rightarrow> herror + unit \<times> db" where
  "release_lease token now d =
     bindE (get_job_row d (lt_job_id token)) (\<lambda>_.
     bindE (require_lease (lt_job_id token) (lt_lease_id token) (lt_generation token) now d) (\<lambda>(row, d1).
     Inr ((), log_event (lt_job_id token) ''lease_released'' (JObj [(''generation'', JInt (lt_generation token))]) now
            (drop_lease (lt_job_id token) d1))))"

subsection \<open>Handoffs\<close>

definition create_handoff ::
  "(str \<Rightarrow> str) \<Rightarrow> lease_token \<Rightarrow> json \<Rightarrow> str \<Rightarrow> str \<Rightarrow> real \<Rightarrow> db \<Rightarrow> herror + handoff_token \<times> db" where
  "create_handoff sha token ttl fresh nonce now d =
     (let jid = lt_job_id token in
     bindE (validate_ttl ttl 1 86400) (\<lambda>t.
     bindE (require_lease jid (lt_lease_id token) (lt_generation token) now d) (\<lambda>(row, d1).
     bindE (get_job_row d1 jid) (\<lambda>job.
     bindE (require_nonterminal job) (\<lambda>_.
     if open_handoff_of d1 jid \<noteq> None then Inl (Conflict ''open handoff already exists'')
     else
       bindE (insert_handoff \<lparr>h_id = fresh, h_job = jid, h_hash = sha nonce, h_secret = Some nonce,
                 h_state = HPending, h_created = now, h_expires = now + t, h_claimed_at = None,
                 h_claimed_by = None, h_starting_by = None, h_starting_at = None,
                 h_starting_expires = None\<rparr> d1) (\<lambda>d2.
       Inr (\<lparr>ht_job_id = jid, ht_handoff_id = fresh, ht_nonce = nonce, ht_expires_at = now + t\<rparr>,
            log_event jid ''handoff_created''
              (JObj [(''handoff_id'', JStr fresh), (''from_generation'', JInt (lt_generation token))]) now
              (bump_job jid None now (drop_lease jid d2)))))))))"

definition claim_row :: "str \<Rightarrow> real \<Rightarrow> handoff_row \<Rightarrow> handoff_row" where
  "claim_row holder now r = (close_handoff HClaimed r)\<lparr>h_claimed_at := Some now, h_claimed_by := Some holder\<rparr>"

definition claimable :: "real \<Rightarrow> handoff_row \<Rightarrow> bool" where
  "claimable now r = (open_state (h_state r) \<and> \<not> h_expires r \<le> now)"

definition claim_handoff ::
  "(str \<Rightarrow> str) \<Rightarrow> json \<Rightarrow> json \<Rightarrow> json \<Rightarrow> json \<Rightarrow> str \<Rightarrow> real \<Rightarrow> db \<Rightarrow> herror + lease_token \<times> db" where
  "claim_handoff sha job_id nonce holder_id ttl fresh now d =
     bindE (validate_token job_id ''job_id'') (\<lambda>jid.
     bindE (validate_token holder_id ''holder_id'') (\<lambda>holder.
     bindE (validate_ttl ttl 1 86400) (\<lambda>t.
     bindE (case nonce of
              JStr n \<Rightarrow> if length n < 32 then Inl (ValidationError ''invalid handoff nonce'') else Inr n
            | _ \<Rightarrow> Inl (ValidationError ''invalid handoff nonce'')) (\<lambda>n.
     bindE (get_job_row d jid) (\<lambda>job.
     let d1 = expire jid now d in
     bindE (require_nonterminal job) (\<lambda>_.
     case find_row (\<lambda>r. h_job r = jid \<and> h_hash r = sha n) (handoffs d1) of
       None \<Rightarrow> Inl (Conflict ''handoff not found'')
     | Some h \<Rightarrow>
         if \<not> claimable now h then Inl (Conflict ''handoff is not claimable'')
         else if lease_of d1 jid \<noteq> None then Inl (Conflict ''job already leased'')
         else if length (filter (\<lambda>r. h_id r = h_id h \<and> open_state (h_state r)) (handoffs d1)) \<noteq> 1
         then Inl (Conflict ''handoff state changed'')
         else
           let g = j_generation job + 1;
               d2 = d1\<lparr>handoffs := update_rows (\<lambda>r. h_id r = h_id h \<and> open_state (h_state r))
                          (claim_row holder now) (handoffs d1)\<rparr> in
           bindE (insert_lease (new_lease jid fresh holder g now (now + t)) d2) (\<lambda>d3.
           Inr (\<lparr>lt_job_id = jid, lt_lease_id = fresh, lt_holder_id = holder,
                  lt_generation = g, lt_expires_at = now + t\<rparr>,
                log_event jid ''handoff_claimed''
                  (JObj [(''handoff_id'', JStr (h_id h)), (''holder_id'', JStr holder), (''generation'', JInt g)]) now
                  (bump_job jid (Some g) now d3)))))))))"

subsection \<open>Operations\<close>

definition start_operation ::
  "lease_token \<Rightarrow> json \<Rightarrow> json \<Rightarrow> str option \<Rightarrow> str option \<Rightarrow> str \<Rightarrow> real \<Rightarrow> db
     \<Rightarrow> herror + (bool \<times> op_row) \<times> db" where
  "start_operation token idempotency_key kind target effect fresh now d =
     (let jid = lt_job_id token in
     bindE (validate_token idempotency_key ''idempotency_key'') (\<lambda>key.
     bindE (validate_token kind ''operation kind'') (\<lambda>knd.
     bindE (require_lease jid (lt_lease_id token) (lt_generation token) now d) (\<lambda>(row, d1).
     bindE (get_job_row d1 jid) (\<lambda>job.
     bindE (require_nonterminal job) (\<lambda>_.
     case find_row (\<lambda>r. o_job r = jid \<and> o_key r = key) (operations d1) of
       Some r \<Rightarrow>
         if o_kind r \<noteq> knd \<or> o_target r \<noteq> target \<or> o_effect r \<noteq> effect
         then Inl (Conflict ''idempotency key reused with different operation payload'')
         else Inr ((False, r), d1)
     | None \<Rightarrow>
         bindE (require_no_unresolved d1 jid) (\<lambda>_.
         let r = \<lparr>o_id = fresh, o_job = jid, o_key = key, o_kind = knd, o_status = Started,
                   o_target = target, o_effect = effect, o_result = None, o_created = now, o_finished = None\<rparr> in
         bindE (insert_operation r d1) (\<lambda>d2.
         Inr ((True, r), log_event jid ''operation_started''
                (JObj [(''operation_id'', JStr fresh), (''idempotency_key'', JStr key)]) now d2)))))))))"

definition status_of :: "str \<Rightarrow> opstatus option" where
  "status_of s =
     (if s = ''completed'' then Some OpCompleted
      else if s = ''failed'' then Some OpFailed
      else if s = ''indeterminate'' then Some Indeterminate
      else None)"

fun status_str :: "opstatus \<Rightarrow> str" where
  "status_str Started = ''started''"
| "status_str OpCompleted = ''completed''"
| "status_str OpFailed = ''failed''"
| "status_str Indeterminate = ''indeterminate''"

definition write_status :: "str \<Rightarrow> opstatus \<Rightarrow> opstatus \<Rightarrow> json option \<Rightarrow> real \<Rightarrow> db \<Rightarrow> db" where
  "write_status oid previous status result now d =
     d\<lparr>operations := update_rows (\<lambda>r. o_id r = oid \<and> o_status r = previous)
        (\<lambda>r. r\<lparr>o_status := status, o_result := result, o_finished := Some now\<rparr>) (operations d)\<rparr>"

definition finish_operation ::
  "lease_token \<Rightarrow> str \<Rightarrow> str \<Rightarrow> json option \<Rightarrow> real \<Rightarrow> db \<Rightarrow> herror + op_row \<times> db" where
  "finish_operation token oid status result now d =
     (let jid = lt_job_id token in
     case status_of status of
       None \<Rightarrow> Inl (ValidationError ''invalid terminal operation status'')
     | Some st \<Rightarrow>
       bindE (require_lease jid (lt_lease_id token) (lt_generation token) now d) (\<lambda>(row, d1).
       case find_row (\<lambda>r. o_id r = oid \<and> o_job r = jid) (operations d1) of
         None \<Rightarrow> Inl (NotFound ''operation not found'')
       | Some r \<Rightarrow>
         if o_status r = OpCompleted \<or> o_status r = OpFailed then
           (if o_status r = st then Inr (r, d1) else Inl (Conflict ''operation already terminal''))
         else if o_status r = Indeterminate \<and> st = Indeterminate then Inr (r, d1)
         else if o_status r = Indeterminate \<and> st \<noteq> OpCompleted \<and> st \<noteq> OpFailed
         then Inl (Conflict ''indeterminate operation must resolve to completed or failed'')
         else
           let d2 = write_status oid (o_status r) st result now d1;
               d3 = log_event jid
                      (if o_status r = Indeterminate then ''operation_reconciled'' else ''operation_finished'')
                      (JObj [(''operation_id'', JStr oid), (''from_status'', JStr (status_str (o_status r))),
                             (''status'', JStr status)]) now d2
           in (case find_row (\<lambda>q. o_id q = oid) (operations d3) of
                 None \<Rightarrow> Inl (NotFound ''operation not found'')
               | Some q \<Rightarrow> Inr (q, d3))))"

subsection \<open>Browser pairing\<close>

definition create_pairing_code ::
  "(str \<Rightarrow> str) \<Rightarrow> json \<Rightarrow> str \<Rightarrow> real \<Rightarrow> db \<Rightarrow> herror + (str \<times> real) \<times> db" where
  "create_pairing_code sha ttl fresh now d =
     bindE (validate_ttl ttl 30 1800) (\<lambda>t.
     Inr ((fresh, now + t),
          d\<lparr>pairing_codes := [\<lparr>p_hash = sha fresh, p_created = now, p_expires = now + t, p_used = None\<rparr>]\<rparr>))"

definition consume_pairing_code ::
  "(str \<Rightarrow> str) \<Rightarrow> json \<Rightarrow> json \<Rightarrow> str \<Rightarrow> real \<Rightarrow> db \<Rightarrow> herror + (str \<times> str) \<times> db" where
  "consume_pairing_code sha code_value client_id fresh now d =
     bindE (case code_value of
              JStr c \<Rightarrow> if length c < 8 \<or> length c > 64 then Inl (ValidationError ''invalid pairing code'') else Inr c
            | _ \<Rightarrow> Inl (ValidationError ''invalid pairing code'')) (\<lambda>c.
     bindE (validate_token client_id ''client_id'') (\<lambda>client.
     case find_row (\<lambda>r. p_hash r = sha c) (pairing_codes d) of
       None \<Rightarrow> Inl (Conflict ''pairing code is invalid or expired'')
     | Some r \<Rightarrow>
         if p_used r \<noteq> None \<or> p_expires r \<le> now then Inl (Conflict ''pairing code is invalid or expired'')
         else
           let d1 = d\<lparr>pairing_codes := update_rows (\<lambda>q. p_hash q = sha c \<and> p_used q = None)
                       (\<lambda>q. q\<lparr>p_used := Some now\<rparr>) (pairing_codes d)\<rparr> in
           bindE (insert_browser \<lparr>b_hash = sha fresh, b_client = client, b_created = now,
                    b_last_used = now, b_revoked = None\<rparr> d1) (\<lambda>d2.
           Inr ((fresh, client), d2))))"

definition authenticate_browser :: "(str \<Rightarrow> str) \<Rightarrow> json \<Rightarrow> real \<Rightarrow> db \<Rightarrow> herror + str \<times> db" where
  "authenticate_browser sha token now d =
     bindE (case token of
              JStr t \<Rightarrow> if length t < 32 then Inl (Conflict ''invalid browser token'') else Inr t
            | _ \<Rightarrow> Inl (Conflict ''invalid browser token'')) (\<lambda>t.
     case find_row (\<lambda>r. b_hash r = sha t \<and> b_revoked r = None) (browser_tokens d) of
       None \<Rightarrow> Inl (Conflict ''invalid browser token'')
     | Some r \<Rightarrow>
         Inr (b_client r, d\<lparr>browser_tokens := update_rows (\<lambda>q. b_hash q = sha t)
                             (\<lambda>q. q\<lparr>b_last_used := now\<rparr>) (browser_tokens d)\<rparr>))"

subsection \<open>Browser re-entry\<close>

fun remdups_first :: "'a list \<Rightarrow> 'a list" where
  "remdups_first [] = []"
| "remdups_first (x # xs) = x # remdups_first (filter (\<lambda>y. y \<noteq> x) xs)"

definition expire_open_handoffs :: "real \<Rightarrow> db \<Rightarrow> db" where
  "expire_open_handoffs now d =
     fold (\<lambda>jid. expire jid now)
       (remdups_first (map h_job (filter (\<lambda>r. open_state (h_state r)) (handoffs d)))) d"

record handoff_item =
  hi_handoff_id :: str
  hi_job_id :: str
  hi_title :: str
  hi_created_at :: real
  hi_expires_at :: real
  hi_next_action :: "str option"
  hi_lifecycle :: lifecycle
  hi_prompt :: str
  hi_new_reservation :: "bool option"
  hi_starting_expires_at :: "real option"

definition reentry_prompt :: "str \<Rightarrow> str \<Rightarrow> str \<Rightarrow> str" where
  "reentry_prompt jid hid secret =
     ''Resume harness job '' @ jid @ '' using handoff '' @ hid @ '' with token '' @ secret
     @ ''. Use the existing ChatGPT Shell Bridge to reach the Mac and the parallel Conversation Harness v1. ''
     @ ''Read the durable continuation state first, claim the handoff with a new conversation holder id, ''
     @ ''reconcile any in-flight operation before mutation, and continue from next_action. ''
     @ ''Do not replay an ambiguous operation merely because the prior conversation ended.''"

definition handoff_item_of :: "job_row \<Rightarrow> handoff_row \<Rightarrow> bool option \<Rightarrow> handoff_item" where
  "handoff_item_of j h new_reservation =
     \<lparr>hi_handoff_id = h_id h, hi_job_id = h_job h, hi_title = j_title j, hi_created_at = h_created h,
      hi_expires_at = h_expires h, hi_next_action = j_cols j ''next_action'', hi_lifecycle = j_lifecycle j,
      hi_prompt = reentry_prompt (h_job h) (h_id h) (case h_secret h of None \<Rightarrow> ''None'' | Some n \<Rightarrow> n),
      hi_new_reservation = new_reservation,
      hi_starting_expires_at = (if new_reservation = None then None else h_starting_expires h)\<rparr>"

text \<open>The join of a handoff with its job; a row whose job is missing is not in the join.\<close>

definition join_item :: "db \<Rightarrow> bool option \<Rightarrow> handoff_row \<Rightarrow> handoff_item list" where
  "join_item d flag h = (case job_of d (h_job h) of None \<Rightarrow> [] | Some j \<Rightarrow> [handoff_item_of j h flag])"

definition joined :: "db \<Rightarrow> handoff_row \<Rightarrow> bool" where
  "joined d h = (job_of d (h_job h) \<noteq> None)"

definition own_reservation :: "str \<Rightarrow> real \<Rightarrow> handoff_row \<Rightarrow> bool" where
  "own_reservation client now r =
     (h_state r = HStarting \<and> h_starting_by r = Some client
      \<and> (case h_starting_expires r of None \<Rightarrow> False | Some t \<Rightarrow> t > now)
      \<and> h_expires r > now \<and> h_secret r \<noteq> None)"

definition available :: "real \<Rightarrow> handoff_row \<Rightarrow> bool" where
  "available now r = (h_state r = HPending \<and> h_expires r > now \<and> h_secret r \<noteq> None)"

definition start_key :: "handoff_row \<Rightarrow> real" where
  "start_key r = (case h_starting_at r of None \<Rightarrow> 0 | Some t \<Rightarrow> t)"

definition reserve_reentry :: "json \<Rightarrow> json \<Rightarrow> real \<Rightarrow> db \<Rightarrow> herror + handoff_item option \<times> db" where
  "reserve_reentry client_id ttl now d =
     bindE (validate_token client_id ''client_id'') (\<lambda>client.
     bindE (validate_ttl ttl 30 900) (\<lambda>t.
     let d1 = expire_open_handoffs now d in
     case first_by start_key (filter (\<lambda>r. own_reservation client now r \<and> joined d1 r) (handoffs d1)) of
       Some r \<Rightarrow>
         (case join_item d1 (Some False) r of [] \<Rightarrow> Inr (None, d1) | i # _ \<Rightarrow> Inr (Some i, d1))
     | None \<Rightarrow>
         (case first_by h_created (filter (\<lambda>r. available now r \<and> joined d1 r) (handoffs d1)) of
            None \<Rightarrow> Inr (None, d1)
          | Some r \<Rightarrow>
              if length (filter (\<lambda>q. h_id q = h_id r \<and> h_state q = HPending) (handoffs d1)) \<noteq> 1
              then Inl (Conflict ''handoff state changed'')
              else
                let until = min (now + t) (h_expires r) in
                bindE (starting_handoff client now until (h_id r) d1) (\<lambda>d2.
                let d3 = log_event (h_job r) ''handoff_starting''
                           (JObj [(''handoff_id'', JStr (h_id r)), (''starting_by'', JStr client),
                                  (''starting_expires_at'', JFloat until)]) now d2 in
                case find_row (\<lambda>q. h_id q = h_id r) (handoffs d3) of
                  None \<Rightarrow> Inr (None, d3)
                | Some q \<Rightarrow>
                    (case join_item d3 (Some True) q of [] \<Rightarrow> Inr (None, d3) | i # _ \<Rightarrow> Inr (Some i, d3))))))"

definition release_reentry :: "json \<Rightarrow> json \<Rightarrow> real \<Rightarrow> db \<Rightarrow> herror + str \<times> db" where
  "release_reentry client_id handoff_id now d =
     bindE (validate_token client_id ''client_id'') (\<lambda>client.
     bindE (validate_token handoff_id ''handoff_id'') (\<lambda>hid.
     let d1 = expire_open_handoffs now d in
     case find_row (\<lambda>r. h_id r = hid) (handoffs d1) of
       None \<Rightarrow> Inl (Conflict ''handoff is not starting'')
     | Some r \<Rightarrow>
         if h_state r \<noteq> HStarting then Inl (Conflict ''handoff is not starting'')
         else if h_starting_by r \<noteq> Some client then Inl (Conflict ''handoff is reserved by another browser'')
         else if length (filter (\<lambda>q. h_id q = hid \<and> h_state q = HStarting \<and> h_starting_by q = Some client)
                           (handoffs d1)) \<noteq> 1
         then Inl (Conflict ''handoff state changed'')
         else Inr (hid, log_event (h_job r) ''handoff_start_released''
                     (JObj [(''handoff_id'', JStr hid), (''starting_by'', JStr client)]) now
                     (d1\<lparr>handoffs := update_rows (\<lambda>q. h_id q = hid \<and> h_state q = HStarting
                            \<and> h_starting_by q = Some client) reopen_handoff (handoffs d1)\<rparr>))))"

definition pending_reentries :: "real \<Rightarrow> db \<Rightarrow> herror + handoff_item list \<times> db" where
  "pending_reentries now d =
     (let d1 = expire_open_handoffs now d
      in Inr (concat (map (join_item d1 None) (sort_key h_created (filter (available now) (handoffs d1)))), d1))"

subsection \<open>Read models\<close>

record continuation_view =
  cv_job :: job_row
  cv_lease :: "(str \<times> int \<times> real) option"
  cv_handoff :: "handoff_row option"
  cv_operations :: "op_row list"

definition latest_first :: "('r \<Rightarrow> real) \<Rightarrow> 'r list \<Rightarrow> 'r list" where
  "latest_first f rs = sort_key (\<lambda>r. - f r) rs"

text \<open>The continuation drops the machine-local path from the job, and the nonce (hash and secret)
  from the handoff; \<open>public_handoff\<close> and \<open>public_op\<close> blank the columns the SELECTs do not name.\<close>

definition public_job :: "job_row \<Rightarrow> job_row" where
  "public_job j = j\<lparr>j_cols := (j_cols j)(''repo_path'' := None)\<rparr>"

definition public_handoff :: "handoff_row \<Rightarrow> handoff_row" where
  "public_handoff h = h\<lparr>h_hash := [], h_secret := None\<rparr>"

definition public_op :: "op_row \<Rightarrow> op_row" where
  "public_op r = r\<lparr>o_result := None\<rparr>"

definition continuation :: "json \<Rightarrow> real \<Rightarrow> db \<Rightarrow> herror + continuation_view \<times> db" where
  "continuation job_id now d =
     bindE (validate_token job_id ''job_id'') (\<lambda>jid.
     bindE (get_job_row d jid) (\<lambda>job.
     let d1 = expire jid now d in
     Inr (\<lparr>cv_job = public_job job,
            cv_lease = map_option (\<lambda>l. (l_holder l, l_generation l, l_expires l)) (lease_of d1 jid),
            cv_handoff = (case latest_first h_created (filter (\<lambda>r. h_job r = jid) (handoffs d1)) of
                            [] \<Rightarrow> None | h # _ \<Rightarrow> Some (public_handoff h)),
            cv_operations = map public_op (take 20 (latest_first o_created (filter (\<lambda>r. o_job r = jid) (operations d1))))\<rparr>, d1)))"

definition job_events :: "json \<Rightarrow> db \<Rightarrow> herror + event_row list" where
  "job_events job_id d =
     bindE (validate_token job_id ''job_id'') (\<lambda>jid. Inr (filter (\<lambda>e. e_job e = jid) (events d)))"

end
