(* ===== verification/Machines.thy ===== *)
theory Machines
  imports Prelude
begin

text \<open>
  The two contracts that most components share. A \<open>machine\<close> is a component whose operations all
  keep an invariant; an \<open>ordered_machine\<close> moreover only moves forward in an order (a counter that
  never decreases, a log that is only appended to, a marker that is never taken back). Both lift
  from one operation to every sequence of operations.
\<close>

locale machine =
  fixes step :: "'c \<Rightarrow> 's \<Rightarrow> 's"
    and inv :: "'s \<Rightarrow> bool"
  assumes step_inv: "inv s \<Longrightarrow> inv (step c s)"
begin

lemma run_inv: "inv s \<Longrightarrow> inv (fold step cs s)"
  by (induction cs arbitrary: s) (auto intro: step_inv)

lemma run_append: "fold step (cs @ ds) s = fold step ds (fold step cs s)"
  by simp

end

locale ordered_machine = machine +
  fixes le :: "'s \<Rightarrow> 's \<Rightarrow> bool"
  assumes le_refl: "le s s"
    and le_trans: "le s t \<Longrightarrow> le t u \<Longrightarrow> le s u"
    and step_le: "inv s \<Longrightarrow> le s (step c s)"
begin

lemma run_le: "inv s \<Longrightarrow> le s (fold step cs s)"
proof (induction cs arbitrary: s)
  case Nil
  show ?case by (simp add: le_refl)
next
  case (Cons c cs)
  from Cons.prems have "inv (step c s)" by (rule step_inv)
  then have "le (step c s) (fold step cs (step c s))" by (rule Cons.IH)
  with step_le [OF Cons.prems] show ?case by (auto intro: le_trans)
qed

text \<open>What holds after a prefix of a run persists when the order preserves it.\<close>

lemma run_persists:
  assumes "inv s" and "\<And>t u. le t u \<Longrightarrow> P t \<Longrightarrow> P u" and "P (fold step cs s)"
  shows "P (fold step (cs @ ds) s)"
proof -
  from assms(1) have "inv (fold step cs s)" by (rule run_inv)
  then have "le (fold step cs s) (fold step ds (fold step cs s))" by (rule run_le)
  with assms(2,3) show ?thesis by simp
qed

end

end
