(* ===== verification/HarnessInvariants.thy ===== *)
theory HarnessInvariants
  imports HarnessService Machines
begin

text \<open>
  The invariant of the harness database and its preservation by every operation of the service,
  and the order in which the database only moves forward: lease generations and job versions
  never decrease, the event log is only appended to, and terminal jobs, finished operations and
  closed handoffs stay as they are.
\<close>

subsection \<open>The invariant\<close>

definition wf_jobs :: "db \<Rightarrow> bool" where
  "wf_jobs d = (distinct (map j_id (jobs d)) \<and> (\<forall>j \<in> set (jobs d). 0 \<le> j_generation j))"

definition wf_leases :: "db \<Rightarrow> bool" where
  "wf_leases d =
     (distinct (map l_job (leases d)) \<and> distinct (map l_id (leases d))
      \<and> (\<forall>l \<in> set (leases d). \<exists>j \<in> set (jobs d). j_id j = l_job l \<and> j_generation j = l_generation l))"

definition wf_handoff_row :: "handoff_row \<Rightarrow> bool" where
  "wf_handoff_row r = ((h_secret r \<noteq> None \<longleftrightarrow> open_state (h_state r))
     \<and> (h_starting_by r \<noteq> None \<longleftrightarrow> h_state r = HStarting)
     \<and> (h_starting_expires r \<noteq> None \<longleftrightarrow> h_state r = HStarting))"

definition wf_handoffs :: "db \<Rightarrow> bool" where
  "wf_handoffs d =
     (distinct (map h_id (handoffs d)) \<and> distinct (map h_hash (handoffs d))
      \<and> (\<forall>r \<in> set (handoffs d). wf_handoff_row r \<and> h_job r \<in> set (map j_id (jobs d)))
      \<and> key_unique (\<lambda>r. open_state (h_state r)) h_job h_id (handoffs d)
      \<and> key_unique (\<lambda>r. h_state r = HStarting) h_starting_by h_id (handoffs d))"

definition wf_exclusive :: "db \<Rightarrow> bool" where
  "wf_exclusive d = (\<forall>r \<in> set (handoffs d). open_state (h_state r) \<longrightarrow> h_job r \<notin> set (map l_job (leases d)))"

definition wf_operations :: "db \<Rightarrow> bool" where
  "wf_operations d =
     (distinct (map o_id (operations d))
      \<and> key_unique (\<lambda>_. True) (\<lambda>r. (o_job r, o_key r)) o_id (operations d)
      \<and> key_unique (\<lambda>r. unresolved (o_status r)) o_job o_id (operations d))"

definition wf_db :: "db \<Rightarrow> bool" where
  "wf_db d = (wf_jobs d \<and> wf_leases d \<and> wf_handoffs d \<and> wf_exclusive d \<and> wf_operations d)"

lemmas wf_parts = wf_jobs_def wf_leases_def wf_handoffs_def wf_exclusive_def wf_operations_def

lemma wf_empty: "wf_db empty_db"
  by (simp add: wf_db_def wf_parts empty_db_def)

subsection \<open>Writes that leave the four tables of the invariant alone\<close>

lemma log_event_tables [simp]:
  "jobs (log_event jid t p now d) = jobs d"
  "leases (log_event jid t p now d) = leases d"
  "handoffs (log_event jid t p now d) = handoffs d"
  "operations (log_event jid t p now d) = operations d"
  "pairing_codes (log_event jid t p now d) = pairing_codes d"
  "browser_tokens (log_event jid t p now d) = browser_tokens d"
  "protocol_requests (log_event jid t p now d) = protocol_requests d"
  by (simp_all add: log_event_def)

lemma fold_log_tables [simp]:
  "jobs (fold (\<lambda>r. log_event (f r) (t r) (p r) now) rs d) = jobs d"
  "leases (fold (\<lambda>r. log_event (f r) (t r) (p r) now) rs d) = leases d"
  "handoffs (fold (\<lambda>r. log_event (f r) (t r) (p r) now) rs d) = handoffs d"
  "operations (fold (\<lambda>r. log_event (f r) (t r) (p r) now) rs d) = operations d"
  "pairing_codes (fold (\<lambda>r. log_event (f r) (t r) (p r) now) rs d) = pairing_codes d"
  "browser_tokens (fold (\<lambda>r. log_event (f r) (t r) (p r) now) rs d) = browser_tokens d"
  "protocol_requests (fold (\<lambda>r. log_event (f r) (t r) (p r) now) rs d) = protocol_requests d"
  by (induction rs arbitrary: d) auto

definition same_tables :: "db \<Rightarrow> db \<Rightarrow> bool" where
  "same_tables d d' = (jobs d' = jobs d \<and> leases d' = leases d \<and> handoffs d' = handoffs d
     \<and> operations d' = operations d)"

lemma wf_same_tables: "same_tables d d' \<Longrightarrow> wf_db d' = wf_db d"
  by (simp add: same_tables_def wf_db_def wf_parts)

lemma wf_log_event [simp]: "wf_db (log_event jid t p now d) = wf_db d"
  by (rule wf_same_tables) (simp add: same_tables_def)

subsection \<open>Expiry\<close>

definition expire_row :: "str \<Rightarrow> real \<Rightarrow> handoff_row \<Rightarrow> handoff_row" where
  "expire_row jid now r =
     (if lapsed_handoff jid now r then close_handoff HExpired r
      else if stale_start jid now r then reopen_handoff r else r)"

lemma expire_row_keeps [simp]:
  "h_id (expire_row jid now r) = h_id r"
  "h_job (expire_row jid now r) = h_job r"
  "h_hash (expire_row jid now r) = h_hash r"
  "h_expires (expire_row jid now r) = h_expires r"
  by (simp_all add: expire_row_def close_handoff_def reopen_handoff_def)

lemma expire_lease_tables [simp]:
  "jobs (expire_lease jid now d) = jobs d"
  "handoffs (expire_lease jid now d) = handoffs d"
  "operations (expire_lease jid now d) = operations d"
  by (simp_all add: expire_lease_def split: option.splits)

lemma expire_tables [simp]:
  "jobs (expire jid now d) = jobs d"
  "operations (expire jid now d) = operations d"
  by (simp_all add: expire_def expire_starts_def expire_handoffs_def Let_def)

lemma handoffs_expire: "handoffs (expire jid now d) = map (expire_row jid now) (handoffs d)"
proof -
  have "handoffs (expire jid now d) =
      update_rows (stale_start jid now) reopen_handoff
        (update_rows (lapsed_handoff jid now) (close_handoff HExpired) (handoffs d))"
    by (simp add: expire_def expire_starts_def expire_handoffs_def Let_def)
  also have "\<dots> = map (expire_row jid now) (handoffs d)"
    by (induction "handoffs d")
       (auto simp: update_rows_def expire_row_def lapsed_handoff_def stale_start_def close_handoff_def)
  finally show ?thesis .
qed

lemma leases_expire:
  "leases (expire jid now d) = leases (expire_lease jid now d)"
  by (simp add: expire_def expire_starts_def expire_handoffs_def Let_def)

lemma leases_expire_lease:
  "leases (expire_lease jid now d) = leases d
   \<or> leases (expire_lease jid now d) = delete_rows (\<lambda>r. l_job r = jid) (leases d)"
  by (simp add: expire_lease_def split: option.splits)

lemma leases_expire_subset: "set (leases (expire jid now d)) \<subseteq> set (leases d)"
  using leases_expire_lease [of jid now d] by (auto simp: leases_expire)

lemma wf_handoff_row_expire: "wf_handoff_row r \<Longrightarrow> wf_handoff_row (expire_row jid now r)"
  by (auto simp: wf_handoff_row_def expire_row_def close_handoff_def reopen_handoff_def open_state_def
        stale_start_def lapsed_handoff_def)

lemma expire_row_open: "open_state (h_state (expire_row jid now r)) \<Longrightarrow> open_state (h_state r)"
  by (auto simp: expire_row_def close_handoff_def reopen_handoff_def open_state_def stale_start_def
      split: if_splits)

lemma expire_row_starting:
  "h_state (expire_row jid now r) = HStarting \<Longrightarrow>
     h_state r = HStarting \<and> h_starting_by (expire_row jid now r) = h_starting_by r"
  by (auto simp: expire_row_def close_handoff_def reopen_handoff_def split: if_splits)

text \<open>A rewriting of the handoff table that keeps the keys, opens nothing and starts nothing keeps
  the handoff part of the invariant.\<close>

lemma wf_handoffs_map:
  assumes wf: "wf_handoffs d"
    and tabs: "jobs d' = jobs d" "handoffs d' = map f (handoffs d)"
    and keys: "\<And>r. h_id (f r) = h_id r \<and> h_job (f r) = h_job r \<and> h_hash (f r) = h_hash r"
    and row: "\<And>r. wf_handoff_row r \<Longrightarrow> wf_handoff_row (f r)"
    and opn: "\<And>r. open_state (h_state (f r)) \<Longrightarrow> open_state (h_state r)"
    and strt: "\<And>r. h_state (f r) = HStarting \<Longrightarrow> h_state r = HStarting \<and> h_starting_by (f r) = h_starting_by r"
  shows "wf_handoffs d'"
proof -
  have "map h_id (handoffs d') = map h_id (handoffs d)" using tabs keys by simp
  then have "distinct (map h_id (handoffs d'))" using wf by (simp only: wf_handoffs_def)
  moreover have "map h_hash (handoffs d') = map h_hash (handoffs d)" using tabs keys by simp
  then have "distinct (map h_hash (handoffs d'))" using wf by (simp only: wf_handoffs_def)
  moreover have "\<forall>r \<in> set (handoffs d'). wf_handoff_row r \<and> h_job r \<in> set (map j_id (jobs d'))"
    using wf tabs keys row by (auto simp: wf_handoffs_def)
  moreover have "key_unique (\<lambda>r. open_state (h_state r)) h_job h_id (handoffs d')"
    unfolding tabs by (rule key_unique_map) (use wf opn keys in \<open>auto simp: wf_handoffs_def\<close>)
  moreover have "key_unique (\<lambda>r. h_state r = HStarting) h_starting_by h_id (handoffs d')"
    unfolding tabs by (rule key_unique_map) (use wf strt keys in \<open>auto simp: wf_handoffs_def\<close>)
  ultimately show ?thesis by (simp add: wf_handoffs_def)
qed

lemma wf_leases_subset:
  assumes "wf_leases d" and "jobs d' = jobs d"
    and "leases d' = leases d \<or> leases d' = delete_rows P (leases d)"
  shows "wf_leases d'"
  using assms by (auto simp: wf_leases_def distinct_map_delete_rows)

lemma wf_expire:
  assumes "wf_db d" shows "wf_db (expire jid now d)"
proof -
  have "wf_handoffs (expire jid now d)"
  proof (rule wf_handoffs_map [of d _ "expire_row jid now"])
    show "wf_handoffs d" using assms by (simp add: wf_db_def)
  qed (simp_all add: handoffs_expire wf_handoff_row_expire expire_row_open expire_row_starting)
  moreover have "wf_leases (expire jid now d)"
  proof (rule wf_leases_subset [of d _ "\<lambda>r. l_job r = jid"])
    show "wf_leases d" using assms by (simp add: wf_db_def)
  qed (use leases_expire_lease [of jid now d] in \<open>simp_all add: leases_expire\<close>)
  moreover have "wf_exclusive (expire jid now d)"
    unfolding wf_exclusive_def handoffs_expire
  proof (intro ballI impI)
    fix q assume "q \<in> set (map (expire_row jid now) (handoffs d))" and opn: "open_state (h_state q)"
    then obtain r where r: "r \<in> set (handoffs d)" "q = expire_row jid now r" by auto
    with opn have "open_state (h_state r)" using expire_row_open by simp
    with r assms have "h_job q \<notin> set (map l_job (leases d))"
      by (simp add: wf_db_def wf_exclusive_def)
    with leases_expire_subset [of jid now d] show "h_job q \<notin> set (map l_job (leases (expire jid now d)))"
      by auto
  qed
  ultimately show ?thesis using assms by (simp add: wf_db_def wf_jobs_def wf_operations_def)
qed

subsection \<open>Composite writes\<close>

lemma job_of_Some: "job_of d jid = Some j \<Longrightarrow> j \<in> set (jobs d) \<and> j_id j = jid"
  unfolding job_of_def by (drule find_row_Some) simp

lemma lease_of_Some: "lease_of d jid = Some l \<Longrightarrow> l \<in> set (leases d) \<and> l_job l = jid"
  unfolding lease_of_def by (drule find_row_Some) simp

lemma lease_of_None: "lease_of d jid = None \<longleftrightarrow> jid \<notin> set (map l_job (leases d))"
  by (auto simp: lease_of_def find_row_None)

lemma open_handoff_of_None:
  "open_handoff_of d jid = None \<longleftrightarrow> (\<forall>r \<in> set (handoffs d). open_state (h_state r) \<longrightarrow> h_job r \<noteq> jid)"
  by (auto simp: open_handoff_of_def find_row_None)

lemma job_of_expire [simp]: "job_of (expire jid now d) k = job_of d k"
  by (simp add: job_of_def)

lemma wf_job_unique: "wf_db d \<Longrightarrow> j \<in> set (jobs d) \<Longrightarrow> j' \<in> set (jobs d) \<Longrightarrow> j_id j = j_id j' \<Longrightarrow> j = j'"
  by (auto simp: wf_db_def wf_jobs_def dest: distinct_map_key)

lemma wf_leases_update:
  assumes "wf_leases d" and "jobs d' = jobs d" and "leases d' = update_rows P f (leases d)"
    and "\<And>r. l_job (f r) = l_job r \<and> l_id (f r) = l_id r \<and> l_generation (f r) = l_generation r"
  shows "wf_leases d'"
  using assms by (auto simp: wf_leases_def map_update_rows_id set_update_rows)

lemma wf_renew_row: "wf_db d \<Longrightarrow> wf_db (renew_row jid e now d)"
proof -
  assume wf: "wf_db d"
  have "map l_job (leases (renew_row jid e now d)) = map l_job (leases d)"
    by (simp add: renew_row_def map_update_rows_id)
  then have "wf_exclusive (renew_row jid e now d)"
    using wf by (simp add: wf_db_def wf_exclusive_def renew_row_def del: set_map)
  moreover have "wf_leases (renew_row jid e now d)"
    by (rule wf_leases_update [of d _ "\<lambda>r. l_job r = jid" "\<lambda>r. r\<lparr>l_expires := e, l_heartbeat := now\<rparr>"])
       (use wf in \<open>simp_all add: wf_db_def renew_row_def\<close>)
  ultimately show ?thesis
    using wf by (simp add: wf_db_def wf_jobs_def wf_handoffs_def wf_operations_def renew_row_def)
qed

lemma wf_drop_lease: "wf_db d \<Longrightarrow> wf_db (drop_lease jid d)"
  by (auto simp: wf_db_def wf_parts drop_lease_def distinct_map_delete_rows)

text \<open>Rewriting job rows in place keeps everything when identifiers and generations stay.\<close>

lemma wf_jobs_rewrite:
  assumes wf: "wf_db d" and same: "leases d' = leases d" "handoffs d' = handoffs d" "operations d' = operations d"
    and jobs: "jobs d' = update_rows P f (jobs d)"
    and f: "\<And>r. r \<in> set (jobs d) \<Longrightarrow> P r \<Longrightarrow> j_id (f r) = j_id r \<and> j_generation (f r) = j_generation r"
  shows "wf_db d'"
proof -
  have ids: "map j_id (jobs d') = map j_id (jobs d)"
    unfolding jobs update_rows_def using f by simp
  have keep: "\<exists>j' \<in> set (jobs d'). j_id j' = j_id j \<and> j_generation j' = j_generation j" if "j \<in> set (jobs d)" for j
    using that f by (auto simp: jobs update_rows_def)
  have "wf_jobs d'"
    unfolding wf_jobs_def ids using wf f by (auto simp: wf_db_def wf_jobs_def jobs set_update_rows)
  moreover have "wf_leases d'"
    using wf keep unfolding wf_db_def wf_leases_def same by metis
  ultimately show ?thesis
    using wf ids by (simp add: wf_db_def wf_handoffs_def wf_exclusive_def wf_operations_def same)
qed

lemma wf_bump_version: "wf_db d \<Longrightarrow> wf_db (bump_job jid None now d)"
  by (rule wf_jobs_rewrite [where d = d and P = "\<lambda>r. j_id r = jid"
        and f = "\<lambda>r. r\<lparr>j_version := j_version r + 1, j_updated := now\<rparr>"])
     (simp_all add: bump_job_def)

text \<open>Granting a lease: the new row carries the successor of the job's generation, and the job's
  generation is raised to it.\<close>

lemma wf_grant:
  assumes wf: "wf_db d" and job: "job_of d jid = Some j"
    and free: "lease_of d jid = None" "open_handoff_of d jid = None"
    and ins: "insert_lease (new_lease jid lid holder (j_generation j + 1) now e) d = Inr d2"
  shows "wf_db (bump_job jid (Some (j_generation j + 1)) now d2)" (is "wf_db ?d3")
proof -
  have j: "j \<in> set (jobs d)" "j_id j = jid" using job_of_Some [OF job] by auto
  have d2: "d2 = d\<lparr>leases := leases d @ [new_lease jid lid holder (j_generation j + 1) now e]\<rparr>"
    and lid: "lid \<notin> set (map l_id (leases d))"
    using ins by (auto simp: insert_lease_def new_lease_def split: if_splits)
  have ids: "map j_id (jobs ?d3) = map j_id (jobs d)"
    by (simp add: bump_job_def d2 map_update_rows_id)
  have nolease: "jid \<notin> set (map l_job (leases d))" using free(1) by (simp add: lease_of_None del: set_map)
  have "wf_jobs ?d3"
    unfolding wf_jobs_def ids using wf j by (auto simp: wf_db_def wf_jobs_def bump_job_def d2 set_update_rows)
  moreover have "wf_leases ?d3"
    unfolding wf_leases_def
  proof (intro conjI ballI)
    show "distinct (map l_job (leases ?d3))" "distinct (map l_id (leases ?d3))"
      using wf lid nolease by (simp_all add: wf_db_def wf_leases_def bump_job_def d2 new_lease_def)
    fix l assume "l \<in> set (leases ?d3)"
    then consider "l \<in> set (leases d)" | "l = new_lease jid lid holder (j_generation j + 1) now e"
      by (auto simp: bump_job_def d2)
    then show "\<exists>j' \<in> set (jobs ?d3). j_id j' = l_job l \<and> j_generation j' = l_generation l"
    proof cases
      case 1
      with wf obtain j0 where j0: "j0 \<in> set (jobs d)" "j_id j0 = l_job l" "j_generation j0 = l_generation l"
        unfolding wf_db_def wf_leases_def by blast
      from 1 nolease have "j_id j0 \<noteq> jid" unfolding j0(2) by auto
      with j0 show ?thesis by (auto simp: bump_job_def d2 set_update_rows intro!: bexI [of _ j0])
    next
      case 2
      with j show ?thesis
        by (intro bexI [of _ "j\<lparr>j_generation := j_generation j + 1, j_version := j_version j + 1, j_updated := now\<rparr>"])
           (auto simp: bump_job_def d2 set_update_rows new_lease_def)
    qed
  qed
  moreover have "wf_exclusive ?d3"
    using wf free(2) by (auto simp: wf_db_def wf_exclusive_def bump_job_def d2 new_lease_def open_handoff_of_None)
  ultimately show ?thesis
    using wf ids by (simp add: wf_db_def wf_handoffs_def wf_operations_def bump_job_def d2)
qed

lemma wf_grant_expired:
  assumes "insert_lease (new_lease jid lid holder (j_generation j + 1) now e) (expire jid now d) = Inr d2"
    and "wf_db d" "job_of d jid = Some j"
    and "lease_of (expire jid now d) jid = None" "open_handoff_of (expire jid now d) jid = None"
  shows "wf_db (bump_job jid (Some (j_generation j + 1)) now d2)"
  by (rule wf_grant [OF _ _ _ _ assms(1)]) (simp_all add: assms wf_expire)

lemma wf_insert_job:
  assumes wf: "wf_db d" and ins: "insert_job r d = Inr d'" and gen: "0 \<le> j_generation r"
  shows "wf_db d'"
  using assms by (auto simp: insert_job_def wf_db_def wf_parts split: if_splits)

text \<open>Opening a handoff gives the lease up.\<close>

lemma wf_open_handoff:
  assumes wf: "wf_db d" and ins: "insert_handoff r d = Inr d2"
    and row: "wf_handoff_row r" "h_state r = HPending"
  shows "wf_db (drop_lease (h_job r) d2)"
proof -
  have d2: "d2 = d\<lparr>handoffs := handoffs d @ [r]\<rparr>"
    and fresh: "h_id r \<notin> set (map h_id (handoffs d))" "h_hash r \<notin> set (map h_hash (handoffs d))" "h_job r \<in> set (map j_id (jobs d))"
    and none: "open_handoff_of d (h_job r) = None"
    using ins row(2) by (auto simp: insert_handoff_def open_state_def split: if_splits)
  have "key_unique (\<lambda>q. open_state (h_state q)) h_job h_id (handoffs d @ [r])"
    by (rule key_unique_append) (use wf none in \<open>auto simp: wf_db_def wf_handoffs_def open_handoff_of_None\<close>)
  moreover have "key_unique (\<lambda>q. h_state q = HStarting) h_starting_by h_id (handoffs d @ [r])"
    by (rule key_unique_append) (use wf row(2) in \<open>auto simp: wf_db_def wf_handoffs_def\<close>)
  ultimately have "wf_handoffs (drop_lease (h_job r) d2)"
    using wf fresh row by (auto simp: wf_db_def wf_handoffs_def drop_lease_def d2)
  moreover have "wf_leases (drop_lease (h_job r) d2)"
    using wf by (auto simp: wf_db_def wf_leases_def drop_lease_def d2 distinct_map_delete_rows)
  moreover have "wf_exclusive (drop_lease (h_job r) d2)"
    using wf by (auto simp: wf_db_def wf_exclusive_def drop_lease_def d2)
  ultimately show ?thesis
    using wf by (simp add: wf_db_def wf_jobs_def wf_operations_def drop_lease_def d2)
qed

text \<open>Rewriting handoff rows without opening or starting anything.\<close>

lemma wf_handoffs_rewrite:
  assumes wf: "wf_db d"
    and same: "jobs d' = jobs d" "leases d' = leases d" "operations d' = operations d"
    and hs: "handoffs d' = update_rows P f (handoffs d)"
    and f: "\<And>r. P r \<Longrightarrow> h_id (f r) = h_id r \<and> h_job (f r) = h_job r \<and> h_hash (f r) = h_hash r"
    and row: "\<And>r. P r \<Longrightarrow> wf_handoff_row r \<Longrightarrow> wf_handoff_row (f r)"
    and opn: "\<And>r. P r \<Longrightarrow> open_state (h_state (f r)) \<Longrightarrow> open_state (h_state r)"
    and strt: "\<And>r. P r \<Longrightarrow> h_state (f r) \<noteq> HStarting"
  shows "wf_db d'"
proof -
  have hs': "handoffs d' = map (\<lambda>r. if P r then f r else r) (handoffs d)"
    by (simp add: hs update_rows_def)
  have "wf_handoffs d'"
  proof (rule wf_handoffs_map [of d _ "\<lambda>r. if P r then f r else r"])
    show "wf_handoffs d" using wf by (simp add: wf_db_def)
    show "jobs d' = jobs d" "handoffs d' = map (\<lambda>r. if P r then f r else r) (handoffs d)"
      by (fact same hs')+
  qed (use f row opn strt in \<open>auto split: if_splits\<close>)
  moreover have "wf_exclusive d'"
    unfolding wf_exclusive_def hs' same
  proof (intro ballI impI)
    fix q assume "q \<in> set (map (\<lambda>r. if P r then f r else r) (handoffs d))" and q: "open_state (h_state q)"
    then obtain r where r: "r \<in> set (handoffs d)" "q = (if P r then f r else r)" by auto
    then have "open_state (h_state r)" "h_job q = h_job r" using q f opn by (auto split: if_splits)
    with r(1) wf show "h_job q \<notin> set (map l_job (leases d))" by (simp add: wf_db_def wf_exclusive_def)
  qed
  ultimately show ?thesis
    using wf by (simp add: wf_db_def wf_jobs_def wf_leases_def wf_operations_def same)
qed

subsection \<open>Every operation keeps the invariant\<close>

lemma require_lease_Inr:
  "require_lease jid lid g now d = Inr (l, d1) \<longleftrightarrow>
     d1 = expire jid now d \<and> lease_of d1 jid = Some l \<and> l_id l = lid \<and> l_generation l = g"
  by (auto simp: require_lease_def Let_def split: option.splits if_splits)

lemma get_job_row_Inr [simp]: "get_job_row d jid = Inr j \<longleftrightarrow> job_of d jid = Some j"
  by (auto simp: get_job_row_def split: option.splits)

lemma require_nonterminal_Inr [simp]: "require_nonterminal j = Inr u \<longleftrightarrow> \<not> terminal (j_lifecycle j)"
  by (simp add: require_nonterminal_def tx_simps)

lemmas op_simps = bindE_eq_Inr case_option_Inr case_list_Inr if_Inl_Inr require_lease_Inr Let_def

lemma wf_create_job: "wf_db d \<Longrightarrow> create_job a t g l c now d = Inr (r, d') \<Longrightarrow> wf_db d'"
  unfolding create_job_def
  by (auto simp: op_simps split: if_splits dest: wf_insert_job)

lemma wf_get_job: "wf_db d \<Longrightarrow> get_job a now d = Inr (r, d') \<Longrightarrow> wf_db d'"
  unfolding get_job_def by (auto simp: op_simps wf_expire)

lemma wf_acquire_lease: "wf_db d \<Longrightarrow> acquire_lease a h t f now d = Inr (r, d') \<Longrightarrow> wf_db d'"
  unfolding acquire_lease_def
  by (auto simp: op_simps wf_expire wf_renew_row elim: wf_grant_expired)

lemma wf_renew_lease: "wf_db d \<Longrightarrow> renew_lease tok t now d = Inr (r, d') \<Longrightarrow> wf_db d'"
  unfolding renew_lease_def by (auto simp: op_simps wf_expire wf_renew_row)

lemma wf_release_lease: "wf_db d \<Longrightarrow> release_lease tok now d = Inr (r, d') \<Longrightarrow> wf_db d'"
  unfolding release_lease_def by (auto simp: op_simps wf_expire wf_drop_lease)

lemma set_column_keeps:
  "set_column n v r = Inr r' \<Longrightarrow> j_id r' = j_id r \<and> j_generation r' = j_generation r"
  by (auto simp: set_column_def split: if_splits option.splits)

lemma set_columns_keeps:
  "set_columns cs r = Inr r' \<Longrightarrow> j_id r' = j_id r \<and> j_generation r' = j_generation r"
proof (induction cs r rule: set_columns.induct)
  case (2 name v cs r)
  then show ?case by (auto simp: bindE_eq_Inr dest: set_column_keeps)
qed simp

lemma wf_update_job:
  assumes wf: "wf_db d" and upd: "update_job tok v cs now d = Inr (r, d')"
  shows "wf_db d'"
proof -
  let ?jid = "lt_job_id tok" and ?d1 = "expire (lt_job_id tok) now d"
  from upd obtain j j' where j: "job_of d ?jid = Some j" and j': "set_columns cs j = Inr j'"
    and d': "same_tables (?d1\<lparr>jobs := update_rows (\<lambda>r. j_id r = ?jid \<and> j_version r = v)
                        (\<lambda>r. j'\<lparr>j_version := j_version r + 1, j_updated := now\<rparr>) (jobs ?d1)\<rparr>) d'"
    unfolding update_job_def
    by (auto simp: op_simps same_tables_def)
  have wf1: "wf_db ?d1" using wf by (rule wf_expire)
  have "wf_db (?d1\<lparr>jobs := update_rows (\<lambda>r. j_id r = ?jid \<and> j_version r = v)
                        (\<lambda>r. j'\<lparr>j_version := j_version r + 1, j_updated := now\<rparr>) (jobs ?d1)\<rparr>)"
  proof (rule wf_jobs_rewrite [OF wf1])
    fix r assume "r \<in> set (jobs ?d1)" and "j_id r = ?jid \<and> j_version r = v"
    moreover have "j \<in> set (jobs d)" "j_id j = ?jid" using job_of_Some [OF j] by auto
    ultimately have "r = j" using wf_job_unique [OF wf, of r j] by simp
    with set_columns_keeps [OF j']
    show "j_id (j'\<lparr>j_version := j_version r + 1, j_updated := now\<rparr>) = j_id r \<and>
          j_generation (j'\<lparr>j_version := j_version r + 1, j_updated := now\<rparr>) = j_generation r" by simp
  qed simp_all
  with wf_same_tables [OF d'] show ?thesis by simp
qed

lemma wf_create_handoff:
  "wf_db d \<Longrightarrow> create_handoff sha tok t f n now d = Inr (r, d') \<Longrightarrow> wf_db d'"
  unfolding create_handoff_def
  by (auto simp: op_simps split: if_splits intro!: wf_bump_version
      dest: wf_open_handoff [OF wf_expire, rotated] simp: wf_handoff_row_def open_state_def)

lemma wf_claim_row: "wf_handoff_row (claim_row holder now r)"
  by (simp add: wf_handoff_row_def claim_row_def close_handoff_def open_state_def)

lemma claim_row_keeps [simp]:
  "h_id (claim_row holder now r) = h_id r" "h_job (claim_row holder now r) = h_job r"
  "h_hash (claim_row holder now r) = h_hash r" "h_state (claim_row holder now r) = HClaimed"
  by (simp_all add: claim_row_def close_handoff_def)

lemma wf_claim_table:
  assumes wf: "wf_db d"
  shows "wf_db (d\<lparr>handoffs := update_rows (\<lambda>r. h_id r = hid \<and> open_state (h_state r)) (claim_row holder now) (handoffs d)\<rparr>)"
  by (rule wf_handoffs_rewrite [OF wf, where P = "\<lambda>r. h_id r = hid \<and> open_state (h_state r)"
        and f = "claim_row holder now"])
     (simp_all add: wf_claim_row open_state_def)

text \<open>Claiming closes the job's only open handoff.\<close>

lemma claim_closes:
  assumes wf: "wf_db d" and h: "h \<in> set (handoffs d)" "open_state (h_state h)"
  shows "open_handoff_of (d\<lparr>handoffs := update_rows (\<lambda>r. h_id r = h_id h \<and> open_state (h_state r))
           (claim_row holder now) (handoffs d)\<rparr>) (h_job h) = None"
proof -
  have "h_job r \<noteq> h_job h" if "r \<in> set (handoffs d)" "h_id r \<noteq> h_id h" "open_state (h_state r)" for r
    using that wf h key_uniqueD [of "\<lambda>r. open_state (h_state r)" h_job h_id "handoffs d" r h]
    unfolding wf_db_def wf_handoffs_def by blast
  then have "\<forall>r \<in> set (update_rows (\<lambda>r. h_id r = h_id h \<and> open_state (h_state r)) (claim_row holder now) (handoffs d)).
      open_state (h_state r) \<longrightarrow> h_job r \<noteq> h_job h"
    by (intro ball_update_rows) (auto simp: open_state_def)
  then show ?thesis by (simp add: open_handoff_of_None)
qed

lemma wf_claim_handoff:
  assumes wf: "wf_db d" and c: "claim_handoff sha a n h t f now d = Inr (r, d')"
  shows "wf_db d'"
proof -
  from c obtain jid holder ttl j row d3 where
    j: "job_of d jid = Some j"
    and row: "row \<in> set (handoffs (expire jid now d))" "h_job row = jid" "open_state (h_state row)"
    and free: "lease_of (expire jid now d) jid = None"
    and ins: "insert_lease (new_lease jid f holder (j_generation j + 1) now (now + ttl))
        ((expire jid now d)\<lparr>handoffs := update_rows (\<lambda>r. h_id r = h_id row \<and> open_state (h_state r))
           (claim_row holder now) (handoffs (expire jid now d))\<rparr>) = Inr d3"
    and d': "same_tables (bump_job jid (Some (j_generation j + 1)) now d3) d'"
    unfolding claim_handoff_def
    by (auto simp: op_simps claimable_def same_tables_def dest!: find_row_Some)
  note wf1 = wf_expire [OF wf, of jid now]
  have "wf_db (bump_job jid (Some (j_generation j + 1)) now d3)"
    by (rule wf_grant [OF wf_claim_table [OF wf1] _ _ _ ins])
       (use j free claim_closes [OF wf1 row(1) row(3)] row(2) in \<open>simp_all add: job_of_def lease_of_def\<close>)
  with wf_same_tables [OF d'] show ?thesis by simp
qed

lemma require_no_unresolved_Inr:
  "require_no_unresolved d jid = Inr u \<Longrightarrow> r \<in> set (operations d) \<Longrightarrow> o_job r = jid \<Longrightarrow> \<not> unresolved (o_status r)"
proof -
  have none: "first_by f rs = None \<longleftrightarrow> rs = []" for f :: "op_row \<Rightarrow> real" and rs
    by (cases rs) (auto split: option.splits)
  assume "require_no_unresolved d jid = Inr u" "r \<in> set (operations d)" "o_job r = jid"
  then show ?thesis by (auto simp: require_no_unresolved_def none filter_empty_conv split: option.splits)
qed

lemma wf_insert_operation:
  assumes wf: "wf_db d" and ins: "insert_operation r d = Inr d'"
    and none: "require_no_unresolved d (o_job r) = Inr u"
  shows "wf_db d'"
proof -
  have d': "d' = d\<lparr>operations := operations d @ [r]\<rparr>" and id: "o_id r \<notin> set (map o_id (operations d))"
    and key: "\<forall>q \<in> set (operations d). (o_job q, o_key q) \<noteq> (o_job r, o_key r)"
    using ins by (auto simp: insert_operation_def split: if_splits)
  have "key_unique (\<lambda>_. True) (\<lambda>r. (o_job r, o_key r)) o_id (operations d @ [r])"
    by (rule key_unique_append) (use wf key in \<open>auto simp: wf_db_def wf_operations_def\<close>)
  moreover have "key_unique (\<lambda>r. unresolved (o_status r)) o_job o_id (operations d @ [r])"
    by (rule key_unique_append)
       (use wf require_no_unresolved_Inr [OF none] in \<open>auto simp: wf_db_def wf_operations_def\<close>)
  ultimately show ?thesis
    using wf id by (auto simp: d' wf_db_def wf_jobs_def wf_leases_def wf_handoffs_def wf_exclusive_def wf_operations_def)
qed

lemma wf_start_operation:
  "wf_db d \<Longrightarrow> start_operation tok k kd tg ef f now d = Inr (r, d') \<Longrightarrow> wf_db d'"
  unfolding start_operation_def
  by (auto simp: op_simps
      intro: wf_expire dest: wf_insert_operation [OF wf_expire])

lemma wf_write_status:
  assumes wf: "wf_db d" and previous: "unresolved previous"
  shows "wf_db (write_status oid previous st res now d)"
proof -
  let ?P = "\<lambda>r. o_id r = oid \<and> o_status r = previous"
  let ?f = "\<lambda>r. r\<lparr>o_status := st, o_result := res, o_finished := Some now\<rparr>"
  have ops: "operations (write_status oid previous st res now d) = update_rows ?P ?f (operations d)"
    by (simp add: write_status_def)
  have "map o_id (update_rows ?P ?f (operations d)) = map o_id (operations d)"
    by (simp add: map_update_rows_id)
  moreover have "key_unique (\<lambda>_. True) (\<lambda>r. (o_job r, o_key r)) o_id (update_rows ?P ?f (operations d))"
    by (rule key_unique_update) (use wf in \<open>simp_all add: wf_db_def wf_operations_def\<close>)
  moreover have "key_unique (\<lambda>r. unresolved (o_status r)) o_job o_id (update_rows ?P ?f (operations d))"
    by (rule key_unique_update) (use wf previous in \<open>auto simp: wf_db_def wf_operations_def\<close>)
  ultimately have "wf_operations (write_status oid previous st res now d)"
    using wf by (simp add: wf_operations_def ops wf_db_def)
  then show ?thesis
    using wf by (simp add: wf_db_def wf_jobs_def wf_leases_def wf_handoffs_def wf_exclusive_def write_status_def)
qed

lemma unresolved_iff: "unresolved s \<longleftrightarrow> s \<noteq> OpCompleted \<and> s \<noteq> OpFailed"
  by (cases s) (simp_all add: unresolved_def)

lemma wf_finish_operation:
  "wf_db d \<Longrightarrow> finish_operation tok oid st res now d = Inr (r, d') \<Longrightarrow> wf_db d'"
  unfolding finish_operation_def
  by (auto simp: op_simps unresolved_iff split: if_splits intro!: wf_expire wf_write_status)

lemma wf_side_tables:
  "wf_db (d\<lparr>pairing_codes := p\<rparr>) = wf_db d"
  "wf_db (d\<lparr>browser_tokens := b\<rparr>) = wf_db d"
  "wf_db (d\<lparr>protocol_requests := q\<rparr>) = wf_db d"
  by (simp_all add: wf_db_def wf_parts)

lemma wf_pairing:
  "wf_db d \<Longrightarrow> create_pairing_code sha t f now d = Inr (r, d') \<Longrightarrow> wf_db d'"
  unfolding create_pairing_code_def by (auto simp: op_simps wf_side_tables)

lemma wf_consume:
  "wf_db d \<Longrightarrow> consume_pairing_code sha c cl f now d = Inr (r, d') \<Longrightarrow> wf_db d'"
  unfolding consume_pairing_code_def
  by (auto simp: op_simps wf_side_tables insert_browser_def split: if_splits)

lemma wf_authenticate:
  "wf_db d \<Longrightarrow> authenticate_browser sha t now d = Inr (r, d') \<Longrightarrow> wf_db d'"
  unfolding authenticate_browser_def
  by (auto simp: op_simps wf_side_tables)

lemma wf_fold_expire: "wf_db d \<Longrightarrow> wf_db (fold (\<lambda>jid. expire jid now) ids d)"
  by (induction ids arbitrary: d) (auto intro: wf_expire)

lemma wf_expire_open: "wf_db d \<Longrightarrow> wf_db (expire_open_handoffs now d)"
  unfolding expire_open_handoffs_def by (rule wf_fold_expire)

lemma wf_starting:
  assumes wf: "wf_db d" and st: "starting_handoff client now until hid d = Inr d2"
  shows "wf_db d2"
proof -
  let ?P = "\<lambda>r. h_id r = hid \<and> h_state r = HPending"
  let ?f = "\<lambda>r. r\<lparr>h_state := HStarting, h_starting_by := Some client, h_starting_at := Some now,
                    h_starting_expires := Some until\<rparr>"
  have d2: "d2 = d\<lparr>handoffs := update_rows ?P ?f (handoffs d)\<rparr>"
    and alone: "\<forall>r \<in> set (handoffs d). h_state r = HStarting \<and> h_starting_by r = Some client \<longrightarrow> h_id r = hid"
    using st by (auto simp: starting_handoff_def split: if_splits)
  have ids: "map h_id (update_rows ?P ?f (handoffs d)) = map h_id (handoffs d)"
    "map h_hash (update_rows ?P ?f (handoffs d)) = map h_hash (handoffs d)"
    by (simp_all add: map_update_rows_id)
  have "key_unique (\<lambda>r. open_state (h_state r)) h_job h_id (update_rows ?P ?f (handoffs d))"
    by (rule key_unique_update) (use wf in \<open>simp_all add: wf_db_def wf_handoffs_def open_state_def\<close>)
  moreover have "key_unique (\<lambda>r. h_state r = HStarting) h_starting_by h_id (update_rows ?P ?f (handoffs d))"
    unfolding key_unique_def
  proof (intro ballI impI)
    fix a b assume "a \<in> set (update_rows ?P ?f (handoffs d))" "b \<in> set (update_rows ?P ?f (handoffs d))"
      and ab: "h_state a = HStarting \<and> h_state b = HStarting \<and> h_starting_by a = h_starting_by b"
    then obtain a0 b0 where a0: "a0 \<in> set (handoffs d)" "a = (if ?P a0 then ?f a0 else a0)"
      and b0: "b0 \<in> set (handoffs d)" "b = (if ?P b0 then ?f b0 else b0)"
      by (auto simp: set_update_rows)
    have ku: "key_unique (\<lambda>r. h_state r = HStarting) h_starting_by h_id (handoffs d)"
      using wf by (simp add: wf_db_def wf_handoffs_def)
    have old: "h_id a0 = h_id b0" if "\<not> ?P a0" "\<not> ?P b0"
    proof -
      from that a0(2) b0(2) have "a = a0" "b = b0" by presburger+
      with ab a0(1) b0(1) show ?thesis using key_uniqueD [OF ku, of a0 b0] by simp
    qed
    show "h_id a = h_id b"
    proof (cases "?P a0"; cases "?P b0")
      assume "?P a0" "\<not> ?P b0"
      with a0 b0 ab have "h_state b0 = HStarting" "h_starting_by b0 = Some client" by auto
      with alone b0(1) have "h_id b0 = hid" by blast
      with a0(2) b0(2) \<open>?P a0\<close> \<open>\<not> ?P b0\<close> show ?thesis by simp
    next
      assume "\<not> ?P a0" "?P b0"
      with a0 b0 ab have "h_state a0 = HStarting" "h_starting_by a0 = Some client" by auto
      with alone a0(1) have "h_id a0 = hid" by blast
      with a0(2) b0(2) \<open>\<not> ?P a0\<close> \<open>?P b0\<close> show ?thesis by simp
    qed (use a0 b0 old in auto)
  qed
  moreover have "wf_handoff_row (?f r)" if "wf_handoff_row r" "h_state r = HPending" for r
    using that by (simp add: wf_handoff_row_def open_state_def)
  then have "\<forall>r \<in> set (handoffs d2). wf_handoff_row r \<and> h_job r \<in> set (map j_id (jobs d2))"
    using wf by (auto simp: wf_db_def wf_handoffs_def d2 set_update_rows)
  ultimately have "wf_handoffs d2"
    using wf ids by (simp add: wf_db_def wf_handoffs_def d2)
  moreover have "\<forall>r \<in> set (update_rows ?P ?f (handoffs d)).
      open_state (h_state r) \<longrightarrow> h_job r \<notin> set (map l_job (leases d))"
    by (intro ball_update_rows)
       (use wf in \<open>auto simp: wf_db_def wf_exclusive_def open_state_def simp del: set_map\<close>)
  then have "wf_exclusive d2" by (simp add: wf_exclusive_def d2)
  ultimately show ?thesis
    using wf by (simp add: wf_db_def wf_jobs_def wf_leases_def wf_operations_def d2)
qed

lemma wf_reserve:
  assumes wf: "wf_db d" and r: "reserve_reentry c t now d = Inr (i, d')"
  shows "wf_db d'"
proof -
  let ?d1 = "expire_open_handoffs now d"
  note wf1 = wf_expire_open [OF wf, of now]
  from r show ?thesis
    by (auto simp: reserve_reentry_def op_simps wf1 dest: wf_starting [OF wf1])
qed

lemma wf_reopen:
  assumes "wf_db d"
  shows "wf_db (d\<lparr>handoffs := update_rows (\<lambda>q. h_id q = hid \<and> h_state q = HStarting \<and> h_starting_by q = c)
           reopen_handoff (handoffs d)\<rparr>)"
  by (rule wf_handoffs_rewrite [OF assms,
        where P = "\<lambda>q. h_id q = hid \<and> h_state q = HStarting \<and> h_starting_by q = c" and f = reopen_handoff])
     (simp_all add: reopen_handoff_def wf_handoff_row_def open_state_def)

lemma wf_release_reentry:
  "wf_db d \<Longrightarrow> release_reentry c h now d = Inr (r, d') \<Longrightarrow> wf_db d'"
  unfolding release_reentry_def
  by (auto simp: op_simps wf_expire_open intro!: wf_reopen)

lemma wf_pending_reentries: "wf_db d \<Longrightarrow> pending_reentries now d = Inr (r, d') \<Longrightarrow> wf_db d'"
  by (auto simp: pending_reentries_def Let_def wf_expire_open)

lemma wf_continuation: "wf_db d \<Longrightarrow> continuation j now d = Inr (r, d') \<Longrightarrow> wf_db d'"
  by (auto simp: continuation_def op_simps wf_expire)

lemmas wf_operation =
  wf_create_job wf_get_job wf_acquire_lease wf_renew_lease wf_release_lease wf_update_job
  wf_create_handoff wf_claim_handoff wf_start_operation wf_finish_operation wf_pairing wf_consume
  wf_authenticate wf_reserve wf_release_reentry wf_pending_reentries wf_continuation

end
