(* ===== verification/HarnessHistory.thy ===== *)
theory HarnessHistory
  imports HarnessInvariants
begin

text \<open>
  The service as a machine: \<open>call\<close> is one operation with its arguments and the random values it
  draws, \<open>run_call\<close> the committed database after it. The order \<open>db_le\<close> says what a database never
  takes back, and the interpretation \<open>harness\<close> of \<open>ordered_machine\<close> lifts the invariant and the
  order to every sequence of calls at any clock readings.
\<close>

datatype call =
    CreateJob json str str str "str \<Rightarrow> str option"
  | GetJob json
  | AcquireLease json json json str
  | RenewLease lease_token json
  | ReleaseLease lease_token
  | UpdateJob lease_token int "(str \<times> str option) list"
  | CreateHandoff lease_token json str str
  | ClaimHandoff json json json json str
  | StartOperation lease_token json json "str option" "str option" str
  | FinishOperation lease_token str str "json option"
  | CreatePairingCode json str
  | ConsumePairingCode json json str
  | AuthenticateBrowser json
  | ReserveReentry json json
  | ReleaseReentry json json
  | PendingReentries
  | Continuation json

definition forget :: "herror + 'a \<times> db \<Rightarrow> herror + unit \<times> db" where
  "forget m = bindE m (\<lambda>(_, d). Inr ((), d))"

fun exec_call :: "(str \<Rightarrow> str) \<Rightarrow> call \<Rightarrow> real \<Rightarrow> db \<Rightarrow> herror + unit \<times> db" where
  "exec_call sha (CreateJob a t g l c) now d = forget (create_job a t g l c now d)"
| "exec_call sha (GetJob a) now d = forget (get_job a now d)"
| "exec_call sha (AcquireLease a h t f) now d = forget (acquire_lease a h t f now d)"
| "exec_call sha (RenewLease tok t) now d = forget (renew_lease tok t now d)"
| "exec_call sha (ReleaseLease tok) now d = forget (release_lease tok now d)"
| "exec_call sha (UpdateJob tok v cs) now d = forget (update_job tok v cs now d)"
| "exec_call sha (CreateHandoff tok t f n) now d = forget (create_handoff sha tok t f n now d)"
| "exec_call sha (ClaimHandoff a n h t f) now d = forget (claim_handoff sha a n h t f now d)"
| "exec_call sha (StartOperation tok k kd tg ef f) now d = forget (start_operation tok k kd tg ef f now d)"
| "exec_call sha (FinishOperation tok oid st res) now d = forget (finish_operation tok oid st res now d)"
| "exec_call sha (CreatePairingCode t f) now d = forget (create_pairing_code sha t f now d)"
| "exec_call sha (ConsumePairingCode c cl f) now d = forget (consume_pairing_code sha c cl f now d)"
| "exec_call sha (AuthenticateBrowser t) now d = forget (authenticate_browser sha t now d)"
| "exec_call sha (ReserveReentry c t) now d = forget (reserve_reentry c t now d)"
| "exec_call sha (ReleaseReentry c h) now d = forget (release_reentry c h now d)"
| "exec_call sha PendingReentries now d = forget (pending_reentries now d)"
| "exec_call sha (Continuation j) now d = forget (continuation j now d)"

definition run_call :: "(str \<Rightarrow> str) \<Rightarrow> call \<times> real \<Rightarrow> db \<Rightarrow> db" where
  "run_call sha cn d = snd (transaction (exec_call sha (fst cn) (snd cn)) d)"

lemma forget_Inr [simp]: "forget m = Inr (u, d') \<longleftrightarrow> (\<exists>x. m = Inr (x, d'))"
  by (auto simp: forget_def bindE_eq_Inr)

lemma run_call_cases:
  obtains "run_call sha (c, now) d = d" "\<exists>e. exec_call sha c now d = Inl e"
  | d' where "run_call sha (c, now) d = d'" "exec_call sha c now d = Inr ((), d')"
  by (cases "exec_call sha c now d") (auto simp: run_call_def transaction_def)

lemma wf_exec_call: "wf_db d \<Longrightarrow> exec_call sha c now d = Inr ((), d') \<Longrightarrow> wf_db d'"
  by (cases c) (auto intro: wf_operation)

lemma wf_run_call: "wf_db d \<Longrightarrow> wf_db (run_call sha cn d)"
  by (cases cn, rule run_call_cases [of sha "fst cn" "snd cn" d]) (auto intro: wf_exec_call)

subsection \<open>What is never taken back\<close>

definition job_le :: "job_row \<Rightarrow> job_row \<Rightarrow> bool" where
  "job_le j j' = (j_id j' = j_id j \<and> j_generation j \<le> j_generation j' \<and> j_version j \<le> j_version j'
     \<and> (terminal (j_lifecycle j) \<longrightarrow> j' = j))"

definition handoff_le :: "handoff_row \<Rightarrow> handoff_row \<Rightarrow> bool" where
  "handoff_le r r' = (h_id r' = h_id r \<and> h_job r' = h_job r \<and> h_hash r' = h_hash r
     \<and> h_expires r' = h_expires r \<and> (\<not> open_state (h_state r) \<longrightarrow> r' = r))"

definition op_le :: "op_row \<Rightarrow> op_row \<Rightarrow> bool" where
  "op_le r r' = (o_id r' = o_id r \<and> o_job r' = o_job r \<and> o_key r' = o_key r \<and> o_kind r' = o_kind r
     \<and> o_target r' = o_target r \<and> o_effect r' = o_effect r
     \<and> (\<not> unresolved (o_status r) \<longrightarrow> r' = r) \<and> (o_status r = Indeterminate \<longrightarrow> o_status r' \<noteq> Started))"

definition db_le :: "db \<Rightarrow> db \<Rightarrow> bool" where
  "db_le d d' = (rows_le job_le (jobs d) (jobs d') \<and> rows_le handoff_le (handoffs d) (handoffs d')
     \<and> rows_le op_le (operations d) (operations d') \<and> prefix (events d) (events d'))"

lemma row_le_refl [simp]: "job_le j j" "handoff_le r r" "op_le q q"
  by (simp_all add: job_le_def handoff_le_def op_le_def)

lemma row_le_trans:
  "job_le a b \<Longrightarrow> job_le b c \<Longrightarrow> job_le a c"
  "handoff_le r s \<Longrightarrow> handoff_le s t \<Longrightarrow> handoff_le r t"
  "op_le x y \<Longrightarrow> op_le y z \<Longrightarrow> op_le x z"
  by (auto simp: job_le_def handoff_le_def op_le_def unresolved_def)

lemma db_le_refl [simp]: "db_le d d"
  by (simp add: db_le_def rows_le_refl)

lemma db_le_trans: "db_le a b \<Longrightarrow> db_le b c \<Longrightarrow> db_le a c"
  unfolding db_le_def by (meson rows_le_trans row_le_trans prefix_order.trans)

lemma log_event_le [simp]: "db_le d (log_event jid t p now d)"
  by (simp add: db_le_def rows_le_refl log_event_def)

lemma log_event_le_trans: "db_le d d' \<Longrightarrow> db_le d (log_event jid t p now d')"
  by (rule db_le_trans [OF _ log_event_le])

lemma fold_log_events: "prefix (events d) (events (fold (\<lambda>r. log_event (f r) (t r) (p r) now) rs d))"
proof (induction rs arbitrary: d)
  case (Cons r rs)
  have "prefix (events d) (events (log_event (f r) (t r) (p r) now d))" by (simp add: log_event_def)
  from prefix_order.trans [OF this Cons.IH] show ?case by simp
qed simp

lemma expire_row_le: "handoff_le r (expire_row jid now r)"
  by (auto simp: handoff_le_def expire_row_def lapsed_handoff_def stale_start_def open_state_def
      close_handoff_def reopen_handoff_def)

lemma expire_events: "prefix (events d) (events (expire jid now d))"
proof -
  have "prefix (events d) (events (expire_lease jid now d))"
    by (auto simp: expire_lease_def log_event_def split: option.splits)
  moreover have "prefix (events d1) (events (expire_handoffs jid now d1))" for d1
    unfolding expire_handoffs_def Let_def by (rule prefix_order.trans [OF _ fold_log_events]) simp
  moreover have "prefix (events d1) (events (expire_starts jid now d1))" for d1
    unfolding expire_starts_def Let_def by (rule prefix_order.trans [OF _ fold_log_events]) simp
  ultimately show ?thesis unfolding expire_def using prefix_order.trans by blast
qed

lemma expire_le [simp]: "db_le d (expire jid now d)"
  by (simp add: db_le_def rows_le_refl handoffs_expire rows_le_map expire_row_le expire_events)

lemma fold_expire_le: "db_le d (fold (\<lambda>jid. expire jid now) ids d)"
proof (induction ids arbitrary: d)
  case (Cons i ids)
  from db_le_trans [OF expire_le Cons.IH] show ?case by simp
qed simp

lemma expire_open_le [simp]: "db_le d (expire_open_handoffs now d)"
  by (simp add: expire_open_handoffs_def fold_expire_le)

subsection \<open>Every call moves forward\<close>

lemma renew_row_le [simp]: "db_le d (renew_row jid e now d)"
  by (simp add: db_le_def rows_le_refl renew_row_def)

lemma drop_lease_le [simp]: "db_le d (drop_lease jid d)"
  by (simp add: db_le_def rows_le_refl drop_lease_def)

lemma insert_le:
  "insert_job j d = Inr d' \<Longrightarrow> db_le d d'"
  "insert_lease l d = Inr d' \<Longrightarrow> db_le d d'"
  "insert_handoff h d = Inr d' \<Longrightarrow> db_le d d'"
  "insert_operation q d = Inr d' \<Longrightarrow> db_le d d'"
  by (auto simp: insert_job_def insert_lease_def insert_handoff_def insert_operation_def db_le_def
      rows_le_refl rows_le_append split: if_splits)

lemma side_tables_le [simp]:
  "db_le d (d\<lparr>pairing_codes := p\<rparr>)" "db_le d (d\<lparr>browser_tokens := b\<rparr>)" "db_le d (d\<lparr>protocol_requests := q\<rparr>)"
  by (simp_all add: db_le_def rows_le_refl)

lemma handoffs_update_le:
  assumes "\<And>r. r \<in> set (handoffs d) \<Longrightarrow> P r \<Longrightarrow> handoff_le r (f r)"
  shows "db_le d (d\<lparr>handoffs := update_rows P f (handoffs d)\<rparr>)"
  by (simp add: db_le_def rows_le_refl rows_le_update assms)

text \<open>The row of a nonterminal job may move on; by uniqueness it is the only row of its identifier.\<close>

lemma jobs_update_le:
  assumes wf: "wf_db d" and j: "job_of d jid = Some j" "\<not> terminal (j_lifecycle j)"
    and P: "\<And>r. P r \<Longrightarrow> j_id r = jid"
    and f: "j_id (f j) = jid" "j_generation j \<le> j_generation (f j)" "j_version j \<le> j_version (f j)"
  shows "db_le d (d\<lparr>jobs := update_rows P f (jobs d)\<rparr>)"
proof -
  have "job_le r (f r)" if "r \<in> set (jobs d)" "P r" for r
  proof -
    have "j \<in> set (jobs d)" "j_id j = jid" using job_of_Some [OF j(1)] by auto
    with that P have "r = j" using wf_job_unique [OF wf, of r j] by simp
    with f j \<open>j_id j = jid\<close> show ?thesis by (simp add: job_le_def)
  qed
  then show ?thesis by (simp add: db_le_def rows_le_refl rows_le_update)
qed

lemma bump_le:
  assumes "wf_db d" "job_of d jid = Some j" "\<not> terminal (j_lifecycle j)"
    and "gen = None \<or> (\<exists>g. gen = Some g \<and> j_generation j \<le> g)"
  shows "db_le d (bump_job jid gen now d)"
  unfolding bump_job_def
  by (rule jobs_update_le [OF assms(1-3)]) (use assms(4) job_of_Some [OF assms(2)] in auto)

lemma insert_lease_keeps:
  "insert_lease l d = Inr d' \<Longrightarrow> jobs d' = jobs d"
  by (auto simp: insert_lease_def split: if_splits)

text \<open>The chain rules: each write after a forward move is a forward move.\<close>

lemma chain_log: "db_le d d' \<Longrightarrow> db_le d (log_event jid t p now d')"
  and chain_expire: "db_le d d' \<Longrightarrow> db_le d (expire jid now d')"
  and chain_renew: "db_le d d' \<Longrightarrow> db_le d (renew_row jid e now d')"
  and chain_drop: "db_le d d' \<Longrightarrow> db_le d (drop_lease jid d')"
  by (erule db_le_trans, simp)+

lemma chain_insert:
  "insert_lease l d' = Inr d2 \<Longrightarrow> db_le d d' \<Longrightarrow> db_le d d2"
  "insert_handoff h d' = Inr d2 \<Longrightarrow> db_le d d' \<Longrightarrow> db_le d d2"
  "insert_operation q d' = Inr d2 \<Longrightarrow> db_le d d' \<Longrightarrow> db_le d d2"
  "insert_job j d' = Inr d2 \<Longrightarrow> db_le d d' \<Longrightarrow> db_le d d2"
  by (blast intro: insert_le db_le_trans)+

lemma chain_bump:
  assumes "db_le d d'" "jobs d' = jobs d" "wf_db d" "job_of d jid = Some j" "\<not> terminal (j_lifecycle j)"
    and "gen = None \<or> (\<exists>g. gen = Some g \<and> j_generation j \<le> g)"
  shows "db_le d (bump_job jid gen now d')"
proof (rule db_le_trans [OF assms(1)])
  from bump_le [OF assms(3-6), of now] show "db_le d' (bump_job jid gen now d')"
    by (simp add: db_le_def bump_job_def rows_le_refl assms(2))
qed

lemmas chain = chain_log chain_expire chain_renew chain_drop chain_insert

lemma create_job_le: "create_job a t g l c now d = Inr (r, d') \<Longrightarrow> db_le d d'"
  unfolding create_job_def by (auto simp: op_simps intro!: chain_log intro: chain_insert)

lemma get_job_le: "get_job a now d = Inr (r, d') \<Longrightarrow> db_le d d'"
  unfolding get_job_def by (auto simp: op_simps)

lemma acquire_lease_le: "wf_db d \<Longrightarrow> acquire_lease a h t f now d = Inr (r, d') \<Longrightarrow> db_le d d'"
  unfolding acquire_lease_def
  by (auto simp: op_simps insert_lease_keeps intro!: chain_log chain_renew chain_bump intro: chain_insert)

lemma renew_lease_le: "renew_lease tok t now d = Inr (r, d') \<Longrightarrow> db_le d d'"
  unfolding renew_lease_def by (auto simp: op_simps intro!: chain_log chain_renew)

lemma release_lease_le: "release_lease tok now d = Inr (r, d') \<Longrightarrow> db_le d d'"
  unfolding release_lease_def by (auto simp: op_simps intro!: chain_log chain_drop)

lemma set_columns_version: "set_columns cs r = Inr r' \<Longrightarrow> j_version r' = j_version r"
proof (induction cs r rule: set_columns.induct)
  case (2 name v cs r)
  then show ?case by (auto simp: bindE_eq_Inr set_column_def split: if_splits option.splits)
qed simp

lemma update_job_le:
  assumes wf: "wf_db d" and upd: "update_job tok v cs now d = Inr (r, d')"
  shows "db_le d d'"
proof -
  let ?jid = "lt_job_id tok" and ?d1 = "expire (lt_job_id tok) now d"
  let ?P = "\<lambda>r. j_id r = ?jid \<and> j_version r = v"
  from upd obtain j j' fs where j: "job_of d ?jid = Some j" "\<not> terminal (j_lifecycle j)"
    and v: "j_version j = v" and j': "set_columns cs j = Inr j'"
    and d': "d' = log_event ?jid ''job_updated'' fs now (?d1\<lparr>jobs := update_rows ?P
                        (\<lambda>r. j'\<lparr>j_version := j_version r + 1, j_updated := now\<rparr>) (jobs ?d1)\<rparr>)"
    unfolding update_job_def by (auto simp: op_simps)
  have "db_le ?d1 (?d1\<lparr>jobs := update_rows ?P
                        (\<lambda>r. j'\<lparr>j_version := j_version r + 1, j_updated := now\<rparr>) (jobs ?d1)\<rparr>)"
    by (rule jobs_update_le [OF wf_expire [OF wf], where jid = ?jid and j = j])
       (use j set_columns_keeps [OF j'] job_of_Some [OF j(1)] in auto)
  then show ?thesis unfolding d' by (intro chain_log) (rule db_le_trans [OF expire_le])
qed

lemma create_handoff_le:
  assumes wf: "wf_db d" and c: "create_handoff sha tok t f n now d = Inr (r, d')"
  shows "db_le d d'"
proof -
  have keeps: "jobs (drop_lease jid d2) = jobs d1" if "insert_handoff h d1 = Inr d2" for jid h d1 d2
    using that by (auto simp: insert_handoff_def drop_lease_def split: if_splits)
  from wf c show ?thesis
    unfolding create_handoff_def
    by (auto simp: op_simps keeps intro!: chain_log chain_bump chain_drop intro: chain_insert)
qed

lemma claim_handoff_le:
  assumes wf: "wf_db d" and c: "claim_handoff sha a n h t f now d = Inr (r, d')"
  shows "db_le d d'"
proof -
  have claim: "db_le d (d1\<lparr>handoffs := update_rows (\<lambda>r. h_id r = i \<and> open_state (h_state r)) (claim_row ho now) (handoffs d1)\<rparr>)"
    if "db_le d d1" for d1 i ho
    by (rule db_le_trans [OF that handoffs_update_le]) (simp add: handoff_le_def claim_row_def close_handoff_def)
  from wf c show ?thesis
    unfolding claim_handoff_def
    by (auto simp: op_simps insert_lease_keeps intro!: chain_log chain_bump claim intro: chain_insert(1))
qed

lemma start_operation_le: "start_operation tok k kd tg ef f now d = Inr (r, d') \<Longrightarrow> db_le d d'"
  unfolding start_operation_def by (auto simp: op_simps intro!: chain_log intro: chain_insert)

lemma write_status_le:
  assumes "unresolved previous" and "previous = Indeterminate \<longrightarrow> st \<noteq> Started"
  shows "db_le d (write_status oid previous st res now d)"
  unfolding write_status_def db_le_def
  using assms by (auto simp: rows_le_refl op_le_def intro!: rows_le_update)

lemma status_of_not_started: "status_of s = Some st \<Longrightarrow> st \<noteq> Started"
  by (auto simp: status_of_def split: if_splits)

lemma chain_write:
  assumes "db_le d d'" and "unresolved previous" and "previous = Indeterminate \<longrightarrow> st \<noteq> Started"
  shows "db_le d (write_status oid previous st res now d')"
  by (rule db_le_trans [OF assms(1) write_status_le [OF assms(2,3)]])

lemma finish_operation_le: "finish_operation tok oid st res now d = Inr (r, d') \<Longrightarrow> db_le d d'"
  unfolding finish_operation_def
  by (auto simp: op_simps unresolved_iff status_of_not_started split: if_splits
      intro!: chain_log chain_write)

lemma pairing_le: "create_pairing_code sha t f now d = Inr (r, d') \<Longrightarrow> db_le d d'"
  unfolding create_pairing_code_def by (auto simp: op_simps)

lemma consume_le: "consume_pairing_code sha c cl f now d = Inr (r, d') \<Longrightarrow> db_le d d'"
  unfolding consume_pairing_code_def
  by (auto simp: op_simps insert_browser_def db_le_def rows_le_refl split: if_splits)

lemma authenticate_le: "authenticate_browser sha t now d = Inr (r, d') \<Longrightarrow> db_le d d'"
  unfolding authenticate_browser_def by (auto simp: op_simps)

lemma starting_le: "starting_handoff c now u hid d = Inr d2 \<Longrightarrow> db_le d d2"
  by (auto simp: starting_handoff_def handoff_le_def open_state_def intro!: handoffs_update_le split: if_splits)

lemma chain_starting: "starting_handoff c now u hid d1 = Inr d2 \<Longrightarrow> db_le d d1 \<Longrightarrow> db_le d d2"
  by (blast intro: starting_le db_le_trans)

lemma chain_reopen:
  assumes "db_le d d1"
  shows "db_le d (d1\<lparr>handoffs := update_rows (\<lambda>q. h_id q = hid \<and> h_state q = HStarting \<and> h_starting_by q = c)
           reopen_handoff (handoffs d1)\<rparr>)"
  by (rule db_le_trans [OF assms handoffs_update_le]) (simp add: handoff_le_def reopen_handoff_def open_state_def)

lemma reserve_le: "reserve_reentry c t now d = Inr (r, d') \<Longrightarrow> db_le d d'"
  unfolding reserve_reentry_def
  by (auto simp: op_simps intro!: chain_log intro: chain_starting)

lemma release_reentry_le: "release_reentry c h now d = Inr (r, d') \<Longrightarrow> db_le d d'"
  unfolding release_reentry_def
  by (auto simp: op_simps intro!: chain_log chain_reopen)

lemma reading_le:
  "pending_reentries now d = Inr (r, d') \<Longrightarrow> db_le d d'"
  "continuation j now d = Inr (v, d') \<Longrightarrow> db_le d d'"
  by (auto simp: pending_reentries_def continuation_def op_simps)

lemmas operation_le =
  create_job_le get_job_le acquire_lease_le renew_lease_le release_lease_le update_job_le
  create_handoff_le claim_handoff_le start_operation_le finish_operation_le pairing_le consume_le
  authenticate_le reserve_le release_reentry_le reading_le

lemma exec_call_le: "wf_db d \<Longrightarrow> exec_call sha c now d = Inr ((), d') \<Longrightarrow> db_le d d'"
  by (cases c) (auto intro: operation_le)

lemma run_call_le: "wf_db d \<Longrightarrow> db_le d (run_call sha cn d)"
  by (cases cn, rule run_call_cases [of sha "fst cn" "snd cn" d]) (auto intro: exec_call_le)

interpretation harness: ordered_machine "run_call sha" wf_db db_le for sha
  by unfold_locales (auto intro: wf_run_call run_call_le db_le_trans)

end
