(* ===== verification/HarnessGuarantees.thy ===== *)
theory HarnessGuarantees
  imports HarnessHistory
begin

text \<open>
  What the harness promises its users, stated over \<open>history\<close>: the database after any sequence of
  calls, with any arguments, drawn identifiers and clock readings, from the empty database. The
  proofs rest on the interpretation \<open>harness\<close> (invariant and order of every run).
\<close>

definition history :: "(str \<Rightarrow> str) \<Rightarrow> (call \<times> real) list \<Rightarrow> db" where
  "history sha cs = fold (run_call sha) cs empty_db"

lemma wf_history: "wf_db (history sha cs)"
  unfolding history_def by (rule harness.run_inv [OF wf_empty])

lemma history_append: "history sha (cs @ ds) = fold (run_call sha) ds (history sha cs)"
  by (simp add: history_def)

lemma wf_later: "wf_db d \<Longrightarrow> wf_db (fold (run_call sha) ds d)"
  by (rule harness.run_inv)

lemma later_le: "wf_db d \<Longrightarrow> db_le d (fold (run_call sha) ds d)"
  by (rule harness.run_le)

text \<open>Rows found again in a later database.\<close>

lemma later_job:
  assumes "wf_db d" "j \<in> set (jobs d)"
  obtains j' where "j' \<in> set (jobs (fold (run_call sha) ds d))" "job_le j j'"
  using later_le [OF assms(1)] assms(2) unfolding db_le_def rows_le_def by blast

lemma later_handoff:
  assumes "wf_db d" "r \<in> set (handoffs d)"
  obtains r' where "r' \<in> set (handoffs (fold (run_call sha) ds d))" "handoff_le r r'"
  using later_le [OF assms(1)] assms(2) unfolding db_le_def rows_le_def by blast

lemma later_op:
  assumes "wf_db d" "r \<in> set (operations d)"
  obtains r' where "r' \<in> set (operations (fold (run_call sha) ds d))" "op_le r r'"
  using later_le [OF assms(1)] assms(2) unfolding db_le_def rows_le_def by blast

lemma find_row_key:
  assumes "distinct (map k rows)" "r \<in> set rows"
  shows "find_row (\<lambda>q. k q = k r) rows = Some r"
  using assms by (induction rows) (auto simp: image_iff)

lemma job_of_unique: "wf_db d \<Longrightarrow> j \<in> set (jobs d) \<Longrightarrow> job_of d (j_id j) = Some j"
  by (simp add: job_of_def find_row_key wf_db_def wf_jobs_def)

lemma length_filter_le_one:
  assumes "distinct (map k rows)" and "\<And>r q. r \<in> set rows \<Longrightarrow> q \<in> set rows \<Longrightarrow> P r \<Longrightarrow> P q \<Longrightarrow> k r = k q"
  shows "length (filter P rows) \<le> 1"
proof (rule ccontr)
  assume "\<not> length (filter P rows) \<le> 1"
  then obtain a b xs where f: "filter P rows = a # b # xs"
    by (metis One_nat_def length_Cons list.size(3) neq_Nil_conv order_refl zero_le_one)
  have "{a, b} \<subseteq> set (filter P rows)" unfolding f by simp
  then have ab: "a \<in> set rows" "b \<in> set rows" "P a" "P b" by auto
  with assms(2) have "k a = k b" by blast
  moreover have "distinct (map k (filter P rows))" using assms(1) by (rule distinct_map_filter)
  ultimately show False by (simp add: f)
qed

lemma job_held_once:
  assumes "wf_db d"
  shows "length (filter (\<lambda>l. l_job l = jid) (leases d))
       + length (filter (\<lambda>r. h_job r = jid \<and> open_state (h_state r)) (handoffs d)) \<le> 1"
proof -
  have l: "length (filter (\<lambda>l. l_job l = jid) (leases d)) \<le> 1"
    by (rule length_filter_le_one [where k = l_job]) (use assms in \<open>simp_all add: wf_db_def wf_leases_def\<close>)
  have h: "length (filter (\<lambda>r. h_job r = jid \<and> open_state (h_state r)) (handoffs d)) \<le> 1"
    by (rule length_filter_le_one [where k = h_id])
       (use assms in \<open>auto simp: wf_db_def wf_handoffs_def dest: key_uniqueD\<close>)
  show ?thesis
  proof (cases "filter (\<lambda>l. l_job l = jid) (leases d)")
    case (Cons l ls)
    then have "l \<in> set (filter (\<lambda>l. l_job l = jid) (leases d))" by simp
    then have "jid \<in> set (map l_job (leases d))" by auto
    then have "filter (\<lambda>r. h_job r = jid \<and> open_state (h_state r)) (handoffs d) = []"
      using assms by (auto simp: wf_db_def wf_exclusive_def filter_empty_conv simp del: set_map)
    with l show ?thesis by simp
  qed (use h in simp)
qed

lemma one_unresolved:
  assumes "wf_db d"
  shows "length (filter (\<lambda>r. o_job r = jid \<and> unresolved (o_status r)) (operations d)) \<le> 1"
  by (rule length_filter_le_one [where k = o_id])
     (use assms in \<open>auto simp: wf_db_def wf_operations_def dest: key_uniqueD\<close>)

text \<open>C5: After any history, a job is held by at most one party: the number of its leases and of its
  open (pending or starting) handoffs together is at most one, and it has at most one unresolved
  (started or indeterminate) operation.\<close>

theorem harness_single_holder:
  "length (filter (\<lambda>l. l_job l = jid) (leases (history sha cs)))
     + length (filter (\<lambda>r. h_job r = jid \<and> open_state (h_state r)) (handoffs (history sha cs))) \<le> 1
   \<and> length (filter (\<lambda>r. o_job r = jid \<and> unresolved (o_status r)) (operations (history sha cs))) \<le> 1"
  using job_held_once [OF wf_history] one_unresolved [OF wf_history] by blast

subsection \<open>Fencing\<close>

fun call_token :: "call \<Rightarrow> lease_token option" where
  "call_token (RenewLease tok _) = Some tok"
| "call_token (ReleaseLease tok) = Some tok"
| "call_token (UpdateJob tok _ _) = Some tok"
| "call_token (CreateHandoff tok _ _ _) = Some tok"
| "call_token (StartOperation tok _ _ _ _ _) = Some tok"
| "call_token (FinishOperation tok _ _ _) = Some tok"
| "call_token _ = None"

lemma lease_generation:
  assumes wf: "wf_db d" and j: "job_of d jid = Some j" and l: "lease_of (expire jid now d) jid = Some l"
  shows "l_generation l = j_generation j"
proof -
  from lease_of_Some [OF l] have "l \<in> set (leases (expire jid now d))" "l_job l = jid" by auto
  with wf_expire [OF wf, of jid now] obtain j' where "j' \<in> set (jobs d)" "j_id j' = jid" "j_generation j' = l_generation l"
    by (auto simp: wf_db_def wf_leases_def)
  with job_of_Some [OF j] wf_job_unique [OF wf, of j j'] show ?thesis by simp
qed

lemma token_call_refused:
  assumes "call_token c = Some tok"
    and "\<And>l. lease_of (expire (lt_job_id tok) now d) (lt_job_id tok) = Some l \<Longrightarrow> l_generation l \<noteq> lt_generation tok"
  shows "run_call sha (c, now) d = d"
proof (rule run_call_cases [of sha c now d])
  fix d' assume "exec_call sha c now d = Inr ((), d')"
  with assms show ?thesis
    by (cases c)
       (auto simp: op_simps renew_lease_def release_lease_def update_job_def create_handoff_def
         start_operation_def finish_operation_def)
qed


text \<open>A short history used to exercise the guarantees: a job is created, leased twice in a row (the
  lease of the first holder lapses), and handed off. \<open>rev\<close> stands for the digest.\<close>

definition demo_token :: "int \<Rightarrow> str \<Rightarrow> lease_token" where
  "demo_token g lid = \<lparr>lt_job_id = ''job-1'', lt_lease_id = lid, lt_holder_id = ''h'', lt_generation = g, lt_expires_at = 0\<rparr>"

definition demo_nonce :: str where
  "demo_nonce = replicate 32 (CHR ''n'')"

definition demo_calls :: "(call \<times> real) list" where
  "demo_calls = [(CreateJob (JStr ''job-1'') ''t'' ''g'' ''active'' no_cols, 0),
     (AcquireLease (JStr ''job-1'') (JStr ''h1'') (JInt 10) ''l1'', 1),
     (AcquireLease (JStr ''job-1'') (JStr ''h2'') (JInt 100) ''l2'', 20)]"


subsection \<open>At most once\<close>

definition succeeds :: "(str \<Rightarrow> str) \<Rightarrow> call \<Rightarrow> real \<Rightarrow> db \<Rightarrow> bool" where
  "succeeds sha c now d = (case exec_call sha c now d of Inl _ \<Rightarrow> False | Inr _ \<Rightarrow> True)"

lemma succeedsE:
  assumes "succeeds sha c now d"
  obtains d' where "exec_call sha c now d = Inr ((), d')" "run_call sha (c, now) d = d'"
  using assms by (auto simp: succeeds_def run_call_def transaction_def split: sum.splits)

lemma succeeds_forget: "exec_call sha c now d = forget m \<Longrightarrow> succeeds sha c now d \<longleftrightarrow> (\<exists>x d'. m = Inr (x, d'))"
  by (auto simp: succeeds_def forget_def bindE_def split: sum.splits prod.splits)

lemma history_call: "history sha (cs @ cn # ds) = fold (run_call sha) ds (run_call sha cn (history sha cs))"
  by (simp add: history_def)

lemma claim_closes_row:
  assumes "claim_handoff sha a (JStr n) h t f now d = Inr (tok, d')"
  shows "\<exists>r \<in> set (handoffs d'). h_hash r = sha n \<and> h_state r = HClaimed"
proof -
  have in_table: "claim_row ho now r \<in> set (update_rows (\<lambda>q. h_id q = h_id r \<and> open_state (h_state q)) (claim_row ho now) rows)"
    if "r \<in> set rows" "open_state (h_state r)" for r ho rows
    using that unfolding set_update_rows by force
  have keeps: "handoffs (bump_job jid g now d3) = handoffs d2" if "insert_lease l d2 = Inr d3" for jid g l d2 d3
    using that by (auto simp: insert_lease_def bump_job_def split: if_splits)
  from assms show ?thesis
    unfolding claim_handoff_def
    by (auto simp: op_simps keeps claimable_def dest!: find_row_Some intro!: bexI [OF _ in_table])
qed

lemma closed_hash_refused:
  assumes wf: "wf_db d" and r: "r \<in> set (handoffs d)" "h_hash r = sha n" "\<not> open_state (h_state r)"
  shows "claim_handoff sha a (JStr n) h t f now d \<noteq> Inr (tok, d')"
proof
  assume c: "claim_handoff sha a (JStr n) h t f now d = Inr (tok, d')"
  then obtain jid q where q: "q \<in> set (handoffs (expire jid now d))" "h_hash q = sha n" "open_state (h_state q)"
    unfolding claim_handoff_def by (auto simp: op_simps claimable_def dest!: find_row_Some)
  then obtain q' where q': "q' \<in> set (handoffs d)" "q = expire_row jid now q'" by (auto simp: handoffs_expire)
  with q r have "q' = r"
    using wf distinct_map_key [of h_hash "handoffs d" q' r] by (simp add: wf_db_def wf_handoffs_def)
  with q q' r show False using expire_row_open by blast
qed

text \<open>C24: A handoff nonce is spent by its first successful claim: no later claim with it succeeds,
  for any job, holder, time and calls in between.\<close>

theorem handoff_nonce_single_use:
  assumes "succeeds sha (ClaimHandoff a (JStr n) h t f) now (history sha cs)"
  shows "\<not> succeeds sha (ClaimHandoff a' (JStr n) h' t' f') now'
            (history sha (cs @ (ClaimHandoff a (JStr n) h t f, now) # ds))"
proof -
  let ?c = "ClaimHandoff a (JStr n) h t f"
  obtain d' where d': "exec_call sha ?c now (history sha cs) = Inr ((), d')" "run_call sha (?c, now) (history sha cs) = d'"
    by (rule succeedsE [OF assms])
  then obtain tok where "claim_handoff sha a (JStr n) h t f now (history sha cs) = Inr (tok, d')" by auto
  then obtain r where r: "r \<in> set (handoffs d')" "h_hash r = sha n" "h_state r = HClaimed"
    using claim_closes_row by blast
  have wf: "wf_db d'" using wf_run_call [OF wf_history] d'(2) by metis
  obtain r' where "r' \<in> set (handoffs (fold (run_call sha) ds d'))" "handoff_le r r'"
    using later_handoff [OF wf r(1)] by blast
  with r have "r \<in> set (handoffs (fold (run_call sha) ds d'))" by (simp add: handoff_le_def open_state_def)
  with r have "claim_handoff sha a' (JStr n) h' t' f' now' (fold (run_call sha) ds d') \<noteq> Inr (tok', d2)" for tok' d2
    by (intro closed_hash_refused [OF wf_later [OF wf]]) (auto simp: open_state_def)
  then show ?thesis by (simp add: succeeds_forget history_call d'(2))
qed

definition demo_handoff :: "(call \<times> real) list" where
  "demo_handoff = demo_calls @ [(CreateHandoff (demo_token 2 ''l2'') (JInt 500) ''hd-1'' demo_nonce, 21)]"

theorem handoff_nonce_single_use_witness:
  "\<not> succeeds rev (ClaimHandoff (JStr ''job-1'') (JStr demo_nonce) (JStr ''h4'') (JInt 50) ''l4'') 40
       (history rev (demo_handoff @ (ClaimHandoff (JStr ''job-1'') (JStr demo_nonce) (JStr ''h3'') (JInt 50) ''l3'', 30) # []))"
  by (rule handoff_nonce_single_use) code_simp

lemma start_leaves_row:
  assumes "start_operation tok (JStr k) kd tg ef f now d = Inr (r, d')"
  shows "\<exists>q \<in> set (operations d'). o_job q = lt_job_id tok \<and> o_key q = k"
  using assms unfolding start_operation_def
  by (auto simp: op_simps validate_token_def insert_operation_def split: if_splits dest!: find_row_Some)

lemma start_finds_row:
  assumes "q \<in> set (operations d)" "o_job q = lt_job_id tok" "o_key q = k"
    and "start_operation tok (JStr k) kd tg ef f now d = Inr ((created, r), d')"
  shows "\<not> created \<and> o_key r = k \<and> operations d' = operations d"
  using assms unfolding start_operation_def
  by (auto simp: op_simps validate_token_def find_row_None split: if_splits dest!: find_row_Some)



subsection \<open>What stays as it is\<close>

definition is_terminal_job :: "db \<Rightarrow> str \<Rightarrow> bool" where
  "is_terminal_job d jid = (case job_of d jid of None \<Rightarrow> False | Some j \<Rightarrow> terminal (j_lifecycle j))"

definition is_finished_op :: "db \<Rightarrow> str \<Rightarrow> bool" where
  "is_finished_op d oid =
     (case find_row (\<lambda>r. o_id r = oid) (operations d) of None \<Rightarrow> False | Some r \<Rightarrow> \<not> unresolved (o_status r))"

text \<open>A job that reached a terminal lifecycle is frozen: no later call changes any column of its
  row, so no token, version or field update ever applies to it again.\<close>

theorem terminal_job_frozen:
  assumes "is_terminal_job (history sha cs) jid"
  shows "job_of (history sha (cs @ ds)) jid = job_of (history sha cs) jid"
proof -
  from assms obtain j where j: "job_of (history sha cs) jid = Some j" "terminal (j_lifecycle j)"
    by (auto simp: is_terminal_job_def split: option.splits)
  then have "j \<in> set (jobs (history sha cs))" "j_id j = jid" using job_of_Some by blast+
  then obtain j' where j': "j' \<in> set (jobs (history sha (cs @ ds)))" "job_le j j'"
    using later_job [OF wf_history] by (metis history_append)
  with j(2) have "j' = j" by (simp add: job_le_def)
  with j' \<open>j_id j = jid\<close> job_of_unique [OF wf_history, of j' sha "cs @ ds"] j(1) show ?thesis by simp
qed

theorem terminal_job_frozen_witness:
  "job_of (history rev ((demo_calls @ [(UpdateJob (demo_token 2 ''l2'') 3 [(''lifecycle'', Some ''failed'')], 30)])
       @ [(AcquireLease (JStr ''job-1'') (JStr ''h1'') (JInt 10) ''l9'', 500)])) ''job-1''
   = job_of (history rev (demo_calls @ [(UpdateJob (demo_token 2 ''l2'') 3 [(''lifecycle'', Some ''failed'')], 30)])) ''job-1''"
  by (rule terminal_job_frozen) code_simp

text \<open>A finished (completed or failed) operation is a fixed record: its status, result and every
  other column are the same in every later database.\<close>

theorem finished_operation_immutable:
  assumes "is_finished_op (history sha cs) oid"
  shows "find_row (\<lambda>r. o_id r = oid) (operations (history sha (cs @ ds)))
       = find_row (\<lambda>r. o_id r = oid) (operations (history sha cs))"
proof -
  from assms obtain r where r: "find_row (\<lambda>r. o_id r = oid) (operations (history sha cs)) = Some r" "\<not> unresolved (o_status r)"
    by (auto simp: is_finished_op_def split: option.splits)
  from find_row_Some [OF r(1)] have "r \<in> set (operations (history sha cs))" "o_id r = oid" by auto
  then obtain r' where r': "r' \<in> set (operations (history sha (cs @ ds)))" "op_le r r'"
    using later_op [OF wf_history] by (metis history_append)
  with r(2) have "r' = r" by (simp add: op_le_def)
  with r' \<open>o_id r = oid\<close> have "find_row (\<lambda>q. o_id q = oid) (operations (history sha (cs @ ds))) = Some r"
    using find_row_key [of o_id "operations (history sha (cs @ ds))" r] wf_history [of sha "cs @ ds"]
    by (simp add: wf_db_def wf_operations_def)
  with r(1) show ?thesis by simp
qed

definition demo_finished :: "(call \<times> real) list" where
  "demo_finished = demo_calls @ [(StartOperation (demo_token 2 ''l2'') (JStr ''k1'') (JStr ''push'') None None ''op1'', 30),
     (FinishOperation (demo_token 2 ''l2'') ''op1'' ''completed'' (Some (JInt 0)), 31)]"

theorem finished_operation_immutable_witness:
  "find_row (\<lambda>r. o_id r = ''op1'') (operations (history rev
       (demo_finished @ [(FinishOperation (demo_token 2 ''l2'') ''op1'' ''failed'' None, 32)])))
   = find_row (\<lambda>r. o_id r = ''op1'') (operations (history rev demo_finished))"
  by (rule finished_operation_immutable) code_simp

text \<open>The event log is append-only: the log of a history is a prefix of the log of each of its
  extensions.\<close>

theorem event_log_append_only: "prefix (events (history sha cs)) (events (history sha (cs @ ds)))"
  using later_le [OF wf_history [of sha cs], of sha ds] by (simp add: db_le_def history_append)

lemma update_job_version:
  assumes "update_job tok v cs now d = Inr (r, d')"
  shows "\<exists>j \<in> set (jobs d'). j_id j = lt_job_id tok \<and> j_version j = v + 1"
proof -
  from assms obtain j j' where j: "job_of d (lt_job_id tok) = Some j" "j_version j = v"
    and j': "set_columns cs j = Inr j'"
    and d': "jobs d' = update_rows (\<lambda>r. j_id r = lt_job_id tok \<and> j_version r = v)
                         (\<lambda>r. j'\<lparr>j_version := j_version r + 1, j_updated := now\<rparr>) (jobs d)"
    unfolding update_job_def by (auto simp: op_simps)
  have "j'\<lparr>j_version := j_version j + 1, j_updated := now\<rparr> \<in> set (jobs d')"
    unfolding d' set_update_rows using j job_of_Some [OF j(1)] by force
  then show ?thesis
    using j(2) job_of_Some [OF j(1)] set_columns_keeps [OF j'] by (metis job_row.select_convs(1,2) job_row.surjective job_row.update_convs(2,9))
qed

lemma update_job_expects:
  assumes "wf_db d" "j \<in> set (jobs d)" "j_id j = lt_job_id tok" "j_version j \<noteq> v"
  shows "update_job tok v cs now d \<noteq> Inr (r, d')"
  using assms job_of_unique [OF assms(1,2)] unfolding update_job_def
  by (auto simp: op_simps)

text \<open>Optimistic concurrency: an expected version is consumed by the first update that it admits;
  no later update of the job with the same expected version succeeds, by whatever token.\<close>

theorem version_consumed:
  assumes "succeeds sha (UpdateJob tok v us) now (history sha cs)" and "lt_job_id tok' = lt_job_id tok"
  shows "\<not> succeeds sha (UpdateJob tok' v us') now' (history sha (cs @ (UpdateJob tok v us, now) # ds))"
proof -
  let ?c = "UpdateJob tok v us"
  obtain d1 where d1: "exec_call sha ?c now (history sha cs) = Inr ((), d1)" "run_call sha (?c, now) (history sha cs) = d1"
    by (rule succeedsE [OF assms(1)])
  then obtain j where j: "j \<in> set (jobs d1)" "j_id j = lt_job_id tok" "j_version j = v + 1"
    using update_job_version by fastforce
  have wf: "wf_db d1" using wf_run_call [OF wf_history] d1(2) by metis
  obtain j' where j': "j' \<in> set (jobs (fold (run_call sha) ds d1))" "job_le j j'"
    using later_job [OF wf j(1)] by blast
  with j assms(2) have "j_id j' = lt_job_id tok'" "j_version j' \<noteq> v" by (simp_all add: job_le_def)
  from update_job_expects [OF wf_later [OF wf] j'(1) this] show ?thesis
    by (simp add: succeeds_forget history_call d1(2))
qed

theorem version_consumed_witness:
  "\<not> succeeds rev (UpdateJob (demo_token 2 ''l2'') 3 [(''goal'', Some ''y'')]) 31
       (history rev (demo_calls @ (UpdateJob (demo_token 2 ''l2'') 3 [(''goal'', Some ''x'')], 30) # []))"
  by (rule version_consumed [where tok = "demo_token 2 ''l2''"]) code_simp+

subsection \<open>Pairing codes\<close>

text \<open>The pairing codes and the protocol journal are side tables: only their own operations write them.\<close>

definition same_side :: "db \<Rightarrow> db \<Rightarrow> bool" where
  "same_side d d' = (pairing_codes d' = pairing_codes d \<and> protocol_requests d' = protocol_requests d)"

lemma fold_expire_side [simp]:
  "pairing_codes (fold (\<lambda>jid. expire jid now) ids d) = pairing_codes d"
  "protocol_requests (fold (\<lambda>jid. expire jid now) ids d) = protocol_requests d"
proof -
  have "pairing_codes (expire jid now d) = pairing_codes d" "protocol_requests (expire jid now d) = protocol_requests d" for jid d
    by (simp_all add: expire_def expire_starts_def expire_handoffs_def expire_lease_def Let_def split: option.splits)
  then show "pairing_codes (fold (\<lambda>jid. expire jid now) ids d) = pairing_codes d"
    "protocol_requests (fold (\<lambda>jid. expire jid now) ids d) = protocol_requests d"
    by (induction ids arbitrary: d) auto
qed

lemma side_tables [simp]:
  "pairing_codes (expire jid now d) = pairing_codes d" "protocol_requests (expire jid now d) = protocol_requests d"
  "pairing_codes (expire_open_handoffs now d) = pairing_codes d"
  "protocol_requests (expire_open_handoffs now d) = protocol_requests d"
  "pairing_codes (bump_job jid g now d) = pairing_codes d" "protocol_requests (bump_job jid g now d) = protocol_requests d"
  "pairing_codes (renew_row jid e now d) = pairing_codes d" "protocol_requests (renew_row jid e now d) = protocol_requests d"
  "pairing_codes (drop_lease jid d) = pairing_codes d" "protocol_requests (drop_lease jid d) = protocol_requests d"
  "pairing_codes (write_status oid p st res now d) = pairing_codes d"
  "protocol_requests (write_status oid p st res now d) = protocol_requests d"
  using fold_expire_side [of now "[jid]" d]
  by (simp_all add: expire_open_handoffs_def bump_job_def renew_row_def drop_lease_def write_status_def)

lemma side_inserts:
  "insert_job j d = Inr d' \<Longrightarrow> pairing_codes d' = pairing_codes d \<and> protocol_requests d' = protocol_requests d"
  "insert_lease l d = Inr d' \<Longrightarrow> pairing_codes d' = pairing_codes d \<and> protocol_requests d' = protocol_requests d"
  "insert_handoff h d = Inr d' \<Longrightarrow> pairing_codes d' = pairing_codes d \<and> protocol_requests d' = protocol_requests d"
  "insert_operation q d = Inr d' \<Longrightarrow> pairing_codes d' = pairing_codes d \<and> protocol_requests d' = protocol_requests d"
  "insert_browser b d = Inr d' \<Longrightarrow> pairing_codes d' = pairing_codes d \<and> protocol_requests d' = protocol_requests d"
  "starting_handoff c now u hid d = Inr d' \<Longrightarrow> pairing_codes d' = pairing_codes d \<and> protocol_requests d' = protocol_requests d"
  by (auto simp: insert_job_def insert_lease_def insert_handoff_def insert_operation_def insert_browser_def
      starting_handoff_def split: if_splits)

lemma side_jobs:
  "create_job a t g l c now d = Inr (r, d') \<Longrightarrow> same_side d d'"
  "get_job a now d = Inr (r, d') \<Longrightarrow> same_side d d'"
  "update_job tok v cs now d = Inr (r, d') \<Longrightarrow> same_side d d'"
  unfolding create_job_def get_job_def update_job_def same_side_def by (auto simp: op_simps dest!: side_inserts)

lemma side_leases:
  "acquire_lease a h t f now d = Inr (r1, d') \<Longrightarrow> same_side d d'"
  "renew_lease tok t now d = Inr (r2, d') \<Longrightarrow> same_side d d'"
  "release_lease tok now d = Inr (r3, d') \<Longrightarrow> same_side d d'"
  "create_handoff sha tok t f n now d = Inr (r4, d') \<Longrightarrow> same_side d d'"
  "claim_handoff sha a j h t f now d = Inr (r5, d') \<Longrightarrow> same_side d d'"
  unfolding acquire_lease_def renew_lease_def release_lease_def create_handoff_def claim_handoff_def same_side_def
  by (auto simp: op_simps dest!: side_inserts)

lemma side_operations:
  "start_operation tok k kd tg ef f now d = Inr (r1, d') \<Longrightarrow> same_side d d'"
  "finish_operation tok oid st res now d = Inr (r2, d') \<Longrightarrow> same_side d d'"
  "authenticate_browser sha t now d = Inr (r3, d') \<Longrightarrow> same_side d d'"
  "reserve_reentry c t now d = Inr (r4, d') \<Longrightarrow> same_side d d'"
  "release_reentry c h now d = Inr (r5, d') \<Longrightarrow> same_side d d'"
  "pending_reentries now d = Inr (r6, d') \<Longrightarrow> same_side d d'"
  "continuation j now d = Inr (r7, d') \<Longrightarrow> same_side d d'"
  unfolding start_operation_def finish_operation_def authenticate_browser_def reserve_reentry_def
    release_reentry_def pending_reentries_def continuation_def same_side_def
  by (auto simp: op_simps split: if_splits dest!: side_inserts)

lemmas side_operation = side_jobs side_leases side_operations

definition spent_code :: "(str \<Rightarrow> str) \<Rightarrow> str \<Rightarrow> db \<Rightarrow> bool" where
  "spent_code sha c d = (\<forall>r \<in> set (pairing_codes d). p_hash r = sha c \<longrightarrow> p_used r \<noteq> None)"

definition redraws :: "(str \<Rightarrow> str) \<Rightarrow> str \<Rightarrow> call \<Rightarrow> bool" where
  "redraws sha c k = (case k of CreatePairingCode _ f \<Rightarrow> sha f = sha c | _ \<Rightarrow> False)"

lemma consume_pairing:
  assumes "consume_pairing_code sha c cl f now d = Inr (r, d')"
  shows "pairing_codes d' = pairing_codes d \<or> (\<exists>h. pairing_codes d' =
           update_rows (\<lambda>q. p_hash q = h \<and> p_used q = None) (\<lambda>q. q\<lparr>p_used := Some now\<rparr>) (pairing_codes d))"
  using assms unfolding consume_pairing_code_def by (auto simp: op_simps dest!: side_inserts)

lemma other_calls_pairing:
  assumes "exec_call sha k now d = Inr ((), d')"
    and "\<And>t f. k \<noteq> CreatePairingCode t f" "\<And>a b f. k \<noteq> ConsumePairingCode a b f"
  shows "pairing_codes d' = pairing_codes d"
  using assms by (cases k) (auto simp: same_side_def dest!: side_operation)

lemma spent_update:
  "spent_code sha c d \<Longrightarrow> pairing_codes d' = update_rows P (\<lambda>q. q\<lparr>p_used := Some now\<rparr>) (pairing_codes d)
     \<Longrightarrow> spent_code sha c d'"
  unfolding spent_code_def by (simp, intro ball_update_rows) simp_all

lemma spent_step:
  assumes "spent_code sha c d" "\<not> redraws sha c k"
  shows "spent_code sha c (run_call sha (k, now) d)"
proof (rule run_call_cases [of sha k now d])
  fix d' assume d': "run_call sha (k, now) d = d'" and ex: "exec_call sha k now d = Inr ((), d')"
  consider t f where "k = CreatePairingCode t f" | a b f where "k = ConsumePairingCode a b f"
    | "\<And>t f. k \<noteq> CreatePairingCode t f" "\<And>a b f. k \<noteq> ConsumePairingCode a b f" by blast
  then have "spent_code sha c d'"
  proof cases
    case 1
    with ex assms(2) show ?thesis
      by (auto simp: create_pairing_code_def op_simps spent_code_def redraws_def)
  next
    case (2 a b f)
    with ex obtain r where "consume_pairing_code sha a b f now d = Inr (r, d')" by auto
    then consider "pairing_codes d' = pairing_codes d"
      | h where "pairing_codes d' = update_rows (\<lambda>q. p_hash q = h \<and> p_used q = None) (\<lambda>q. q\<lparr>p_used := Some now\<rparr>) (pairing_codes d)"
      using consume_pairing by blast
    then show ?thesis using assms(1) by cases (simp add: spent_code_def, rule spent_update)
  next
    case 3
    from other_calls_pairing [OF ex this] assms(1) show ?thesis by (simp add: spent_code_def)
  qed
  then show ?thesis by (simp add: d')
qed (use assms in simp)

lemma spent_run:
  "spent_code sha c d \<Longrightarrow> \<forall>k \<in> set ds. \<not> redraws sha c (fst k) \<Longrightarrow> spent_code sha c (fold (run_call sha) ds d)"
proof (induction ds arbitrary: d)
  case (Cons k ds)
  then have "spent_code sha c (run_call sha k d)" using spent_step [of sha c d "fst k" "snd k"] by simp
  with Cons show ?case by simp
qed simp

lemma consume_spends:
  assumes "consume_pairing_code sha (JStr c) cl f now d = Inr (r, d')"
  shows "spent_code sha c d'"
proof -
  have "pairing_codes d' = update_rows (\<lambda>q. p_hash q = sha c \<and> p_used q = None) (\<lambda>q. q\<lparr>p_used := Some now\<rparr>) (pairing_codes d)"
    using assms unfolding consume_pairing_code_def by (auto simp: op_simps split: if_splits dest!: side_inserts)
  then show ?thesis unfolding spent_code_def by (simp, intro ball_update_rows) auto
qed

lemma spent_refused: "spent_code sha c d \<Longrightarrow> consume_pairing_code sha (JStr c) cl f now d \<noteq> Inr (r, d')"
  unfolding consume_pairing_code_def spent_code_def by (auto simp: op_simps dest!: find_row_Some)

text \<open>A pairing code admits one browser: once consumed it is refused for ever, as long as the
  random source does not draw a code with the same digest again.\<close>

theorem pairing_code_single_use:
  assumes "succeeds sha (ConsumePairingCode (JStr c) cl f) now (history sha cs)"
    and "list_all (\<lambda>k. \<not> redraws sha c (fst k)) ds"
  shows "\<not> succeeds sha (ConsumePairingCode (JStr c) cl' f') now'
            (history sha (cs @ (ConsumePairingCode (JStr c) cl f, now) # ds))"
proof -
  let ?c = "ConsumePairingCode (JStr c) cl f"
  obtain d1 where d1: "exec_call sha ?c now (history sha cs) = Inr ((), d1)" "run_call sha (?c, now) (history sha cs) = d1"
    by (rule succeedsE [OF assms(1)])
  then have "spent_code sha c d1" by (auto dest: consume_spends)
  then have "spent_code sha c (fold (run_call sha) ds d1)" using assms(2) by (intro spent_run) (auto simp: list_all_iff)
  from spent_refused [OF this] show ?thesis by (simp add: succeeds_forget history_call d1(2))
qed

theorem pairing_code_single_use_witness:
  "\<not> succeeds rev (ConsumePairingCode (JStr ''code-0001'') (JStr ''phone'') ''tok2'') 9
       (history rev ([(CreatePairingCode (JInt 600) ''code-0001'', 0)]
          @ (ConsumePairingCode (JStr ''code-0001'') (JStr ''safari'') ''tok1'', 5) # [(CreatePairingCode (JInt 600) ''code-0002'', 6)]))"
  by (rule pairing_code_single_use) code_simp+

subsection \<open>Tokens, reservations and read models\<close>

definition token_current :: "db \<Rightarrow> lease_token \<Rightarrow> bool" where
  "token_current d tok =
     ((case lease_of d (lt_job_id tok) of None \<Rightarrow> False
       | Some l \<Rightarrow> l_id l = lt_lease_id tok \<and> l_holder l = lt_holder_id tok
                 \<and> l_generation l = lt_generation tok \<and> l_expires l = lt_expires_at tok)
      \<and> (case job_of d (lt_job_id tok) of None \<Rightarrow> False | Some j \<Rightarrow> j_generation j = lt_generation tok))"

lemma find_row_update:
  assumes "find_row P rows = Some r" and "\<And>q. P (f q) = P q"
  shows "find_row P (update_rows P f rows) = Some (f r)"
  using assms(1) by (induction rows) (auto simp: assms(2) split: if_splits)

lemma token_current_renewed:
  assumes "wf_db d" "lease_of d jid = Some l"
  shows "token_current (log_event jid t p now (renew_row jid e now d))
           \<lparr>lt_job_id = jid, lt_lease_id = l_id l, lt_holder_id = l_holder l, lt_generation = l_generation l, lt_expires_at = e\<rparr>"
proof -
  from lease_of_Some [OF assms(2)] have l: "l \<in> set (leases d)" "l_job l = jid" by auto
  with assms(1) obtain j where j: "j \<in> set (jobs d)" "j_id j = jid" "j_generation j = l_generation l"
    by (auto simp: wf_db_def wf_leases_def)
  have "job_of d jid = Some j" using job_of_unique [OF assms(1) j(1)] j(2) by simp
  moreover have "lease_of (renew_row jid e now d) jid = Some (l\<lparr>l_expires := e, l_heartbeat := now\<rparr>)"
    using find_row_update [of "\<lambda>r. l_job r = jid" "leases d" l "\<lambda>r. r\<lparr>l_expires := e, l_heartbeat := now\<rparr>"] assms(2)
    by (simp add: lease_of_def renew_row_def)
  ultimately show ?thesis
    using j(3) by (simp add: token_current_def lease_of_def job_of_def renew_row_def)
qed

lemma token_current_granted:
  assumes wf: "wf_db d" and j: "job_of d jid = Some j" and free: "lease_of d jid = None"
    and tabs: "leases d1 = leases d" "jobs d1 = jobs d"
    and ins: "insert_lease (new_lease jid lid ho g now e) d1 = Inr d2"
  shows "token_current (log_event jid t p now (bump_job jid (Some g) now d2))
           \<lparr>lt_job_id = jid, lt_lease_id = lid, lt_holder_id = ho, lt_generation = g, lt_expires_at = e\<rparr>"
proof -
  have d2: "leases d2 = leases d @ [new_lease jid lid ho g now e]" "jobs d2 = jobs d"
    using ins tabs by (auto simp: insert_lease_def split: if_splits)
  have "find_row (\<lambda>r. l_job r = jid) (leases d2) = Some (new_lease jid lid ho g now e)"
    using free by (simp add: d2 find_row_append lease_of_def new_lease_def)
  moreover have "find_row (\<lambda>r. j_id r = jid) (jobs (bump_job jid (Some g) now d2)) =
      Some (j\<lparr>j_generation := g, j_version := j_version j + 1, j_updated := now\<rparr>)"
    using find_row_update [of "\<lambda>r. j_id r = jid" "jobs d2" j
        "\<lambda>r. r\<lparr>j_generation := g, j_version := j_version r + 1, j_updated := now\<rparr>"] j
    by (simp add: bump_job_def d2 job_of_def)
  ultimately show ?thesis
    by (simp add: token_current_def lease_of_def job_of_def new_lease_def bump_job_def)
qed

lemma token_current_at_expiry:
  assumes "wf_db d"
  shows "job_of d jid = Some j \<Longrightarrow> lease_of (expire jid now d) jid = None
           \<Longrightarrow> insert_lease (new_lease jid lid ho g now e) d1 = Inr d2
           \<Longrightarrow> leases d1 = leases (expire jid now d) \<Longrightarrow> jobs d1 = jobs d
           \<Longrightarrow> token_current (log_event jid t p now (bump_job jid (Some g) now d2))
                 \<lparr>lt_job_id = jid, lt_lease_id = lid, lt_holder_id = ho, lt_generation = g, lt_expires_at = e\<rparr>"
    and "lease_of (expire jid now d) jid = Some l
           \<Longrightarrow> token_current (log_event jid t p now (renew_row jid e now (expire jid now d)))
                 \<lparr>lt_job_id = jid, lt_lease_id = l_id l, lt_holder_id = l_holder l, lt_generation = l_generation l, lt_expires_at = e\<rparr>"
  using token_current_granted [OF wf_expire [OF assms, of jid now], of jid j d1]
    token_current_renewed [OF wf_expire [OF assms, of jid now], of jid l] by simp_all

text \<open>A token that \<open>acquire_lease\<close> or \<open>claim_handoff\<close> returns is the lease on record: identifier,
  holder, generation and expiry agree with the lease row, and the generation with the job row.\<close>

theorem granted_token_current:
  "(case acquire_lease a h t f now (history sha cs) of Inl _ \<Rightarrow> True | Inr (tok, d') \<Rightarrow> token_current d' tok)
   \<and> (case claim_handoff sha a n h t f now (history sha cs) of Inl _ \<Rightarrow> True | Inr (tok, d') \<Rightarrow> token_current d' tok)"
proof -
  have "token_current d' tok" if "acquire_lease a h t f now (history sha cs) = Inr (tok, d')" for tok d'
    using that unfolding acquire_lease_def
    by (auto simp: op_simps intro: token_current_at_expiry [OF wf_history])
  moreover have "token_current d' tok" if "claim_handoff sha a n h t f now (history sha cs) = Inr (tok, d')" for tok d'
    using that unfolding claim_handoff_def
    by (auto simp: op_simps intro: token_current_at_expiry [OF wf_history])
  ultimately show ?thesis by (auto split: sum.split)
qed

lemma first_by_mem: "first_by f rs = Some r \<Longrightarrow> r \<in> set rs"
  by (induction rs arbitrary: r) (auto split: option.splits if_splits)

lemma first_by_None: "first_by f rs = None \<longleftrightarrow> rs = []"
  by (cases rs) (auto split: option.splits)

text \<open>A live reservation survives the expiry sweep.\<close>

definition reserved_row :: "str \<Rightarrow> str \<Rightarrow> real \<Rightarrow> db \<Rightarrow> handoff_row \<Rightarrow> bool" where
  "reserved_row client hid u d r =
     (r \<in> set (handoffs d) \<and> h_id r = hid \<and> h_state r = HStarting \<and> h_starting_by r = Some client
      \<and> h_starting_expires r = Some u \<and> job_of d (h_job r) \<noteq> None)"

lemma expire_keeps_reserved:
  assumes "now < u" "now < h_expires r" "h_starting_expires r = Some u"
  shows "expire_row jid now r = r"
  using assms by (simp add: expire_row_def lapsed_handoff_def stale_start_def)

lemma reserved_expire:
  "reserved_row c hid u d r \<Longrightarrow> now < u \<Longrightarrow> now < h_expires r \<Longrightarrow> reserved_row c hid u (expire jid now d) r"
  unfolding reserved_row_def by (force simp: handoffs_expire expire_keeps_reserved)

lemma reserved_expire_open:
  assumes "reserved_row c hid u d r" "now < u" "now < h_expires r"
  shows "reserved_row c hid u (expire_open_handoffs now d) r"
proof -
  have "reserved_row c hid u (fold (\<lambda>jid. expire jid now) ids d) r" for ids
    using assms by (induction ids arbitrary: d) (auto intro: reserved_expire)
  then show ?thesis by (simp add: expire_open_handoffs_def)
qed

lemma join_item_Cons: "join_item d fl r = i # is \<Longrightarrow> hi_handoff_id i = h_id r \<and> hi_new_reservation i = fl
    \<and> hi_expires_at i = h_expires r \<and> (fl \<noteq> None \<longrightarrow> hi_starting_expires_at i = h_starting_expires r)"
  by (auto simp: join_item_def handoff_item_of_def split: option.splits)

lemma reserve_gives_row:
  assumes wf: "wf_db d" and r: "reserve_reentry (JStr c) t now d = Inr (Some i, d')"
  shows "\<exists>u r. reserved_row c (hi_handoff_id i) u d' r \<and> hi_starting_expires_at i = Some u \<and> hi_expires_at i = h_expires r"
proof -
  let ?d1 = "expire_open_handoffs now d"
  have own: "\<exists>u r. reserved_row c (hi_handoff_id i) u ?d1 r \<and> hi_starting_expires_at i = Some u \<and> hi_expires_at i = h_expires r"
    if "first_by start_key (filter (\<lambda>r. own_reservation c now r \<and> joined ?d1 r) (handoffs ?d1)) = Some r"
      "join_item ?d1 (Some False) r = i # is" for r "is"
    using first_by_mem [OF that(1)] join_item_Cons [OF that(2)]
    by (auto simp: own_reservation_def joined_def reserved_row_def split: option.splits)
  have new: "\<exists>u r. reserved_row c (hi_handoff_id i) u (log_event j ty p now d2) r \<and> hi_starting_expires_at i = Some u \<and> hi_expires_at i = h_expires r"
    if sel: "first_by h_created (filter (\<lambda>r. available now r \<and> joined ?d1 r) (handoffs ?d1)) = Some q"
      and st: "starting_handoff c now un (h_id q) ?d1 = Inr d2"
      and fr: "find_row (\<lambda>x. h_id x = h_id q) (handoffs (log_event j ty p now d2)) = Some r"
      and ji: "join_item (log_event j ty p now d2) (Some True) r = i # is" for q un d2 j ty p r "is"
  proof -
    from first_by_mem [OF sel] have q: "q \<in> set (handoffs ?d1)" "h_state q = HPending" by (auto simp: available_def)
    from find_row_Some [OF fr] have r: "r \<in> set (handoffs d2)" "h_id r = h_id q" by auto
    have d2: "d2 = ?d1\<lparr>handoffs := update_rows (\<lambda>x. h_id x = h_id q \<and> h_state x = HPending)
        (\<lambda>x. x\<lparr>h_state := HStarting, h_starting_by := Some c, h_starting_at := Some now, h_starting_expires := Some un\<rparr>) (handoffs ?d1)\<rparr>"
      using st by (auto simp: starting_handoff_def split: if_splits)
    from r(1) obtain x where x: "x \<in> set (handoffs ?d1)"
      "r = (if h_id x = h_id q \<and> h_state x = HPending then x\<lparr>h_state := HStarting, h_starting_by := Some c,
              h_starting_at := Some now, h_starting_expires := Some un\<rparr> else x)"
      unfolding d2 by (auto simp: set_update_rows)
    with r(2) have "h_id x = h_id q" by (auto split: if_splits)
    with x q have "x = q" using wf_expire_open [OF wf, of now] distinct_map_key [of h_id "handoffs ?d1" x q]
      by (simp add: wf_db_def wf_handoffs_def)
    with x q have "r = q\<lparr>h_state := HStarting, h_starting_by := Some c, h_starting_at := Some now, h_starting_expires := Some un\<rparr>" by simp
    moreover have "job_of (log_event j ty p now d2) (h_job r) \<noteq> None"
      using ji by (auto simp: join_item_def split: option.splits)
    ultimately show ?thesis using join_item_Cons [OF ji] r(1) by (auto simp: reserved_row_def job_of_def)
  qed
  from r show ?thesis
    unfolding reserve_reentry_def
    by (auto simp: op_simps validate_token_def split: if_splits dest!: own new)
qed

lemma reserve_outcome:
  assumes "reserve_reentry (JStr b) t now d = Inr (res, d')" and d1: "d1 = expire_open_handoffs now d"
  obtains q i where "q \<in> set (handoffs d1)" "own_reservation b now q" "res = Some i" "hi_handoff_id i = h_id q"
  | q i where "filter (\<lambda>r. own_reservation b now r \<and> joined d1 r) (handoffs d1) = []"
      "q \<in> set (handoffs d1)" "available now q" "res = Some i" "hi_handoff_id i = h_id q"
  | "filter (\<lambda>r. own_reservation b now r \<and> joined d1 r) (handoffs d1) = []" "res = None"
proof -
  have join_Nil: "join_item d1 fl q = [] \<longleftrightarrow> \<not> joined d1 q" for fl q
    by (auto simp: join_item_def joined_def split: option.splits)
  show thesis
    using assms(1) unfolding reserve_reentry_def d1 [symmetric] Let_def
    by (auto simp: bindE_eq_Inr case_option_Inr if_Inl_Inr case_list_Inr validate_token_def first_by_None join_Nil
        split: if_splits dest!: first_by_mem find_row_Some join_item_Cons intro: that)
qed

text \<open>A browser reservation is exclusive and repeatable: while the start window of a reservation
  is open, another reservation request returns the same handoff exactly to the client that holds
  it, and that client never gets "nothing pending".\<close>

theorem reservation_exclusive:
  "case reserve_reentry (JStr a) t now (history sha cs) of
     Inl _ \<Rightarrow> True
   | Inr (None, _) \<Rightarrow> True
   | Inr (Some i, d') \<Rightarrow>
       (case hi_starting_expires_at i of
          None \<Rightarrow> False
        | Some u \<Rightarrow> min u (hi_expires_at i) \<le> now' \<or>
            (case reserve_reentry (JStr b) t' now' d' of
               Inl _ \<Rightarrow> True
             | Inr (None, _) \<Rightarrow> b \<noteq> a
             | Inr (Some i', _) \<Rightarrow> (hi_handoff_id i' = hi_handoff_id i) = (b = a)))"
proof -
  have main: "(case res of None \<Rightarrow> b \<noteq> a | Some i' \<Rightarrow> (hi_handoff_id i' = hi_handoff_id i) = (b = a))"
    if r1: "reserve_reentry (JStr a) t now (history sha cs) = Inr (Some i, d')"
      and rr: "reserved_row a (hi_handoff_id i) u d' r" "now' < u" "now' < h_expires r"
      and r2: "reserve_reentry (JStr b) t' now' d' = Inr (res, d'')" for i d' u r res d''
  proof -
    let ?d = "expire_open_handoffs now' d'"
    have wf: "wf_db ?d" using wf_expire_open [OF wf_reserve [OF wf_history r1]] .
    from reserved_expire_open [OF rr] have r: "r \<in> set (handoffs ?d)" "h_id r = hi_handoff_id i"
      "h_state r = HStarting" "h_starting_by r = Some a" "h_starting_expires r = Some u" "joined ?d r"
      by (simp_all add: reserved_row_def joined_def)
    have same_row: "q = r" if "q \<in> set (handoffs ?d)" "h_id q = hi_handoff_id i" for q
      using that r wf distinct_map_key [of h_id "handoffs ?d" q r] by (simp add: wf_db_def wf_handoffs_def)
    have "h_secret r \<noteq> None" using wf r by (auto simp: wf_db_def wf_handoffs_def wf_handoff_row_def open_state_def)
    with r rr have own: "own_reservation a now' r" by (simp add: own_reservation_def)
    with r have nonempty: "filter (\<lambda>r. own_reservation b now' r \<and> joined ?d r) (handoffs ?d) = [] \<Longrightarrow> b \<noteq> a"
      by (auto simp: filter_empty_conv)
    show ?thesis
    proof (rule reserve_outcome [OF r2 refl])
      fix q i' assume q: "q \<in> set (handoffs ?d)" "own_reservation b now' q" "res = Some i'" "hi_handoff_id i' = h_id q"
      have "h_id q = hi_handoff_id i" if "b = a"
        using key_uniqueD [of "\<lambda>r. h_state r = HStarting" h_starting_by h_id "handoffs ?d" q r] q r wf that
        by (simp add: wf_db_def wf_handoffs_def own_reservation_def)
      moreover have "b = a" if "h_id q = hi_handoff_id i"
        using same_row [OF q(1) that] q(2) r(4) by (simp add: own_reservation_def)
      ultimately show ?thesis using q by auto
    next
      fix q i' assume q: "filter (\<lambda>r. own_reservation b now' r \<and> joined ?d r) (handoffs ?d) = []"
        "q \<in> set (handoffs ?d)" "available now' q" "res = Some i'" "hi_handoff_id i' = h_id q"
      then have "h_id q \<noteq> hi_handoff_id i" using same_row r(3) by (auto simp: available_def)
      with q nonempty show ?thesis by simp
    qed (use nonempty in simp)
  qed
  show ?thesis
  proof (cases "reserve_reentry (JStr a) t now (history sha cs)")
    case (Inr p)
    show ?thesis
    proof (cases "fst p")
      case (Some i)
      with Inr obtain d' where r1: "reserve_reentry (JStr a) t now (history sha cs) = Inr (Some i, d')" by (cases p) auto
      from reserve_gives_row [OF wf_history r1] obtain u r where
        ur: "reserved_row a (hi_handoff_id i) u d' r" "hi_starting_expires_at i = Some u" "hi_expires_at i = h_expires r" by blast
      have "min u (h_expires r) \<le> now' \<or> (case reserve_reentry (JStr b) t' now' d' of
               Inl _ \<Rightarrow> True | Inr (None, _) \<Rightarrow> b \<noteq> a | Inr (Some i', _) \<Rightarrow> (hi_handoff_id i' = hi_handoff_id i) = (b = a))"
      proof (cases "min u (h_expires r) \<le> now'")
        case False
        then have "now' < u" "now' < h_expires r" by auto
        from main [OF r1 ur(1) this] show ?thesis
          by (cases "reserve_reentry (JStr b) t' now' d'") (auto split: option.splits)
      qed simp
      with r1 ur show ?thesis by simp
    qed (use Inr in \<open>auto split: prod.split option.split\<close>)
  qed simp
qed

text \<open>What a continuation may reveal: \<open>sanitize\<close> blanks every column that holds a secret or a
  machine-local path: the nonces and their digests, the lease identifiers, \<open>repo_path\<close>, and the
  operation results.\<close>

definition sanitize :: "db \<Rightarrow> db" where
  "sanitize d = d\<lparr>jobs := map public_job (jobs d), leases := map (\<lambda>l. l\<lparr>l_id := []\<rparr>) (leases d),
     handoffs := map public_handoff (handoffs d), operations := map public_op (operations d)\<rparr>"

lemma find_row_map: "(\<And>r. P (f r) = P r) \<Longrightarrow> find_row P (map f rows) = map_option f (find_row P rows)"
  by (induction rows) auto

lemma filter_map_keep: "(\<And>r. P (f r) = P r) \<Longrightarrow> filter P (map f rows) = map f (filter P rows)"
  by (induction rows) auto

lemma latest_first_map: "(\<And>r. k (f r) = k r) \<Longrightarrow> latest_first k (map f rows) = map f (latest_first k rows)"
proof -
  assume k: "\<And>r. k (f r) = k r"
  have "insort_key (\<lambda>r. - k r) (f x) (map f xs) = map f (insort_key (\<lambda>r. - k r) x xs)" for x xs
    by (induction xs) (auto simp: k)
  then show ?thesis unfolding latest_first_def by (induction rows) simp_all
qed

lemma public_keeps [simp]:
  "j_id (public_job j) = j_id j" "h_job (public_handoff h) = h_job h" "h_created (public_handoff h) = h_created h"
  "o_job (public_op q) = o_job q" "o_created (public_op q) = o_created q"
  "public_job (public_job j) = public_job j" "public_handoff (public_handoff h) = public_handoff h"
  "public_op (public_op q) = public_op q"
  by (simp_all add: public_job_def public_handoff_def public_op_def)

lemma expire_row_public: "expire_row jid now (public_handoff r) = public_handoff (expire_row jid now r)"
  by (simp add: expire_row_def public_handoff_def lapsed_handoff_def stale_start_def close_handoff_def reopen_handoff_def)

lemma leases_sanitize:
  "leases (expire jid now (sanitize d)) = map (\<lambda>l. l\<lparr>l_id := []\<rparr>) (leases (expire jid now d))"
  by (simp add: leases_expire expire_lease_def lease_of_def sanitize_def find_row_map delete_rows_def
      filter_map_keep split: option.split)

text \<open>A continuation discloses no secret: its result is the same function of the sanitized
  database, so it depends on no nonce, digest, lease identifier, local path or operation result.\<close>

theorem continuation_discloses_nothing:
  "map_sum id fst (continuation jid now d) = map_sum id fst (continuation jid now (sanitize d))"
proof (cases "validate_token jid ''job_id''")
  case (Inr i)
  have jobs: "job_of (sanitize d) i = map_option public_job (job_of d i)"
    by (simp add: job_of_def sanitize_def find_row_map)
  have "lease_of (expire i now (sanitize d)) i = map_option (\<lambda>l. l\<lparr>l_id := []\<rparr>) (lease_of (expire i now d) i)"
    by (simp add: lease_of_def leases_sanitize find_row_map)
  moreover have "handoffs (expire i now (sanitize d)) = map public_handoff (handoffs (expire i now d))"
    by (simp add: handoffs_expire sanitize_def expire_row_public)
  moreover have "operations (sanitize d) = map public_op (operations d)" by (simp add: sanitize_def)
  ultimately show ?thesis
    using Inr jobs
    by (cases "job_of d i")
       (simp_all add: continuation_def get_job_row_def Let_def filter_map_keep latest_first_map take_map o_def
         option.map_comp list.case_distrib split: list.split)
qed (simp add: continuation_def)

definition fresh_for :: "(str \<Rightarrow> str) \<Rightarrow> db \<Rightarrow> str \<Rightarrow> str \<Rightarrow> bool" where
  "fresh_for sha d f n = (f \<notin> set (map l_id (leases d)) \<and> f \<notin> set (map h_id (handoffs d))
     \<and> f \<notin> set (map o_id (operations d)) \<and> sha n \<notin> set (map h_hash (handoffs d)))"

lemma validators_no_integrity [simp]:
  "validate_token v fl \<noteq> Inl IntegrityError" "validate_ttl v a b \<noteq> Inl IntegrityError"
  "get_job_row d jid \<noteq> Inl IntegrityError" "require_nonterminal j \<noteq> Inl IntegrityError"
  "require_no_unresolved d jid \<noteq> Inl IntegrityError" "require_lease jid lid g now d \<noteq> Inl IntegrityError"
  by (auto simp: validate_token_def validate_ttl_def get_job_row_def require_nonterminal_def guardE_def
      require_no_unresolved_def require_lease_def Let_def split: json.splits option.splits if_splits)

lemma job_known: "job_of d jid = Some j \<Longrightarrow> jid \<in> set (map j_id (jobs d))"
  using job_of_Some by fastforce

lemma fresh_after_expiry:
  assumes "fresh_for sha d f n"
  shows "f \<notin> set (map l_id (leases (expire jid now d)))" "f \<notin> set (map h_id (handoffs (expire jid now d)))"
    and "sha n \<notin> set (map h_hash (handoffs (expire jid now d)))"
  using assms leases_expire_subset [of jid now d] by (auto simp: fresh_for_def handoffs_expire)

lemmas raise_simps = bindE_eq_Inl Let_def

lemma acquire_no_integrity:
  assumes "fresh_for sha d f n" shows "acquire_lease a h t f now d \<noteq> Inl IntegrityError"
  using fresh_after_expiry(1) [OF assms] unfolding acquire_lease_def
  by (auto simp: raise_simps lease_of_None new_lease_def insert_lease_def simp del: set_map
      split: option.splits if_splits dest: job_known)

lemma claim_no_integrity:
  assumes "fresh_for sha d f n" shows "claim_handoff sha a n' h t f now d \<noteq> Inl IntegrityError"
  using fresh_after_expiry(1) [OF assms] unfolding claim_handoff_def
  by (auto simp: raise_simps lease_of_None new_lease_def insert_lease_def simp del: set_map
      split: option.splits if_splits json.splits dest: job_known)

lemma create_handoff_no_integrity:
  assumes "fresh_for sha d f n" shows "create_handoff sha tok t f n now d \<noteq> Inl IntegrityError"
  using fresh_after_expiry(2,3) [OF assms] unfolding create_handoff_def
  by (auto simp: raise_simps require_lease_Inr insert_handoff_def simp del: set_map
      split: option.splits if_splits dest: job_known)

lemma start_no_integrity:
  assumes "fresh_for sha d f n" shows "start_operation tok k kd tg ef f now d \<noteq> Inl IntegrityError"
  using assms unfolding start_operation_def fresh_for_def
  by (auto simp: raise_simps require_lease_Inr insert_operation_def find_row_None simp del: set_map
      split: option.splits if_splits dest: job_known)



end
