(* ===== verification/HarnessProtocol.thy ===== *)
theory HarnessProtocol
  imports HarnessGuarantees "HOL-Library.AList"
begin

text \<open>
  The local JSON protocol of the harness (\<open>harness/local_protocol.py\<close>): the checks on a message,
  the journal that gives mutations at-most-once semantics, and the execution of an action over the
  service. A message is answered by \<open>dispatch\<close>; \<open>run_message\<close> is the same steps with a crash
  allowed between their transactions.

  Parameters: \<open>sha\<close> is the SHA-256 hex digest, \<open>fr\<close> the text of a float. The random values and
  clock readings of one message are the record \<open>draws\<close>. An argument that the code binds to a text
  column goes through \<open>bind_text\<close>, which follows the SQLite binding: null, text, a number as its
  decimal text, and an error for a list or an object.
\<close>

record draws =
  dr_begin :: real
  dr_now :: real
  dr_finish :: real
  dr_id :: str
  dr_nonce :: str

datatype failure = Harness herror | Internal

definition mutating_actions :: "str list" where
  "mutating_actions = [''create_job'', ''acquire_lease'', ''renew_lease'', ''release_lease'', ''update_job'',
     ''create_handoff'', ''claim_handoff'', ''start_operation'', ''finish_operation'', ''create_pairing_code'']"

definition fingerprint :: "(str \<Rightarrow> str) \<Rightarrow> (real \<Rightarrow> str) \<Rightarrow> str \<Rightarrow> (str \<times> json) list \<Rightarrow> str" where
  "fingerprint sha fr action args =
     sha (canonical False fr (JObj [(''action'', JStr action), (''args'', JObj args)]))"

subsection \<open>Checking the arguments\<close>

definition arg :: "(str \<times> json) list \<Rightarrow> str \<Rightarrow> json" where
  "arg args k = obj_get (JObj args) k"

definition arg_or :: "(str \<times> json) list \<Rightarrow> str \<Rightarrow> json \<Rightarrow> json" where
  "arg_or args k v = obj_get_default (JObj args) k v"

text \<open>\<open>float()\<close> of a JSON value. The texts of infinities and of "not a number" are accepted; no
  operation reads the value of \<open>expires_at\<close>, so they stand for 0.\<close>

definition parse_decimal :: "str \<Rightarrow> real option" where
  "parse_decimal s =
     (let mant = takeWhile (\<lambda>c. c \<noteq> CHR ''e'' \<and> c \<noteq> CHR ''E'') s;
          ex = drop (length mant) s;
          whole = takeWhile (\<lambda>c. c \<noteq> CHR ''.'') mant;
          frac = drop (Suc (length whole)) mant;
          w = (if whole = [] then Some 0 else parse_digits whole);
          f = (if frac = [] then Some 0 else parse_digits frac);
          x = (case ex of [] \<Rightarrow> Some 0
               | _ # CHR ''-'' # ds \<Rightarrow> map_option (\<lambda>n. - int n) (parse_digits ds)
               | _ # CHR ''+'' # ds \<Rightarrow> map_option int (parse_digits ds)
               | _ # ds \<Rightarrow> map_option int (parse_digits ds))
      in if whole = [] \<and> frac = [] then None
         else case (w, f, x) of
                (Some a, Some b, Some e) \<Rightarrow>
                  Some ((real a + real b / 10 ^ length (filter is_digit frac)) * 10 powi e)
              | _ \<Rightarrow> None)"

definition py_lower :: "str \<Rightarrow> str" where
  "py_lower s = map (\<lambda>c. if is_upper c then char_of (code c + 32) else c) s"

definition py_float_str :: "str \<Rightarrow> real option" where
  "py_float_str s =
     (let t = py_strip s;
          neg = (case t of c # _ \<Rightarrow> c = CHR ''-'' | [] \<Rightarrow> False);
          u = (case t of c # cs \<Rightarrow> if c = CHR ''-'' \<or> c = CHR ''+'' then cs else t | [] \<Rightarrow> t)
      in if py_lower u \<in> {''inf'', ''infinity'', ''nan''} then Some 0
         else map_option (\<lambda>x. if neg then - x else x) (parse_decimal u))"

fun py_float :: "json \<Rightarrow> real option" where
  "py_float (JInt i) = Some (of_int i)"
| "py_float (JBool b) = Some (if b then 1 else 0)"
| "py_float (JFloat r) = Some r"
| "py_float (JStr s) = py_float_str s"
| "py_float _ = None"

record raw_lease =
  rl_job_id :: json
  rl_lease_id :: json
  rl_holder_id :: json
  rl_generation :: int
  rl_expires_at :: real

definition lease_arg :: "(str \<times> json) list \<Rightarrow> herror + raw_lease" where
  "lease_arg args =
     (case arg args ''lease'' of
        JObj raw \<Rightarrow>
          (case (map_of raw ''job_id'', map_of raw ''lease_id'', map_of raw ''holder_id'',
                 Option.bind (map_of raw ''generation'') py_int, py_float (arg_or raw ''expires_at'' (JInt 0))) of
             (Some j, Some l, Some h, Some g, Some e) \<Rightarrow>
               Inr \<lparr>rl_job_id = j, rl_lease_id = l, rl_holder_id = h, rl_generation = g, rl_expires_at = e\<rparr>
           | _ \<Rightarrow> Inl (ValidationError ''invalid lease token''))
      | _ \<Rightarrow> Inl (ValidationError ''lease token is required''))"

definition required_args :: "str \<Rightarrow> str list" where
  "required_args a =
     (case map_of [(''create_job'', [''job_id'', ''title'', ''goal'']),
        (''get_job'', [''job_id'']), (''continuation'', [''job_id'']), (''events'', [''job_id'']),
        (''acquire_lease'', [''job_id'', ''holder_id'']),
        (''renew_lease'', [''lease'']), (''release_lease'', [''lease'']),
        (''update_job'', [''lease'', ''expected_version'', ''changes'']),
        (''create_handoff'', [''lease'']),
        (''claim_handoff'', [''job_id'', ''nonce'', ''holder_id'']),
        (''start_operation'', [''lease'', ''idempotency_key'', ''kind'']),
        (''finish_operation'', [''lease'', ''operation_id'', ''status''])] a of
        None \<Rightarrow> [] | Some ks \<Rightarrow> ks)"

definition allowed_args :: "str \<Rightarrow> str list option" where
  "allowed_args a =
     map_of [(''ping'', []), (''create_pairing_code'', [''ttl'']),
       (''create_job'', [''job_id'', ''title'', ''goal'', ''lifecycle'', ''repo_url'', ''repo_path'',
          ''resource_key'', ''workspace_job_id'', ''next_action'', ''success_condition'']),
       (''get_job'', [''job_id'']), (''continuation'', [''job_id'']), (''events'', [''job_id'']),
       (''acquire_lease'', [''job_id'', ''holder_id'', ''ttl'']),
       (''renew_lease'', [''lease'', ''ttl'']), (''release_lease'', [''lease'']),
       (''update_job'', [''lease'', ''expected_version'', ''changes'']),
       (''create_handoff'', [''lease'', ''ttl'']),
       (''claim_handoff'', [''job_id'', ''nonce'', ''holder_id'', ''ttl'']),
       (''start_operation'', [''lease'', ''idempotency_key'', ''kind'', ''target'', ''intended_effect'']),
       (''finish_operation'', [''lease'', ''operation_id'', ''status'', ''result''])] a"

definition leased_actions :: "str list" where
  "leased_actions = [''renew_lease'', ''release_lease'', ''update_job'', ''create_handoff'',
     ''start_operation'', ''finish_operation'']"

fun is_JInt :: "json \<Rightarrow> bool" where
  "is_JInt (JInt _) = True"
| "is_JInt _ = False"

definition validate_action_args :: "str \<Rightarrow> (str \<times> json) list \<Rightarrow> herror + unit" where
  "validate_action_args a args =
     (let names = map fst args;
          unknown = (case allowed_args a of None \<Rightarrow> [] | Some ks \<Rightarrow> sort (filter (\<lambda>k. k \<notin> set ks) names));
          missing = filter (\<lambda>k. k \<notin> set names) (required_args a)
      in if unknown \<noteq> [] then Inl (ValidationError (''unsupported args for '' @ a @ '': '' @ py_repr_list unknown))
         else if missing \<noteq> [] then Inl (ValidationError (''missing required args: '' @ join '', '' missing))
         else if a = ''create_job'' \<and> (\<not> is_JStr (arg args ''title'') \<or> \<not> is_JStr (arg args ''goal''))
         then Inl (ValidationError ''title and goal must be strings'')
         else if a = ''create_job'' \<and> ''lifecycle'' \<in> set names \<and> \<not> is_JStr (arg args ''lifecycle'')
         then Inl (ValidationError ''lifecycle must be a string'')
         else bindE (if a \<in> set leased_actions then bindE (lease_arg args) (\<lambda>_. Inr ()) else Inr ()) (\<lambda>_.
           if a = ''update_job'' \<and> \<not> is_JInt (arg args ''expected_version'')
           then Inl (ValidationError ''expected_version must be an integer'')
           else if a = ''update_job'' \<and> \<not> is_JObj (arg args ''changes'')
           then Inl (ValidationError ''changes must be an object'')
           else if a = ''update_job'' \<and> ''lifecycle'' \<in> set (obj_keys (arg args ''changes''))
                   \<and> \<not> is_JStr (obj_get (arg args ''changes'') ''lifecycle'')
           then Inl (ValidationError ''lifecycle must be a string'')
           else Inr ()))"

subsection \<open>Results as JSON\<close>

definition opt_real :: "real option \<Rightarrow> json" where
  "opt_real v = (case v of None \<Rightarrow> JNull | Some r \<Rightarrow> JFloat r)"

fun lifecycle_str :: "lifecycle \<Rightarrow> str" where
  "lifecycle_str Active = ''active''"
| "lifecycle_str Waiting = ''waiting''"
| "lifecycle_str Blocked = ''blocked''"
| "lifecycle_str Completed = ''completed''"
| "lifecycle_str Failed = ''failed''"
| "lifecycle_str Cancelled = ''cancelled''"

fun hstate_str :: "hstate \<Rightarrow> str" where
  "hstate_str HPending = ''pending''"
| "hstate_str HStarting = ''starting''"
| "hstate_str HClaimed = ''claimed''"
| "hstate_str HExpired = ''expired''"

definition job_pairs :: "job_row \<Rightarrow> (str \<times> json) list" where
  "job_pairs j =
     (let col = (\<lambda>c. (c, opt_str (j_cols j c)))
      in [(''job_id'', JStr (j_id j)), (''version'', JInt (j_version j)), (''lease_generation'', JInt (j_generation j)),
          (''title'', JStr (j_title j)), (''goal'', JStr (j_goal j)), (''lifecycle'', JStr (lifecycle_str (j_lifecycle j))),
          col ''waiting_on'', col ''repo_url'', col ''repo_path'', col ''resource_key'', col ''workspace_job_id'',
          col ''checkpoint_ref'', col ''checkpoint_sha'', col ''next_action'', col ''success_condition'',
          col ''blocked_on'', (''created_at'', JFloat (j_created j)), (''updated_at'', JFloat (j_updated j))])"

definition lease_token_json :: "lease_token \<Rightarrow> json" where
  "lease_token_json tok = JObj [(''job_id'', JStr (lt_job_id tok)), (''lease_id'', JStr (lt_lease_id tok)),
     (''holder_id'', JStr (lt_holder_id tok)), (''generation'', JInt (lt_generation tok)),
     (''expires_at'', JFloat (lt_expires_at tok))]"

definition handoff_token_json :: "handoff_token \<Rightarrow> json" where
  "handoff_token_json tok = JObj [(''job_id'', JStr (ht_job_id tok)), (''handoff_id'', JStr (ht_handoff_id tok)),
     (''nonce'', JStr (ht_nonce tok)), (''expires_at'', JFloat (ht_expires_at tok))]"

definition op_pairs :: "op_row \<Rightarrow> (str \<times> json) list" where
  "op_pairs r = [(''operation_id'', JStr (o_id r)), (''idempotency_key'', JStr (o_key r)), (''kind'', JStr (o_kind r)),
     (''status'', JStr (status_str (o_status r))), (''target'', opt_str (o_target r)),
     (''intended_effect'', opt_str (o_effect r)), (''created_at'', JFloat (o_created r)),
     (''finished_at'', opt_real (o_finished r))]"

definition op_json :: "(real \<Rightarrow> str) \<Rightarrow> op_row \<Rightarrow> json" where
  "op_json fr r = JObj (op_pairs r @ [(''job_id'', JStr (o_job r)),
     (''result_json'', case o_result r of None \<Rightarrow> JNull | Some v \<Rightarrow> JStr (canonical False fr v))])"

definition handoff_pairs :: "handoff_row \<Rightarrow> (str \<times> json) list" where
  "handoff_pairs h = [(''handoff_id'', JStr (h_id h)), (''state'', JStr (hstate_str (h_state h))),
     (''created_at'', JFloat (h_created h)), (''expires_at'', JFloat (h_expires h)),
     (''claimed_at'', opt_real (h_claimed_at h)), (''claimed_by'', opt_str (h_claimed_by h)),
     (''starting_by'', opt_str (h_starting_by h)), (''starting_at'', opt_real (h_starting_at h)),
     (''starting_expires_at'', opt_real (h_starting_expires h))]"

definition continuation_json :: "continuation_view \<Rightarrow> json" where
  "continuation_json v = JObj [(''schema'', JInt 1),
     (''job'', JObj (filter (\<lambda>p. fst p \<noteq> ''repo_path'') (job_pairs (cv_job v)))),
     (''lease'', case cv_lease v of None \<Rightarrow> JNull
        | Some (h, g, e) \<Rightarrow> JObj [(''holder_id'', JStr h), (''generation'', JInt g), (''expires_at'', JFloat e)]),
     (''handoff'', case cv_handoff v of None \<Rightarrow> JNull | Some h \<Rightarrow> JObj (handoff_pairs h)),
     (''operations'', JList (map (\<lambda>r. JObj (op_pairs r)) (cv_operations v)))]"

text \<open>The sequence number of an event is its position in the log.\<close>

definition events_json :: "str \<Rightarrow> db \<Rightarrow> json" where
  "events_json jid d =
     JList (map (\<lambda>(n, e). JObj [(''seq'', JInt (int n)), (''event_type'', JStr (e_type e)),
                     (''payload'', e_payload e), (''created_at'', JFloat (e_created e))])
       (filter (\<lambda>(n, e). e_job e = jid) (enumerate 1 (events d))))"

subsection \<open>Executing an action\<close>

fun bind_text :: "(real \<Rightarrow> str) \<Rightarrow> json \<Rightarrow> failure + str option" where
  "bind_text fr JNull = Inr None"
| "bind_text fr (JStr s) = Inr (Some s)"
| "bind_text fr (JBool b) = Inr (Some (if b then ''1'' else ''0''))"
| "bind_text fr (JInt i) = (if - (2 ^ 63) \<le> i \<and> i < 2 ^ 63 then Inr (Some (int_str i)) else Inl Internal)"
| "bind_text fr (JFloat r) = Inr (Some (fr r))"
| "bind_text fr _ = Inl Internal"

text \<open>Binding several columns: what they are bound to, and whether every one can be bound.\<close>

definition bound :: "(real \<Rightarrow> str) \<Rightarrow> json \<Rightarrow> str option" where
  "bound fr j = (case bind_text fr j of Inl _ \<Rightarrow> None | Inr v \<Rightarrow> v)"

definition bindable :: "(real \<Rightarrow> str) \<Rightarrow> json \<Rightarrow> bool" where
  "bindable fr j = (case bind_text fr j of Inl _ \<Rightarrow> False | Inr _ \<Rightarrow> True)"

text \<open>An exception that is not a harness error (a refused constraint, a binding error) is internal.
  \<open>raised\<close> lifts the result of an operation whose arguments bind when \<open>ok\<close>: otherwise its first
  query fails, after the checks that need no query. \<open>raised_late\<close> is for a value that is bound by the
  last write only.\<close>

definition raised :: "bool \<Rightarrow> herror + 'a \<Rightarrow> failure + 'a" where
  "raised ok m =
     (case m of
        Inl (ValidationError s) \<Rightarrow> Inl (Harness (ValidationError s))
      | Inl IntegrityError \<Rightarrow> Inl Internal
      | Inl e \<Rightarrow> if ok then Inl (Harness e) else Inl Internal
      | Inr x \<Rightarrow> if ok then Inr x else Inl Internal)"

definition raised_late :: "bool \<Rightarrow> failure + 'a \<Rightarrow> failure + 'a" where
  "raised_late ok m = (case m of Inl e \<Rightarrow> Inl e | Inr x \<Rightarrow> if ok then Inr x else Inl Internal)"

text \<open>The token of \<open>_lease\<close> as the service uses it, and whether its job identifier can be bound: a
  null key matches no row, and a lease identifier that is not a string differs from every stored
  one.\<close>

definition lease_of_args :: "(real \<Rightarrow> str) \<Rightarrow> (str \<times> json) list \<Rightarrow> failure + lease_token \<times> bool" where
  "lease_of_args fr args =
     bindE (raised True (lease_arg args)) (\<lambda>raw.
     Inr (\<lparr>lt_job_id = (case bound fr (rl_job_id raw) of None \<Rightarrow> [] | Some s \<Rightarrow> s),
           lt_lease_id = (case rl_lease_id raw of JStr s \<Rightarrow> s | _ \<Rightarrow> []),
           lt_holder_id = (case rl_holder_id raw of JStr s \<Rightarrow> s | _ \<Rightarrow> []),
           lt_generation = rl_generation raw, lt_expires_at = rl_expires_at raw\<rparr>, bindable fr (rl_job_id raw)))"

fun str_of :: "json \<Rightarrow> str" where
  "str_of (JStr s) = s"
| "str_of _ = []"

fun is_text :: "json \<Rightarrow> bool" where
  "is_text (JStr _) = True"
| "is_text JNull = True"
| "is_text _ = False"

definition with_db :: "('a \<Rightarrow> json) \<Rightarrow> failure + 'a \<times> db \<Rightarrow> failure + json \<times> db" where
  "with_db f m = bindE m (\<lambda>(x, d). Inr (f x, d))"

definition job_json :: "job_row \<Rightarrow> json" where
  "job_json j = JObj (job_pairs j)"

definition start_json :: "(real \<Rightarrow> str) \<Rightarrow> bool \<times> op_row \<Rightarrow> json" where
  "start_json fr p = JObj [(''operation_id'', JStr (o_id (snd p))), (''created'', JBool (fst p)),
     (''status'', JStr (status_str (o_status (snd p)))), (''record'', op_json fr (snd p))]"

definition exec_create_job :: "(real \<Rightarrow> str) \<Rightarrow> (str \<times> json) list \<Rightarrow> draws \<Rightarrow> db \<Rightarrow> failure + json \<times> db" where
  "exec_create_job fr args w d =
     with_db job_json (raised (list_all (\<lambda>p. fst p \<in> {''job_id'', ''title'', ''goal'', ''lifecycle''} \<or> bindable fr (snd p)) args)
       (create_job (arg args ''job_id'') (str_of (arg args ''title'')) (str_of (arg args ''goal''))
         (str_of (arg_or args ''lifecycle'' (JStr ''active''))) (\<lambda>c. bound fr (arg args c)) (dr_now w) d))"

text \<open>The changes are passed as keyword arguments, beside \<open>self\<close>, \<open>token\<close> and \<open>expected_version\<close>: a
  change of that name is a TypeError.\<close>

definition exec_update_job :: "(real \<Rightarrow> str) \<Rightarrow> (str \<times> json) list \<Rightarrow> draws \<Rightarrow> db \<Rightarrow> failure + json \<times> db" where
  "exec_update_job fr args w d =
     bindE (lease_of_args fr args) (\<lambda>(tok, ok).
     case arg args ''changes'' of
       JObj changes \<Rightarrow>
         if \<exists>k \<in> set (map fst changes). k \<in> {''self'', ''token'', ''expected_version''} then Inl Internal
         else with_db job_json (raised_late (list_all (\<lambda>p. bindable fr (snd p)) changes)
           (raised ok (update_job tok (case arg args ''expected_version'' of JInt v \<Rightarrow> v | _ \<Rightarrow> 0)
              (map (\<lambda>(k, v). (k, bound fr v)) changes) (dr_now w) d)))
     | _ \<Rightarrow> Inl (Harness (ValidationError ''changes must be an object'')))"

text \<open>A recorded operation is compared with the arguments as they are, so one that is neither a text
  nor null never matches.\<close>

definition exec_start :: "(real \<Rightarrow> str) \<Rightarrow> (str \<times> json) list \<Rightarrow> draws \<Rightarrow> db \<Rightarrow> failure + json \<times> db" where
  "exec_start fr args w d =
     bindE (lease_of_args fr args) (\<lambda>(tok, ok).
     let target = arg args ''target''; effect = arg args ''intended_effect'' in
     bindE (raised ok (start_operation tok (arg args ''idempotency_key'') (arg args ''kind'')
              (bound fr target) (bound fr effect) (dr_id w) (dr_now w) d)) (\<lambda>((created, r), d').
     if \<not> created \<and> \<not> (is_text target \<and> is_text effect)
     then Inl (Harness (Conflict ''idempotency key reused with different operation payload''))
     else raised_late (bindable fr target \<and> bindable fr effect) (Inr (start_json fr (created, r), d'))))"

text \<open>An unhashable status is a TypeError; another value that is not one of the texts is invalid. An
  operation identifier that cannot be bound fails in the query that looks it up.\<close>

definition exec_finish :: "(real \<Rightarrow> str) \<Rightarrow> (str \<times> json) list \<Rightarrow> draws \<Rightarrow> db \<Rightarrow> failure + json \<times> db" where
  "exec_finish fr args w d =
     bindE (lease_of_args fr args) (\<lambda>(tok, ok).
     bindE (case arg args ''status'' of JList _ \<Rightarrow> Inl Internal | JObj _ \<Rightarrow> Inl Internal | j \<Rightarrow> Inr (str_of j)) (\<lambda>status.
     let oid = arg args ''operation_id'';
         r = finish_operation tok (case bound fr oid of None \<Rightarrow> [] | Some s \<Rightarrow> s) status
               (case arg args ''result'' of JNull \<Rightarrow> None | v \<Rightarrow> Some v) (dr_now w) d
     in if \<not> bindable fr oid \<and> (case r of Inl (NotFound _) \<Rightarrow> True | _ \<Rightarrow> False) then Inl Internal
        else with_db (op_json fr) (raised_late (bindable fr oid) (raised ok r))))"

definition execute_action ::
  "(str \<Rightarrow> str) \<Rightarrow> (real \<Rightarrow> str) \<Rightarrow> str \<Rightarrow> (str \<times> json) list \<Rightarrow> draws \<Rightarrow> db \<Rightarrow> failure + json \<times> db" where
  "execute_action sha fr a args w d =
     (let now = dr_now w; ttl = arg_or args ''ttl'' (JFloat 900) in
      if a = ''ping'' then Inr (JObj [(''service'', JStr ''chatgpt-conversation-harness-v1''), (''protocol'', JInt 1)], d)
      else if a = ''create_pairing_code'' then
        with_db (\<lambda>(c, e). JObj [(''code'', JStr c), (''expires_at'', JFloat e)])
          (raised True (create_pairing_code sha (arg_or args ''ttl'' (JFloat 300)) (dr_id w) now d))
      else if a = ''create_job'' then exec_create_job fr args w d
      else if a = ''get_job'' then with_db job_json (raised True (get_job (arg args ''job_id'') now d))
      else if a = ''continuation'' then with_db continuation_json (raised True (continuation (arg args ''job_id'') now d))
      else if a = ''events'' then
        bindE (raised True (job_events (arg args ''job_id'') d)) (\<lambda>_. Inr (events_json (str_of (arg args ''job_id'')) d, d))
      else if a = ''acquire_lease'' then
        with_db lease_token_json (raised True (acquire_lease (arg args ''job_id'') (arg args ''holder_id'') ttl (dr_id w) now d))
      else if a = ''renew_lease'' then
        bindE (lease_of_args fr args) (\<lambda>(tok, ok). with_db lease_token_json (raised ok (renew_lease tok ttl now d)))
      else if a = ''release_lease'' then
        bindE (lease_of_args fr args) (\<lambda>(tok, ok).
          with_db (\<lambda>_. JObj [(''released'', JBool True)]) (raised ok (release_lease tok now d)))
      else if a = ''update_job'' then exec_update_job fr args w d
      else if a = ''create_handoff'' then
        bindE (lease_of_args fr args) (\<lambda>(tok, ok).
          with_db handoff_token_json (raised ok (create_handoff sha tok ttl (dr_id w) (dr_nonce w) now d)))
      else if a = ''claim_handoff'' then
        with_db lease_token_json (raised True (claim_handoff sha (arg args ''job_id'') (arg args ''nonce'') (arg args ''holder_id'')
          ttl (dr_id w) now d))
      else if a = ''start_operation'' then exec_start fr args w d
      else if a = ''finish_operation'' then exec_finish fr args w d
      else Inl (Harness (ValidationError ''unknown action'')))"

subsection \<open>The journal\<close>

definition error_type :: "herror \<Rightarrow> str" where
  "error_type e = (case e of Conflict _ \<Rightarrow> ''conflict'' | NotFound _ \<Rightarrow> ''not_found''
     | ValidationError _ \<Rightarrow> ''validation_error'' | IntegrityError \<Rightarrow> ''harness_error'')"

definition error_text :: "herror \<Rightarrow> str" where
  "error_text e = (case e of Conflict s \<Rightarrow> s | NotFound s \<Rightarrow> s | ValidationError s \<Rightarrow> s | IntegrityError \<Rightarrow> [])"

definition error_reply :: "json \<Rightarrow> str \<Rightarrow> str \<Rightarrow> json" where
  "error_reply rid kind message = JObj [(''ok'', JBool False), (''protocol'', JInt 1), (''request_id'', rid),
     (''error'', JObj [(''type'', JStr kind), (''message'', JStr message)])]"

definition ok_reply :: "json \<Rightarrow> json \<Rightarrow> json" where
  "ok_reply rid result = JObj [(''ok'', JBool True), (''protocol'', JInt 1), (''request_id'', rid), (''result'', result)]"

definition mark_replayed :: "json \<Rightarrow> json" where
  "mark_replayed j = (case j of JObj kvs \<Rightarrow> JObj (AList.update ''replayed'' (JBool True) kvs) | v \<Rightarrow> v)"

definition request_of :: "db \<Rightarrow> str \<Rightarrow> request_row option" where
  "request_of d rid = find_row (\<lambda>r. r_id r = rid) (protocol_requests d)"

definition begin_request ::
  "(str \<Rightarrow> str) \<Rightarrow> (real \<Rightarrow> str) \<Rightarrow> str \<Rightarrow> str \<Rightarrow> (str \<times> json) list \<Rightarrow> real \<Rightarrow> db \<Rightarrow> (failure + json option) \<times> db" where
  "begin_request sha fr rid a args now d =
     (case validate_token (JStr rid) ''request_id'' of
        Inl e \<Rightarrow> (Inl (Harness e), d)
      | Inr _ \<Rightarrow>
          (case request_of d rid of
             Some row \<Rightarrow>
               (if r_fingerprint row \<noteq> fingerprint sha fr a args
                then (Inl (Harness (Conflict ''request_id reused with different payload'')), d)
                else if r_status row = RqCompleted \<or> r_status row = RqFailed
                then (case r_response row of None \<Rightarrow> (Inl Internal, d) | Some v \<Rightarrow> (Inr (Some (mark_replayed v)), d))
                else (Inr (Some (error_reply (JStr rid) ''indeterminate_request''
                       ''request started previously; reconcile state before issuing a new mutation'')), d))
           | None \<Rightarrow>
               (Inr None, d\<lparr>protocol_requests := protocol_requests d @
                  [\<lparr>r_id = rid, r_fingerprint = fingerprint sha fr a args, r_action = a, r_status = RqStarted,
                    r_response = None, r_created = now, r_finished = None\<rparr>]\<rparr>)))"

definition finish_request :: "str \<Rightarrow> json \<Rightarrow> bool \<Rightarrow> real \<Rightarrow> db \<Rightarrow> db" where
  "finish_request rid response failed now d =
     d\<lparr>protocol_requests := update_rows (\<lambda>r. r_id r = rid \<and> r_status r = RqStarted)
        (\<lambda>r. r\<lparr>r_status := (if failed then RqFailed else RqCompleted), r_response := Some response,
               r_finished := Some now\<rparr>) (protocol_requests d)\<rparr>"

subsection \<open>Dispatch\<close>

text \<open>\<open>admit\<close> checks the shape of the message: \<open>Inl\<close> is the immediate reply.\<close>

definition admit :: "json \<Rightarrow> json + str \<times> (str \<times> json) list \<times> json" where
  "admit message =
     (if \<not> is_JObj message then Inl (error_reply JNull ''validation_error'' ''message must be an object'')
      else if \<not> py_eq_int (obj_get message ''protocol'') 1
      then Inl (error_reply (obj_get message ''request_id'') ''validation_error'' ''unsupported protocol version'')
      else case (obj_get message ''action'', obj_get_default message ''args'' (JObj [])) of
             (JStr a, JObj args) \<Rightarrow> Inr (a, args, obj_get message ''request_id'')
           | _ \<Rightarrow> Inl (error_reply (obj_get message ''request_id'') ''validation_error'' ''invalid action or args''))"

definition mutating :: "str \<Rightarrow> bool" where
  "mutating a = (a \<in> set mutating_actions)"

text \<open>\<open>prepare\<close> is the first part of the try block; \<open>Some\<close> is a reply from the journal.\<close>

definition prepare ::
  "(str \<Rightarrow> str) \<Rightarrow> (real \<Rightarrow> str) \<Rightarrow> str \<Rightarrow> (str \<times> json) list \<Rightarrow> json \<Rightarrow> draws \<Rightarrow> db \<Rightarrow> (failure + json option) \<times> db" where
  "prepare sha fr a args rid w d =
     (case validate_action_args a args of
        Inl e \<Rightarrow> (Inl (Harness e), d)
      | Inr _ \<Rightarrow>
          if mutating a
          then (case rid of
                  JStr r \<Rightarrow> begin_request sha fr r a args (dr_begin w) d
                | _ \<Rightarrow> (Inl (Harness (ValidationError ''request_id is required for mutations'')), d))
          else (Inr None, d))"

text \<open>One action is one transaction of the service: an exception rolls it back.\<close>

definition execute ::
  "(str \<Rightarrow> str) \<Rightarrow> (real \<Rightarrow> str) \<Rightarrow> str \<Rightarrow> (str \<times> json) list \<Rightarrow> draws \<Rightarrow> db \<Rightarrow> (failure + json) \<times> db" where
  "execute sha fr a args w d =
     (case execute_action sha fr a args w d of Inl e \<Rightarrow> (Inl e, d) | Inr (v, d') \<Rightarrow> (Inr v, d'))"

text \<open>\<open>settle\<close> turns the outcome into the reply and writes a mutation's row of the journal.\<close>

definition settle :: "str \<Rightarrow> json \<Rightarrow> failure + json \<Rightarrow> draws \<Rightarrow> db \<Rightarrow> json \<times> db" where
  "settle a rid outcome w d =
     (case outcome of
        Inr v \<Rightarrow> (ok_reply rid v,
                  case rid of JStr r \<Rightarrow> if mutating a then finish_request r (ok_reply rid v) False (dr_finish w) d else d | _ \<Rightarrow> d)
      | Inl (Harness e) \<Rightarrow>
          (let reply = error_reply rid (error_type e) (error_text e)
           in (reply, case rid of JStr r \<Rightarrow> if mutating a then finish_request r reply True (dr_finish w) d else d | _ \<Rightarrow> d))
      | Inl Internal \<Rightarrow> (error_reply rid ''internal_error'' ''internal harness error'', d))"

definition dispatch :: "(str \<Rightarrow> str) \<Rightarrow> (real \<Rightarrow> str) \<Rightarrow> json \<Rightarrow> draws \<Rightarrow> db \<Rightarrow> json \<times> db" where
  "dispatch sha fr message w d =
     (case admit message of
        Inl reply \<Rightarrow> (reply, d)
      | Inr (a, args, rid) \<Rightarrow>
          (case prepare sha fr a args rid w d of
             (Inl e, d1) \<Rightarrow> settle a rid (Inl e) w d1
           | (Inr (Some cached), d1) \<Rightarrow> (cached, d1)
           | (Inr None, d1) \<Rightarrow>
               (case execute sha fr a args w d1 of (outcome, d2) \<Rightarrow> settle a rid outcome w d2)))"

subsection \<open>Messages with crashes\<close>

text \<open>The process may stop between two of the transactions of a message: after the journal row is
  committed and before the action, or after the action and before its outcome is journalled.\<close>

datatype crash = NoCrash | BeforeAction | BeforeSettling

fun run_message :: "(str \<Rightarrow> str) \<Rightarrow> (real \<Rightarrow> str) \<Rightarrow> json \<times> draws \<times> crash \<Rightarrow> db \<Rightarrow> db" where
  "run_message sha fr (message, w, cr) d =
     (case admit message of
        Inl reply \<Rightarrow> d
      | Inr (a, args, rid) \<Rightarrow>
          (case prepare sha fr a args rid w d of
             (Inl e, d1) \<Rightarrow> snd (settle a rid (Inl e) w d1)
           | (Inr (Some cached), d1) \<Rightarrow> d1
           | (Inr None, d1) \<Rightarrow>
               if cr = BeforeAction then d1
               else (case execute sha fr a args w d1 of (outcome, d2) \<Rightarrow>
                       if cr = BeforeSettling then d2 else snd (settle a rid outcome w d2))))"

lemma run_message_dispatch: "run_message sha fr (message, w, NoCrash) d = snd (dispatch sha fr message w d)"
  by (auto simp: dispatch_def split: sum.splits option.splits prod.splits)

text \<open>The mutations that a message executes, by request identifier.\<close>

fun executed :: "(str \<Rightarrow> str) \<Rightarrow> (real \<Rightarrow> str) \<Rightarrow> json \<times> draws \<times> crash \<Rightarrow> db \<Rightarrow> str list" where
  "executed sha fr (message, w, cr) d =
     (case admit message of
        Inr (a, args, JStr rid) \<Rightarrow>
          if mutating a \<and> cr \<noteq> BeforeAction \<and> fst (prepare sha fr a args (JStr rid) w d) = Inr None then [rid] else []
      | _ \<Rightarrow> [])"

fun executed_all :: "(str \<Rightarrow> str) \<Rightarrow> (real \<Rightarrow> str) \<Rightarrow> (json \<times> draws \<times> crash) list \<Rightarrow> db \<Rightarrow> str list" where
  "executed_all sha fr [] d = []"
| "executed_all sha fr (m # ms) d = executed sha fr m d @ executed_all sha fr ms (run_message sha fr m d)"

subsection \<open>An action is a call of the service\<close>

lemma with_db_Inr: "with_db f m = Inr (v, d') \<longleftrightarrow> (\<exists>x. m = Inr (x, d') \<and> v = f x)"
  by (auto simp: with_db_def bindE_eq_Inr)

lemma raised_Inr: "raised ok m = Inr x \<longleftrightarrow> ok \<and> m = Inr x"
  by (auto simp: raised_def split: sum.splits herror.splits)

lemma raised_late_Inr: "raised_late ok m = Inr x \<longleftrightarrow> ok \<and> m = Inr x"
  by (auto simp: raised_late_def split: sum.splits)

lemmas action_simps = with_db_Inr raised_Inr raised_late_Inr bindE_eq_Inr Let_def if_Inl_Inr

definition called :: "(str \<Rightarrow> str) \<Rightarrow> real \<Rightarrow> db \<Rightarrow> db \<Rightarrow> bool" where
  "called sha now d d' = (\<exists>c. exec_call sha c now d = Inr ((), d'))"

lemma calledI: "m = Inr (x, d') \<Longrightarrow> exec_call sha c now d = forget m \<Longrightarrow> called sha now d d'"
  by (auto simp: called_def forget_def intro!: exI [of _ c])

lemma called_operation:
  "create_job a t g l cs now d = Inr (x1, d') \<Longrightarrow> called sha now d d'"
  "get_job a now d = Inr (x2, d') \<Longrightarrow> called sha now d d'"
  "acquire_lease a h tt f now d = Inr (x3, d') \<Longrightarrow> called sha now d d'"
  "renew_lease tok tt now d = Inr (x4, d') \<Longrightarrow> called sha now d d'"
  "release_lease tok now d = Inr (x5, d') \<Longrightarrow> called sha now d d'"
  "update_job tok v us now d = Inr (x6, d') \<Longrightarrow> called sha now d d'"
  "create_handoff sha tok tt f n now d = Inr (x7, d') \<Longrightarrow> called sha now d d'"
  "claim_handoff sha a nn h tt f now d = Inr (x8, d') \<Longrightarrow> called sha now d d'"
  "start_operation tok k kd tg ef f now d = Inr (x9, d') \<Longrightarrow> called sha now d d'"
  "finish_operation tok oid st res now d = Inr (x10, d') \<Longrightarrow> called sha now d d'"
  "create_pairing_code sha tt f now d = Inr (x11, d') \<Longrightarrow> called sha now d d'"
  "continuation a now d = Inr (x12, d') \<Longrightarrow> called sha now d d'"
  by (erule calledI, rule exec_call.simps)+

lemma exec_create_called: "exec_create_job fr args w d = Inr (v, d') \<Longrightarrow> called sha (dr_now w) d d'"
  unfolding exec_create_job_def by (auto simp: action_simps dest: called_operation(1))

lemma exec_update_called: "exec_update_job fr args w d = Inr (v, d') \<Longrightarrow> called sha (dr_now w) d d'"
  unfolding exec_update_job_def
  by (cases "arg args ''changes''") (auto simp: action_simps dest: called_operation(6))

lemma exec_start_called: "exec_start fr args w d = Inr (v, d') \<Longrightarrow> called sha (dr_now w) d d'"
  unfolding exec_start_def by (auto simp: action_simps dest: called_operation(9))

lemma exec_finish_called: "exec_finish fr args w d = Inr (v, d') \<Longrightarrow> called sha (dr_now w) d d'"
  unfolding exec_finish_def by (auto simp: action_simps dest: called_operation(10))

lemmas exec_parts_called = exec_create_called exec_update_called exec_start_called exec_finish_called

lemma if_eqE: "(if b then x else y) = z \<Longrightarrow> (x = z \<Longrightarrow> P) \<Longrightarrow> (y = z \<Longrightarrow> P) \<Longrightarrow> P"
  by (auto split: if_splits)

lemma execute_action_called:
  assumes "execute_action sha fr a args w d = Inr (v, d')"
  shows "d' = d \<or> called sha (dr_now w) d d'"
  using assms unfolding execute_action_def Let_def
  by (elim if_eqE) (auto simp: action_simps dest: called_operation exec_parts_called)

text \<open>The protocol adds nothing to the service: an executed action is one call of it, or nothing.\<close>

lemma execute_called: "snd (execute sha fr a args w d) = d \<or> called sha (dr_now w) d (snd (execute sha fr a args w d))"
  using execute_action_called [of sha fr a args w d]
  by (auto simp: execute_def split: sum.splits)

lemma called_run:
  assumes "called sha now d d'" shows "\<exists>c. d' = run_call sha (c, now) d"
proof -
  from assms obtain c where "exec_call sha c now d = Inr ((), d')" by (auto simp: called_def)
  then have "d' = run_call sha (c, now) d" by (simp add: run_call_def transaction_def)
  then show ?thesis ..
qed

lemma exec_call_requests:
  "exec_call sha c now d = Inr ((), d') \<Longrightarrow> protocol_requests d' = protocol_requests d"
  by (cases c)
     (auto simp: same_side_def create_pairing_code_def consume_pairing_code_def op_simps dest!: side_operation side_inserts)

lemma execute_requests [simp]: "protocol_requests (snd (execute sha fr a args w d)) = protocol_requests d"
  using execute_called [of sha fr a args w d] by (auto simp: called_def dest: exec_call_requests)

lemma wf_execute: "wf_db d \<Longrightarrow> wf_db (snd (execute sha fr a args w d))"
  using execute_called [of sha fr a args w d] by (auto dest!: called_run simp: wf_run_call)

subsection \<open>The journal moves forward\<close>

definition request_le :: "request_row \<Rightarrow> request_row \<Rightarrow> bool" where
  "request_le r r' = (r_id r' = r_id r \<and> r_fingerprint r' = r_fingerprint r \<and> r_action r' = r_action r
     \<and> (r_status r \<noteq> RqStarted \<longrightarrow> r' = r))"

definition journal_le :: "db \<Rightarrow> db \<Rightarrow> bool" where
  "journal_le d d' = rows_le request_le (protocol_requests d) (protocol_requests d')"

definition wf_protocol :: "db \<Rightarrow> bool" where
  "wf_protocol d = (wf_db d \<and> distinct (map r_id (protocol_requests d)))"

lemma request_le_refl [simp]: "request_le r r"
  by (simp add: request_le_def)

lemma request_le_trans: "request_le r s \<Longrightarrow> request_le s t \<Longrightarrow> request_le r t"
  by (auto simp: request_le_def)

lemma journal_le_refl [simp]: "journal_le d d"
  by (simp add: journal_le_def rows_le_refl)

lemma journal_le_trans: "journal_le a b \<Longrightarrow> journal_le b c \<Longrightarrow> journal_le a c"
  unfolding journal_le_def by (meson rows_le_trans request_le_trans)

lemma finish_request_keeps:
  "wf_protocol d \<Longrightarrow> wf_protocol (finish_request rid reply failed now d)"
  "journal_le d (finish_request rid reply failed now d)"
proof -
  have "map r_id (protocol_requests (finish_request rid reply failed now d)) = map r_id (protocol_requests d)"
    by (simp add: finish_request_def map_update_rows_id)
  then show "wf_protocol d \<Longrightarrow> wf_protocol (finish_request rid reply failed now d)"
    by (simp add: wf_protocol_def finish_request_def wf_side_tables)
  show "journal_le d (finish_request rid reply failed now d)"
    by (simp add: journal_le_def finish_request_def rows_le_update request_le_def)
qed

lemma request_of_None: "request_of d rid = None \<longleftrightarrow> rid \<notin> set (map r_id (protocol_requests d))"
  by (auto simp: request_of_def find_row_None)

lemma begin_request_keeps:
  assumes "begin_request sha fr rid a args now d = (m, d1)"
  shows "wf_protocol d \<Longrightarrow> wf_protocol d1" "journal_le d d1"
  using assms by (auto simp: begin_request_def wf_protocol_def wf_side_tables request_of_None journal_le_def
      rows_le_append rows_le_refl simp del: set_map split: sum.splits option.splits if_splits)

lemma prepare_keeps:
  assumes "prepare sha fr a args rid w d = (m, d1)"
  shows "wf_protocol d \<Longrightarrow> wf_protocol d1" "journal_le d d1"
  using assms begin_request_keeps by (auto simp: prepare_def split: sum.splits if_splits json.splits)

lemma settle_keeps:
  "wf_protocol d \<Longrightarrow> wf_protocol (snd (settle a rid outcome w d))" "journal_le d (snd (settle a rid outcome w d))"
  by (auto simp: settle_def Let_def finish_request_keeps split: sum.splits failure.splits json.splits)

lemma execute_keeps:
  "wf_protocol d \<Longrightarrow> wf_protocol (snd (execute sha fr a args w d))" "journal_le d (snd (execute sha fr a args w d))"
  by (simp_all add: wf_protocol_def wf_execute journal_le_def rows_le_refl)

lemma run_message_keeps:
  "wf_protocol d \<Longrightarrow> wf_protocol (run_message sha fr m d)" "journal_le d (run_message sha fr m d)"
proof -
  obtain message w cr where m: "m = (message, w, cr)" by (cases m)
  have "(wf_protocol d \<longrightarrow> wf_protocol (run_message sha fr m d)) \<and> journal_le d (run_message sha fr m d)"
  proof (cases "admit message")
    case (Inr p)
    obtain a args rid where p: "p = (a, args, rid)" by (cases p)
    obtain o1 d1 where pr: "prepare sha fr a args rid w d = (o1, d1)" by fastforce
    obtain out d2 where ex: "execute sha fr a args w d1 = (out, d2)" by fastforce
    note k = prepare_keeps [OF pr] execute_keeps [of d1 sha fr a args w, unfolded ex snd_conv]
    have tail: "(wf_protocol d \<longrightarrow> wf_protocol (snd (settle a rid oc w dx))) \<and> journal_le d (snd (settle a rid oc w dx))"
      if "wf_protocol d \<longrightarrow> wf_protocol dx" "journal_le d dx" for oc dx
      using that settle_keeps [of dx a rid oc w] journal_le_trans by blast
    show ?thesis
      using k tail [of d1] tail [of d2] journal_le_trans [of d d1 d2]
      by (auto simp: m Inr p pr ex split: sum.splits option.splits)
  qed (simp add: m)
  then show "wf_protocol d \<Longrightarrow> wf_protocol (run_message sha fr m d)" "journal_le d (run_message sha fr m d)" by auto
qed

interpretation protocol: ordered_machine "run_message sha fr" wf_protocol journal_le for sha fr
  by unfold_locales (auto intro: run_message_keeps journal_le_trans)

lemma later_request:
  assumes "request_of d rid = Some r" "journal_le d d'"
  obtains r' where "r' \<in> set (protocol_requests d')" "r_id r' = rid" "request_le r r'"
proof -
  from find_row_Some [OF assms(1) [unfolded request_of_def]] have "r \<in> set (protocol_requests d)" "r_id r = rid" by auto
  with assms(2) that show ?thesis by (auto simp: journal_le_def rows_le_def request_le_def)
qed

lemma known_persists:
  assumes "request_of d rid \<noteq> None" "journal_le d d'"
  shows "request_of d' rid \<noteq> None"
proof -
  from assms obtain r where "request_of d rid = Some r" by blast
  from this assms(2) obtain r' where "r' \<in> set (protocol_requests d')" "r_id r' = rid"
    by (rule later_request) blast
  then show ?thesis by (auto simp: request_of_def find_row_None)
qed

lemma later_settled:
  assumes wf: "wf_protocol d" and r: "request_of d rid = Some r" "r_status r \<noteq> RqStarted"
  shows "request_of (fold (run_message sha fr) ms d) rid = Some r"
proof -
  have le: "journal_le d (fold (run_message sha fr) ms d)" by (rule protocol.run_le [OF wf])
  from r(1) le obtain r' where r': "r' \<in> set (protocol_requests (fold (run_message sha fr) ms d))" "r_id r' = rid" "request_le r r'"
    by (rule later_request)
  with r(2) have "r' = r" by (simp add: request_le_def)
  with r' protocol.run_inv [OF wf, of sha fr ms] find_row_key [of r_id _ r']
  show ?thesis by (simp add: request_of_def wf_protocol_def)
qed

lemma prepare_begun:
  assumes "prepare sha fr a args (JStr rid) w d = (Inr None, d1)" "mutating a"
  shows "request_of d rid = None" "d1 = d\<lparr>protocol_requests := protocol_requests d @
      [\<lparr>r_id = rid, r_fingerprint = fingerprint sha fr a args, r_action = a, r_status = RqStarted,
        r_response = None, r_created = dr_begin w, r_finished = None\<rparr>]\<rparr>"
  using assms by (auto simp: prepare_def begin_request_def split: sum.splits option.splits if_splits)

lemma begun_known: "prepare sha fr a args (JStr rid) w d = (Inr None, d1) \<Longrightarrow> mutating a \<Longrightarrow> request_of d1 rid \<noteq> None"
  using prepare_begun(2) [of sha fr a args rid w d d1] by (auto simp: request_of_None)

lemma executed_cases:
  assumes "rid \<in> set (executed sha fr m d)"
  shows "executed sha fr m d = [rid]" "request_of d rid = None" "request_of (run_message sha fr m d) rid \<noteq> None"
proof -
  obtain message w cr where m: "m = (message, w, cr)" by (cases m)
  from assms obtain a args where adm: "admit message = Inr (a, args, JStr rid)" and mu: "mutating a" "cr \<noteq> BeforeAction"
    and fp: "fst (prepare sha fr a args (JStr rid) w d) = Inr None"
    by (auto simp: m split: sum.splits json.splits if_splits) metis
  then obtain d1 where pr: "prepare sha fr a args (JStr rid) w d = (Inr None, d1)"
    by (cases "prepare sha fr a args (JStr rid) w d") auto
  show "executed sha fr m d = [rid]" using adm mu fp by (simp add: m)
  show "request_of d rid = None" using prepare_begun(1) [OF pr mu(1)] .
  obtain out d2 where ex: "execute sha fr a args w d1 = (out, d2)" by fastforce
  have "journal_le d1 (run_message sha fr m d)"
    using mu(2) execute_keeps(2) [of d1 sha fr a args w] settle_keeps(2) [of d2 a "JStr rid" out w]
    by (auto simp: m adm pr ex intro: journal_le_trans)
  with begun_known [OF pr mu(1)] show "request_of (run_message sha fr m d) rid \<noteq> None" by (rule known_persists)
qed

lemma known_not_executed:
  "request_of d rid \<noteq> None \<Longrightarrow> count_list (executed_all sha fr ms d) rid = 0"
proof (induction ms arbitrary: d)
  case (Cons m ms)
  have "request_of (run_message sha fr m d) rid \<noteq> None"
    by (rule known_persists [OF Cons.prems run_message_keeps(2)])
  with Cons executed_cases(2) [of rid sha fr m d] show ?case
    by (auto simp: count_list_0_iff)
qed simp

text \<open>C1: A request identifier executes at most one mutation, whatever messages are sent, repeated or
  altered, and wherever the process crashes between its transactions.\<close>

theorem request_executed_once: "count_list (executed_all sha fr ms d) rid \<le> 1"
proof (induction ms arbitrary: d)
  case (Cons m ms)
  show ?case
  proof (cases "rid \<in> set (executed sha fr m d)")
    case True
    from executed_cases(1,3) [OF True] known_not_executed [of "run_message sha fr m d" rid sha fr ms] show ?thesis by simp
  next
    case False
    then have "count_list (executed sha fr m d) rid = 0" by (simp add: count_list_0_iff)
    with Cons.IH show ?thesis by simp
  qed
qed simp

text \<open>The outcome of a mutation that was admitted for the first time.\<close>

definition settled :: "db \<Rightarrow> str \<Rightarrow> bool" where
  "settled d rid = (case request_of d rid of None \<Rightarrow> False | Some r \<Rightarrow> r_status r \<noteq> RqStarted)"

definition is_mutation :: "json \<Rightarrow> str \<Rightarrow> bool" where
  "is_mutation message rid =
     (case admit message of Inr (a, args, JStr r) \<Rightarrow> mutating a \<and> r = rid | _ \<Rightarrow> False)"

lemma is_mutationE:
  assumes "is_mutation message rid"
  obtains a args where "admit message = Inr (a, args, JStr rid)" "mutating a"
proof (cases "admit message")
  case (Inr p)
  obtain a args j where p: "p = (a, args, j)" by (cases p)
  show thesis using assms that by (cases j) (simp_all add: is_mutation_def Inr p)
qed (use assms in \<open>simp add: is_mutation_def\<close>)

lemma find_row_snoc: "find_row (\<lambda>r. r_id r = rid) rows = None \<Longrightarrow> r_id q = rid \<Longrightarrow> find_row (\<lambda>r. r_id r = rid) (rows @ [q]) = Some q"
  by (simp add: find_row_append)

lemma finish_request_row:
  assumes "request_of d rid = Some r" "r_status r = RqStarted"
  shows "request_of (finish_request rid reply failed now d) rid =
     Some (r\<lparr>r_status := (if failed then RqFailed else RqCompleted), r_response := Some reply, r_finished := Some now\<rparr>)"
proof -
  have "find_row (\<lambda>r. r_id r = rid) (update_rows (\<lambda>r. r_id r = rid \<and> r_status r = RqStarted) f rows) = Some (f r)"
    if "find_row (\<lambda>r. r_id r = rid) rows = Some r" "\<And>q. r_id (f q) = r_id q" for f rows
    using that assms(2) by (induction rows) (auto split: if_splits)
  with assms(1) show ?thesis by (simp add: request_of_def finish_request_def)
qed

lemma settle_row:
  assumes "mutating a" "request_of d rid = Some r" "r_status r = RqStarted"
    and "settle a (JStr rid) outcome w d = (reply, d')" "settled d' rid"
  shows "\<exists>r'. request_of d' rid = Some r' \<and> r_response r' = Some reply \<and> r_status r' \<noteq> RqStarted
           \<and> r_fingerprint r' = r_fingerprint r"
  using assms
  by (auto simp: settle_def settled_def finish_request_row Let_def split: sum.splits failure.splits)

lemma begin_replays:
  assumes "request_of d rid = Some r" "r_status r \<noteq> RqStarted" "r_response r = Some reply"
    and "r_fingerprint r = fingerprint sha fr a args" "slug_ok rid"
  shows "begin_request sha fr rid a args now d = (Inr (Some (mark_replayed reply)), d)"
  using assms by (cases "r_status r") (auto simp: begin_request_def validate_token_def)

lemma prepare_valid:
  assumes "prepare sha fr a args (JStr rid) w d = (Inr x, d1)" "mutating a"
  shows "validate_action_args a args = Inr ()" "slug_ok rid"
  using assms by (auto simp: prepare_def begin_request_def validate_token_def split: sum.splits if_splits)

lemma settle_unknown: "request_of d rid = None \<Longrightarrow> request_of (snd (settle a (JStr rid) outcome w d)) rid = None"
  by (auto simp: settle_def finish_request_def request_of_None map_update_rows_id Let_def simp del: set_map
      split: sum.split failure.split)

text \<open>C25: A retried mutation gets its first answer: once the first attempt was settled, sending the
  message again, at any later time, returns the recorded reply marked as replayed and changes
  nothing.\<close>

theorem retry_replays_answer:
  assumes "is_mutation message rid" "request_of (fold (run_message sha fr) ms empty_db) rid = None"
    and "settled (snd (dispatch sha fr message w (fold (run_message sha fr) ms empty_db))) rid"
  shows "dispatch sha fr message w' (fold (run_message sha fr) ms' (snd (dispatch sha fr message w (fold (run_message sha fr) ms empty_db))))
       = (mark_replayed (fst (dispatch sha fr message w (fold (run_message sha fr) ms empty_db))),
          fold (run_message sha fr) ms' (snd (dispatch sha fr message w (fold (run_message sha fr) ms empty_db))))"
proof -
  define d where "d = fold (run_message sha fr) ms empty_db"
  have wf: "wf_protocol d"
    unfolding d_def by (rule protocol.run_inv) (simp add: wf_protocol_def wf_empty, simp add: empty_db_def)
  obtain a args where adm: "admit message = Inr (a, args, JStr rid)" and mu: "mutating a"
    using assms(1) by (rule is_mutationE)
  obtain m d1 where pr: "prepare sha fr a args (JStr rid) w d = (m, d1)" by fastforce
  have fresh: "request_of d rid = None" and fin: "settled (snd (dispatch sha fr message w d)) rid"
    using assms(2,3) by (simp_all add: d_def)
  have m: "m = Inr None"
  proof (rule ccontr)
    assume "m \<noteq> Inr None"
    with pr fresh mu have "d1 = d \<and> (\<exists>e. m = Inl e)"
      by (auto simp: prepare_def begin_request_def split: sum.splits if_splits)
    with pr have "dispatch sha fr message w d = settle a (JStr rid) (Inl (projl m)) w d"
      by (auto simp: dispatch_def adm)
    with fin settle_unknown [OF fresh] show False by (simp add: settled_def)
  qed
  obtain out d2 where ex: "execute sha fr a args w d1 = (out, d2)" by fastforce
  obtain reply d3 where st: "settle a (JStr rid) out w d2 = (reply, d3)" by fastforce
  have disp: "dispatch sha fr message w d = (reply, d3)" by (simp add: dispatch_def adm pr m ex st)
  define r where "r = \<lparr>r_id = rid, r_fingerprint = fingerprint sha fr a args, r_action = a, r_status = RqStarted,
        r_response = None, r_created = dr_begin w, r_finished = None\<rparr>"
  have "request_of d1 rid = Some r"
    using prepare_begun(2) [OF pr [unfolded m] mu] fresh by (simp add: request_of_def find_row_snoc r_def)
  then have "request_of d2 rid = Some r" using execute_requests [of sha fr a args w d1] by (simp add: ex request_of_def)
  from settle_row [OF mu this _ st] fin disp obtain r' where
    r': "request_of d3 rid = Some r'" "r_response r' = Some reply" "r_status r' \<noteq> RqStarted"
      "r_fingerprint r' = fingerprint sha fr a args" by (auto simp: r_def)
  have "wf_protocol d3" using run_message_keeps(1) [OF wf, of sha fr "(message, w, NoCrash)"]
    by (simp only: run_message_dispatch disp snd_conv)
  then have "request_of (fold (run_message sha fr) ms' d3) rid = Some r'" using r'(1,3) by (rule later_settled)
  from begin_replays [OF this r'(3,2,4)] prepare_valid [OF pr [unfolded m] mu] mu
  have "prepare sha fr a args (JStr rid) w' (fold (run_message sha fr) ms' d3)
      = (Inr (Some (mark_replayed reply)), fold (run_message sha fr) ms' d3)" by (simp add: prepare_def)
  then have "dispatch sha fr message w' (fold (run_message sha fr) ms' d3) = (mark_replayed reply, fold (run_message sha fr) ms' d3)"
    by (simp add: dispatch_def adm)
  then show ?thesis by (simp add: disp d_def [symmetric])
qed

definition demo_draws :: draws where
  "demo_draws = \<lparr>dr_begin = 1, dr_now = 1, dr_finish = 1, dr_id = ''id-1'', dr_nonce = demo_nonce\<rparr>"

definition demo_create :: json where
  "demo_create = JObj [(''protocol'', JInt 1), (''action'', JStr ''create_job''), (''request_id'', JStr ''req-1''),
     (''args'', JObj [(''job_id'', JStr ''job-1''), (''title'', JStr ''t''), (''goal'', JStr ''g'')])]"

definition demo_other :: json where
  "demo_other = JObj [(''protocol'', JInt 1), (''action'', JStr ''create_job''), (''request_id'', JStr ''req-1''),
     (''args'', JObj [(''job_id'', JStr ''job-2''), (''title'', JStr ''t''), (''goal'', JStr ''g'')])]"

definition demo_float :: "real \<Rightarrow> str" where
  "demo_float r = ''0.0''"

theorem retry_replays_answer_witness:
  "dispatch rev demo_float demo_create demo_draws (fold (run_message rev demo_float) [(demo_other, demo_draws, NoCrash)]
       (snd (dispatch rev demo_float demo_create demo_draws (fold (run_message rev demo_float) [] empty_db))))
     = (mark_replayed (fst (dispatch rev demo_float demo_create demo_draws (fold (run_message rev demo_float) [] empty_db))),
        fold (run_message rev demo_float) [(demo_other, demo_draws, NoCrash)]
          (snd (dispatch rev demo_float demo_create demo_draws (fold (run_message rev demo_float) [] empty_db))))"
  by (rule retry_replays_answer [where rid = "''req-1''"]) code_simp+

definition journalled_started :: "(str \<Rightarrow> str) \<Rightarrow> (real \<Rightarrow> str) \<Rightarrow> json \<Rightarrow> str \<Rightarrow> db \<Rightarrow> bool" where
  "journalled_started sha fr message rid d =
     (case (admit message, request_of d rid) of
        (Inr (a, args, _), Some r) \<Rightarrow> r_status r = RqStarted \<and> r_fingerprint r = fingerprint sha fr a args
          \<and> validate_action_args a args = Inr () \<and> slug_ok rid
      | _ \<Rightarrow> False)"

lemma started_begin:
  assumes "request_of d rid = Some r" "r_status r = RqStarted" "slug_ok rid"
  shows "begin_request sha fr rid a args now d =
    (if r_fingerprint r = fingerprint sha fr a args
     then (Inr (Some (error_reply (JStr rid) ''indeterminate_request''
            ''request started previously; reconcile state before issuing a new mutation'')), d)
     else (Inl (Harness (Conflict ''request_id reused with different payload'')), d))"
  using assms by (simp add: begin_request_def validate_token_def)

text \<open>After a crash the outcome is reported as unknown: a mutation whose row is still started is
  answered with \<open>indeterminate_request\<close> when it is sent again, and nothing is executed or changed.\<close>

theorem crashed_request_indeterminate:
  assumes "is_mutation message rid" "journalled_started sha fr message rid d"
  shows "dispatch sha fr message w d = (error_reply (JStr rid) ''indeterminate_request''
           ''request started previously; reconcile state before issuing a new mutation'', d)"
proof -
  obtain a args where adm: "admit message = Inr (a, args, JStr rid)" and mu: "mutating a"
    using assms(1) by (rule is_mutationE)
  from assms(2) obtain r where "request_of d rid = Some r" "r_status r = RqStarted" "r_fingerprint r = fingerprint sha fr a args"
    "validate_action_args a args = Inr ()" "slug_ok rid"
    by (auto simp: journalled_started_def adm split: option.splits)
  with mu show ?thesis by (simp add: dispatch_def adm prepare_def started_begin)
qed

theorem crashed_request_indeterminate_witness:
  "dispatch rev demo_float demo_create demo_draws (run_message rev demo_float (demo_create, demo_draws, BeforeSettling) empty_db)
     = (error_reply (JStr ''req-1'') ''indeterminate_request''
          ''request started previously; reconcile state before issuing a new mutation'',
        run_message rev demo_float (demo_create, demo_draws, BeforeSettling) empty_db)"
  by (rule crashed_request_indeterminate) code_simp+

text \<open>A conflicting reuse decides an unknown outcome: a different mutation under the identifier of
  a row that is still started is refused, but its refusal is recorded as the outcome of that row. The
  message that started the row is answered with the other message's conflict from then on, although
  its own mutation may have been committed before the crash.\<close>

theorem conflicting_reuse_settles_started:
  "let d = run_message rev demo_float (demo_create, demo_draws, BeforeSettling) empty_db;
       d' = snd (dispatch rev demo_float demo_other demo_draws d);
       conflict = error_reply (JStr ''req-1'') ''conflict'' ''request_id reused with different payload''
   in map j_id (jobs d) = [''job-1'']
      \<and> fst (dispatch rev demo_float demo_create demo_draws d) = error_reply (JStr ''req-1'') ''indeterminate_request''
          ''request started previously; reconcile state before issuing a new mutation''
      \<and> fst (dispatch rev demo_float demo_other demo_draws d) = conflict
      \<and> fst (dispatch rev demo_float demo_create demo_draws d') = mark_replayed conflict
      \<and> map j_id (jobs d') = [''job-1'']"
  by code_simp

lemma protocol_wf: "wf_db (fold (run_message sha fr) ms empty_db)"
proof -
  have "wf_protocol (fold (run_message sha fr) ms empty_db)"
    by (rule protocol.run_inv) (simp add: wf_protocol_def wf_empty, simp add: empty_db_def)
  then show ?thesis by (simp add: wf_protocol_def)
qed

text \<open>Exclusivity holds at the protocol boundary and survives crashes: after any messages, each
  cut off anywhere between its transactions, a job has at most one lease or open handoff and at most
  one unresolved operation.\<close>

theorem protocol_single_holder:
  "length (filter (\<lambda>l. l_job l = jid) (leases (fold (run_message sha fr) ms empty_db)))
     + length (filter (\<lambda>r. h_job r = jid \<and> open_state (h_state r)) (handoffs (fold (run_message sha fr) ms empty_db))) \<le> 1
   \<and> length (filter (\<lambda>r. o_job r = jid \<and> unresolved (o_status r)) (operations (fold (run_message sha fr) ms empty_db))) \<le> 1"
  using job_held_once [OF protocol_wf] one_unresolved [OF protocol_wf] by blast

end
