(* ===== verification/Regex.thy ===== *)
theory Regex
  imports Prelude
begin

text \<open>
  The fragment of Python's \<open>re\<close> that the executor's policy rules are written in: character classes,
  sequence, ordered choice, greedy repetition, anchors, the word boundary, a one-character negative
  lookbehind and a negative lookahead. A position in the text is the character before it and the
  rest after it. \<open>ends\<close> is the backtracking matcher: the ends of the matches from a position, in the
  order in which \<open>re\<close> tries them. \<open>rx_den\<close> is the declarative meaning, and \<open>set_ends\<close> shows that the
  matcher finds exactly the matches of the meaning.
\<close>

type_synonym pos = "char option \<times> str"

datatype rx =
    Eps
  | Cls "char \<Rightarrow> bool"
  | Seq rx rx
  | Alt rx rx
  | Star rx
  | TextStart
  | LineStart
  | LineEnd
  | WordB
  | NotAfter "char \<Rightarrow> bool"
  | NotAhead rx

definition at_class :: "(char \<Rightarrow> bool) \<Rightarrow> char option \<Rightarrow> bool" where
  "at_class P c = (case c of None \<Rightarrow> False | Some x \<Rightarrow> P x)"

definition next_char :: "str \<Rightarrow> char option" where
  "next_char s = (case s of [] \<Rightarrow> None | c # _ \<Rightarrow> Some c)"

definition word_boundary :: "pos \<Rightarrow> bool" where
  "word_boundary p = (at_class is_word (fst p) \<noteq> at_class is_word (next_char (snd p)))"

definition is_newline :: "char \<Rightarrow> bool" where
  "is_newline c = (code c = 10)"

definition line_start :: "pos \<Rightarrow> bool" where
  "line_start p = (fst p = None \<or> at_class is_newline (fst p))"

definition line_end :: "pos \<Rightarrow> bool" where
  "line_end p = (snd p = [] \<or> at_class is_newline (next_char (snd p)))"

subsection \<open>The matcher\<close>

text \<open>A repetition stops at an iteration that consumes nothing, so the length of the rest bounds it.\<close>

fun star_ends :: "(pos \<Rightarrow> pos list) \<Rightarrow> nat \<Rightarrow> pos \<Rightarrow> pos list" where
  "star_ends f 0 p = [p]"
| "star_ends f (Suc n) p =
     concat (map (star_ends f n) (filter (\<lambda>q. length (snd q) < length (snd p)) (f p))) @ [p]"

primrec ends :: "rx \<Rightarrow> pos \<Rightarrow> pos list" where
  "ends Eps p = [p]"
| "ends (Cls P) p = (case snd p of [] \<Rightarrow> [] | c # cs \<Rightarrow> if P c then [(Some c, cs)] else [])"
| "ends (Seq r s) p = concat (map (ends s) (ends r p))"
| "ends (Alt r s) p = ends r p @ ends s p"
| "ends (Star r) p = star_ends (ends r) (length (snd p)) p"
| "ends TextStart p = (if fst p = None then [p] else [])"
| "ends LineStart p = (if line_start p then [p] else [])"
| "ends LineEnd p = (if line_end p then [p] else [])"
| "ends WordB p = (if word_boundary p then [p] else [])"
| "ends (NotAfter P) p = (if at_class P (fst p) then [] else [p])"
| "ends (NotAhead r) p = (if ends r p = [] then [p] else [])"

text \<open>The positions of a text, from the first.\<close>

fun positions :: "char option \<Rightarrow> str \<Rightarrow> pos list" where
  "positions c [] = [(c, [])]"
| "positions c (x # xs) = (c, x # xs) # positions (Some x) xs"

definition rx_search :: "rx \<Rightarrow> str \<Rightarrow> bool" where
  "rx_search r s = list_ex (\<lambda>p. ends r p \<noteq> []) (positions None s)"

definition rx_fullmatch :: "rx \<Rightarrow> str \<Rightarrow> bool" where
  "rx_fullmatch r s = list_ex (\<lambda>q. snd q = []) (ends r (None, s))"

subsection \<open>The meaning\<close>

primrec rx_den :: "rx \<Rightarrow> pos \<Rightarrow> pos \<Rightarrow> bool" where
  "rx_den Eps = (\<lambda>p q. q = p)"
| "rx_den (Cls P) = (\<lambda>p q. \<exists>c cs. snd p = c # cs \<and> P c \<and> q = (Some c, cs))"
| "rx_den (Seq r s) = rx_den r OO rx_den s"
| "rx_den (Alt r s) = (\<lambda>p q. rx_den r p q \<or> rx_den s p q)"
| "rx_den (Star r) = (rx_den r)\<^sup>*\<^sup>*"
| "rx_den TextStart = (\<lambda>p q. q = p \<and> fst p = None)"
| "rx_den LineStart = (\<lambda>p q. q = p \<and> line_start p)"
| "rx_den LineEnd = (\<lambda>p q. q = p \<and> line_end p)"
| "rx_den WordB = (\<lambda>p q. q = p \<and> word_boundary p)"
| "rx_den (NotAfter P) = (\<lambda>p q. q = p \<and> \<not> at_class P (fst p))"
| "rx_den (NotAhead r) = (\<lambda>p q. q = p \<and> (\<forall>q'. \<not> rx_den r p q'))"

text \<open>A match never lengthens the rest, and one that does not shorten it stays where it is.\<close>

definition advances :: "pos \<Rightarrow> pos \<Rightarrow> bool" where
  "advances p q = (q = p \<or> length (snd q) < length (snd p))"

lemma advances_trans: "advances p q \<Longrightarrow> advances q r \<Longrightarrow> advances p r"
  by (auto simp: advances_def)

lemma rx_den_advances: "rx_den r p q \<Longrightarrow> advances p q"
proof (induction r arbitrary: p q)
  case (Seq r s)
  then obtain m where "rx_den r p m" "rx_den s m q" by auto
  with Seq.IH show ?case using advances_trans by blast
next
  case (Star r)
  from Star.prems have "(rx_den r)\<^sup>*\<^sup>* p q" by simp
  then show ?case
  proof (induct rule: rtranclp_induct)
    case (step y z)
    with Star.IH show ?case using advances_trans by blast
  qed (simp add: advances_def)
next
  case (Alt r s)
  from Alt.prems have "rx_den r p q \<or> rx_den s p q" by simp
  with Alt.IH show ?case by blast
qed (auto simp: advances_def)

lemma star_ends_sound:
  assumes "\<And>p q. q \<in> set (f p) \<Longrightarrow> R p q"
  shows "q \<in> set (star_ends f n p) \<Longrightarrow> R\<^sup>*\<^sup>* p q"
proof (induction n arbitrary: p)
  case (Suc n)
  then show ?case by (auto dest!: assms intro: converse_rtranclp_into_rtranclp)
qed simp

lemma star_ends_complete:
  assumes f: "\<And>p. set (f p) = {q. R p q}" and adv: "\<And>p q. R p q \<Longrightarrow> advances p q"
  shows "R\<^sup>*\<^sup>* p q \<Longrightarrow> length (snd p) \<le> n \<Longrightarrow> q \<in> set (star_ends f n p)"
proof (induction n arbitrary: p)
  case 0
  have "q = p" using 0 by (induction rule: converse_rtranclp_induct) (auto dest!: adv simp: advances_def)
  then show ?case by simp
next
  case (Suc n)
  have "q = p \<or> (\<exists>p'. R p p' \<and> length (snd p') < length (snd p) \<and> R\<^sup>*\<^sup>* p' q)"
    using Suc.prems(1)
  proof (induct rule: converse_rtranclp_induct)
    case (step y z)
    show ?case
    proof (cases "z = y")
      case False
      with adv [OF step(1)] have "length (snd z) < length (snd y)" by (simp add: advances_def)
      with step(1,2) show ?thesis by blast
    qed (use step(3) in simp)
  qed simp
  then show ?case
  proof
    assume "\<exists>p'. R p p' \<and> length (snd p') < length (snd p) \<and> R\<^sup>*\<^sup>* p' q"
    then obtain p' where p': "R p p'" "length (snd p') < length (snd p)" "R\<^sup>*\<^sup>* p' q" by blast
    with Suc.prems(2) have "q \<in> set (star_ends f n p')" by (intro Suc.IH) auto
    moreover from p' f [of p] have "p' \<in> set (filter (\<lambda>q. length (snd q) < length (snd p)) (f p))" by simp
    ultimately show ?thesis by (auto simp del: set_filter split_paired_Ex)
  qed simp
qed

lemma set_ends: "set (ends r p) = {q. rx_den r p q}"
proof (induction r arbitrary: p)
  case (Star r)
  show ?case
  proof (intro set_eqI iffI; unfold mem_Collect_eq rx_den.simps ends.simps)
    fix q
    show "(rx_den r)\<^sup>*\<^sup>* p q" if "q \<in> set (star_ends (ends r) (length (snd p)) p)"
      using star_ends_sound [of "ends r" "rx_den r" q] that Star.IH by blast
    show "q \<in> set (star_ends (ends r) (length (snd p)) p)" if "(rx_den r)\<^sup>*\<^sup>* p q"
      by (rule star_ends_complete [of "ends r" "rx_den r", OF Star.IH rx_den_advances that order_refl])
  qed
next
  case (NotAhead r)
  from NotAhead [of p] have "ends r p = [] \<longleftrightarrow> (\<forall>q. \<not> rx_den r p q)"
    by (metis empty_Collect_eq set_empty)
  then show ?case by auto
next
  case (Cls P)
  show ?case by (cases p; cases "snd p") auto
qed (auto split: list.split simp: OO_def)

lemma ends_Nil: "ends r p = [] \<longleftrightarrow> (\<forall>q. \<not> rx_den r p q)"
  using set_ends [of r p] by (metis Collect_empty_eq set_empty)

definition before :: "char option \<Rightarrow> str \<Rightarrow> char option" where
  "before c xs = (if xs = [] then c else Some (last xs))"

lemma before_Cons: "before c (x # xs) = before (Some x) xs"
  by (simp add: before_def)

lemma set_positions: "set (positions c s) = {(before c xs, ys) | xs ys. s = xs @ ys}"
proof (induction c s rule: positions.induct)
  case (1 c)
  show ?case by (auto simp: before_def)
next
  case (2 c x xs)
  have "{(before c as, ys) | as ys. x # xs = as @ ys} =
      insert (c, x # xs) {(before (Some x) as, ys) | as ys. xs = as @ ys}" (is "?L = ?R")
  proof
    show "?L \<subseteq> ?R" by (auto simp: Cons_eq_append_conv before_Cons) (auto simp: before_def)
    have "(c, x # xs) \<in> ?L" by (auto intro!: exI [of _ "[]"] simp: before_def)
    moreover have "(before (Some x) as, ys) \<in> ?L" if "xs = as @ ys" for as ys
      using that by (auto intro!: exI [of _ "x # as"] simp: before_Cons)
    ultimately show "?R \<subseteq> ?L" by blast
  qed
  with 2 show ?case by simp
qed

text \<open>A search succeeds exactly when the meaning has a match at some split of the text.\<close>

lemma rx_search_iff: "rx_search r s \<longleftrightarrow> (\<exists>xs ys q. s = xs @ ys \<and> rx_den r (before None xs, ys) q)"
proof -
  have "rx_search r s \<longleftrightarrow> (\<exists>p \<in> {(before None xs, ys) | xs ys. s = xs @ ys}. \<exists>q. rx_den r p q)"
    by (simp add: rx_search_def list_ex_iff ends_Nil set_positions)
  then show ?thesis by blast
qed

lemma rx_fullmatch_iff: "rx_fullmatch r s \<longleftrightarrow> (\<exists>c. rx_den r (None, s) (c, []))"
  unfolding rx_fullmatch_def list_ex_iff by (auto simp: set_ends)

end
