(* ===== verification/Policy.thy ===== *)
theory Policy
  imports Regex
begin

text \<open>
  The command policy of the executor (\<open>shell_bridge/bridge.py\<close>): the rules that prohibit a command,
  that classify it as high impact, and that classify it as a write outside a repository. Every
  pattern is the \<open>rx\<close> term of the source's regular expression, in the same order.
\<close>

subsection \<open>Building blocks\<close>

definition lower_char :: "char \<Rightarrow> char" where
  "lower_char c = (if is_upper c then char_of (code c + 32) else c)"

definition ci :: "char \<Rightarrow> char \<Rightarrow> bool" where
  "ci c x = (lower_char x = lower_char c)"

fun sq :: "rx list \<Rightarrow> rx" where
  "sq [] = Eps"
| "sq [r] = r"
| "sq (r # rs) = Seq r (sq rs)"

fun alt :: "rx list \<Rightarrow> rx" where
  "alt [] = NotAhead Eps"
| "alt [r] = r"
| "alt (r # rs) = Alt r (alt rs)"

text \<open>A literal under \<open>(?i)\<close>, and one without it.\<close>

definition lit :: "str \<Rightarrow> rx" where
  "lit s = sq (map (\<lambda>c. Cls (ci c)) s)"

definition litc :: "str \<Rightarrow> rx" where
  "litc s = sq (map (\<lambda>c. Cls (\<lambda>x. x = c)) s)"

definition opt :: "rx \<Rightarrow> rx" where
  "opt r = Alt r Eps"

definition sp :: rx where
  "sp = Cls is_space"

definition sps :: rx where
  "sps = Seq sp (Star sp)"

definition words :: "str list \<Rightarrow> rx" where
  "words ws = alt (map lit ws)"

definition is_alpha :: "char \<Rightarrow> bool" where
  "is_alpha c = (is_lower c \<or> is_upper c)"

definition alphas :: rx where
  "alphas = Star (Cls is_alpha)"

definition no_nl_semi :: "char \<Rightarrow> bool" where
  "no_nl_semi c = (code c \<noteq> 10 \<and> c \<noteq> CHR '';'')"

definition no_nl_ops :: "char \<Rightarrow> bool" where
  "no_nl_ops c = (code c \<noteq> 10 \<and> c \<noteq> CHR '';'' \<and> c \<noteq> CHR ''|'' \<and> c \<noteq> CHR ''&'')"

definition rest :: rx where
  "rest = Star (Cls no_nl_semi)"

definition args_run :: rx where
  "args_run = Star (Cls no_nl_ops)"

text \<open>\<open>(?<![\w-])\<close>, \<open>(?<!\S)\<close> and \<open>(?:^|[;&|]\s*|\n)\s*\<close>.\<close>

definition not_word_dash :: rx where
  "not_word_dash = NotAfter (\<lambda>c. is_word c \<or> c = CHR ''-'')"

definition not_after_text :: rx where
  "not_after_text = NotAfter (\<lambda>c. \<not> is_space c)"

definition is_operator :: "char \<Rightarrow> bool" where
  "is_operator c = (c = CHR '';'' \<or> c = CHR ''&'' \<or> c = CHR ''|'')"

definition command_start :: rx where
  "command_start = sq [alt [LineStart, Seq (Cls is_operator) (Star sp), Cls is_newline], Star sp]"

definition sudo :: rx where
  "sudo = opt (Seq (lit ''sudo'') sps)"

text \<open>\<open>(?:=|\s+)\<close>\<close>

definition eq_or_sps :: rx where
  "eq_or_sps = Alt (lit ''='') sps"

subsection \<open>Prohibited commands\<close>

definition prohibited_rules :: "(str \<times> rx) list" where
  "prohibited_rules =
     [(''public_repository_create'',
       sq [not_word_dash, lit ''gh'', sps, lit ''repo'', sps, lit ''create'', WordB,
           Star (Seq (NotAhead (Seq (lit ''--private'') WordB)) (Cls no_nl_semi)),
           Alt (Seq (lit ''--public'') WordB) LineEnd]),
      (''public_repository_visibility'',
       sq [not_word_dash, lit ''gh'', sps, lit ''repo'', sps, lit ''edit'', WordB, rest,
           lit ''--visibility'', eq_or_sps, lit ''public'', WordB]),
      (''public_repository_api'',
       sq [not_word_dash, lit ''gh'', sps, lit ''api'', WordB, rest,
           Alt (sq [lit ''visibility'',
                    alt [lit ''='', sps, sq [Cls (\<lambda>c. c = CHR 0x22 \<or> c = CHR 0x27), Star sp, lit '':'', Star sp,
                                             Cls (\<lambda>c. c = CHR 0x22 \<or> c = CHR 0x27)]],
                    lit ''public''])
               (sq [lit ''private'', alt [lit ''='', sps, sq [Cls (\<lambda>c. c = CHR 0x22 \<or> c = CHR 0x27), Star sp, lit '':'', Star sp]],
                    lit ''false''])])]"

fun first_rule :: "(str \<times> rx) list \<Rightarrow> str \<Rightarrow> str option" where
  "first_rule [] command = None"
| "first_rule ((name, r) # rules) command = (if rx_search r command then Some name else first_rule rules command)"

definition prohibited_command_reason :: "str \<Rightarrow> str option" where
  "prohibited_command_reason command = first_rule prohibited_rules command"

subsection \<open>High-impact commands\<close>

definition http_methods :: rx where
  "http_methods = words [''POST'', ''PUT'', ''PATCH'', ''DELETE'']"

definition github_content :: rx where
  "github_content = alt
     [sq [lit ''issue'', sps, words [''create'', ''close'', ''delete'', ''edit'', ''reopen'', ''transfer'', ''comment'',
            ''lock'', ''unlock'', ''pin'', ''unpin'']],
      sq [lit ''pr'', sps, words [''create'', ''close'', ''edit'', ''merge'', ''ready'', ''reopen'', ''review'', ''comment'',
            ''lock'', ''unlock'']],
      sq [lit ''release'', sps, words [''create'', ''delete'', ''edit'', ''upload'', ''delete-asset'']],
      sq [lit ''workflow'', sps, words [''run'', ''enable'', ''disable'']],
      sq [lit ''secret'', sps, words [''set'', ''delete'']],
      sq [lit ''variable'', sps, words [''set'', ''delete'']],
      sq [lit ''gist'', sps, words [''create'', ''delete'', ''edit'']]]"

definition curl_mutation :: rx where
  "curl_mutation = sq [lit ''curl'', WordB, rest, alt
     [sq [lit ''-X'', Star sp, http_methods, WordB],
      sq [lit ''--request'', eq_or_sps, http_methods, WordB],
      sq [sp, lit ''-'', words [''d'', ''F'', ''T''], Alt sp (Cls (\<lambda>c. \<not> is_alpha c))],
      sq [lit ''--'', alt [Seq (lit ''data'') (opt (sq [lit ''-'', Cls (\<lambda>c. is_word c \<or> c = CHR ''-''),
                                                       Star (Cls (\<lambda>c. is_word c \<or> c = CHR ''-''))])),
                          Seq (lit ''form'') (opt (lit ''-string'')), lit ''upload-file''], eq_or_sps]]]"

definition wget_mutation :: rx where
  "wget_mutation = sq [lit ''wget'', WordB, rest, Alt
     (sq [lit ''--method'', eq_or_sps, http_methods, WordB])
     (sq [lit ''--post-'', words [''data'', ''file''], eq_or_sps])]"

definition high_impact_rules :: "(str \<times> rx) list" where
  "high_impact_rules =
     [(''github_repository_control_plane'',
       sq [not_word_dash, lit ''gh'', sps, lit ''repo'', sps,
           words [''create'', ''delete'', ''rename'', ''archive'', ''unarchive'', ''edit''], WordB]),
      (''github_api_mutation'',
       sq [not_word_dash, lit ''gh'', sps, lit ''api'', WordB, rest,
           Alt (lit ''-X'') (Seq (lit ''--method'') eq_or_sps), Star sp, http_methods, WordB]),
      (''github_content_control_plane'',
       sq [not_word_dash, lit ''gh'', sps, github_content, WordB]),
      (''http_mutation'', Seq not_word_dash (Alt curl_mutation wget_mutation)),
      (''remote_shell_or_copy'',
       sq [command_start, words [''ssh'', ''scp'', ''sftp'', ''rsync''], WordB]),
      (''git_destructive_push'',
       sq [not_word_dash, lit ''git'', sps, lit ''push'', WordB, rest, alt
           [sq [lit ''--force'', opt (lit ''-with-lease''), WordB],
            Seq (lit ''--delete'') WordB,
            sq [Alt LineStart sp, lit ''-f'', Alt sp LineEnd]]]),
      (''git_destructive_local'',
       sq [not_word_dash, lit ''git'', sps, Alt
           (sq [lit ''reset'', sps, lit ''--hard'', WordB])
           (sq [lit ''clean'', sps, lit ''-'', alphas, lit ''f'', alphas, WordB])]),
      (''filesystem_recursive_delete'',
       sq [command_start, sudo, lit ''rm'', sps, Alt
           (sq [lit ''-'', alphas, lit ''r'', alphas, lit ''f'', alphas])
           (sq [lit ''-'', alphas, lit ''f'', alphas, lit ''r'', alphas]), WordB])]"

definition git_prefix :: rx where
  "git_prefix = sq [not_word_dash, lit ''git'',
     Star (sq [sps, lit ''-C'', sps, Cls (\<lambda>c. \<not> is_space c), Star (Cls (\<lambda>c. \<not> is_space c))]), sps]"

definition git_reset_clean :: rx where
  "git_reset_clean = sq [git_prefix, Alt
     (sq [lit ''reset'', WordB, args_run, lit ''--hard'', WordB])
     (sq [lit ''clean'', WordB, args_run, Alt (Seq (lit ''--force'') WordB)
            (sq [sp, lit ''-'', alphas, lit ''f'', alphas, WordB])])]"

text \<open>The loop over \<open>re.finditer\<close>: the matches of the Git subcommand pattern, each with the text of its
  two groups. The first end in backtracking order is the match that \<open>re\<close> reports; the search goes on
  behind it.\<close>

definition text_between :: "pos \<Rightarrow> pos \<Rightarrow> str" where
  "text_between p q = take (length (snd p) - length (snd q)) (snd p)"

definition git_subcommands :: rx where
  "git_subcommands = Seq (words [''restore'', ''checkout'', ''switch'', ''rm'', ''stash'', ''branch'']) WordB"

definition git_match :: "pos \<Rightarrow> (str \<times> str \<times> pos) option" where
  "git_match p =
     (case concat (map (\<lambda>q. map (\<lambda>s. (q, s)) (ends git_subcommands q)) (ends git_prefix p)) of
        [] \<Rightarrow> None
      | (q, s) # _ \<Rightarrow>
          (case ends args_run s of
             [] \<Rightarrow> None
           | e # _ \<Rightarrow> Some (map lower_char (text_between q s), text_between s e, e)))"

fun git_matches :: "nat \<Rightarrow> pos \<Rightarrow> (str \<times> str) list" where
  "git_matches 0 p = []"
| "git_matches (Suc n) p =
     (case git_match p of
        Some (sub, args, e) \<Rightarrow> (sub, args) # git_matches n e
      | None \<Rightarrow> (case snd p of [] \<Rightarrow> [] | c # cs \<Rightarrow> git_matches n (Some c, cs)))"

definition start_or_space :: rx where
  "start_or_space = Alt TextStart sp"

definition git_discards :: "str \<Rightarrow> str \<Rightarrow> bool" where
  "git_discards sub args =
     (if rx_search (sq [start_or_space, litc ''--'', Alt (litc ''help'') (litc ''version''), WordB]) args then False
      else if sub = ''restore''
      then \<not> (rx_search (sq [not_after_text, Alt (litc ''--staged'') (litc ''-S''), WordB]) args
              \<and> \<not> rx_search (sq [not_after_text, alt [litc ''--worktree'', litc ''-W'',
                                Seq (litc ''--source'') (Alt (litc ''='') sp)]]) args)
           \<and> py_strip args \<noteq> []
      else if sub = ''checkout''
      then rx_search (sq [start_or_space, Alt (sq [litc ''--'', sps, Cls (\<lambda>c. \<not> is_space c)])
             (Seq (alt [litc ''-f'', litc ''--force'', litc ''--discard-changes'']) WordB)]) args
      else if sub = ''switch''
      then rx_search (sq [start_or_space, alt [Seq (litc ''-f'') WordB, Seq (litc ''--force'') WordB,
             Seq (litc ''--discard-changes'') WordB]]) args
      else if sub = ''rm''
      then rx_search (sq [start_or_space, Alt (Seq (litc ''--force'') WordB)
             (sq [litc ''-'', alphas, litc ''f'', alphas, WordB])]) args
      else if sub = ''stash''
      then rx_search (sq [TextStart, sps, Alt (litc ''drop'') (litc ''clear''), WordB]) args
      else if sub = ''branch''
      then rx_search (sq [start_or_space, litc ''-'', alphas, litc ''D'', alphas, WordB]) args
      else False)"

definition rm_recursive :: rx where
  "rm_recursive = sq [command_start, sudo, lit ''rm'', WordB, rest, sps,
     Alt (Seq (lit ''--recursive'') WordB) (sq [lit ''-'', alphas, lit ''r'', alphas, WordB])]"

definition rm_help :: rx where
  "rm_help = sq [Star sp, words [''rm'', ''unlink''], sps, words [''--help'', ''--version'', ''-h''], Star sp]"

definition rm_any :: rx where
  "rm_any = sq [command_start, sudo, words [''rm'', ''unlink''], WordB]"

definition high_impact_command_category :: "str \<Rightarrow> str option" where
  "high_impact_command_category command =
     (if rx_search git_reset_clean command then Some ''git_destructive_local''
      else if list_ex (\<lambda>(sub, args). git_discards sub args) (git_matches (Suc (length command)) (None, command))
      then Some ''git_destructive_local''
      else if rx_search rm_recursive command then Some ''filesystem_recursive_delete''
      else if rx_fullmatch rm_help command then None
      else if rx_search rm_any command then Some ''filesystem_delete''
      else first_rule high_impact_rules command)"

subsection \<open>Writes outside a repository\<close>

definition non_repository_rules :: "(str \<times> rx) list" where
  "non_repository_rules =
     [(''filesystem_mutation'',
       sq [command_start, sudo, words [''cp'', ''mv'', ''rm'', ''mkdir'', ''rmdir'', ''touch'', ''chmod'', ''chown'', ''ln'',
             ''install'', ''tee''], WordB]),
      (''system_configuration'',
       sq [not_word_dash, Alt
           (sq [lit ''defaults'', sps, words [''write'', ''delete'', ''rename'', ''import'']])
           (sq [lit ''launchctl'', sps, words [''bootstrap'', ''bootout'', ''kickstart'', ''enable'', ''disable'',
                  ''setenv'', ''unsetenv'']]), WordB]),
      (''package_management'',
       sq [not_word_dash, alt [lit ''brew'', Seq (lit ''pip'') (opt (lit ''3'')), lit ''npm'', lit ''pnpm'', lit ''yarn''], sps,
           words [''install'', ''uninstall'', ''upgrade'', ''update'', ''link'', ''unlink'', ''add'', ''remove''], WordB])]"

definition non_repository_write_category :: "str \<Rightarrow> str option" where
  "non_repository_write_category command = first_rule non_repository_rules command"

subsection \<open>What the rules mean\<close>

lemma before_before [simp]: "before (before c xs) ys = before c (xs @ ys)"
  by (simp add: before_def)

lemma before_Nil [simp]: "before c [] = c"
  by (simp add: before_def)

lemma before_single [simp]: "before c [x] = Some x"
  by (simp add: before_def)

lemma den_sq: "rs \<noteq> [] \<Longrightarrow> rx_den (sq (r # rs)) = rx_den r OO rx_den (sq rs)"
  by (cases rs) simp_all

lemma den_sqI: "rx_den r p m \<Longrightarrow> rx_den (sq rs) m q \<Longrightarrow> rs \<noteq> [] \<Longrightarrow> rx_den (sq (r # rs)) p q"
  by (auto simp: den_sq)

lemma den_seqI: "rx_den r p m \<Longrightarrow> rx_den s m q \<Longrightarrow> rx_den (Seq r s) p q"
  by auto

lemma den_lit: "rx_den (lit s) (c, s @ t) (before c s, t)"
proof (induction s arbitrary: c)
  case (Cons x xs)
  have "rx_den (Cls (ci x)) (c, x # xs @ t) (Some x, xs @ t)" by (simp add: ci_def)
  moreover from Cons [of "Some x"] have "rx_den (lit xs) (Some x, xs @ t) (before c (x # xs), t)"
    by (simp add: before_Cons)
  ultimately show ?case by (cases xs) (auto simp: lit_def before_def)
qed (simp add: lit_def)

lemma den_words: "w \<in> set ws \<Longrightarrow> rx_den (words ws) (c, w @ t) (before c w, t)"
proof (induction ws)
  case (Cons v ws)
  then show ?case using den_lit [of w c t] by (cases ws) (auto simp: words_def)
qed simp

lemma den_star_step: "rx_den r p m \<Longrightarrow> rx_den (Star r) m q \<Longrightarrow> rx_den (Star r) p q"
  by (simp add: converse_rtranclp_into_rtranclp)

lemma den_star_nil: "rx_den (Star r) p p"
  by simp

lemma den_star_run: "\<forall>x \<in> set xs. P x \<Longrightarrow> rx_den (Star (Cls P)) (c, xs @ t) (before c xs, t)"
proof (induction xs arbitrary: c)
  case (Cons x xs)
  have step: "rx_den (Cls P) (c, (x # xs) @ t) (Some x, xs @ t)" using Cons.prems by simp
  have "rx_den (Star (Cls P)) (Some x, xs @ t) (before (Some x) xs, t)"
    by (rule Cons.IH) (use Cons.prems in simp)
  then have "rx_den (Star (Cls P)) (Some x, xs @ t) (before c (x # xs), t)" by (simp only: before_Cons)
  with step show ?case by (rule den_star_step)
qed simp

lemma den_space: "rx_den sps (c, CHR '' '' # t) (Some CHR '' '', t)"
proof -
  have "rx_den sp (c, CHR '' '' # t) (Some CHR '' '', t)" by (simp add: sp_def is_space_def code_def)
  moreover have "rx_den (Star sp) (Some CHR '' '', t) (Some CHR '' '', t)" by simp
  ultimately show ?thesis unfolding sps_def by (rule den_seqI)
qed

text \<open>A rule fires exactly when its meaning has a match at some split of the command.\<close>

definition rule_fires :: "rx \<Rightarrow> str \<Rightarrow> bool" where
  "rule_fires r command = (\<exists>xs ys q. command = xs @ ys \<and> rx_den r (before None xs, ys) q)"

lemma rule_firesI: "rx_den r (before None xs, ys) q \<Longrightarrow> rule_fires r (xs @ ys)"
  unfolding rule_fires_def by blast

lemma search_fires: "rx_search r command = rule_fires r command"
  by (simp only: rx_search_iff rule_fires_def)

lemma first_rule_Some: "first_rule rules command \<noteq> None \<longleftrightarrow> (\<exists>r \<in> snd ` set rules. rule_fires r command)"
  by (induction rules) (auto simp: search_fires)


text \<open>The start of a command: the start of a line, or behind an operator.\<close>

definition command_boundary :: "str \<Rightarrow> bool" where
  "command_boundary p = (p = [] \<or> (let c = last p in is_operator c \<or> is_newline c))"

definition ends_word :: "str \<Rightarrow> bool" where
  "ends_word s = (case s of [] \<Rightarrow> True | c # _ \<Rightarrow> \<not> is_word c)"

lemma ends_word_boundary: "is_word c \<Longrightarrow> ends_word s \<Longrightarrow> rx_den WordB (Some c, s) (Some c, s)"
  by (auto simp: word_boundary_def ends_word_def at_class_def next_char_def split: list.splits)

lemma den_command_start:
  assumes "command_boundary p"
  shows "\<exists>xs ys. p = xs @ ys \<and> rx_den command_start (before None xs, ys @ s) (before None p, s)"
proof -
  consider "p = [] \<or> is_newline (last p)" | "p \<noteq> []" "is_operator (last p)"
    using assms by (auto simp: command_boundary_def Let_def)
  then show ?thesis
  proof cases
    case 1
    then have "line_start (before None p, s)" by (auto simp: line_start_def before_def at_class_def)
    then have "rx_den command_start (before None p, s) (before None p, s)" by (auto simp: command_start_def)
    then show ?thesis by (intro exI [of _ p] exI [of _ "[]"]) simp
  next
    case 2
    have "rx_den command_start (before None (butlast p), [last p] @ s) (before None p, s)"
      using 2 by (auto simp: command_start_def before_def OO_def)
    then show ?thesis using 2(1) by (intro exI [of _ "butlast p"] exI [of _ "[last p]"]) simp
  qed
qed

lemma rule_at_command:
  assumes "command_boundary p" and "rx_den (sq rs) (before None p, s) q" and "rs \<noteq> []"
  shows "rule_fires (sq (command_start # rs)) (p @ s)"
proof -
  from den_command_start [OF assms(1), of s] obtain xs ys where
    "p = xs @ ys" "rx_den command_start (before None xs, ys @ s) (before None p, s)" by blast
  with assms(2,3) show ?thesis unfolding rule_fires_def
    by (intro exI [of _ xs] exI [of _ "ys @ s"] exI [of _ q]) (auto intro: den_sqI)
qed

lemma den_opt_skip: "rx_den (opt r) p p"
  by (simp add: opt_def)

lemma is_word_letter: "is_lower c \<Longrightarrow> is_word c"
  by (simp add: is_word_def Let_def)

lemma rm_any_fires:
  assumes "command_boundary p" "ends_word s"
  shows "rule_fires rm_any (p @ ''rm'' @ s)"
  unfolding rm_any_def
proof (rule rule_at_command [OF assms(1)])
  have w: "rx_den (words [''rm'', ''unlink'']) (before None p, ''rm'' @ s) (Some CHR ''m'', s)"
    using den_words [of "''rm''" "[''rm'', ''unlink'']" "before None p" s] by (simp add: before_def)
  have "rx_den (sq [words [''rm'', ''unlink''], WordB]) (before None p, ''rm'' @ s) (Some CHR ''m'', s)"
    by (rule den_sqI [OF w]) (use assms(2) ends_word_boundary [of "CHR ''m''" s] in \<open>simp_all add: is_word_letter is_lower_def code_def\<close>)
  then show "rx_den (sq [sudo, words [''rm'', ''unlink''], WordB]) (before None p, ''rm'' @ s) (Some CHR ''m'', s)"
    by (intro den_sqI [where r = sudo]) (auto simp: sudo_def intro: den_opt_skip)
qed simp

text \<open>Every deletion needs approval: a command that runs \<open>rm\<close> at the start of a line or behind an
  operator, whatever comes before and after it, has a high-impact category, unless the whole
  command is a pure help or version query.\<close>

theorem deletion_is_high_impact:
  assumes "command_boundary p" "ends_word s" "\<not> rx_fullmatch rm_help (p @ ''rm'' @ s)"
  shows "high_impact_command_category (p @ ''rm'' @ s) \<noteq> None"
  using rm_any_fires [OF assms(1,2)] assms(3)
  by (simp add: high_impact_command_category_def search_fires)

theorem deletion_is_high_impact_witness:
  "high_impact_command_category (''make;'' @ ''rm'' @ '' -i notes'') \<noteq> None"
  by (rule deletion_is_high_impact) code_simp+

lemma den_not_after: "\<not> at_class P c \<Longrightarrow> rx_den (NotAfter P) (c, s) (c, s)"
  by simp

lemma lit_matches: "rx_den (lit s) p q \<Longrightarrow> \<exists>xs. snd p = xs @ snd q \<and> map lower_char xs = map lower_char s"
proof (induction s arbitrary: p)
  case (Cons x xs)
  from Cons.prems have "rx_den (Seq (Cls (ci x)) (lit xs)) p q" by (cases xs) (auto simp: lit_def)
  then obtain c cs where c: "snd p = c # cs" "ci x c" "rx_den (lit xs) (Some c, cs) q" by auto
  from Cons.IH [OF c(3)] obtain ys where "cs = ys @ snd q" "map lower_char ys = map lower_char xs" by auto
  with c show ?case by (intro exI [of _ "c # ys"]) (simp add: ci_def)
qed (simp add: lit_def)

definition mentions :: "str \<Rightarrow> str \<Rightarrow> bool" where
  "mentions w s = sublist w (map lower_char s)"

text \<open>A run of the tempered class: no position of it starts the forbidden word.\<close>

lemma den_tempered_run:
  assumes "\<forall>x \<in> set xs. Q x" and "\<And>c ys zs. xs = ys @ zs \<Longrightarrow> zs \<noteq> [] \<Longrightarrow> \<forall>q. \<not> rx_den r (c, zs @ t) q"
  shows "rx_den (Star (Seq (NotAhead r) (Cls Q))) (c, xs @ t) (before c xs, t)"
  using assms
proof (induction xs arbitrary: c)
  case (Cons x xs)
  have "rx_den (Star (Seq (NotAhead r) (Cls Q))) (Some x, xs @ t) (before (Some x) xs, t)"
  proof (rule Cons.IH)
    show "\<forall>q. \<not> rx_den r (c', zs @ t) q" if "xs = ys @ zs" "zs \<noteq> []" for c' ys zs
      using Cons.prems(2) [of "x # ys" zs] that by simp
  qed (use Cons.prems(1) in simp)
  moreover have "rx_den (Seq (NotAhead r) (Cls Q)) (c, x # xs @ t) (Some x, xs @ t)"
    using Cons.prems(1) Cons.prems(2) [of "[]" "x # xs" c] by auto
  ultimately have "rx_den (Star (Seq (NotAhead r) (Cls Q))) (c, x # xs @ t) (before (Some x) xs, t)"
    by (blast intro: den_star_step)
  then show ?case by (simp only: before_Cons append_Cons)
qed simp

definition plain_before :: "str \<Rightarrow> bool" where
  "plain_before p = (\<not> at_class (\<lambda>c. is_word c \<or> c = CHR ''-'') (before None p))"

definition ends_line :: "str \<Rightarrow> bool" where
  "ends_line t = (case t of [] \<Rightarrow> True | c # _ \<Rightarrow> is_newline c)"

lemma private_not_ahead:
  assumes "\<not> mentions ''--private'' xs" "xs = ys @ zs" "ends_line t"
  shows "\<not> rx_den (Seq (lit ''--private'') WordB) (c, zs @ t) q"
proof
  assume "rx_den (Seq (lit ''--private'') WordB) (c, zs @ t) q"
  then obtain q1 where "rx_den (lit ''--private'') (c, zs @ t) q1" by auto
  from lit_matches [OF this] obtain v where v: "zs @ t = v @ snd q1" "map lower_char v = ''--private''"
    by (auto simp: lower_char_def is_upper_def code_def)
  have "\<forall>x \<in> set v. \<not> is_newline x"
  proof
    fix x assume "x \<in> set v"
    then have "lower_char x \<in> set ''--private''" using v(2) by (metis image_eqI set_map)
    then show "\<not> is_newline x"
      by (auto simp: lower_char_def is_newline_def is_upper_def code_def split: if_splits)
  qed
  have "\<exists>us. zs = v @ us"
  proof (rule ccontr)
    assume none: "\<nexists>us. zs = v @ us"
    with v(1) obtain us where "v = zs @ us" "us \<noteq> []" "t = us @ snd q1" by (auto simp: append_eq_append_conv2)
    then have "hd us \<in> set v" "is_newline (hd us)" using assms(3) by (cases us; auto simp: ends_line_def)+
    with \<open>\<forall>x \<in> set v. \<not> is_newline x\<close> show False by blast
  qed
  then obtain us where "zs = v @ us" by blast
  with assms(2) v(2) have "map lower_char xs = map lower_char ys @ ''--private'' @ map lower_char us" by simp
  with assms(1) show False by (auto simp: mentions_def sublist_def)
qed

lemma den_create_tail:
  assumes "\<forall>x \<in> set args. no_nl_semi x" "\<not> mentions ''--private'' args" "ends_line t"
  shows "rx_den (sq [Star (Seq (NotAhead (Seq (lit ''--private'') WordB)) (Cls no_nl_semi)),
      Alt (Seq (lit ''--public'') WordB) LineEnd]) (c, args @ t) (before c args, t)"
proof (rule den_sqI)
  show "rx_den (Star (Seq (NotAhead (Seq (lit ''--private'') WordB)) (Cls no_nl_semi))) (c, args @ t) (before c args, t)"
    by (rule den_tempered_run [OF assms(1)]) (use private_not_ahead [OF assms(2) _ assms(3)] in blast)
  have "line_end (before c args, t)"
    using assms(3) by (auto simp: line_end_def ends_line_def at_class_def next_char_def split: list.splits)
  then show "rx_den (sq [Alt (Seq (lit ''--public'') WordB) LineEnd]) (before c args, t) (before c args, t)" by simp
qed simp

lemma den_create_words:
  assumes "plain_before p"
    and "rx_den (sq rs) (Some CHR ''e'', CHR '' '' # s) q" "rs \<noteq> []"
  shows "rx_den (sq (not_word_dash # lit ''gh'' # sps # lit ''repo'' # sps # lit ''create'' # WordB # rs))
           (before None p, ''gh repo create '' @ s) q"
proof -
  have l: "rx_den (lit w) (c, w @ u) (before c w, u)" for w c u by (rule den_lit)
  have gh: "rx_den (lit ''gh'') (c, ''gh'' @ u) (Some CHR ''h'', u)" for c u using l [of "''gh''" c u] by (simp add: before_def)
  have repo: "rx_den (lit ''repo'') (c, ''repo'' @ u) (Some CHR ''o'', u)" for c u using l [of "''repo''" c u] by (simp add: before_def)
  have create: "rx_den (lit ''create'') (c, ''create'' @ u) (Some CHR ''e'', u)" for c u using l [of "''create''" c u] by (simp add: before_def)
  have wb: "rx_den WordB (Some CHR ''e'', CHR '' '' # s) (Some CHR ''e'', CHR '' '' # s)"
    by (rule ends_word_boundary) (simp_all add: ends_word_def is_word_def is_lower_def is_upper_def is_digit_def code_def)
  have start: "rx_den not_word_dash (before None p, u) (before None p, u)" for u
    using assms(1) by (simp add: not_word_dash_def plain_before_def)
  have "rx_den (sq (not_word_dash # lit ''gh'' # sps # lit ''repo'' # sps # lit ''create'' # WordB # rs))
      (before None p, ''gh'' @ CHR '' '' # ''repo'' @ CHR '' '' # ''create'' @ CHR '' '' # s) q"
    by (rule den_sqI [OF start], rule den_sqI [OF gh], rule den_sqI [OF den_space], rule den_sqI [OF repo],
        rule den_sqI [OF den_space], rule den_sqI [OF create], rule den_sqI [OF wb]) (use assms(2,3) in simp_all)
  then show ?thesis by simp
qed

text \<open>A repository is never created public: \<open>gh repo create\<close> followed on its line by arguments
  without a semicolon that nowhere mention \<open>--private\<close> is prohibited, wherever it stands in the
  command.\<close>

theorem public_create_prohibited:
  assumes "plain_before p" "list_all no_nl_semi args" "\<not> mentions ''--private'' args" "ends_line t"
  shows "prohibited_command_reason (p @ ''gh repo create '' @ args @ t) \<noteq> None"
proof -
  have "\<forall>x \<in> set (CHR '' '' # args). no_nl_semi x" using assms(2) by (auto simp: list_all_iff no_nl_semi_def code_def)
  moreover have "\<not> mentions ''--private'' (CHR '' '' # args)"
    using assms(3) by (auto simp: mentions_def sublist_Cons_right lower_char_def is_upper_def code_def prefix_def)
  ultimately have "rx_den (sq [Star (Seq (NotAhead (Seq (lit ''--private'') WordB)) (Cls no_nl_semi)),
      Alt (Seq (lit ''--public'') WordB) LineEnd]) (Some CHR ''e'', (CHR '' '' # args) @ t) (before (Some CHR ''e'') (CHR '' '' # args), t)"
    using assms(4) by (rule den_create_tail)
  then have "rule_fires (snd (hd prohibited_rules)) (p @ ''gh repo create '' @ args @ t)"
    unfolding prohibited_rules_def list.sel snd_conv
    by (intro rule_firesI, intro den_create_words [OF assms(1)]) (simp_all only: append_Cons list.distinct not_False_eq_True)
  moreover have "snd (hd prohibited_rules) \<in> snd ` set prohibited_rules"
    unfolding prohibited_rules_def by (simp only: list.sel list.set image_insert insertI1)
  ultimately show ?thesis unfolding prohibited_command_reason_def first_rule_Some by blast
qed

theorem public_create_prohibited_witness:
  "prohibited_command_reason (''cd x && '' @ ''gh repo create '' @ ''me/new --public'' @ []) \<noteq> None"
  by (rule public_create_prohibited) code_simp+

end
