(* ===== verification/Shlex.thy ===== *)
theory Shlex
  imports Prelude
begin

text \<open>
  The lexer of Python's \<open>shlex\<close> in POSIX mode with \<open>whitespace_split\<close>, as the executor uses it:
  \<open>shlex.split\<close> (no comments, no punctuation) and the lexer with comments and punctuation characters
  of the workspace coordinator check. The state machine is the one of \<open>read_token\<close>; a token is emitted
  where it breaks out of its loop, and a pushed-back character is read again.
\<close>

record lex_conf =
  lx_comments :: str
  lx_punct :: str

datatype lex_state = Blank | InQuote char | InEscape "char option" | Word | Punct

definition lex_space :: "char \<Rightarrow> bool" where
  "lex_space c = (code c = 32 \<or> code c = 9 \<or> code c = 13 \<or> code c = 10)"

definition lex_quote :: "char \<Rightarrow> bool" where
  "lex_quote c = (c = CHR 0x22 \<or> c = CHR 0x27)"

definition backslash :: char where
  "backslash = CHR 0x5C"

definition skip_line :: "str \<Rightarrow> str" where
  "skip_line s = drop 1 (dropWhile (\<lambda>c. code c \<noteq> 10) s)"

lemma skip_line_length: "length (skip_line s) \<le> length s"
  unfolding skip_line_def using length_dropWhile_le [of "\<lambda>c. code c \<noteq> 10" s] by simp

definition emit :: "str \<Rightarrow> bool \<Rightarrow> str + str list \<Rightarrow> str + str list" where
  "emit tok quoted m = (if tok \<noteq> [] \<or> quoted then bindE m (\<lambda>ts. Inr (tok # ts)) else m)"

function lex :: "lex_conf \<Rightarrow> lex_state \<Rightarrow> bool \<Rightarrow> str \<Rightarrow> str \<Rightarrow> str + str list" where
  "lex cf Blank quoted tok [] = Inr []"
| "lex cf Blank quoted tok (c # cs) =
     (if lex_space c then lex cf Blank quoted tok cs
      else if c \<in> set (lx_comments cf) then lex cf Blank quoted tok (skip_line cs)
      else if c = backslash then lex cf (InEscape None) quoted tok cs
      else if c \<in> set (lx_punct cf) then lex cf Punct quoted [c] cs
      else if lex_quote c then lex cf (InQuote c) quoted tok cs
      else lex cf Word quoted [c] cs)"
| "lex cf (InQuote q) quoted tok [] = Inl ''No closing quotation''"
| "lex cf (InQuote q) quoted tok (c # cs) =
     (if c = q then lex cf Word True tok cs
      else if c = backslash \<and> q = CHR 0x22 then lex cf (InEscape (Some q)) True tok cs
      else lex cf (InQuote q) True (tok @ [c]) cs)"
| "lex cf (InEscape e) quoted tok [] = Inl ''No escaped character''"
| "lex cf (InEscape e) quoted tok (c # cs) =
     (case e of
        None \<Rightarrow> lex cf Word quoted (tok @ [c]) cs
      | Some q \<Rightarrow> lex cf (InQuote q) quoted
                   (if c \<noteq> backslash \<and> c \<noteq> q then tok @ [backslash, c] else tok @ [c]) cs)"
| "lex cf Word quoted tok [] = emit tok quoted (Inr [])"
| "lex cf Word quoted tok (c # cs) =
     (if lex_space c then emit tok quoted (lex cf Blank False [] cs)
      else if c \<in> set (lx_comments cf) then emit tok quoted (lex cf Blank False [] (skip_line cs))
      else if lex_quote c then lex cf (InQuote c) quoted tok cs
      else if c = backslash then lex cf (InEscape None) quoted tok cs
      else if c \<notin> set (lx_punct cf) then lex cf Word quoted (tok @ [c]) cs
      else emit tok quoted (lex cf Blank False [] (c # cs)))"
| "lex cf Punct quoted tok [] = emit tok quoted (Inr [])"
| "lex cf Punct quoted tok (c # cs) =
     (if lex_space c then emit tok quoted (lex cf Blank False [] cs)
      else if c \<in> set (lx_comments cf) then emit tok quoted (lex cf Blank False [] (skip_line cs))
      else if c \<in> set (lx_punct cf) then lex cf Punct quoted (tok @ [c]) cs
      else emit tok quoted (lex cf Blank False [] (c # cs)))"
  by pat_completeness auto

definition lex_weight :: "lex_state \<Rightarrow> nat" where
  "lex_weight s = (case s of Word \<Rightarrow> 1 | Punct \<Rightarrow> 1 | _ \<Rightarrow> 0)"

termination lex
  by (relation "measures [\<lambda>(cf, s, q, t, xs). length xs, \<lambda>(cf, s, q, t, xs). lex_weight s]")
     (use skip_line_length in \<open>auto simp: lex_weight_def le_imp_less_Suc\<close>)

definition split_conf :: lex_conf where
  "split_conf = \<lparr>lx_comments = [], lx_punct = []\<rparr>"

definition shlex_split :: "str \<Rightarrow> str + str list" where
  "shlex_split s = lex split_conf Blank False [] s"

text \<open>\<open>shlex.shlex(command, posix=True, punctuation_chars=";&|<>`$()")\<close>, which keeps the default
  comment character.\<close>

definition control_chars :: str where
  "control_chars = '';&|<>`$()''"

definition shlex_tokens :: "str \<Rightarrow> str + str list" where
  "shlex_tokens s = lex \<lparr>lx_comments = ''#'', lx_punct = control_chars\<rparr> Blank False [] s"

subsection \<open>Plain commands\<close>

text \<open>A token without space, quote and backslash, and (for the second lexer) without comment or control
  character, stands for itself.\<close>

definition plain_char :: "lex_conf \<Rightarrow> char \<Rightarrow> bool" where
  "plain_char cf c = (\<not> lex_space c \<and> \<not> lex_quote c \<and> c \<noteq> backslash
     \<and> c \<notin> set (lx_comments cf) \<and> c \<notin> set (lx_punct cf))"

lemma lex_word_run:
  "list_all (plain_char cf) w \<Longrightarrow> lex cf Word q t (w @ s) = lex cf Word q (t @ w) s"
  by (induction w arbitrary: t) (auto simp: plain_char_def)

lemma lex_plain_word:
  assumes "w \<noteq> []" "list_all (plain_char cf) w"
  shows "lex cf Blank False [] (w @ s) = lex cf Word False w s"
  using assms lex_word_run [of cf "tl w" False "[hd w]" s] by (cases w) (auto simp: plain_char_def)

text \<open>The words of a plain command line, joined by single spaces, come back from both lexers.\<close>

lemma lex_plain:
  assumes "\<forall>w \<in> set ws. w \<noteq> [] \<and> list_all (plain_char cf) w"
  shows "lex cf Blank False [] (join '' '' ws) = Inr ws"
  using assms
proof (induction ws rule: induct_list012)
  case (2 w)
  then show ?case using lex_plain_word [of w cf "[]"] by (simp add: emit_def)
next
  case (3 w y zs)
  have "lex_space (CHR '' '')" by (simp add: lex_space_def code_def)
  with 3 show ?case using lex_plain_word [of w cf "'' '' @ join '' '' (y # zs)"] by (simp add: emit_def)
qed simp

subsection \<open>Quoting\<close>

definition quote_char :: char where
  "quote_char = CHR 0x27"

definition shell_safe :: "char \<Rightarrow> bool" where
  "shell_safe c = (is_lower c \<or> is_upper c \<or> is_digit c \<or> c \<in> set ''_@%+=:,./-'')"

definition quote_body :: "str \<Rightarrow> str" where
  "quote_body s = concat (map (\<lambda>c. if c = quote_char then [quote_char, CHR 0x22, quote_char, CHR 0x22, quote_char] else [c]) s)"

definition shlex_quote :: "str \<Rightarrow> str" where
  "shlex_quote s =
     (if s = [] then [quote_char, quote_char]
      else if list_all shell_safe s then s
      else quote_char # quote_body s @ [quote_char])"

definition shlex_join :: "str list \<Rightarrow> str" where
  "shlex_join argv = join '' '' (map shlex_quote argv)"

lemma lex_quoted_body:
  "lex split_conf (InQuote quote_char) q t (quote_body s @ quote_char # r) = lex split_conf Word True (t @ s) r"
proof (induction s arbitrary: q t)
  case (Cons c cs)
  show ?case
  proof (cases "c = quote_char")
    case True
    then show ?thesis using Cons [of True "t @ [quote_char]"]
      by (simp add: quote_body_def lex_space_def lex_quote_def quote_char_def backslash_def split_conf_def code_def)
  next
    case False
    then show ?thesis using Cons [of True "t @ [c]"] by (simp add: quote_body_def quote_char_def)
  qed
qed (simp add: quote_body_def)

lemma safe_plain: "shell_safe c \<Longrightarrow> plain_char split_conf c"
  by (auto simp: shell_safe_def plain_char_def lex_space_def lex_quote_def backslash_def split_conf_def
      is_lower_def is_upper_def is_digit_def code_def)

lemma lex_quoted_arg: "\<exists>q. lex split_conf Blank False [] (shlex_quote s @ r) = lex split_conf Word q s r \<and> (s = [] \<longrightarrow> q)"
proof -
  consider "s = []" | "s \<noteq> []" "list_all shell_safe s" | "s \<noteq> []" "\<not> list_all shell_safe s" by blast
  then show ?thesis
  proof cases
    case 1
    then show ?thesis
      by (intro exI [of _ True]) (simp add: shlex_quote_def split_conf_def lex_space_def lex_quote_def quote_char_def backslash_def code_def)
  next
    case 2
    then have "list_all (plain_char split_conf) s" using safe_plain by (auto simp: list_all_iff)
    with 2 show ?thesis using lex_plain_word [of s split_conf r] by (auto simp: shlex_quote_def)
  next
    case 3
    have "lex split_conf Blank False [] (quote_char # quote_body s @ quote_char # r)
        = lex split_conf (InQuote quote_char) False [] (quote_body s @ quote_char # r)"
      by (simp add: split_conf_def lex_space_def lex_quote_def quote_char_def backslash_def code_def)
    with 3 show ?thesis by (auto simp: shlex_quote_def lex_quoted_body)
  qed
qed

text \<open>A shell reads back exactly the arguments that \<open>shlex.join\<close> quoted: splitting the joined
  command gives the argument list, for every list of arguments.\<close>

lemma shlex_split_join: "shlex_split (shlex_join argv) = Inr argv"
proof -
  have "lex split_conf Blank False [] (join '' '' (map shlex_quote argv)) = Inr argv"
  proof (induction argv rule: induct_list012)
    case (2 w)
    obtain q where "lex split_conf Blank False [] (shlex_quote w @ []) = lex split_conf Word q w []" "w = [] \<longrightarrow> q"
      using lex_quoted_arg by blast
    then show ?case by (auto simp: emit_def)
  next
    case (3 w y zs)
    have sp: "lex_space (CHR '' '')" by (simp add: lex_space_def code_def)
    obtain q where "lex split_conf Blank False [] (shlex_quote w @ '' '' @ join '' '' (map shlex_quote (y # zs)))
        = lex split_conf Word q w ('' '' @ join '' '' (map shlex_quote (y # zs)))" "w = [] \<longrightarrow> q"
      using lex_quoted_arg by blast
    with 3 sp show ?case by (auto simp: emit_def)
  qed simp
  then show ?thesis by (simp add: shlex_split_def shlex_join_def)
qed

end
