(* ===== verification/Files.thy ===== *)
theory Files
  imports Prelude
begin

text \<open>
  Paths as \<open>pathlib\<close> has them, and the questions the executor asks the file system. A path is its
  root (empty, one slash, or two) and its parts. The file system at one moment is the record \<open>fs\<close>, a
  parameter of the model: \<open>fs_expanduser\<close> and \<open>fs_resolve\<close> are \<open>expanduser()\<close> and \<open>resolve()\<close> (None
  when they raise), \<open>fs_open\<close> an open that does not follow a final symbolic link, with the facts of \<open>fstat\<close>.
\<close>

record path =
  p_root :: str
  p_parts :: "str list"

fun split_slash :: "str \<Rightarrow> str \<Rightarrow> str list" where
  "split_slash acc [] = [acc]"
| "split_slash acc (c # cs) = (if c = CHR ''/'' then acc # split_slash [] cs else split_slash (acc @ [c]) cs)"

definition path_root :: "str \<Rightarrow> str" where
  "path_root s =
     (case s of
        a # b # c # _ \<Rightarrow> if a = CHR ''/'' \<and> b = CHR ''/'' \<and> c \<noteq> CHR ''/'' then ''//'' else if a = CHR ''/'' then ''/'' else []
      | [a, b] \<Rightarrow> if a = CHR ''/'' \<and> b = CHR ''/'' then ''//'' else if a = CHR ''/'' then ''/'' else []
      | [a] \<Rightarrow> if a = CHR ''/'' then ''/'' else []
      | [] \<Rightarrow> [])"

definition parse_path :: "str \<Rightarrow> path" where
  "parse_path s = \<lparr>p_root = path_root s, p_parts = filter (\<lambda>x. x \<noteq> [] \<and> x \<noteq> ''.'') (split_slash [] s)\<rparr>"

definition path_str :: "path \<Rightarrow> str" where
  "path_str p = (if p_root p = [] \<and> p_parts p = [] then ''.'' else p_root p @ join ''/'' (p_parts p))"

definition is_absolute :: "path \<Rightarrow> bool" where
  "is_absolute p = (p_root p \<noteq> [])"

text \<open>\<open>p.relative_to(base)\<close> succeeds, \<open>p.name\<close>, \<open>p / name\<close>, and \<open>(p, *p.parents)\<close>.\<close>

definition relative_to :: "path \<Rightarrow> path \<Rightarrow> bool" where
  "relative_to p base = (p_root p = p_root base \<and> prefix (p_parts base) (p_parts p))"

definition path_name :: "path \<Rightarrow> str" where
  "path_name p = (if p_parts p = [] then [] else last (p_parts p))"

definition child :: "path \<Rightarrow> str \<Rightarrow> path" where
  "child p name = p\<lparr>p_parts := p_parts p @ [name]\<rparr>"

definition parent :: "path \<Rightarrow> path" where
  "parent p = p\<lparr>p_parts := butlast (p_parts p)\<rparr>"

definition with_parents :: "path \<Rightarrow> path list" where
  "with_parents p = map (\<lambda>parts. p\<lparr>p_parts := parts\<rparr>) (rev (prefixes (p_parts p)))"

lemma relative_to_refl [simp]: "relative_to p p"
  by (simp add: relative_to_def)

lemma relative_to_trans: "relative_to p q \<Longrightarrow> relative_to q r \<Longrightarrow> relative_to p r"
  by (auto simp: relative_to_def dest: prefix_order.trans)

lemma relative_to_child: "relative_to (child p name) p"
  by (simp add: relative_to_def child_def)

lemma with_parents_self: "p \<in> set (with_parents p)"
  unfolding with_parents_def by (auto intro!: image_eqI [of _ _ "p_parts p"])

lemma with_parents_relative: "q \<in> set (with_parents p) \<longleftrightarrow> p_root q = p_root p \<and> prefix (p_parts q) (p_parts p)"
proof
  assume "p_root q = p_root p \<and> prefix (p_parts q) (p_parts p)"
  moreover from this have "q = p\<lparr>p_parts := p_parts q\<rparr>" by (cases p; cases q) simp
  ultimately show "q \<in> set (with_parents p)" unfolding with_parents_def by (auto intro!: image_eqI [of _ _ "p_parts q"])
qed (auto simp: with_parents_def)

record file_info =
  fi_regular :: bool
  fi_shared_write :: bool
  fi_bytes :: str

record fs =
  fs_expanduser :: "path \<Rightarrow> path option"
  fs_resolve :: "path \<Rightarrow> path option"
  fs_is_symlink :: "path \<Rightarrow> bool"
  fs_exists :: "path \<Rightarrow> bool"
  fs_is_dir :: "path \<Rightarrow> bool"
  fs_is_file :: "path \<Rightarrow> bool"
  fs_open :: "path \<Rightarrow> file_info option"
  fs_read :: "path \<Rightarrow> str option"

text \<open>\<open>p.expanduser().resolve()\<close>, the same of a text, and \<open>a / b\<close>.\<close>

definition full_resolve :: "fs \<Rightarrow> path \<Rightarrow> path option" where
  "full_resolve w p = Option.bind (fs_expanduser w p) (fs_resolve w)"

definition resolve_str :: "fs \<Rightarrow> str \<Rightarrow> path option" where
  "resolve_str w s = full_resolve w (parse_path s)"

definition join_path :: "path \<Rightarrow> path \<Rightarrow> path" where
  "join_path a b = (if is_absolute b then b else a\<lparr>p_parts := p_parts a @ p_parts b\<rparr>)"

end
