(* ===== verification/Trusted.thy ===== *)
theory Trusted
  imports Files
begin

text \<open>
  Trusted operations (\<open>shell_bridge/trusted_operations.py\<close>): the descriptor of a helper that an
  administrator installed, its validation, the check of the installed file against its pinned digest,
  and the lookup of an operation in the configuration. \<open>sha\<close> is the SHA-256 hex digest of the bytes of
  a file. A \<open>TrustedOperationPolicyError\<close> is \<open>Inl\<close> its message.
\<close>

record trusted_operation =
  to_name :: str
  to_executable :: path
  to_sha256 :: str
  to_roots :: "path list"
  to_actions :: "str list"
  to_confirm :: bool

definition name_tail :: "char \<Rightarrow> bool" where
  "name_tail c = (is_lower c \<or> is_digit c \<or> c = CHR ''-'')"

definition op_name_ok :: "str \<Rightarrow> bool" where
  "op_name_ok s = (case s of [] \<Rightarrow> False
     | c # cs \<Rightarrow> is_lower c \<and> list_all name_tail cs \<and> 2 \<le> length cs \<and> length cs \<le> 63)"

definition is_hex :: "char \<Rightarrow> bool" where
  "is_hex c = (is_digit c \<or> (97 \<le> code c \<and> code c \<le> 102))"

lemma is_hex_members [code]: "is_hex c = (c \<in> set ''0123456789abcdef'')"
proof -
  have members: "code ` set ''0123456789abcdef'' = {48..57} \<union> {97..102}" by code_simp
  show ?thesis unfolding class_members [OF members] by (simp add: is_hex_def is_digit_def)
qed

definition sha256_ok :: "str \<Rightarrow> bool" where
  "sha256_ok s = (length s = 64 \<and> list_all is_hex s)"

definition validate_operation :: "fs \<Rightarrow> trusted_operation \<Rightarrow> str + unit" where
  "validate_operation w op =
     (if \<not> op_name_ok (to_name op) then Inl ''invalid operation name''
      else if \<not> is_absolute (to_executable op) \<or> fs_is_symlink w (to_executable op)
      then Inl ''helper must be an absolute non-symlink path''
      else if \<not> sha256_ok (to_sha256 op) then Inl ''helper must pin an exact SHA-256 digest''
      else if to_roots op = [] then Inl ''operation needs at least one explicit resource root''
      else if \<exists>r \<in> set (to_roots op). \<not> is_absolute r \<or> fs_is_symlink w r \<or> ''..'' \<in> set (p_parts r)
      then Inl ''resource roots must be absolute and non-symlink paths''
      else if to_actions op = [] \<or> \<not> distinct (to_actions op) then Inl ''operation must declare unique actions''
      else if \<exists>a \<in> set (to_actions op). \<not> op_name_ok a then Inl ''invalid action''
      else if \<not> to_confirm op then Inl ''privileged operations require independent human confirmation''
      else Inr ())"

definition verify_installed_helper :: "(str \<Rightarrow> str) \<Rightarrow> fs \<Rightarrow> trusted_operation \<Rightarrow> str + unit" where
  "verify_installed_helper sha w op =
     bindE (validate_operation w op) (\<lambda>_.
     let helper = to_executable op in
     if \<not> fs_exists w helper then Inl ''installed helper missing''
     else if list_ex (fs_is_symlink w) (with_parents helper) then Inl ''helper path traverses a symlink''
     else case fs_open w helper of
            None \<Rightarrow> Inl ''cannot verify installed helper''
          | Some info \<Rightarrow>
              if \<not> fi_regular info then Inl ''helper is not a regular file''
              else if fi_shared_write info then Inl ''helper is writable by others''
              else if sha (fi_bytes info) \<noteq> to_sha256 op then Inl ''installed helper does not match pinned SHA-256''
              else Inr ())"

definition authorize_known_operation ::
  "fs \<Rightarrow> (str \<times> trusted_operation) list \<Rightarrow> str \<Rightarrow> str \<Rightarrow> str + trusted_operation" where
  "authorize_known_operation w registered name action =
     (case map_of registered name of
        None \<Rightarrow> Inl ''unknown privileged operation''
      | Some op \<Rightarrow>
          bindE (validate_operation w op) (\<lambda>_.
          if action \<notin> set (to_actions op) then Inl ''action not permitted'' else Inr op))"

text \<open>A JSON list of strings, or None.\<close>

fun str_list :: "json \<Rightarrow> str list option" where
  "str_list (JList xs) = (if list_all is_JStr xs then Some (concat (map (\<lambda>x. case x of JStr s \<Rightarrow> [s] | _ \<Rightarrow> []) xs)) else None)"
| "str_list _ = None"

definition descriptor_keys :: "str list" where
  "descriptor_keys = [''executable'', ''executable_sha256'', ''permitted_roots'', ''permitted_actions'']"

definition registered_operation_from_config ::
  "(str \<Rightarrow> str) \<Rightarrow> fs \<Rightarrow> json \<Rightarrow> str \<Rightarrow> str \<Rightarrow> path \<Rightarrow> str + trusted_operation" where
  "registered_operation_from_config sha w config name action agent_root =
     (let registered = obj_get_default config ''trusted_operations'' (JObj []) in
      if \<not> is_JObj registered then Inl ''trusted operation registry must be an object''
      else let d = obj_get registered name in
      if \<not> is_JObj d then Inl ''unknown privileged operation''
      else if set (obj_keys d) \<noteq> set descriptor_keys then Inl ''trusted operation descriptor has invalid fields''
      else case (obj_get d ''executable'', obj_get d ''executable_sha256'', str_list (obj_get d ''permitted_roots''),
                 str_list (obj_get d ''permitted_actions'')) of
             (JStr exe, JStr digest, Some roots, Some actions) \<Rightarrow>
               (let op = \<lparr>to_name = name, to_executable = parse_path exe, to_sha256 = digest,
                          to_roots = map parse_path roots, to_actions = actions, to_confirm = True\<rparr> in
                bindE (authorize_known_operation w [(name, op)] name action) (\<lambda>_.
                case full_resolve w agent_root of
                  None \<Rightarrow> Inl ''agent root does not resolve''
                | Some base \<Rightarrow>
                    if relative_to (to_executable op) base
                    then Inl ''trusted helper must not be inside the agent-writable root''
                    else bindE (verify_installed_helper sha w op) (\<lambda>_. Inr op)))
           | _ \<Rightarrow> Inl ''trusted operation descriptor has invalid types'')"

subsection \<open>What an authorized operation guarantees\<close>

lemma validate_operation_Inr:
  "validate_operation w op = Inr u \<longleftrightarrow> op_name_ok (to_name op) \<and> is_absolute (to_executable op)
     \<and> \<not> fs_is_symlink w (to_executable op) \<and> sha256_ok (to_sha256 op) \<and> to_roots op \<noteq> []
     \<and> (\<forall>r \<in> set (to_roots op). is_absolute r \<and> \<not> fs_is_symlink w r \<and> ''..'' \<notin> set (p_parts r))
     \<and> to_actions op \<noteq> [] \<and> distinct (to_actions op) \<and> list_all op_name_ok (to_actions op) \<and> to_confirm op"
  by (auto simp: validate_operation_def list_all_iff)

lemma verify_helper_Inr:
  "verify_installed_helper sha w op = Inr u \<Longrightarrow>
     (\<exists>info. fs_open w (to_executable op) = Some info \<and> fi_regular info \<and> \<not> fi_shared_write info
        \<and> sha (fi_bytes info) = to_sha256 op)
     \<and> (\<forall>q \<in> set (with_parents (to_executable op)). \<not> fs_is_symlink w q)"
  by (auto simp: verify_installed_helper_def bindE_eq_Inr Let_def list_ex_iff split: if_splits option.splits)

lemma registered_operation_Inr:
  assumes "registered_operation_from_config sha w config name action agent_root = Inr op"
  shows "validate_operation w op = Inr ()" "action \<in> set (to_actions op)" "to_name op = name"
    and "\<exists>base. full_resolve w agent_root = Some base \<and> \<not> relative_to (to_executable op) base"
    and "verify_installed_helper sha w op = Inr ()"
  using assms
  by (auto simp: registered_operation_from_config_def authorize_known_operation_def Let_def bindE_eq_Inr
      split: if_splits json.splits option.splits)

definition helper_pinned :: "(str \<Rightarrow> str) \<Rightarrow> fs \<Rightarrow> trusted_operation \<Rightarrow> bool" where
  "helper_pinned sha w op =
     ((case fs_open w (to_executable op) of
         None \<Rightarrow> False
       | Some info \<Rightarrow> fi_regular info \<and> \<not> fi_shared_write info \<and> sha (fi_bytes info) = to_sha256 op)
      \<and> list_all (\<lambda>q. \<not> fs_is_symlink w q) (with_parents (to_executable op)))"


end
