(* ===== verification/Base64.thy ===== *)
theory Base64
  imports Prelude
begin

text \<open>
  The base64 text of a byte string, as \<open>base64.b64encode\<close> writes it and \<open>base64.b64decode(s,
  validate=True)\<close> reads it: groups of four characters, padding only in the last group. The bytes of
  standard input arrive, and those of the output leave, in this form.
\<close>

definition b64_char :: "nat \<Rightarrow> char" where
  "b64_char n = (if n < 26 then char_of (65 + n) else if n < 52 then char_of (71 + n)
     else if n < 62 then char_of (n - 4) else if n = 62 then CHR ''+'' else CHR ''/'')"

definition b64_value :: "char \<Rightarrow> nat option" where
  "b64_value c = (if is_upper c then Some (code c - 65) else if is_lower c then Some (code c - 71)
     else if is_digit c then Some (code c + 4) else if c = CHR ''+'' then Some 62
     else if c = CHR ''/'' then Some 63 else None)"

definition pad :: char where
  "pad = CHR ''=''"

fun b64_encode :: "str \<Rightarrow> str" where
  "b64_encode [] = []"
| "b64_encode [a] = (let n = code a * 16 in [b64_char (n div 64), b64_char (n mod 64), pad, pad])"
| "b64_encode [a, b] = (let n = (code a * 256 + code b) * 4
     in [b64_char (n div 4096), b64_char (n div 64 mod 64), b64_char (n mod 64), pad])"
| "b64_encode (a # b # c # cs) = (let n = (code a * 256 + code b) * 256 + code c
     in b64_char (n div 262144) # b64_char (n div 4096 mod 64) # b64_char (n div 64 mod 64)
        # b64_char (n mod 64) # b64_encode cs)"

fun b64_decode :: "str \<Rightarrow> str option" where
  "b64_decode [] = Some []"
| "b64_decode (a # b # c # d # s) =
     (if c = pad \<and> d = pad \<and> s = []
      then (case (b64_value a, b64_value b) of
              (Some x, Some y) \<Rightarrow> Some [char_of ((x * 64 + y) div 16)] | _ \<Rightarrow> None)
      else if d = pad \<and> s = []
      then (case (b64_value a, b64_value b, b64_value c) of
              (Some x, Some y, Some z) \<Rightarrow>
                (let n = ((x * 64 + y) * 64 + z) div 4 in Some [char_of (n div 256), char_of (n mod 256)])
            | _ \<Rightarrow> None)
      else (case (b64_value a, b64_value b, b64_value c, b64_value d) of
              (Some x, Some y, Some z, Some w) \<Rightarrow>
                (let n = ((x * 64 + y) * 64 + z) * 64 + w
                 in map_option (\<lambda>r. char_of (n div 65536) # char_of (n div 256 mod 256) # char_of (n mod 256) # r)
                      (b64_decode s))
            | _ \<Rightarrow> None))"
| "b64_decode _ = None"

lemma code_char_of: "n < 256 \<Longrightarrow> code (char_of n) = n"
  by (simp add: code_def of_char_of)

lemma code_less: "code c < 256"
  by (simp add: code_def)

lemma char_of_code: "char_of (code c) = c"
  by (simp add: code_def)

lemma b64_value_char: "n < 64 \<Longrightarrow> b64_value (b64_char n) = Some n"
proof -
  assume "n < 64"
  then consider "n < 26" | "26 \<le> n" "n < 52" | "52 \<le> n" "n < 62" | "n = 62" | "n = 63" by linarith
  then show ?thesis
    by cases (auto simp add: b64_char_def b64_value_def is_upper_def is_lower_def is_digit_def code_char_of, simp_all add: code_def)
qed

lemma b64_char_not_pad: "n < 64 \<Longrightarrow> b64_char n \<noteq> pad"
  using b64_value_char [of n] by (auto simp: b64_value_def pad_def is_upper_def is_lower_def is_digit_def code_def)

lemma byte_step:
  fixes m c :: nat
  assumes "c < 256" shows "(m * 256 + c) div 256 = m" "(m * 256 + c) mod 256 = c"
  using assms by simp_all

lemma b64_digits:
  fixes n :: nat
  shows "(n div 4096 * 64 + n div 64 mod 64) * 64 + n mod 64 = n"
    "((n div 262144 * 64 + n div 4096 mod 64) * 64 + n div 64 mod 64) * 64 + n mod 64 = n"
proof -
  have "n div 4096 = n div 64 div 64" "n div 262144 = n div 64 div 64 div 64"
    by (simp_all add: div_mult2_eq [symmetric])
  then show "(n div 4096 * 64 + n div 64 mod 64) * 64 + n mod 64 = n"
    "((n div 262144 * 64 + n div 4096 mod 64) * 64 + n div 64 mod 64) * 64 + n mod 64 = n"
    by (simp_all only: div_mult_mod_eq)
qed

text \<open>Decoding the encoding of any byte string gives the byte string back.\<close>

theorem b64_roundtrip: "b64_decode (b64_encode s) = Some s"
proof (induction s rule: b64_encode.induct)
  case (2 a)
  define n where "n = code a * 16"
  have "n div 64 < 64" "n mod 64 < 64" using code_less [of a] by (simp_all add: n_def)
  moreover have "n div 64 * 64 + n mod 64 = n" by presburger
  moreover have "n div 16 = code a" by (simp add: n_def)
  moreover have "b64_encode [a] = [b64_char (n div 64), b64_char (n mod 64), pad, pad]" by (simp add: n_def)
  ultimately show ?case by (simp add: b64_value_char char_of_code del: b64_encode.simps)
next
  case (3 a b)
  define n where "n = (code a * 256 + code b) * 4"
  have r: "n div 4096 < 64" "n div 64 mod 64 < 64" "n mod 64 < 64"
    using code_less [of a] code_less [of b] by (simp_all add: n_def)
  have "(n div 4096 * 64 + n div 64 mod 64) * 64 + n mod 64 = n" by (rule b64_digits)
  moreover have "n div 4 div 256 = code a" "n div 4 mod 256 = code b" using code_less [of b] by (simp_all add: n_def)
  moreover have "b64_encode [a, b] = [b64_char (n div 4096), b64_char (n div 64 mod 64), b64_char (n mod 64), pad]"
    by (simp add: n_def Let_def)
  ultimately show ?case using r
    by (simp only: b64_decode.simps b64_value_char b64_char_not_pad Let_def char_of_code option.case prod.case if_True if_False simp_thms)
next
  case (4 a b c cs)
  define n where "n = (code a * 256 + code b) * 256 + code c"
  have r: "n div 262144 < 64" "n div 4096 mod 64 < 64" "n div 64 mod 64 < 64" "n mod 64 < 64"
    using code_less [of a] code_less [of b] code_less [of c] by (simp_all add: n_def)
  have "((n div 262144 * 64 + n div 4096 mod 64) * 64 + n div 64 mod 64) * 64 + n mod 64 = n" by (rule b64_digits)
  moreover have "n div 65536 = code a" using code_less [of b] code_less [of c] by (simp add: n_def)
  moreover have "n div 256 mod 256 = code b" "n mod 256 = code c"
    unfolding n_def using code_less [of b] code_less [of c] by (simp_all only: byte_step)
  moreover have "b64_encode (a # b # c # cs) = b64_char (n div 262144) # b64_char (n div 4096 mod 64)
      # b64_char (n div 64 mod 64) # b64_char (n mod 64) # b64_encode cs"
    by (simp add: n_def Let_def)
  moreover have "b64_decode (b64_encode cs) = Some cs" by (rule 4 [OF refl])
  ultimately show ?case using r
    by (simp only: b64_decode.simps b64_value_char b64_char_not_pad Let_def char_of_code option.case prod.case if_False
        simp_thms option.map)
qed simp

end
