(* ===== verification/Request.thy ===== *)
theory Request
  imports Files Base64
begin

text \<open>
  Admission of a request of the executor (\<open>shell_bridge/bridge.py\<close>): the check of the file name,
  \<open>validate_request\<close>, and the checks on the configuration. \<open>Inl\<close> is the exception: a \<open>ValueError\<close>
  with its message, or another exception.
\<close>

datatype pyerr = ValueErr str | OtherErr str

datatype write_scope = ScopeAuto | ScopeReadOnly | ScopeRepository | ScopeSystem

record valid_request =
  v_id :: str
  v_cwd :: path
  v_command :: str
  v_timeout :: int
  v_stdin :: str
  v_scope :: write_scope
  v_explanation :: str
  v_operation_id :: "str option"
  v_trusted :: "(str \<times> str) option"

definition require :: "bool \<Rightarrow> str \<Rightarrow> pyerr + unit" where
  "require ok message = (if ok then Inr () else Inl (ValueErr message))"

definition validate_request_name :: "str \<Rightarrow> pyerr + str" where
  "validate_request_name name =
     (let rid = take (length name - 5) name in
      if \<not> suffix ''.json'' name then Inl (ValueErr ''request filename must be <id>.json'')
      else if rid \<in> {[], ''.'', ''..''} \<or> \<not> slug_ok rid then Inl (ValueErr ''invalid request filename/id'')
      else Inr rid)"

definition scope_of :: "json \<Rightarrow> pyerr + write_scope" where
  "scope_of j =
     (case j of
        JStr s \<Rightarrow>
          (if s = ''auto'' then Inr ScopeAuto
           else if s = ''read_only'' then Inr ScopeReadOnly
           else if s = ''repository'' then Inr ScopeRepository
           else if s = ''system'' then Inr ScopeSystem
           else Inl (ValueErr ''write_scope must be auto, read_only, repository, or system''))
      | JList _ \<Rightarrow> Inl (OtherErr ''TypeError'')
      | JObj _ \<Rightarrow> Inl (OtherErr ''TypeError'')
      | _ \<Rightarrow> Inl (ValueErr ''write_scope must be auto, read_only, repository, or system''))"

text \<open>The command of a trusted operation is its description; it is never given to a shell.\<close>

definition request_command :: "json \<Rightarrow> pyerr + str \<times> (str \<times> str) option" where
  "request_command req =
     (case obj_get req ''trusted_operation'' of
        JNull \<Rightarrow>
          (case obj_get req ''command'' of
             JStr c \<Rightarrow> if c = [] then Inl (ValueErr ''command is required'') else Inr (c, None)
           | _ \<Rightarrow> Inl (ValueErr ''command is required''))
      | t \<Rightarrow>
          if obj_get req ''command'' \<noteq> JNull
          then Inl (ValueErr ''cannot combine trusted_operation with shell command'')
          else if \<not> is_JObj t \<or> set (obj_keys t) \<noteq> {''name'', ''action''}
          then Inl (ValueErr ''trusted_operation must specify only name and action'')
          else (case (obj_get t ''name'', obj_get t ''action'') of
                  (JStr n, JStr a) \<Rightarrow> Inr (''trusted-operation '' @ n @ '' action '' @ a, Some (n, a))
                | _ \<Rightarrow> Inl (ValueErr ''trusted_operation must specify only name and action'')))"

definition request_explanation :: "json \<Rightarrow> pyerr + str" where
  "request_explanation req =
     (case obj_get req ''explanation'' of
        JStr e \<Rightarrow>
          if py_strip e = [] then Inl (ValueErr ''explanation is required and must be a non-empty string'')
          else if utf8_length (py_strip e) > 4096 then Inl (ValueErr ''explanation is too large'')
          else Inr (py_strip e)
      | _ \<Rightarrow> Inl (ValueErr ''explanation is required and must be a non-empty string''))"

definition request_timeout :: "json \<Rightarrow> int \<Rightarrow> pyerr + int" where
  "request_timeout req max_timeout =
     (case obj_get_default req ''timeout_seconds'' (JInt 60) of
        JInt t \<Rightarrow> if t < 1 \<or> t > max_timeout then Inl (ValueErr ''timeout_seconds out of range'') else Inr t
      | _ \<Rightarrow> Inl (ValueErr ''timeout_seconds out of range''))"

definition request_stdin :: "json \<Rightarrow> pyerr + str" where
  "request_stdin req =
     (case obj_get req ''stdin_b64'' of
        JNull \<Rightarrow> Inr []
      | JStr s \<Rightarrow> (case b64_decode s of None \<Rightarrow> Inl (ValueErr ''stdin_b64 is not valid base64'') | Some b \<Rightarrow> Inr b)
      | _ \<Rightarrow> Inl (ValueErr ''stdin_b64 must be a base64 string''))"

definition request_operation_id :: "json \<Rightarrow> pyerr + str option" where
  "request_operation_id req =
     (case obj_get req ''operation_id'' of
        JNull \<Rightarrow> Inr None
      | JStr s \<Rightarrow> if slug_ok s then Inr (Some s)
                  else Inl (ValueErr ''operation_id must be a stable lowercase ASCII identifier'')
      | _ \<Rightarrow> Inl (ValueErr ''operation_id must be a stable lowercase ASCII identifier''))"

definition request_cwd :: "fs \<Rightarrow> json \<Rightarrow> path \<Rightarrow> pyerr + path" where
  "request_cwd w req allowed_root =
     (case obj_get req ''cwd'' of
        JStr raw \<Rightarrow>
          if raw = [] then Inl (ValueErr ''cwd is required'')
          else (case (resolve_str w raw, full_resolve w allowed_root) of
                  (Some cwd, Some base) \<Rightarrow>
                    if \<not> relative_to cwd base then Inl (ValueErr ''cwd must resolve under allowed_root'')
                    else if \<not> fs_is_dir w cwd then Inl (ValueErr ''cwd does not exist or is not a directory'')
                    else Inr cwd
                | _ \<Rightarrow> Inl (OtherErr ''OSError''))
      | _ \<Rightarrow> Inl (ValueErr ''cwd is required''))"

definition validate_request ::
  "fs \<Rightarrow> json \<Rightarrow> str \<Rightarrow> path \<Rightarrow> int \<Rightarrow> nat \<Rightarrow> nat \<Rightarrow> pyerr + valid_request" where
  "validate_request w req name allowed_root max_timeout max_command max_stdin =
     bindE (validate_request_name name) (\<lambda>rid.
     bindE (require (py_eq_int (obj_get req ''protocol'') 1) ''unsupported protocol'') (\<lambda>_.
     bindE (require (obj_get req ''id'' = JStr rid) ''request filename must equal <id>.json'') (\<lambda>_.
     bindE (request_cwd w req allowed_root) (\<lambda>cwd.
     bindE (request_command req) (\<lambda>(command, trusted).
     bindE (require (utf8_length command \<le> max_command) ''command is too large'') (\<lambda>_.
     bindE (request_explanation req) (\<lambda>explanation.
     bindE (request_timeout req max_timeout) (\<lambda>timeout.
     bindE (request_stdin req) (\<lambda>stdin.
     bindE (require (length stdin \<le> max_stdin) ''stdin is too large'') (\<lambda>_.
     let scope = obj_get_default req ''write_scope'' (JStr ''auto'') in
     bindE (require (trusted = None \<or> (scope = JStr ''auto'' \<and> stdin = []))
              ''trusted operations require auto scope and no arbitrary stdin'') (\<lambda>_.
     bindE (scope_of scope) (\<lambda>sc.
     bindE (request_operation_id req) (\<lambda>oid.
     bindE (require (trusted = None \<or> oid \<noteq> None)
              ''trusted operations require a durable logical operation_id'') (\<lambda>_.
     Inr \<lparr>v_id = rid, v_cwd = cwd, v_command = command, v_timeout = timeout, v_stdin = stdin,
          v_scope = sc, v_explanation = explanation, v_operation_id = oid, v_trusted = trusted\<rparr>))))))))))))))"

subsection \<open>Configuration\<close>

text \<open>Facts about the host: the platform, the number of processors (None when unknown), the default
  shell, and which files are executable.\<close>

record host =
  hs_darwin :: bool
  hs_cpus :: "nat option"
  hs_default_shell :: str
  hs_executable :: "path \<Rightarrow> bool"

definition auto_active_limit :: "host \<Rightarrow> int" where
  "auto_active_limit h =
     (let cpus = (case hs_cpus h of None \<Rightarrow> 2 | Some n \<Rightarrow> if n = 0 then 2 else n)
      in max 4 (min 32 (int cpus * 2)))"

definition max_active_requests :: "host \<Rightarrow> json \<Rightarrow> pyerr + int" where
  "max_active_requests h cfg =
     (case obj_get_default cfg ''max_active_requests'' (JStr ''auto'') of
        JStr s \<Rightarrow> if s = ''auto'' then Inr (auto_active_limit h)
                  else Inl (ValueErr ''max_active_requests must be 'auto' or an integer in 1..256'')
      | JInt v \<Rightarrow> if v < 1 \<or> v > 256
                  then Inl (ValueErr ''max_active_requests must be 'auto' or an integer in 1..256'') else Inr v
      | _ \<Rightarrow> Inl (ValueErr ''max_active_requests must be 'auto' or an integer in 1..256''))"

datatype confirm_mode = ModeDialog | ModeReject | ModeOff

definition operator_confirmation_mode :: "host \<Rightarrow> json \<Rightarrow> pyerr + confirm_mode" where
  "operator_confirmation_mode h cfg =
     (case obj_get_default cfg ''operator_confirmation_mode'' (JStr ''auto'') of
        JStr s \<Rightarrow>
          (if s = ''auto'' then Inr (if hs_darwin h then ModeDialog else ModeReject)
           else if s = ''dialog'' then Inr ModeDialog
           else if s = ''reject'' then Inr ModeReject
           else if s = ''off'' then Inr ModeOff
           else Inl (ValueErr ''operator_confirmation_mode must be auto, dialog, reject, or off''))
      | JList _ \<Rightarrow> Inl (OtherErr ''TypeError'')
      | JObj _ \<Rightarrow> Inl (OtherErr ''TypeError'')
      | _ \<Rightarrow> Inl (ValueErr ''operator_confirmation_mode must be auto, dialog, reject, or off''))"

definition nonempty_str :: "json \<Rightarrow> str \<Rightarrow> bool" where
  "nonempty_str cfg key = (case obj_get cfg key of JStr s \<Rightarrow> s \<noteq> [] | _ \<Rightarrow> False)"

definition folder_token_ok :: "str \<Rightarrow> bool" where
  "folder_token_ok s = (1 \<le> length s \<and> length s \<le> 128
     \<and> list_all (\<lambda>c. is_lower c \<or> is_upper c \<or> is_digit c \<or> c = CHR ''_'' \<or> c = CHR ''-'') s)"

definition positive_int :: "json \<Rightarrow> bool" where
  "positive_int v = (case v of JInt i \<Rightarrow> 1 \<le> i | _ \<Rightarrow> False)"

definition positive_number :: "json \<Rightarrow> bool" where
  "positive_number v = (case v of JInt i \<Rightarrow> 0 < i | JFloat r \<Rightarrow> 0 < r | _ \<Rightarrow> False)"

definition numeric_limits :: "(str \<times> int) list" where
  "numeric_limits = [(''max_timeout_seconds'', 300), (''rclone_timeout_seconds'', 30),
     (''max_request_bytes'', 2 * 1024 * 1024), (''max_command_bytes'', 256 * 1024),
     (''max_stdin_bytes'', 1024 * 1024), (''max_output_bytes'', 16 * 1024 * 1024),
     (''operator_confirmation_timeout_seconds'', 300)]"

definition shell_ok :: "fs \<Rightarrow> host \<Rightarrow> json \<Rightarrow> bool" where
  "shell_ok w h v = (case v of
     JStr s \<Rightarrow> is_absolute (parse_path s) \<and> fs_is_file w (parse_path s) \<and> hs_executable h (parse_path s) | _ \<Rightarrow> False)"

definition allowed_root_of :: "fs \<Rightarrow> json \<Rightarrow> path option" where
  "allowed_root_of w cfg = (case obj_get cfg ''allowed_root'' of JStr s \<Rightarrow> resolve_str w s | _ \<Rightarrow> None)"

definition load_config :: "fs \<Rightarrow> host \<Rightarrow> json \<Rightarrow> pyerr + json" where
  "load_config w h cfg =
     (let folder = obj_get cfg ''drive_root_folder_id''; no_folder = (folder = JNull \<or> folder = JStr []) in
      bindE (if is_JObj cfg then Inr () else Inl (OtherErr ''AttributeError'')) (\<lambda>_.
      bindE (case find (\<lambda>k. \<not> nonempty_str cfg k) [''remote'', ''allowed_root'', ''state_dir''] of
               Some k \<Rightarrow> Inl (ValueErr (''missing config key: '' @ k)) | None \<Rightarrow> Inr ()) (\<lambda>_.
      bindE (require (no_folder \<or> (case folder of JStr s \<Rightarrow> folder_token_ok s | _ \<Rightarrow> False))
               ''drive_root_folder_id must be a canonical Drive folder token'') (\<lambda>_.
      bindE (require (\<not> no_folder \<or> nonempty_str cfg ''base_path'')
               ''missing config key: base_path (or drive_root_folder_id)'') (\<lambda>_.
      bindE (case allowed_root_of w cfg of None \<Rightarrow> Inl (OtherErr ''OSError'') | Some b \<Rightarrow> Inr b) (\<lambda>b.
      bindE (require (fs_is_dir w b) ''allowed_root does not exist or is not a directory'') (\<lambda>_.
      bindE (require (shell_ok w h (obj_get_default cfg ''shell'' (JStr (hs_default_shell h))))
               ''configured shell must be an existing absolute file'') (\<lambda>_.
      bindE (require (positive_number (obj_get_default cfg ''poll_seconds'' (JFloat 2))) ''poll_seconds must be positive'') (\<lambda>_.
      bindE (case find (\<lambda>(k, v). \<not> positive_int (obj_get_default cfg k (JInt v))) numeric_limits of
               Some (k, _) \<Rightarrow> Inl (ValueErr (k @ '' must be a positive integer'')) | None \<Rightarrow> Inr ()) (\<lambda>_.
      bindE (max_active_requests h cfg) (\<lambda>_.
      bindE (operator_confirmation_mode h cfg) (\<lambda>_. Inr cfg))))))))))))"

subsection \<open>What an admitted request guarantees\<close>

lemma require_Inr [simp]: "require ok m = Inr u \<longleftrightarrow> ok"
  by (simp add: require_def)

lemma request_name_Inr: "validate_request_name name = Inr rid \<Longrightarrow> name = rid @ ''.json'' \<and> slug_ok rid"
  by (auto simp: validate_request_name_def Let_def suffix_def split: if_splits)

lemma request_cwd_Inr:
  "request_cwd w req base = Inr cwd \<Longrightarrow> \<exists>b. full_resolve w base = Some b \<and> relative_to cwd b \<and> fs_is_dir w cwd"
  by (auto simp: request_cwd_def split: json.splits option.splits if_splits)

lemma request_command_Inr: "request_command req = Inr (c, t) \<Longrightarrow> c \<noteq> [] \<and> (t = None \<longleftrightarrow> obj_get req ''trusted_operation'' = JNull)
    \<and> (t = None \<longrightarrow> obj_get req ''command'' = JStr c) \<and> (t \<noteq> None \<longrightarrow> obj_get req ''command'' = JNull)"
  by (auto simp: request_command_def split: json.splits if_splits)

lemma request_explanation_Inr: "request_explanation req = Inr e \<Longrightarrow> e \<noteq> [] \<and> utf8_length e \<le> 4096"
  by (auto simp: request_explanation_def split: json.splits if_splits)

lemma request_timeout_Inr: "request_timeout req m = Inr t \<Longrightarrow> 1 \<le> t \<and> t \<le> m"
  by (auto simp: request_timeout_def split: json.splits if_splits)

lemma request_operation_id_Inr: "request_operation_id req = Inr (Some s) \<Longrightarrow> slug_ok s"
  by (auto simp: request_operation_id_def split: json.splits if_splits)

lemmas request_part_Inr = request_cwd_Inr request_command_Inr request_explanation_Inr request_timeout_Inr

definition config_usable :: "fs \<Rightarrow> host \<Rightarrow> json \<Rightarrow> bool" where
  "config_usable w h cfg =
     ((case allowed_root_of w cfg of None \<Rightarrow> False | Some b \<Rightarrow> fs_is_dir w b)
      \<and> list_all (\<lambda>(k, v). positive_int (obj_get_default cfg k (JInt v))) numeric_limits
      \<and> (case max_active_requests h cfg of Inl _ \<Rightarrow> False | Inr n \<Rightarrow> 1 \<le> n \<and> n \<le> 256))"

text \<open>A loaded configuration is safe to use: its allowed root is an existing directory, every
  numeric limit is a positive integer, and between 1 and 256 workers may run at once.\<close>

theorem loaded_config_usable:
  "case load_config w h cfg of Inl _ \<Rightarrow> True | Inr c \<Rightarrow> c = cfg \<and> config_usable w h c"
proof (cases "load_config w h cfg")
  case (Inr c)
  have bounds: "1 \<le> n \<and> n \<le> 256" if "max_active_requests h cf = Inr n" for n cf
    using that by (auto simp: max_active_requests_def auto_active_limit_def Let_def split: json.splits if_splits option.splits)
  from Inr have "c = cfg \<and> config_usable w h cfg"
    unfolding load_config_def config_usable_def
    by (auto simp: bindE_eq_Inr Let_def list_all_iff find_None_iff dest: bounds split: option.splits if_splits)
  with Inr show ?thesis by simp
qed simp

definition request_confined :: "fs \<Rightarrow> path \<Rightarrow> int \<Rightarrow> nat \<Rightarrow> nat \<Rightarrow> str \<Rightarrow> valid_request \<Rightarrow> bool" where
  "request_confined w allowed_root max_timeout max_command max_stdin name v =
     (name = v_id v @ ''.json'' \<and> slug_ok (v_id v) \<and> CHR ''/'' \<notin> set (v_id v)
      \<and> (case full_resolve w allowed_root of None \<Rightarrow> False | Some b \<Rightarrow> relative_to (v_cwd v) b) \<and> fs_is_dir w (v_cwd v)
      \<and> v_command v \<noteq> [] \<and> utf8_length (v_command v) \<le> max_command
      \<and> v_explanation v \<noteq> [] \<and> utf8_length (v_explanation v) \<le> 4096
      \<and> 1 \<le> v_timeout v \<and> v_timeout v \<le> max_timeout \<and> length (v_stdin v) \<le> max_stdin
      \<and> (v_trusted v = None \<or> (v_scope v = ScopeAuto \<and> v_stdin v = [] \<and> v_operation_id v \<noteq> None)))"

text \<open>An admitted request is bounded and confined: its identifier is the file name without the
  extension and names one directory entry, its directory lies under the allowed root, and command,
  explanation, timeout and standard input keep their limits; a trusted operation carries no shell
  command, no standard input and no scope, and always an operation identifier.\<close>

theorem admitted_request_confined:
  "case validate_request w req name allowed_root max_timeout max_command max_stdin of
     Inl _ \<Rightarrow> True
   | Inr v \<Rightarrow> request_confined w allowed_root max_timeout max_command max_stdin name v"
proof (cases "validate_request w req name allowed_root max_timeout max_command max_stdin")
  case (Inr v)
  then have "request_confined w allowed_root max_timeout max_command max_stdin name v"
    unfolding validate_request_def request_confined_def
    by (auto simp: bindE_eq_Inr Let_def scope_of_def slug_ok_no_slash dest!: request_name_Inr request_part_Inr)
  with Inr show ?thesis by simp
qed simp

end
