(* ===== verification/Approval.thy ===== *)
theory Approval
  imports Request JsonText
begin

text \<open>
  Operator approval (\<open>shell_bridge/bridge.py\<close>: \<open>_approval_payload_hash\<close>, \<open>_read_json_file\<close>,
  \<open>request_operator_confirmation\<close>). The two files of the exchange are a parameter, the record \<open>dialog\<close>:
  what \<open>_read_json_file\<close> finds in the pending file and, at each read, in the decision file, whether the
  helper application could be launched, and the clock at each of these moments.
\<close>

record confirmation =
  cf_required :: bool
  cf_category :: str
  cf_mode :: str
  cf_approved :: bool
  cf_message :: str

record dialog =
  dg_now :: real
  dg_nonce :: str
  dg_pending :: "json option"
  dg_first :: "json option"
  dg_launch :: "str option"
  dg_launched :: real
  dg_polls :: "(real \<times> json option) list"

record ask =
  ak_request_id :: str
  ak_cwd :: path
  ak_command :: str
  ak_category :: str
  ak_explanation :: str

definition read_object :: "json option \<Rightarrow> json option" where
  "read_object v = (case v of Some (JObj kvs) \<Rightarrow> Some (JObj kvs) | _ \<Rightarrow> None)"

definition payload_text :: "(real \<Rightarrow> str) \<Rightarrow> ask \<Rightarrow> str" where
  "payload_text fr a =
     canonical False fr (JObj [(''request_id'', JStr (ak_request_id a)), (''cwd'', JStr (path_str (ak_cwd a))),
       (''command'', JStr (ak_command a)), (''category'', JStr (ak_category a)), (''explanation'', JStr (ak_explanation a))])"

definition approval_payload_hash :: "(str \<Rightarrow> str) \<Rightarrow> (real \<Rightarrow> str) \<Rightarrow> ask \<Rightarrow> str" where
  "approval_payload_hash sha fr a = sha (payload_text fr a)"

fun mode_str :: "confirm_mode \<Rightarrow> str" where
  "mode_str ModeDialog = ''dialog''"
| "mode_str ModeReject = ''reject''"
| "mode_str ModeOff = ''off''"

definition refusal :: "ask \<Rightarrow> confirm_mode \<Rightarrow> str \<Rightarrow> confirmation" where
  "refusal a mode message = \<lparr>cf_required = True, cf_category = ak_category a, cf_mode = mode_str mode,
     cf_approved = False, cf_message = message\<rparr>"

fun number_of :: "json \<Rightarrow> real option" where
  "number_of (JInt i) = Some (of_int i)"
| "number_of (JFloat r) = Some r"
| "number_of (JBool b) = Some (if b then 1 else 0)"
| "number_of _ = None"

definition pending_request :: "(str \<Rightarrow> str) \<Rightarrow> (real \<Rightarrow> str) \<Rightarrow> ask \<Rightarrow> str \<Rightarrow> real \<Rightarrow> real \<Rightarrow> json" where
  "pending_request sha fr a nonce now expires =
     JObj [(''protocol'', JInt 1), (''kind'', JStr ''operator_approval_request''),
       (''request_id'', JStr (ak_request_id a)), (''nonce'', JStr nonce),
       (''payload_sha256'', JStr (approval_payload_hash sha fr a)), (''category'', JStr (ak_category a)),
       (''cwd'', JStr (path_str (ak_cwd a))), (''command'', JStr (ak_command a)),
       (''explanation'', JStr (ak_explanation a)), (''created_at'', JFloat now), (''expires_at'', JFloat expires)]"

text \<open>The nonce and the expiry of the exchange, and the pending file when it is written.\<close>

definition open_exchange ::
  "(str \<Rightarrow> str) \<Rightarrow> (real \<Rightarrow> str) \<Rightarrow> ask \<Rightarrow> int \<Rightarrow> dialog \<Rightarrow> str + str \<times> real \<times> json option" where
  "open_exchange sha fr a timeout dg =
     (case read_object (dg_pending dg) of
        Some p \<Rightarrow>
          if obj_get p ''request_id'' \<noteq> JStr (ak_request_id a)
             \<or> obj_get p ''payload_sha256'' \<noteq> JStr (approval_payload_hash sha fr a)
          then Inl ''operator approval state does not match this request; request was not started''
          else (case (obj_get p ''nonce'', number_of (obj_get p ''expires_at'')) of
                  (JStr nonce, Some expires) \<Rightarrow>
                    if nonce = [] then Inl ''operator approval state is invalid; request was not started''
                    else if expires \<le> dg_now dg then Inl ''operator confirmation timed out; request was not started''
                    else Inr (nonce, expires, None)
                | _ \<Rightarrow> Inl ''operator approval state is invalid; request was not started'')
      | None \<Rightarrow>
          (let expires = dg_now dg + real_of_int timeout
           in Inr (dg_nonce dg, expires, Some (pending_request sha fr a (dg_nonce dg) (dg_now dg) expires))))"

definition decision_bound :: "(str \<Rightarrow> str) \<Rightarrow> (real \<Rightarrow> str) \<Rightarrow> ask \<Rightarrow> str \<Rightarrow> json \<Rightarrow> bool" where
  "decision_bound sha fr a nonce d =
     (py_eq_int (obj_get d ''protocol'') 1 \<and> obj_get d ''kind'' = JStr ''operator_approval_decision''
      \<and> obj_get d ''request_id'' = JStr (ak_request_id a) \<and> obj_get d ''nonce'' = JStr nonce
      \<and> obj_get d ''payload_sha256'' = JStr (approval_payload_hash sha fr a))"

definition consume_decision ::
  "(str \<Rightarrow> str) \<Rightarrow> (real \<Rightarrow> str) \<Rightarrow> ask \<Rightarrow> str \<Rightarrow> json option \<Rightarrow> confirmation option" where
  "consume_decision sha fr a nonce file =
     (case read_object file of
        None \<Rightarrow> None
      | Some d \<Rightarrow> Some
          (if \<not> decision_bound sha fr a nonce d
           then refusal a ModeDialog ''operator approval decision failed request binding; request was not started''
           else if obj_get d ''decision'' = JStr ''allow''
           then (refusal a ModeDialog ''operator approved elevated request'')\<lparr>cf_approved := True\<rparr>
           else if obj_get d ''decision'' = JStr ''cancel''
           then refusal a ModeDialog ''operator declined elevated request; request was not started''
           else refusal a ModeDialog ''operator approval decision is invalid; request was not started''))"

text \<open>The polling loop; when the list ends the deadline has passed.\<close>

fun poll_decision ::
  "(str \<Rightarrow> str) \<Rightarrow> (real \<Rightarrow> str) \<Rightarrow> ask \<Rightarrow> str \<Rightarrow> real \<Rightarrow> (real \<times> json option) list \<Rightarrow> confirmation" where
  "poll_decision sha fr a nonce deadline [] =
     refusal a ModeDialog ''operator confirmation timed out; request was not started''"
| "poll_decision sha fr a nonce deadline ((now, file) # ps) =
     (if \<not> now < deadline then refusal a ModeDialog ''operator confirmation timed out; request was not started''
      else case consume_decision sha fr a nonce file of
             Some c \<Rightarrow> c
           | None \<Rightarrow> poll_decision sha fr a nonce deadline ps)"

text \<open>The answer, and the pending file when one is written.\<close>

definition request_operator_confirmation ::
  "host \<Rightarrow> (str \<Rightarrow> str) \<Rightarrow> (real \<Rightarrow> str) \<Rightarrow> json \<Rightarrow> ask \<Rightarrow> dialog \<Rightarrow> pyerr + confirmation \<times> json option" where
  "request_operator_confirmation h sha fr cfg a dg =
     bindE (operator_confirmation_mode h cfg) (\<lambda>mode.
     case mode of
       ModeOff \<Rightarrow> Inr (refusal a mode ''operator approval is disabled; required elevation is denied'', None)
     | ModeReject \<Rightarrow> Inr (refusal a mode ''operator confirmation required; interactive approval is unavailable or disabled'', None)
     | ModeDialog \<Rightarrow>
         (case obj_get_default cfg ''operator_confirmation_timeout_seconds'' (JInt 300) of
            JInt timeout \<Rightarrow>
              if timeout < 1 then Inr (refusal a mode ''operator confirmation timeout configuration is invalid'', None)
              else (case open_exchange sha fr a timeout dg of
                      Inl message \<Rightarrow> Inr (refusal a mode message, None)
                    | Inr (nonce, expires, written) \<Rightarrow>
                        (case consume_decision sha fr a nonce (dg_first dg) of
                           Some c \<Rightarrow> Inr (c, written)
                         | None \<Rightarrow>
                             (case dg_launch dg of
                                Some message \<Rightarrow> Inr (refusal a mode message, written)
                              | None \<Rightarrow> Inr (poll_decision sha fr a nonce
                                          (min expires (dg_launched dg + real_of_int timeout)) (dg_polls dg), written))))
          | _ \<Rightarrow> Inr (refusal a mode ''operator confirmation timeout configuration is invalid'', None)))"

subsection \<open>The payload is uniquely readable\<close>

lemma payload_text_fields:
  "payload_text fr a =
     CHR 0x7B # json_string False ''category'' @ '':'' @ json_string False (ak_category a) @ '',''
     @ json_string False ''command'' @ '':'' @ json_string False (ak_command a) @ '',''
     @ json_string False ''cwd'' @ '':'' @ json_string False (path_str (ak_cwd a)) @ '',''
     @ json_string False ''explanation'' @ '':'' @ json_string False (ak_explanation a) @ '',''
     @ json_string False ''request_id'' @ '':'' @ json_string False (ak_request_id a) @ [CHR 0x7D]"
  by (simp add: payload_text_def)

lemma payload_text_inj:
  "payload_text fr a = payload_text fr b \<longleftrightarrow>
     ak_request_id a = ak_request_id b \<and> path_str (ak_cwd a) = path_str (ak_cwd b) \<and> ak_command a = ak_command b
     \<and> ak_category a = ak_category b \<and> ak_explanation a = ak_explanation b"
  unfolding payload_text_fields by (auto simp: json_string_unique json_string_inj)

subsection \<open>What an approval means\<close>

definition allows :: "(str \<Rightarrow> str) \<Rightarrow> (real \<Rightarrow> str) \<Rightarrow> ask \<Rightarrow> str \<Rightarrow> json option \<Rightarrow> bool" where
  "allows sha fr a nonce file =
     (case read_object file of
        None \<Rightarrow> False
      | Some d \<Rightarrow> decision_bound sha fr a nonce d \<and> obj_get d ''decision'' = JStr ''allow'')"

lemma refusal_not_approved [simp]: "\<not> cf_approved (refusal a m t)"
  by (simp add: refusal_def)

lemma consume_allows: "consume_decision sha fr a nonce file = Some c \<Longrightarrow> cf_approved c = allows sha fr a nonce file"
  by (auto simp: consume_decision_def allows_def split: option.splits if_splits)

lemma poll_allows:
  "cf_approved (poll_decision sha fr a nonce dl ps) \<Longrightarrow> \<exists>p \<in> set ps. fst p < dl \<and> allows sha fr a nonce (snd p)"
  by (induction sha fr a nonce dl ps rule: poll_decision.induct) (auto split: if_splits option.splits dest: consume_allows)


text \<open>An approval cannot be moved to another request: when one decision file allows two requests and
  SHA-256 does not collide on their two payloads, they have the same identifier, directory, command,
  category and explanation.\<close>

theorem approval_not_transferable:
  assumes "consume_decision sha fr a nonce file = Some c" and "cf_approved c"
    and "consume_decision sha fr b nonce' file = Some c'" and "cf_approved c'"
    and "sha (payload_text fr a) = sha (payload_text fr b) \<longrightarrow> payload_text fr a = payload_text fr b"
  shows "ak_request_id a = ak_request_id b \<and> path_str (ak_cwd a) = path_str (ak_cwd b) \<and> ak_command a = ak_command b
     \<and> ak_category a = ak_category b \<and> ak_explanation a = ak_explanation b \<and> nonce = nonce'"
proof -
  from assms consume_allows have "allows sha fr a nonce file" "allows sha fr b nonce' file" by blast+
  then have "sha (payload_text fr a) = sha (payload_text fr b) \<and> nonce = nonce'"
    by (auto simp: allows_def decision_bound_def approval_payload_hash_def split: option.splits)
  with assms(5) show ?thesis by (auto simp: payload_text_inj)
qed

subsection \<open>An exchange\<close>

definition demo_ask :: ask where
  "demo_ask = \<lparr>ak_request_id = ''r1'', ak_cwd = parse_path ''/w'', ak_command = ''rm x'', ak_category = ''filesystem_delete'',
     ak_explanation = ''why''\<rparr>"

definition plain_float :: "real \<Rightarrow> str" where
  "plain_float r = int_str \<lfloor>r\<rfloor>"

definition demo_decision :: json where
  "demo_decision = JObj [(''protocol'', JInt 1), (''kind'', JStr ''operator_approval_decision''), (''request_id'', JStr ''r1''),
     (''nonce'', JStr ''n''), (''payload_sha256'', JStr (rev (payload_text plain_float demo_ask))), (''decision'', JStr ''allow'')]"

definition demo_dialog :: dialog where
  "demo_dialog = \<lparr>dg_now = 0, dg_nonce = ''n'', dg_pending = None, dg_first = None, dg_launch = None, dg_launched = 1,
     dg_polls = [(2, None), (3, Some demo_decision)]\<rparr>"

definition demo_host :: host where
  "demo_host = \<lparr>hs_darwin = True, hs_cpus = None, hs_default_shell = ''/bin/zsh'', hs_executable = (\<lambda>_. True)\<rparr>"

definition answer_approved :: "pyerr + confirmation \<times> json option \<Rightarrow> bool" where
  "answer_approved r = (case r of Inl _ \<Rightarrow> False | Inr (c, _) \<Rightarrow> cf_approved c)"

lemma demo_approved: "answer_approved (request_operator_confirmation demo_host rev plain_float (JObj []) demo_ask demo_dialog)"
  by code_simp


theorem approval_not_transferable_witness:
  "ak_command demo_ask = ak_command (demo_ask\<lparr>ak_command := ''rm x''\<rparr>)"
proof -
  let ?b = "demo_ask\<lparr>ak_command := ''rm x''\<rparr>"
  have "list_all (\<lambda>x. case consume_decision rev plain_float x ''n'' (Some demo_decision) of None \<Rightarrow> False | Some c \<Rightarrow> cf_approved c) [demo_ask, ?b]"
    by code_simp
  then obtain c c' where c: "consume_decision rev plain_float demo_ask ''n'' (Some demo_decision) = Some c" "cf_approved c"
    "consume_decision rev plain_float ?b ''n'' (Some demo_decision) = Some c'" "cf_approved c'" by (auto split: option.splits)
  from approval_not_transferable [OF c] show ?thesis by (simp only: rev_is_rev_conv simp_thms)
qed

end
