(* ===== verification/PinnedSsh.thy ===== *)
theory PinnedSsh
  imports Files Shlex JsonText
begin

text \<open>
  The pinned SSH helper (\<open>shell_bridge/ssh_pinned_helper.py\<close>): the checks on the policy directory and its
  files, the command line it builds, the bounded reading of the remote output, and the exit code.
  \<open>sw_parse\<close> decodes and parses a JSON text and keeps every pair of an object, repeated keys included,
  as \<open>object_pairs_hook\<close> sees them. \<open>Inl (Denied m)\<close> is an \<open>SSHPolicyError\<close>, \<open>Inl Unavailable\<close> another exception.
\<close>

record stat_info =
  si_dir :: bool
  si_regular :: bool
  si_own :: bool
  si_shared_write :: bool
  si_other_access :: bool
  si_size :: nat

record ssh_world =
  sw_fs :: fs
  sw_stat :: "path \<Rightarrow> stat_info option"
  sw_read :: "path \<Rightarrow> str option"
  sw_parse :: "str \<Rightarrow> json option"

datatype ssh_error = Denied str | Unavailable

definition ensure :: "bool \<Rightarrow> str \<Rightarrow> ssh_error + unit" where
  "ensure ok message = (if ok then Inr () else Inl (Denied message))"

lemma ensure_Inr [simp]: "ensure ok m = Inr u \<longleftrightarrow> ok"
  by (simp add: ensure_def)

subsection \<open>The tokens of a policy\<close>

definition action_ok :: "str \<Rightarrow> bool" where
  "action_ok s = (case s of [] \<Rightarrow> False
     | c # cs \<Rightarrow> is_lower c \<and> list_all (\<lambda>c. is_lower c \<or> is_digit c \<or> c = CHR ''-'') cs \<and> 2 \<le> length cs \<and> length cs \<le> 63)"

definition host_ok :: "str \<Rightarrow> bool" where
  "host_ok s = (case s of [] \<Rightarrow> False
     | c # cs \<Rightarrow> (is_lower c \<or> is_digit c) \<and> list_all (\<lambda>c. is_lower c \<or> is_digit c \<or> c = CHR ''.'' \<or> c = CHR ''-'') cs
         \<and> length cs \<le> 252)"

definition user_ok :: "str \<Rightarrow> bool" where
  "user_ok s = (case s of [] \<Rightarrow> False
     | c # cs \<Rightarrow> (is_lower c \<or> c = CHR ''_'') \<and> list_all (\<lambda>c. is_lower c \<or> is_digit c \<or> c = CHR ''_'' \<or> c = CHR ''-'') cs
         \<and> length cs \<le> 31)"

definition builtin_commands :: "(str \<times> str) list" where
  "builtin_commands = [(''status'', ''/usr/bin/uptime''), (''identity'', ''/usr/bin/id -un'')]"

definition token_ok :: "str \<Rightarrow> bool" where
  "token_ok t = (t \<noteq> [] \<and> length t \<le> 512 \<and> list_all (\<lambda>c. 32 \<le> code c \<and> code c \<noteq> 127) t)"

definition executable_ok :: "str \<Rightarrow> bool" where
  "executable_ok t = (prefix ''/'' t \<and> \<not> sublist ''//'' t \<and> ''..'' \<notin> set (split_slash [] t))"

fun text_list :: "json list \<Rightarrow> str list option" where
  "text_list [] = Some []"
| "text_list (JStr s # xs) = map_option (Cons s) (text_list xs)"
| "text_list (_ # xs) = None"

definition command_tokens :: "str \<times> json \<Rightarrow> ssh_error + str \<times> str list" where
  "command_tokens p =
     (case p of (name, v) \<Rightarrow>
        bindE (ensure (action_ok name \<and> map_of builtin_commands name = None) ''invalid or reserved SSH action'') (\<lambda>_.
        case v of
          JList xs \<Rightarrow>
            bindE (ensure (1 \<le> length xs \<and> length xs \<le> 24) ''invalid pinned remote argv'') (\<lambda>_.
            case text_list xs of
              None \<Rightarrow> Inl (Denied ''unsafe pinned remote argv'')
            | Some ts \<Rightarrow>
                bindE (ensure (list_all token_ok ts) ''unsafe pinned remote argv'') (\<lambda>_.
                bindE (ensure (executable_ok (hd ts)) ''remote executable must have a normalized absolute path'') (\<lambda>_.
                Inr (name, ts))))
        | _ \<Rightarrow> Inl (Denied ''invalid pinned remote argv'')))"

fun all_commands :: "(str \<times> json) list \<Rightarrow> ssh_error + (str \<times> str list) list" where
  "all_commands [] = Inr []"
| "all_commands (p # ps) = bindE (command_tokens p) (\<lambda>c. bindE (all_commands ps) (\<lambda>cs. Inr (c # cs)))"

definition policy_commands :: "json \<Rightarrow> ssh_error + (str \<times> str list) list" where
  "policy_commands data =
     (case obj_get_default data ''commands'' (JObj []) of
        JObj ps \<Rightarrow> bindE (ensure (length ps \<le> 32) ''invalid registered SSH commands'') (\<lambda>_. all_commands ps)
      | _ \<Rightarrow> Inl (Denied ''invalid registered SSH commands''))"

subsection \<open>The files of a policy\<close>

definition policy_limit :: nat where
  "policy_limit = 65536"

definition key_limit :: nat where
  "key_limit = 131072"

definition regular_owner_file :: "ssh_world \<Rightarrow> path \<Rightarrow> path \<Rightarrow> nat \<Rightarrow> ssh_error + unit" where
  "regular_owner_file w p base limit =
     bindE (ensure (is_absolute p \<and> parent p = base \<and> \<not> fs_is_symlink (sw_fs w) p) ''unsafe SSH policy file path'') (\<lambda>_.
     case sw_stat w p of
       None \<Rightarrow> Inl (Denied ''SSH policy file unavailable'')
     | Some info \<Rightarrow>
         bindE (ensure (si_regular info \<and> si_own info \<and> \<not> si_shared_write info) ''SSH policy file ownership or mode invalid'') (\<lambda>_.
         ensure (si_size info \<le> limit) ''SSH policy material exceeds fixed size limit''))"

fun no_duplicate_keys :: "json \<Rightarrow> bool" where
  "no_duplicate_keys (JList xs) = list_all no_duplicate_keys xs"
| "no_duplicate_keys (JObj ps) = (distinct (map fst ps) \<and> list_all (\<lambda>(k, v). no_duplicate_keys v) ps)"
| "no_duplicate_keys _ = True"

definition read_policy :: "ssh_world \<Rightarrow> path \<Rightarrow> ssh_error + json" where
  "read_policy w p =
     (case sw_read w p of
        None \<Rightarrow> Inl (Denied ''invalid SSH policy'')
      | Some raw \<Rightarrow>
          if policy_limit < length raw then Inl (Denied ''invalid SSH policy'')
          else (case sw_parse w raw of
                  None \<Rightarrow> Inl (Denied ''invalid SSH policy'')
                | Some data \<Rightarrow> if no_duplicate_keys data then Inr data else Inl (Denied ''invalid SSH policy'')))"

definition required_keys :: "str set" where
  "required_keys = {''schema'', ''host'', ''user'', ''port'', ''identity_file''}"

definition fields_pinned :: "json \<Rightarrow> bool" where
  "fields_pinned data =
     (case obj_get data ''schema'' of
        JInt s \<Rightarrow> (s = 1 \<and> set (obj_keys data) = required_keys)
                  \<or> (s = 2 \<and> set (obj_keys data) = insert ''commands'' required_keys)
      | _ \<Rightarrow> False)"

definition identity_file :: "ssh_world \<Rightarrow> json \<Rightarrow> ssh_error + path" where
  "identity_file w v =
     (case v of
        JStr s \<Rightarrow>
          (let key = parse_path s in
           bindE (ensure (is_absolute key \<and> \<not> fs_is_symlink (sw_fs w) key \<and> fs_is_file (sw_fs w) key)
                    ''SSH identity file unavailable or symlinked'') (\<lambda>_.
           case sw_stat w key of
             None \<Rightarrow> Inl Unavailable
           | Some info \<Rightarrow>
               bindE (ensure (si_own info \<and> \<not> si_other_access info) ''SSH private identity ownership or permissions invalid'') (\<lambda>_.
               bindE (ensure (si_size info \<le> key_limit) ''SSH private identity exceeds fixed size limit'') (\<lambda>_.
               Inr key))))
      | _ \<Rightarrow> Inl (Denied ''invalid SSH identity''))"

definition checked_text :: "(str \<Rightarrow> bool) \<Rightarrow> str \<Rightarrow> json \<Rightarrow> ssh_error + str" where
  "checked_text ok message v =
     (case v of JStr s \<Rightarrow> if ok s then Inr s else Inl (Denied message) | _ \<Rightarrow> Inl (Denied message))"

definition checked_port :: "json \<Rightarrow> ssh_error + int" where
  "checked_port v =
     (case v of JInt p \<Rightarrow> if 1 \<le> p \<and> p \<le> 65535 then Inr p else Inl (Denied ''invalid pinned SSH port'')
      | _ \<Rightarrow> Inl (Denied ''invalid pinned SSH port''))"

definition remote_command :: "(str \<times> str list) list \<Rightarrow> str \<Rightarrow> ssh_error + str" where
  "remote_command commands action =
     (case map_of builtin_commands action of
        Some c \<Rightarrow> Inr c
      | None \<Rightarrow>
          (case map_of commands action of
             Some ts \<Rightarrow> Inr (shlex_join ts)
           | None \<Rightarrow> Inl (Denied ''unregistered SSH action'')))"

definition fixed_options :: "path \<Rightarrow> str list" where
  "fixed_options known_hosts =
     [''/usr/bin/ssh'', ''-F'', ''/dev/null'', ''-T'', ''-n'',
      ''-o'', ''BatchMode=yes'', ''-o'', ''StrictHostKeyChecking=yes'',
      ''-o'', ''IdentitiesOnly=yes'', ''-o'', ''ClearAllForwardings=yes'',
      ''-o'', ''ForwardAgent=no'', ''-o'', ''PermitLocalCommand=no'',
      ''-o'', ''ControlMaster=no'', ''-o'', ''ProxyCommand=none'',
      ''-o'', ''ConnectTimeout=8'',
      ''-o'', ''UserKnownHostsFile='' @ path_str known_hosts,
      ''-o'', ''GlobalKnownHostsFile=/dev/null'',
      ''-o'', ''UpdateHostKeys=no'',
      ''-o'', ''VerifyHostKeyDNS=no'']"

definition load_policy :: "ssh_world \<Rightarrow> path \<Rightarrow> str \<Rightarrow> ssh_error + str list \<times> int" where
  "load_policy w dir action =
     (let policy = child dir ''ssh-policy.json''; known_hosts = child dir ''known_hosts'' in
     bindE (ensure (is_absolute dir \<and> \<not> fs_is_symlink (sw_fs w) dir) ''policy directory must be absolute and not a symlink'') (\<lambda>_.
     bindE (case sw_stat w dir of None \<Rightarrow> Inl (Denied ''SSH policy directory unavailable'') | Some i \<Rightarrow> Inr i) (\<lambda>info.
     bindE (ensure (si_dir info \<and> si_own info \<and> \<not> si_shared_write info) ''SSH policy directory ownership or mode invalid'') (\<lambda>_.
     bindE (ensure (action_ok action) ''invalid SSH action token'') (\<lambda>_.
     bindE (regular_owner_file w policy dir policy_limit) (\<lambda>_.
     bindE (regular_owner_file w known_hosts dir key_limit) (\<lambda>_.
     bindE (read_policy w policy) (\<lambda>data.
     bindE (ensure (fields_pinned data) ''SSH policy fields are not pinned'') (\<lambda>_.
     bindE (checked_text host_ok ''invalid pinned hostname'' (obj_get data ''host'')) (\<lambda>hostname.
     bindE (checked_text user_ok ''invalid pinned SSH account'' (obj_get data ''user'')) (\<lambda>user.
     bindE (checked_port (obj_get data ''port'')) (\<lambda>port.
     bindE (identity_file w (obj_get data ''identity_file'')) (\<lambda>key.
     bindE (policy_commands data) (\<lambda>commands.
     bindE (remote_command commands action) (\<lambda>remote.
     Inr (fixed_options known_hosts @ [''-i'', path_str key, ''-p'', int_str port, user @ ''@'' @ hostname, remote], 25))))))))))))))))"

subsection \<open>Bounded reading\<close>

text \<open>What the remote side does: \<open>rm_batches\<close> lists, for each round of the loop, the time and the chunks
  that \<open>select\<close> reports (True for the standard output; an empty chunk is the end of the stream). When the
  list is used up and a stream is still open, the deadline passes.\<close>

record remote_run =
  rm_error :: bool
  rm_start :: real
  rm_batches :: "(real \<times> (bool \<times> str) list) list"
  rm_end :: real
  rm_exit :: "int option"

record pipes =
  pp_open_out :: bool
  pp_open_err :: bool
  pp_out :: str
  pp_err :: str

datatype bounded_error = OutputLimit | TimedOut | SpawnError

definition output_cap :: nat where
  "output_cap = 65536"

definition pipe_open :: "bool \<Rightarrow> pipes \<Rightarrow> bool" where
  "pipe_open out p = (if out then pp_open_out p else pp_open_err p)"

definition sink :: "bool \<Rightarrow> pipes \<Rightarrow> str" where
  "sink out p = (if out then pp_out p else pp_err p)"

definition close_pipe :: "bool \<Rightarrow> pipes \<Rightarrow> pipes" where
  "close_pipe out p = (if out then p\<lparr>pp_open_out := False\<rparr> else p\<lparr>pp_open_err := False\<rparr>)"

definition extend_sink :: "bool \<Rightarrow> str \<Rightarrow> pipes \<Rightarrow> pipes" where
  "extend_sink out chunk p = (if out then p\<lparr>pp_out := pp_out p @ chunk\<rparr> else p\<lparr>pp_err := pp_err p @ chunk\<rparr>)"

fun feed :: "(bool \<times> str) list \<Rightarrow> pipes \<Rightarrow> bounded_error + pipes" where
  "feed [] p = Inr p"
| "feed ((out, chunk) # xs) p =
     (if \<not> pipe_open out p then feed xs p
      else if chunk = [] then feed xs (close_pipe out p)
      else if output_cap < length (sink out p) + length chunk then Inl OutputLimit
      else feed xs (extend_sink out chunk p))"

fun drain :: "real \<Rightarrow> (real \<times> (bool \<times> str) list) list \<Rightarrow> pipes \<Rightarrow> bounded_error + pipes" where
  "drain deadline [] p = (if pipe_open True p \<or> pipe_open False p then Inl TimedOut else Inr p)"
| "drain deadline ((now, ready) # bs) p =
     (if \<not> pipe_open True p \<and> \<not> pipe_open False p then Inr p
      else if deadline - now \<le> 0 then Inl TimedOut
      else bindE (feed ready p) (drain deadline bs))"

definition run_bounded :: "remote_run \<Rightarrow> int \<Rightarrow> bounded_error + int \<times> str \<times> str" where
  "run_bounded r timeout =
     (if rm_error r then Inl SpawnError
      else let deadline = rm_start r + real_of_int timeout in
        bindE (drain deadline (rm_batches r) \<lparr>pp_open_out = True, pp_open_err = True, pp_out = [], pp_err = []\<rparr>) (\<lambda>p.
        if deadline - rm_end r \<le> 0 then Inl TimedOut
        else case rm_exit r of None \<Rightarrow> Inl TimedOut | Some rc \<Rightarrow> Inr (rc, pp_out p, pp_err p)))"

text \<open>Exit code, standard output and message of \<open>main ACTION DIRECTORY\<close>; None is an uncaught exception.\<close>

definition ssh_execute :: "ssh_world \<Rightarrow> remote_run \<Rightarrow> str \<Rightarrow> str \<Rightarrow> ssh_error + int \<times> str \<times> str" where
  "ssh_execute w r action directory =
     bindE (load_policy w (parse_path directory) action) (\<lambda>(argv, timeout).
     Inr (case run_bounded r timeout of
            Inl OutputLimit \<Rightarrow> (76, [], ''PINNED_SSH_OUTPUT_LIMIT'')
          | Inl _ \<Rightarrow> (76, [], ''PINNED_SSH_INDETERMINATE_OR_UNAVAILABLE'')
          | Inr (rc, out, err) \<Rightarrow>
              if rc \<noteq> 0 then (1, [], ''PINNED_SSH_FAILED; CHECK HOST KEY, NETWORK AND REMOTE ACCOUNT'')
              else (0, out, [])))"

definition ssh_main :: "ssh_world \<Rightarrow> remote_run \<Rightarrow> str list \<Rightarrow> (int \<times> str \<times> str) option" where
  "ssh_main w r args =
     (case args of
        [_, action, directory] \<Rightarrow>
          (case ssh_execute w r action directory of
             Inl (Denied m) \<Rightarrow> Some (2, [], ''PINNED_SSH_DENIED: '' @ m)
           | Inl Unavailable \<Rightarrow> None
           | Inr x \<Rightarrow> Some x)
      | _ \<Rightarrow> Some (2, [], ''usage: ssh_pinned_helper.py ACTION PINNED_POLICY_DIRECTORY''))"

subsection \<open>The output is whole\<close>

definition arriving :: "bool \<Rightarrow> (bool \<times> str) list \<Rightarrow> str" where
  "arriving out evs = concat (takeWhile (\<lambda>c. c \<noteq> []) (map snd (filter (\<lambda>e. fst e = out) evs)))"

definition stream_total :: "bool \<Rightarrow> pipes \<Rightarrow> (bool \<times> str) list \<Rightarrow> str" where
  "stream_total out p evs = sink out p @ (if pipe_open out p then arriving out evs else [])"

lemmas pipe_defs = pipe_open_def sink_def close_pipe_def extend_sink_def stream_total_def arriving_def

lemma feed_total: "feed xs p = Inr p' \<Longrightarrow> stream_total b p (xs @ evs) = stream_total b p' evs"
  by (induction xs p rule: feed.induct) (auto simp: pipe_defs split: if_splits)

lemma feed_bounds:
  "feed xs p = Inr p' \<Longrightarrow> length (sink b p) \<le> output_cap \<Longrightarrow> length (sink b p') \<le> output_cap"
  by (induction xs p rule: feed.induct) (auto simp: pipe_defs split: if_splits)

lemma drain_total:
  "drain dl bs p = Inr p' \<Longrightarrow> sink b p' = stream_total b p (concat (map snd bs)) \<and> \<not> pipe_open b p'
     \<and> (length (sink b p) \<le> output_cap \<longrightarrow> length (sink b p') \<le> output_cap)"
proof (induction dl bs p rule: drain.induct)
  case (1 dl p)
  then show ?case by (cases b) (auto simp: stream_total_def split: if_splits)
next
  case (2 dl now ready bs p)
  show ?case
  proof (cases "pipe_open True p \<or> pipe_open False p")
    case False
    with 2(2) show ?thesis by (cases b) (auto simp: stream_total_def)
  next
    case True
    with 2(2) obtain q where q: "\<not> dl - now \<le> 0" "feed ready p = Inr q" "drain dl bs q = Inr p'"
      by (auto simp: bindE_eq_Inr split: if_splits)
    from 2(1) [OF _ q(1,3)] True feed_total [OF q(2)] feed_bounds [OF q(2)] show ?thesis by (cases b) auto
  qed
qed

text \<open>The remote output is whole and bounded: when the helper returns a status, both streams were read to
  their end without a cut, each has at most 65536 bytes, and the status is the exit status of the
  local \<open>ssh\<close>; a longer stream, a late stream or a late exit is never reported as a success.\<close>

theorem ssh_output_is_whole:
  "case run_bounded r timeout of
     Inl _ \<Rightarrow> True
   | Inr (status, out, err) \<Rightarrow>
       rm_exit r = Some status
       \<and> out = arriving True (concat (map snd (rm_batches r))) \<and> length out \<le> output_cap
       \<and> err = arriving False (concat (map snd (rm_batches r))) \<and> length err \<le> output_cap"
proof (cases "run_bounded r timeout")
  case (Inr res)
  obtain p where d: "drain (rm_start r + real_of_int timeout) (rm_batches r) \<lparr>pp_open_out = True, pp_open_err = True, pp_out = [], pp_err = []\<rparr> = Inr p"
    and res: "rm_exit r = Some (fst res)" "snd res = (pp_out p, pp_err p)"
    using Inr by (auto simp: run_bounded_def bindE_eq_Inr Let_def split: if_splits option.splits)
  from drain_total [OF d, of True] have out: "pp_out p = arriving True (concat (map snd (rm_batches r)))" "length (pp_out p) \<le> output_cap"
    by (auto simp: stream_total_def sink_def pipe_open_def)
  from drain_total [OF d, of False] have err: "pp_err p = arriving False (concat (map snd (rm_batches r)))" "length (pp_err p) \<le> output_cap"
    by (auto simp: stream_total_def sink_def pipe_open_def)
  from res out err show ?thesis by (cases res) (simp add: Inr)
qed simp

subsection \<open>The command line is pinned\<close>

definition registered_tokens :: "ssh_world \<Rightarrow> path \<Rightarrow> str \<Rightarrow> str list option" where
  "registered_tokens w dir action =
     (if action = ''status'' then Some [''/usr/bin/uptime'']
      else if action = ''identity'' then Some [''/usr/bin/id'', ''-un'']
      else case read_policy w (child dir ''ssh-policy.json'') of
             Inl _ \<Rightarrow> None
           | Inr data \<Rightarrow>
               (case obj_get data ''commands'' of
                  JObj ps \<Rightarrow> (case map_of ps action of Some (JList xs) \<Rightarrow> text_list xs | _ \<Rightarrow> None)
                | _ \<Rightarrow> None))"

lemma command_tokens_Inr:
  "command_tokens p = Inr (n, ts) \<Longrightarrow>
     n = fst p \<and> (\<exists>xs. snd p = JList xs \<and> text_list xs = Some ts) \<and> list_all token_ok ts \<and> executable_ok (hd ts)"
  by (auto simp: command_tokens_def bindE_eq_Inr split: prod.splits json.splits option.splits)

lemma all_commands_lookup:
  assumes "all_commands ps = Inr cs" "map_of cs a = Some ts"
  shows "(\<exists>xs. map_of ps a = Some (JList xs) \<and> text_list xs = Some ts) \<and> list_all token_ok ts \<and> executable_ok (hd ts)"
  using assms
proof (induction ps arbitrary: cs)
  case (Cons p ps)
  then obtain n us rest where p: "command_tokens p = Inr (n, us)" "all_commands ps = Inr rest" "cs = (n, us) # rest"
    by (cases "command_tokens p") (auto simp: bindE_eq_Inr)
  from command_tokens_Inr [OF p(1)] Cons.IH [OF p(2)] Cons.prems(2) p(3) show ?case
    by (cases p) (auto split: if_splits)
qed simp

lemma checked_text_Inr: "checked_text ok m v = Inr s \<Longrightarrow> ok s"
  by (auto simp: checked_text_def split: json.splits if_splits)

lemma remote_command_Inr:
  assumes "remote_command cs action = Inr c" "policy_commands data = Inr cs" "read_policy w (child dir ''ssh-policy.json'') = Inr data"
  shows "case registered_tokens w dir action of None \<Rightarrow> False
         | Some ts \<Rightarrow> shlex_split c = Inr ts \<and> list_all token_ok ts \<and> executable_ok (hd ts)"
proof (cases "map_of builtin_commands action")
  case (Some b)
  have "action = ''status'' \<and> c = ''/usr/bin/uptime'' \<or> action = ''identity'' \<and> c = ''/usr/bin/id -un''"
    using Some assms(1) by (auto simp: remote_command_def builtin_commands_def split: if_splits)
  moreover have "shlex_split ''/usr/bin/uptime'' = Inr [''/usr/bin/uptime'']" "shlex_split ''/usr/bin/id -un'' = Inr [''/usr/bin/id'', ''-un'']"
    "list_all token_ok [''/usr/bin/uptime''] \<and> executable_ok ''/usr/bin/uptime''"
    "list_all token_ok [''/usr/bin/id'', ''-un''] \<and> executable_ok ''/usr/bin/id''"
    by code_simp+
  ultimately show ?thesis by (auto simp: registered_tokens_def)
next
  case None
  then have other: "action \<noteq> ''status''" "action \<noteq> ''identity''" by (auto simp: builtin_commands_def)
  obtain ts where ts: "map_of cs action = Some ts" "c = shlex_join ts"
    using None assms(1) by (auto simp: remote_command_def split: option.splits)
  obtain ps where ps: "obj_get_default data ''commands'' (JObj []) = JObj ps" "all_commands ps = Inr cs"
    using assms(2) by (auto simp: policy_commands_def bindE_eq_Inr split: json.splits)
  from all_commands_lookup [OF ps(2) ts(1)] obtain xs where
    xs: "map_of ps action = Some (JList xs)" "text_list xs = Some ts" "list_all token_ok ts" "executable_ok (hd ts)" by blast
  from xs(1) ps(1) have "obj_get data ''commands'' = JObj ps"
    by (auto simp: obj_get_default_def obj_get_def split: option.splits)
  with other xs ts assms(3) show ?thesis by (simp add: registered_tokens_def shlex_split_join)
qed

text \<open>C29: The helper runs one pinned command: whatever the action, the command line starts with the fixed
  options, names a destination that \<open>ssh\<close> cannot take for an option, and ends with a text that a shell
  splits into exactly the argument list registered for that action, whose executable has a normalized
  absolute path. An action that is not registered yields no command line.\<close>

theorem ssh_command_is_registered:
  "case load_policy w dir action of
     Inl _ \<Rightarrow> True
   | Inr (argv, timeout) \<Rightarrow>
       prefix (fixed_options (child dir ''known_hosts'')) argv \<and> length argv = length (fixed_options dir) + 6
       \<and> \<not> prefix ''-'' (argv ! (length argv - 2))
       \<and> (case registered_tokens w dir action of
            None \<Rightarrow> False
          | Some ts \<Rightarrow> shlex_split (last argv) = Inr ts \<and> list_all token_ok ts \<and> executable_ok (hd ts))"
proof (cases "load_policy w dir action")
  case (Inr res)
  have "case res of (argv, timeout) \<Rightarrow> \<exists>data commands remote user hostname key port.
          read_policy w (child dir ''ssh-policy.json'') = Inr data \<and> policy_commands data = Inr commands
          \<and> remote_command commands action = Inr remote \<and> user_ok user
          \<and> argv = fixed_options (child dir ''known_hosts'') @ [''-i'', key, ''-p'', port, user @ ''@'' @ hostname, remote]"
    using Inr by (auto simp: load_policy_def Let_def bindE_eq_Inr dest!: checked_text_Inr [of user_ok]) blast
  then obtain argv timeout data commands remote user hostname key port where
    r: "res = (argv, timeout)" "read_policy w (child dir ''ssh-policy.json'') = Inr data" "policy_commands data = Inr commands"
      "remote_command commands action = Inr remote" "user_ok user"
      "argv = fixed_options (child dir ''known_hosts'') @ [''-i'', key, ''-p'', port, user @ ''@'' @ hostname, remote]"
    by (cases res) auto
  from r(5) have "\<not> prefix ''-'' (user @ ''@'' @ hostname)"
    by (cases user) (auto simp: user_ok_def is_lower_def code_def)
  moreover have "argv ! (length argv - 2) = user @ ''@'' @ hostname" by (simp add: r(6) nth_append)
  moreover have "length argv = length (fixed_options dir) + 6" by (simp add: r(6) fixed_options_def)
  moreover have "last argv = remote" "prefix (fixed_options (child dir ''known_hosts'')) argv" by (simp_all add: r(6))
  ultimately show ?thesis using remote_command_Inr [OF r(4,3,2)] by (simp add: Inr r(1) split: option.splits)
qed simp

end
