(* ===== verification/Sandbox.thy ===== *)
theory Sandbox
  imports Files
begin

text \<open>
  The profile for \<open>sandbox-exec\<close> (\<open>shell_bridge/bridge.py\<close>: \<open>_sbpl_string\<close>, \<open>sandbox_profile\<close>), and a
  reader of the profile language: parentheses, atoms, and strings in double quotes in which a
  backslash makes the next character literal.
\<close>

subsection \<open>Building the profile\<close>

definition replace_char :: "char \<Rightarrow> str \<Rightarrow> str \<Rightarrow> str" where
  "replace_char a r s = concat (map (\<lambda>c. if c = a then r else [c]) s)"

definition escape_char :: char where
  "escape_char = CHR 0x5C"

definition dquote :: char where
  "dquote = CHR 0x22"

definition sbpl_string :: "str \<Rightarrow> str" where
  "sbpl_string value =
     replace_char dquote [escape_char, dquote] (replace_char escape_char [escape_char, escape_char] value)"

definition sb_clause :: "str \<Rightarrow> path \<Rightarrow> str" where
  "sb_clause kind p = ''('' @ kind @ '' '' @ [dquote] @ sbpl_string (path_str p) @ [dquote] @ '')''"

fun resolved_roots :: "fs \<Rightarrow> path list \<Rightarrow> path list \<Rightarrow> path list" where
  "resolved_roots w [] roots = roots"
| "resolved_roots w (r # rs) roots =
     (case full_resolve w r of
        None \<Rightarrow> resolved_roots w rs roots
      | Some p \<Rightarrow> resolved_roots w rs (if p \<in> set roots then roots else roots @ [p]))"

definition git_clauses :: "path \<Rightarrow> str list" where
  "git_clauses home =
     [sb_clause ''literal'' (child home ''.gitconfig''),
      sb_clause ''subpath'' (child (child home ''.config'') ''git''),
      sb_clause ''literal'' (child home ''.gitignore_global'')]"

definition read_clauses :: "path list \<Rightarrow> path \<Rightarrow> str" where
  "read_clauses reads home =
     join '' '' (filter (\<lambda>x. x \<noteq> []) [join '' '' (map (sb_clause ''subpath'') reads), join '' '' (git_clauses home)])"

definition home_part :: "path \<Rightarrow> path list \<Rightarrow> str" where
  "home_part home reads =
     ''(deny file-read* '' @ sb_clause ''subpath'' home @ '')''
     @ ''(allow file-read-metadata '' @ sb_clause ''literal'' (parent home) @ '' '' @ sb_clause ''literal'' home @ '')''
     @ (if read_clauses reads home = [] then [] else ''(allow file-read* '' @ read_clauses reads home @ '')'')"

definition sandbox_profile :: "fs \<Rightarrow> path \<Rightarrow> path list \<Rightarrow> bool \<Rightarrow> path list option \<Rightarrow> bool \<Rightarrow> str" where
  "sandbox_profile w home write_roots allow_network read_roots deny_home_reads =
     (let roots = resolved_roots w write_roots [];
          write_clauses = join '' '' (map (sb_clause ''subpath'') roots)
      in ''(version 1)'' @ ''(allow default)'' @ ''(deny file-write*)''
         @ (if allow_network then [] else ''(deny network*)'')
         @ (if deny_home_reads
            then home_part home (resolved_roots w (case read_roots of None \<Rightarrow> [] | Some rs \<Rightarrow> rs) []) else [])
         @ ''(allow file-write* (literal '' @ [dquote] @ ''/dev/null'' @ [dquote] @ '') '' @ write_clauses @ '')'')"

subsection \<open>Reading a profile\<close>

datatype sb_token = Open | Close | Atom str | Text str

datatype sb_state = Between | InAtom str | InText str | InEsc str

fun sb_lex :: "sb_state \<Rightarrow> str \<Rightarrow> sb_token list option" where
  "sb_lex Between [] = Some []"
| "sb_lex Between (c # cs) =
     (if c = CHR ''('' then map_option (Cons Open) (sb_lex Between cs)
      else if c = CHR '')'' then map_option (Cons Close) (sb_lex Between cs)
      else if c = CHR '' '' then sb_lex Between cs
      else if c = dquote then sb_lex (InText []) cs
      else sb_lex (InAtom [c]) cs)"
| "sb_lex (InAtom a) [] = Some [Atom a]"
| "sb_lex (InAtom a) (c # cs) =
     (if c = CHR ''('' then map_option (\<lambda>ts. Atom a # Open # ts) (sb_lex Between cs)
      else if c = CHR '')'' then map_option (\<lambda>ts. Atom a # Close # ts) (sb_lex Between cs)
      else if c = CHR '' '' then map_option (Cons (Atom a)) (sb_lex Between cs)
      else if c = dquote then map_option (Cons (Atom a)) (sb_lex (InText []) cs)
      else sb_lex (InAtom (a @ [c])) cs)"
| "sb_lex (InText a) [] = None"
| "sb_lex (InText a) (c # cs) =
     (if c = dquote then map_option (Cons (Text a)) (sb_lex Between cs)
      else if c = escape_char then sb_lex (InEsc a) cs
      else sb_lex (InText (a @ [c])) cs)"
| "sb_lex (InEsc a) [] = None"
| "sb_lex (InEsc a) (c # cs) = sb_lex (InText (a @ [c])) cs"

definition sb_read :: "str \<Rightarrow> sb_token list option" where
  "sb_read s = sb_lex Between s"

text \<open>What the profile is meant to say.\<close>

definition clause_tokens :: "str \<Rightarrow> path \<Rightarrow> sb_token list" where
  "clause_tokens kind p = [Open, Atom kind, Text (path_str p), Close]"

definition rule_tokens :: "str \<Rightarrow> str \<Rightarrow> sb_token list \<Rightarrow> sb_token list" where
  "rule_tokens verdict operation clauses = Open # Atom verdict # Atom operation # clauses @ [Close]"

definition read_tokens :: "path list \<Rightarrow> path \<Rightarrow> sb_token list" where
  "read_tokens reads home =
     concat (map (clause_tokens ''subpath'') reads) @ clause_tokens ''literal'' (child home ''.gitconfig'')
     @ clause_tokens ''subpath'' (child (child home ''.config'') ''git'')
     @ clause_tokens ''literal'' (child home ''.gitignore_global'')"

definition home_tokens :: "path \<Rightarrow> path list \<Rightarrow> sb_token list" where
  "home_tokens home reads =
     rule_tokens ''deny'' ''file-read*'' (clause_tokens ''subpath'' home)
     @ rule_tokens ''allow'' ''file-read-metadata'' (clause_tokens ''literal'' (parent home) @ clause_tokens ''literal'' home)
     @ rule_tokens ''allow'' ''file-read*'' (read_tokens reads home)"

definition profile_tokens :: "path \<Rightarrow> path list \<Rightarrow> bool \<Rightarrow> path list \<Rightarrow> bool \<Rightarrow> sb_token list" where
  "profile_tokens home writes allow_network reads deny_home_reads =
     [Open, Atom ''version'', Atom ''1'', Close] @ rule_tokens ''allow'' ''default'' [] @ rule_tokens ''deny'' ''file-write*'' []
     @ (if allow_network then [] else rule_tokens ''deny'' ''network*'' [])
     @ (if deny_home_reads then home_tokens home reads else [])
     @ rule_tokens ''allow'' ''file-write*''
         ([Open, Atom ''literal'', Text ''/dev/null'', Close] @ concat (map (clause_tokens ''subpath'') writes))"

subsection \<open>The reader on the pieces of a profile\<close>

definition sb_reads :: "str \<Rightarrow> sb_token list \<Rightarrow> bool" where
  "sb_reads t toks =
     (\<forall>r. sb_lex Between (t @ r) = (case sb_lex Between r of None \<Rightarrow> None | Some ts \<Rightarrow> Some (toks @ ts)))"

lemma sb_reads_Nil [simp]: "sb_reads [] []"
  by (simp add: sb_reads_def split: option.split)

lemma sb_reads_append: "sb_reads s xs \<Longrightarrow> sb_reads t ys \<Longrightarrow> sb_reads (s @ t) (xs @ ys)"
  by (simp add: sb_reads_def split: option.split)

lemma sb_reads_space: "sb_reads '' '' []"
  by (simp add: sb_reads_def split: option.split)

lemma sb_reads_open: "sb_reads ''('' [Open]"
  by (simp add: sb_reads_def split: option.split)

lemma sb_reads_close: "sb_reads '')'' [Close]"
  by (simp add: sb_reads_def split: option.split)

lemma sbpl_string_chars:
  "sbpl_string s = concat (map (\<lambda>c. if c = escape_char \<or> c = dquote then [escape_char, c] else [c]) s)"
  by (induction s) (auto simp: sbpl_string_def replace_char_def escape_char_def dquote_def)

lemma sb_lex_text:
  "sb_lex (InText a) (sbpl_string s @ dquote # r) = map_option (Cons (Text (a @ s))) (sb_lex Between r)"
  unfolding sbpl_string_chars by (induction s arbitrary: a) (auto simp: escape_char_def dquote_def)

lemma sb_reads_text: "sb_reads ([dquote] @ sbpl_string s @ [dquote]) [Text s]"
proof -
  have "sb_lex Between (dquote # x) = sb_lex (InText []) x" for x by (simp add: dquote_def)
  then show ?thesis unfolding sb_reads_def by (simp add: sb_lex_text split: option.split)
qed

definition atom_text :: "str \<Rightarrow> bool" where
  "atom_text a = (a \<noteq> [] \<and> list_all (\<lambda>c. c \<notin> {CHR ''('', CHR '')'', CHR '' '', dquote}) a)"

lemma sb_lex_atom:
  "list_all (\<lambda>c. c \<notin> {CHR ''('', CHR '')'', CHR '' '', dquote}) a \<Longrightarrow> sb_lex (InAtom b) (a @ r) = sb_lex (InAtom (b @ a)) r"
  by (induction a arbitrary: b) auto

lemma sb_atom:
  assumes "atom_text a"
  shows "sb_lex Between (a @ r) = sb_lex (InAtom a) r"
proof -
  from assms obtain c cs where a: "a = c # cs" unfolding atom_text_def by (cases a) auto
  with assms sb_lex_atom [of cs "[c]" r] show ?thesis unfolding atom_text_def by auto
qed

lemma sb_reads_atom_space: "atom_text a \<Longrightarrow> sb_reads (a @ '' '') [Atom a]"
  by (simp add: sb_reads_def sb_atom split: option.split)

lemma sb_reads_atom_close: "atom_text a \<Longrightarrow> sb_reads (a @ '')'') [Atom a, Close]"
  by (simp add: sb_reads_def sb_atom split: option.split)

lemma sb_reads_concat:
  "(\<And>x. x \<in> set xs \<Longrightarrow> sb_reads (f x) (g x)) \<Longrightarrow> sb_reads (join '' '' (map f xs)) (concat (map g xs))"
proof (induction xs rule: induct_list012)
  case (3 x y zs)
  then have "sb_reads (f x) (g x)" "sb_reads (join '' '' (map f (y # zs))) (concat (map g (y # zs)))" by auto
  from sb_reads_append [OF this(1) sb_reads_append [OF sb_reads_space this(2)]] show ?case by simp
qed simp_all

lemma sb_reads_clause:
  assumes "atom_text kind"
  shows "sb_reads (sb_clause kind p) (clause_tokens kind p)"
  using sb_reads_append [OF sb_reads_open sb_reads_append [OF sb_reads_atom_space [OF assms]
    sb_reads_append [OF sb_reads_text sb_reads_close]]]
  by (simp add: sb_clause_def clause_tokens_def)

lemma sb_reads_rule:
  assumes "atom_text v" "atom_text oper" "sb_reads body toks"
  shows "sb_reads (''('' @ v @ '' '' @ oper @ '' '' @ body @ '')'') (rule_tokens v oper toks)"
  using sb_reads_append [OF sb_reads_open sb_reads_append [OF sb_reads_atom_space [OF assms(1)]
    sb_reads_append [OF sb_reads_atom_space [OF assms(2)] sb_reads_append [OF assms(3) sb_reads_close]]]]
  by (simp add: rule_tokens_def)

lemma sb_reads_bare:
  assumes "atom_text v" "atom_text oper"
  shows "sb_reads (''('' @ v @ '' '' @ oper @ '')'') (rule_tokens v oper [])"
  using sb_reads_append [OF sb_reads_open sb_reads_append [OF sb_reads_atom_space [OF assms(1)] sb_reads_atom_close [OF assms(2)]]]
  by (simp add: rule_tokens_def)

lemma git_clauses_read: "sb_reads (join '' '' (git_clauses home)) (read_tokens [] home)"
proof -
  have k: "atom_text ''literal''" "atom_text ''subpath''" by (simp_all add: atom_text_def dquote_def)
  note c = sb_reads_clause [OF k(1), of "child home ''.gitconfig''"] sb_reads_clause [OF k(2), of "child (child home ''.config'') ''git''"]
    sb_reads_clause [OF k(1), of "child home ''.gitignore_global''"]
  from sb_reads_append [OF c(1) sb_reads_append [OF sb_reads_space sb_reads_append [OF c(2) sb_reads_append [OF sb_reads_space c(3)]]]]
  show ?thesis by (simp add: git_clauses_def read_tokens_def)
qed

lemma sb_clause_nonempty [simp]: "sb_clause kind p \<noteq> []"
  by (simp add: sb_clause_def)

lemma join_clauses_Nil: "join '' '' (map (sb_clause kind) ps) = [] \<longleftrightarrow> ps = []"
  by (cases ps rule: list.exhaust; cases "tl ps") auto

lemma git_clauses_nonempty: "join '' '' (git_clauses home) \<noteq> []"
  by (simp add: git_clauses_def)

lemma sb_reads_clauses: "sb_reads (join '' '' (map (sb_clause ''subpath'') ps)) (concat (map (clause_tokens ''subpath'') ps))"
  by (intro sb_reads_concat sb_reads_clause) (simp add: atom_text_def dquote_def)

lemma read_clauses_nonempty: "read_clauses reads home \<noteq> []"
  using git_clauses_nonempty [of home] by (cases "reads = []") (simp_all add: read_clauses_def join_clauses_Nil)

lemma sb_reads_read_clauses: "sb_reads (read_clauses reads home) (read_tokens reads home)"
proof (cases "reads = []")
  case True
  then show ?thesis using git_clauses_read [of home] git_clauses_nonempty [of home] by (simp add: read_clauses_def)
next
  case False
  from sb_reads_append [OF sb_reads_clauses [of reads] sb_reads_append [OF sb_reads_space git_clauses_read [of home]]]
    False git_clauses_nonempty [of home]
  show ?thesis by (simp add: read_clauses_def join_clauses_Nil read_tokens_def)
qed

lemma sb_reads_home: "sb_reads (home_part home reads) (home_tokens home reads)"
proof -
  have k: "atom_text ''literal''" "atom_text ''subpath''" "atom_text ''deny''" "atom_text ''allow''" "atom_text ''file-read*''"
      "atom_text ''file-read-metadata''" by (simp_all add: atom_text_def dquote_def)
  note deny = sb_reads_rule [OF k(3,5) sb_reads_clause [OF k(2), of home]]
  note meta = sb_reads_rule [OF k(4,6) sb_reads_append [OF sb_reads_clause [OF k(1), of "parent home"]
    sb_reads_append [OF sb_reads_space sb_reads_clause [OF k(1), of home]]]]
  note allow = sb_reads_rule [OF k(4,5) sb_reads_read_clauses [of reads home]]
  from sb_reads_append [OF deny sb_reads_append [OF meta allow]] read_clauses_nonempty [of reads home]
  show ?thesis by (simp add: home_part_def home_tokens_def)
qed

lemma sb_read_profile:
  "sb_read (sandbox_profile w home write_roots allow_network read_roots deny_home_reads)
     = Some (profile_tokens home (resolved_roots w write_roots []) allow_network
               (resolved_roots w (case read_roots of None \<Rightarrow> [] | Some rs \<Rightarrow> rs) []) deny_home_reads)"
proof -
  let ?reads = "resolved_roots w (case read_roots of None \<Rightarrow> [] | Some rs \<Rightarrow> rs) []"
  let ?roots = "resolved_roots w write_roots []"
  have k: "atom_text ''deny''" "atom_text ''allow''" "atom_text ''default''" "atom_text ''file-write*''" "atom_text ''network*''"
    by (simp_all add: atom_text_def dquote_def)
  have version: "sb_reads ''(version 1)'' [Open, Atom ''version'', Atom ''1'', Close]"
    using sb_reads_bare [of "''version''" "''1''"] by (simp add: rule_tokens_def atom_text_def dquote_def)
  have null: "sb_reads (''(literal '' @ [dquote] @ ''/dev/null'' @ [dquote] @ '') '') [Open, Atom ''literal'', Text ''/dev/null'', Close]"
    by (simp add: sb_reads_def dquote_def escape_char_def split: option.split)
  have network: "sb_reads (if allow_network then [] else ''(deny network*)'') (if allow_network then [] else rule_tokens ''deny'' ''network*'' [])"
    using sb_reads_bare [OF k(1,5)] by simp
  have reads: "sb_reads (if deny_home_reads then home_part home ?reads else []) (if deny_home_reads then home_tokens home ?reads else [])"
    by (simp add: sb_reads_home)
  note writes = sb_reads_rule [OF k(2,4) sb_reads_append [OF null sb_reads_clauses [of ?roots]]]
  note whole = sb_reads_append [OF version sb_reads_append [OF sb_reads_bare [OF k(2,3)]
    sb_reads_append [OF sb_reads_bare [OF k(1,4)] sb_reads_append [OF network sb_reads_append [OF reads writes]]]]]
  have "sb_reads (sandbox_profile w home write_roots allow_network read_roots deny_home_reads)
     (profile_tokens home ?roots allow_network ?reads deny_home_reads)"
    using whole unfolding sandbox_profile_def profile_tokens_def Let_def append_assoc append_Cons append_Nil .
  then show ?thesis unfolding sb_reads_def sb_read_def by (auto dest: spec [of _ "[]"])
qed

text \<open>C35: No path can break out of its string: whatever characters the roots contain, the profile reads
  back as exactly the intended rules, one clause per resolved root. In particular the only paths a
  sandboxed command may write are \<open>/dev/null\<close> and the given roots, and the network rule is present
  whenever the network is not allowed.\<close>

theorem profile_says_what_is_meant:
  "sb_read (sandbox_profile w home write_roots allow_network read_roots deny_home_reads)
     = Some (profile_tokens home (resolved_roots w write_roots []) allow_network
               (resolved_roots w (case read_roots of None \<Rightarrow> [] | Some rs \<Rightarrow> rs) []) deny_home_reads)"
  by (rule sb_read_profile)

end
