(* ===== verification/RunShell.thy ===== *)
theory RunShell
  imports Sandbox Request JsonText
begin

text \<open>
  Running a command (\<open>shell_bridge/bridge.py\<close>: \<open>child_environment\<close>, \<open>run_shell\<close>). The child process and
  the clock are a parameter, the record \<open>child\<close>: what the readers of its two streams receive chunk by
  chunk (an empty chunk is the end of the stream; a list without one is a stream that stays open), what
  the waiting loop sees each time the child is still running (shutdown requested, time), and the exit
  code. A chunk is a list of bytes.
\<close>

subsection \<open>The call\<close>

record shell_args =
  sa_cwd :: path
  sa_command :: str
  sa_stdin :: str
  sa_timeout :: int
  sa_shell :: path
  sa_max_output :: int
  sa_request_id :: "str option"
  sa_instance :: json
  sa_folder :: json
  sa_state_dir :: json
  sa_write_roots :: "path list option"
  sa_network :: bool
  sa_read_roots :: "path list option"
  sa_deny_home :: bool
  sa_argv :: "str list option"

record child =
  ch_temp :: "path option"
  ch_error :: "str option"
  ch_pid :: int
  ch_started :: real
  ch_stdout :: "str list"
  ch_stderr :: "str list"
  ch_writer_done :: bool
  ch_start_mono :: real
  ch_watch :: "(bool \<times> real) list"
  ch_exit :: int
  ch_finished :: real

record spawn =
  sp_argv :: "str list"
  sp_cwd :: path
  sp_env :: "str \<Rightarrow> str option"

record run_result =
  rr_exit :: int
  rr_timed_out :: bool
  rr_aborted :: bool
  rr_incomplete :: bool
  rr_limited :: bool
  rr_duration :: real
  rr_stdout :: str
  rr_stderr :: str
  rr_sandboxed :: bool
  rr_network_denied :: bool
  rr_write_roots :: "path list option"
  rr_read_roots :: "path list option"
  rr_home_restricted :: bool

text \<open>The rest of the operating system: environment of the daemon, \<open>launchctl\<close> (None when it is missing or
  fails), the home directory, replacement decoding of bytes, rounding.\<close>

record runtime =
  rt_environ :: "str \<Rightarrow> str option"
  rt_auth_sock :: "str option"
  rt_home :: path
  rt_decode :: "str \<Rightarrow> str"
  rt_round :: "real \<Rightarrow> real"

subsection \<open>Environment of the child\<close>

definition put_text :: "str \<Rightarrow> json \<Rightarrow> (str \<Rightarrow> str option) \<Rightarrow> str \<Rightarrow> str option" where
  "put_text key v env = (case v of JStr s \<Rightarrow> if s = [] then env else env(key \<mapsto> s) | _ \<Rightarrow> env)"

definition child_environment ::
  "host \<Rightarrow> runtime \<Rightarrow> str option \<Rightarrow> bool \<Rightarrow> json \<Rightarrow> json \<Rightarrow> json \<Rightarrow> str \<Rightarrow> str option" where
  "child_environment h rt request_id sandboxed inst folder state_dir =
     (let e0 = rt_environ rt;
          e1 = (case request_id of None \<Rightarrow> e0
                | Some r \<Rightarrow> if r = [] then e0 else e0(''CHATGPT_SHELL_BRIDGE_REQUEST_ID'' \<mapsto> r));
          e2 = put_text ''LOCAL_EXECUTOR_CALLER_STATE_DIR'' state_dir
                 (put_text ''LOCAL_EXECUTOR_CALLER_DRIVE_ROOT_FOLDER_ID'' folder
                   (put_text ''LOCAL_EXECUTOR_CALLER_BRIDGE_INSTANCE_ID'' inst e1));
          e3 = (if sandboxed then e2(''GIT_OPTIONAL_LOCKS'' \<mapsto> ''0'', ''PYTHONDONTWRITEBYTECODE'' \<mapsto> ''1'') else e2)
      in if hs_darwin h
         then (case rt_auth_sock rt of None \<Rightarrow> e3
               | Some s \<Rightarrow> if py_strip s = [] then e3 else e3(''SSH_AUTH_SOCK'' \<mapsto> py_strip s))
         else e3)"

subsection \<open>Command line\<close>

definition sandbox_exec :: path where
  "sandbox_exec = parse_path ''/usr/bin/sandbox-exec''"

definition inner_argv :: "shell_args \<Rightarrow> str list" where
  "inner_argv a = (case sa_argv a of Some argv \<Rightarrow> argv | None \<Rightarrow> [path_str (sa_shell a), ''-lc'', sa_command a])"

definition temp_environment :: "path \<Rightarrow> (str \<Rightarrow> str option) \<Rightarrow> str \<Rightarrow> str option" where
  "temp_environment tmp env =
     env(''TMPDIR'' \<mapsto> path_str tmp, ''TMP'' \<mapsto> path_str tmp, ''TEMP'' \<mapsto> path_str tmp,
         ''TMPPREFIX'' \<mapsto> path_str (child tmp ''zsh''))"

definition prepare_spawn :: "fs \<Rightarrow> host \<Rightarrow> runtime \<Rightarrow> shell_args \<Rightarrow> path option \<Rightarrow> pyerr + spawn" where
  "prepare_spawn w h rt a temp =
     bindE (require (is_absolute (sa_shell a) \<and> fs_is_file w (sa_shell a) \<and> hs_executable h (sa_shell a))
              ''configured shell must be an existing absolute file'') (\<lambda>_.
     bindE (require (1 \<le> sa_max_output a) ''max_output_bytes must be positive'') (\<lambda>_.
     let env = child_environment h rt (sa_request_id a) (sa_write_roots a \<noteq> None) (sa_instance a) (sa_folder a) (sa_state_dir a) in
     case sa_write_roots a of
       None \<Rightarrow> Inr \<lparr>sp_argv = inner_argv a, sp_cwd = sa_cwd a, sp_env = env\<rparr>
     | Some roots \<Rightarrow>
         bindE (require (hs_darwin h \<and> fs_is_file w sandbox_exec \<and> hs_executable h sandbox_exec)
                  ''execution sandbox is unavailable; refusing non-system shell execution'') (\<lambda>_.
         case temp of
           None \<Rightarrow> Inl (OtherErr ''OSError'')
         | Some tmp \<Rightarrow>
             Inr \<lparr>sp_argv = [path_str sandbox_exec, ''-p'',
                      sandbox_profile w (rt_home rt) (tmp # roots) (sa_network a)
                        (Some (tmp # (case sa_read_roots a of None \<Rightarrow> [] | Some rs \<Rightarrow> rs))) (sa_deny_home a)]
                    @ inner_argv a,
                  sp_cwd = sa_cwd a, sp_env = temp_environment tmp env\<rparr>)))"

subsection \<open>Streams and the waiting loop\<close>

text \<open>The result of a reader: its buffer, whether it hit the limit, and whether it has returned.\<close>

fun read_stream :: "nat \<Rightarrow> str \<Rightarrow> str list \<Rightarrow> str \<times> bool \<times> bool" where
  "read_stream cap buf [] = (buf, False, False)"
| "read_stream cap buf (chunk # chunks) =
     (if chunk = [] then (buf, False, True)
      else let remaining = cap - length buf;
               buf' = (if 0 < remaining then buf @ take remaining chunk else buf)
           in if remaining < length chunk then (buf', True, True) else read_stream cap buf' chunks)"

text \<open>Timed out, aborted by the daemon's shutdown; the list ends when the child has exited.\<close>

fun watch :: "real \<Rightarrow> (bool \<times> real) list \<Rightarrow> bool \<times> bool" where
  "watch deadline [] = (False, False)"
| "watch deadline ((shutdown, now) # ts) =
     (if shutdown then (False, True)
      else if deadline - now \<le> 0 then (True, False)
      else watch deadline ts)"

definition collect :: "runtime \<Rightarrow> shell_args \<Rightarrow> child \<Rightarrow> path list option \<Rightarrow> path list option \<Rightarrow> run_result" where
  "collect rt a c writes reads =
     (case (read_stream (nat (sa_max_output a)) [] (ch_stdout c), read_stream (nat (sa_max_output a)) [] (ch_stderr c),
            watch (ch_start_mono c + real_of_int (sa_timeout a)) (ch_watch c)) of
        ((out, out_limited, out_done), (err, err_limited, err_done), (timed_out, aborted)) \<Rightarrow>
          \<lparr>rr_exit = ch_exit c, rr_timed_out = timed_out, rr_aborted = aborted,
           rr_incomplete = (\<not> out_done \<or> \<not> err_done \<or> \<not> ch_writer_done c),
           rr_limited = (out_limited \<or> err_limited),
           rr_duration = rt_round rt (ch_finished c - ch_started c),
           rr_stdout = out, rr_stderr = err,
           rr_sandboxed = (sa_write_roots a \<noteq> None),
           rr_network_denied = (sa_write_roots a \<noteq> None \<and> \<not> sa_network a),
           rr_write_roots = writes, rr_read_roots = reads,
           rr_home_restricted = (sa_write_roots a \<noteq> None \<and> sa_deny_home a)\<rparr>)"

definition resolve_all :: "fs \<Rightarrow> path list option \<Rightarrow> path list option option" where
  "resolve_all w ps = (case ps of None \<Rightarrow> Some None | Some qs \<Rightarrow> map_option Some (those (map (fs_resolve w) qs)))"

text \<open>The process that was spawned, if any, and the value or exception of the call.\<close>

definition run_shell :: "fs \<Rightarrow> host \<Rightarrow> runtime \<Rightarrow> shell_args \<Rightarrow> child \<Rightarrow> spawn option \<times> (pyerr + run_result)" where
  "run_shell w h rt a c =
     (case prepare_spawn w h rt a (ch_temp c) of
        Inl e \<Rightarrow> (None, Inl e)
      | Inr sp \<Rightarrow>
          (case ch_error c of
             Some e \<Rightarrow> (None, Inl (OtherErr e))
           | None \<Rightarrow>
               (Some sp,
                case (resolve_all w (sa_write_roots a), resolve_all w (sa_read_roots a)) of
                  (Some writes, Some reads) \<Rightarrow> Inr (collect rt a c writes reads)
                | _ \<Rightarrow> Inl (OtherErr ''OSError''))))"

text \<open>The dictionary that \<open>run_shell\<close> returns.\<close>

definition paths_json :: "path list option \<Rightarrow> json" where
  "paths_json ps = (case ps of None \<Rightarrow> JNull | Some qs \<Rightarrow> JList (map (\<lambda>p. JStr (path_str p)) qs))"

definition run_pairs :: "(str \<Rightarrow> str) \<Rightarrow> runtime \<Rightarrow> run_result \<Rightarrow> (str \<times> json) list" where
  "run_pairs sha rt r =
     [(''exit_code'', JInt (rr_exit r)), (''timed_out'', JBool (rr_timed_out r)),
      (''aborted_by_daemon_shutdown'', JBool (rr_aborted r)), (''streams_incomplete'', JBool (rr_incomplete r)),
      (''output_limited'', JBool (rr_limited r)), (''duration_seconds'', JFloat (rr_duration r)),
      (''stdout_b64'', JStr (b64_encode (rr_stdout r))), (''stderr_b64'', JStr (b64_encode (rr_stderr r))),
      (''stdout_text'', JStr (rt_decode rt (rr_stdout r))), (''stderr_text'', JStr (rt_decode rt (rr_stderr r))),
      (''stdout_bytes'', JInt (int (length (rr_stdout r)))), (''stderr_bytes'', JInt (int (length (rr_stderr r)))),
      (''stdout_sha256'', JStr (sha (rr_stdout r))), (''stderr_sha256'', JStr (sha (rr_stderr r))),
      (''filesystem_sandboxed'', JBool (rr_sandboxed r)), (''network_sandboxed'', JBool (rr_network_denied r)),
      (''sandbox_write_roots'', paths_json (rr_write_roots r)), (''sandbox_read_roots'', paths_json (rr_read_roots r)),
      (''home_read_restricted'', JBool (rr_home_restricted r))]"

subsection \<open>Bounds of the output\<close>

definition stream_text :: "str list \<Rightarrow> str" where
  "stream_text chunks = concat (takeWhile (\<lambda>c. c \<noteq> []) chunks)"

lemma read_stream_spec:
  "length buf \<le> cap \<Longrightarrow> read_stream cap buf chunks =
     (take cap (buf @ stream_text chunks), cap < length (buf @ stream_text chunks),
      cap < length (buf @ stream_text chunks) \<or> [] \<in> set chunks)"
  apply (induction cap buf chunks rule: read_stream.induct)
  apply (auto simp: stream_text_def Let_def)
 done

text \<open>C31: The captured output is bounded and honest: whatever the child writes and however it is cut into
  chunks, the result holds exactly the first \<open>max_output_bytes\<close> bytes of each stream; it is marked as
  limited exactly when a stream was longer, and as incomplete exactly when a stream neither ended nor
  reached the limit or the writer of the standard input was still busy.\<close>

theorem output_is_bounded_prefix:
  "case snd (run_shell w h rt a c) of
     Inl _ \<Rightarrow> True
   | Inr r \<Rightarrow>
       rr_stdout r = take (nat (sa_max_output a)) (stream_text (ch_stdout c))
       \<and> rr_stderr r = take (nat (sa_max_output a)) (stream_text (ch_stderr c))
       \<and> rr_limited r = list_ex (\<lambda>s. nat (sa_max_output a) < length (stream_text s)) [ch_stdout c, ch_stderr c]
       \<and> rr_incomplete r = (if ch_writer_done c
           then list_ex (\<lambda>s. length (stream_text s) \<le> nat (sa_max_output a) \<and> [] \<notin> set s) [ch_stdout c, ch_stderr c]
           else True)"
  by (auto simp: run_shell_def collect_def read_stream_spec not_less split: sum.split option.split prod.split)

lemma prepare_spawn_Inr:
  "prepare_spawn w h rt a temp = Inr sp \<Longrightarrow>
     case sa_write_roots a of
       None \<Rightarrow> sp_argv sp = inner_argv a
     | Some roots \<Rightarrow> hs_darwin h \<and> (\<exists>tmp. temp = Some tmp \<and> sp_argv sp = [path_str sandbox_exec, ''-p'',
         sandbox_profile w (rt_home rt) (tmp # roots) (sa_network a)
           (Some (tmp # (case sa_read_roots a of None \<Rightarrow> [] | Some rs \<Rightarrow> rs))) (sa_deny_home a)] @ inner_argv a)"
  by (auto simp: prepare_spawn_def Let_def bindE_eq_Inr split: option.splits)

text \<open>C30: The sandbox fails closed: when the plan has write roots, a process is spawned only under
  \<open>sandbox-exec\<close>, with a profile that reads as the intended rules for the scratch directory and those
  roots; otherwise nothing is spawned. Only a plan without write roots runs the command directly.\<close>

theorem sandbox_fails_closed:
  "case fst (run_shell w h rt a c) of
     None \<Rightarrow> True
   | Some sp \<Rightarrow>
       (case sa_write_roots a of
          None \<Rightarrow> sp_argv sp = inner_argv a
        | Some roots \<Rightarrow>
            (case (ch_temp c, sp_argv sp) of
               (Some tmp, exe # flag # profile # rest) \<Rightarrow>
                 exe = path_str sandbox_exec \<and> flag = ''-p'' \<and> rest = inner_argv a
                 \<and> sb_read profile = Some (profile_tokens (rt_home rt) (resolved_roots w (tmp # roots) []) (sa_network a)
                       (resolved_roots w (tmp # (case sa_read_roots a of None \<Rightarrow> [] | Some rs \<Rightarrow> rs)) []) (sa_deny_home a))
             | _ \<Rightarrow> False))"
proof (cases "prepare_spawn w h rt a (ch_temp c)")
  case (Inr sp)
  from prepare_spawn_Inr [OF this] show ?thesis
    by (auto simp: run_shell_def Inr sb_read_profile split: option.split)
qed (simp add: run_shell_def)

end
