(* ===== verification/Admission.thy ===== *)
theory Admission
  imports Plan Policy Approval PinnedSsh RunShell
begin

text \<open>
  The decision whether a request may start (\<open>shell_bridge/bridge.py\<close>: the part of
  \<open>_process_claimed_request\<close> between the journal checks and the STARTED marker, with
  \<open>pinned_ssh_material_unchanged\<close> and \<open>pinned_ssh_readonly_preapproved\<close>). The code looks at the file
  system three times: for the plan, for the review by the operator, and before execution; the record
  \<open>gate\<close> holds the three worlds, and everything else the decision depends on.
\<close>

record gate =
  g_plan :: world
  g_review :: world
  g_exec :: world
  g_ssh :: ssh_world
  g_host :: host
  g_float :: "real \<Rightarrow> str"
  g_dialog :: dialog

subsection \<open>Pinned SSH material\<close>

definition file_pinned :: "world \<Rightarrow> json \<Rightarrow> path \<Rightarrow> str \<times> str \<Rightarrow> bool" where
  "file_pinned wd cfg base nf =
     (let p = child base (fst nf) in
      case obj_get cfg (snd nf) of
        JStr expected \<Rightarrow> length expected = 64 \<and> \<not> fs_is_symlink (wd_fs wd) p
          \<and> (case fs_read (wd_fs wd) p of None \<Rightarrow> False | Some raw \<Rightarrow> wd_sha wd raw = expected)
      | _ \<Rightarrow> False)"

definition identity_pinned :: "world \<Rightarrow> json \<Rightarrow> path \<Rightarrow> bool" where
  "identity_pinned wd cfg base =
     (case (obj_get cfg ''pinned_ssh_identity_sha256'',
            Option.bind (fs_read (wd_fs wd) (child base ''ssh-policy.json'')) (wd_parse wd)) of
        (JStr expected, Some data) \<Rightarrow>
          length expected = 64
          \<and> (case obj_get data ''identity_file'' of
               JStr raw \<Rightarrow>
                 (let identity = parse_path raw in
                  is_absolute identity \<and> \<not> fs_is_symlink (wd_fs wd) identity \<and> fs_is_file (wd_fs wd) identity
                  \<and> (case fs_read (wd_fs wd) identity of
                       None \<Rightarrow> False
                     | Some bytes \<Rightarrow> length bytes \<le> key_limit \<and> wd_sha wd bytes = expected))
             | _ \<Rightarrow> False)
      | _ \<Rightarrow> False)"

definition ssh_operation :: str where
  "ssh_operation = ''ssh-pinned-readonly''"

definition pinned_ssh_material_unchanged :: "world \<Rightarrow> (str \<times> str) option \<Rightarrow> json \<Rightarrow> plan \<Rightarrow> bool" where
  "pinned_ssh_material_unchanged wd trusted cfg pl =
     (case trusted of
        None \<Rightarrow> False
      | Some (name, action) \<Rightarrow>
          name = ssh_operation \<and> obj_get cfg ''preapproved_pinned_ssh_readonly'' = JBool True
          \<and> pl_effective pl = EffTrusted
          \<and> (case obj_get (obj_get (obj_get cfg ''trusted_operations'') ssh_operation) ''permitted_roots'' of
               JList [JStr r] \<Rightarrow>
                 (let base = parse_path r in
                  is_absolute base \<and> \<not> fs_is_symlink (wd_fs wd) base
                  \<and> file_pinned wd cfg base (''ssh-policy.json'', ''pinned_ssh_policy_sha256'')
                  \<and> file_pinned wd cfg base (''known_hosts'', ''pinned_ssh_known_hosts_sha256'')
                  \<and> identity_pinned wd cfg base)
             | _ \<Rightarrow> False))"

definition pinned_ssh_readonly_preapproved :: "world \<Rightarrow> (str \<times> str) option \<Rightarrow> json \<Rightarrow> plan \<Rightarrow> bool" where
  "pinned_ssh_readonly_preapproved wd trusted cfg pl =
     ((case trusted of None \<Rightarrow> False | Some (name, action) \<Rightarrow> action \<in> {''status'', ''identity''})
      \<and> pinned_ssh_material_unchanged wd trusted cfg pl)"

subsection \<open>The plan as the result shows it\<close>

fun scope_str :: "write_scope \<Rightarrow> str" where
  "scope_str ScopeAuto = ''auto''"
| "scope_str ScopeReadOnly = ''read_only''"
| "scope_str ScopeRepository = ''repository''"
| "scope_str ScopeSystem = ''system''"

fun effective_str :: "effective \<Rightarrow> str" where
  "effective_str EffTrusted = ''trusted_operation''"
| "effective_str EffSystem = ''system''"
| "effective_str EffRepository = ''repository''"
| "effective_str EffReadOnly = ''read_only''"

definition public_write_plan :: "plan \<Rightarrow> json" where
  "public_write_plan p = JObj
     ([(''requested'', JStr (scope_str (pl_requested p))), (''effective'', JStr (effective_str (pl_effective p))),
       (''deny_home_reads'', JBool (pl_deny_home p)), (''allow_network'', JBool (pl_network p))]
      @ (case pl_category p of None \<Rightarrow> [] | Some c \<Rightarrow> [(''confirmation_category'', JStr c)])
      @ (if pl_downgraded p then [(''authority_downgraded'', JBool True)] else [])
      @ (if pl_coordinator p then [(''trusted_coordinator'', JBool True)] else [])
      @ (case pl_operation p of None \<Rightarrow> []
         | Some (op, action) \<Rightarrow>
             [(''trusted_operation_name'', JStr (to_name op)), (''trusted_operation_action'', JStr action),
              (''trusted_operation_sha256'', JStr (to_sha256 op)),
              (''trusted_operation_roots'', JList (map (\<lambda>r. JStr (path_str r)) (to_roots op)))]))"

definition confirmation_json :: "confirmation \<Rightarrow> json" where
  "confirmation_json c = JObj [(''required'', JBool (cf_required c)), (''category'', JStr (cf_category c)),
     (''mode'', JStr (cf_mode c)), (''approved'', JBool (cf_approved c)), (''message'', JStr (cf_message c))]"

subsection \<open>The decision\<close>

text \<open>A rejection has the extra fields of its result. A start has the plan, the confirmation and, for a
  trusted operation, the command line of the helper.\<close>

datatype verdict =
    Reject "(str \<times> json) list"
  | Raised
  | Start plan "confirmation option" "str list option"

fun err_text :: "pyerr \<Rightarrow> str" where
  "err_text (ValueErr m) = m"
| "err_text (OtherErr m) = m"

definition line_mark :: str where
  "line_mark = [CHR 0x5C, CHR ''n'']"

text \<open>What the operator reads about a trusted operation; \<open>Inl\<close> is the message of a rejection.\<close>

definition review_trusted :: "gate \<Rightarrow> json \<Rightarrow> path \<Rightarrow> str \<times> str \<Rightarrow> str + str" where
  "review_trusted g cfg allowed_root t =
     (case registered_operation_from_config (wd_sha (g_review g)) (wd_fs (g_review g)) cfg (fst t) (snd t) allowed_root of
        Inl e \<Rightarrow> Inl (''trusted operation pre-approval verification failed: '' @ e)
      | Inr op \<Rightarrow>
          (let text = ''Trusted helper: '' @ path_str (to_executable op) @ line_mark
                      @ ''Action: '' @ snd t @ line_mark
                      @ ''SHA-256: '' @ to_sha256 op @ line_mark
                      @ ''Permitted roots: '' @ join '', '' (map path_str (to_roots op))
           in if to_name op \<noteq> ssh_operation then Inr text
              else (case to_roots op of
                      [] \<Rightarrow> Inl ''pinned SSH action cannot be reviewed: list index out of range''
                    | r # _ \<Rightarrow>
                        (case load_policy (g_ssh g) r (snd t) of
                           Inl (Denied m) \<Rightarrow> Inl (''pinned SSH action cannot be reviewed: '' @ m)
                         | Inl Unavailable \<Rightarrow> Inl ''pinned SSH action cannot be reviewed: identity unavailable''
                         | Inr (argv, timeout) \<Rightarrow>
                             if 1024 < length (last argv) then Inl ''SSH profile command too long for meaningful operator review''
                             else Inr (text @ line_mark @ ''Remote destination: '' @ argv ! (length argv - 2)
                                       @ line_mark @ ''Exact reviewed remote command: '' @ last argv)))))"

definition elevation_category :: "valid_request \<Rightarrow> plan \<Rightarrow> str option" where
  "elevation_category v pl =
     (case high_impact_command_category (v_command v) of Some c \<Rightarrow> Some c | None \<Rightarrow> pl_category pl)"

definition preapproval :: confirmation where
  "preapproval = \<lparr>cf_required = False, cf_category = ''pinned_ssh_readonly'', cf_mode = ''operator_installed_capability'',
     cf_approved = True, cf_message = ''fixed read-only action preapproved at installation''\<rparr>"

definition confirm :: "gate \<Rightarrow> json \<Rightarrow> valid_request \<Rightarrow> plan \<Rightarrow> str \<Rightarrow> pyerr + confirmation option" where
  "confirm g cfg v pl approval_command =
     (if pinned_ssh_readonly_preapproved (g_review g) (v_trusted v) cfg pl then Inr (Some preapproval)
      else case elevation_category v pl of
        None \<Rightarrow> Inr None
      | Some category \<Rightarrow>
          bindE (request_operator_confirmation (g_host g) (wd_sha (g_review g)) (g_float g) cfg
                   \<lparr>ak_request_id = v_id v, ak_cwd = v_cwd v, ak_command = approval_command, ak_category = category,
                    ak_explanation = v_explanation v\<rparr> (g_dialog g)) (\<lambda>(c, written). Inr (Some c)))"

definition helper_argv :: "gate \<Rightarrow> json \<Rightarrow> path \<Rightarrow> (str \<times> str) option \<Rightarrow> str + str list option" where
  "helper_argv g cfg allowed_root trusted =
     (case trusted of
        None \<Rightarrow> Inr None
      | Some t \<Rightarrow>
          (case registered_operation_from_config (wd_sha (g_exec g)) (wd_fs (g_exec g)) cfg (fst t) (snd t) allowed_root of
             Inl e \<Rightarrow> Inl (''trusted helper integrity changed before execution: '' @ e)
           | Inr op \<Rightarrow> Inr (Some (path_str (to_executable op) # snd t # map path_str (to_roots op)))))"

definition cwd_pair :: "valid_request \<Rightarrow> str \<times> json" where
  "cwd_pair v = (''cwd'', JStr (path_str (v_cwd v)))"

definition message_pair :: "str \<Rightarrow> str \<times> json" where
  "message_pair m = (''message'', JStr m)"

definition reason_pair :: "str \<Rightarrow> str \<times> json" where
  "reason_pair r = (''policy_reason'', JStr r)"

definition confirm_and_start :: "gate \<Rightarrow> json \<Rightarrow> path \<Rightarrow> valid_request \<Rightarrow> plan \<Rightarrow> str \<Rightarrow> verdict" where
  "confirm_and_start g cfg allowed_root v pl approval_command =
     (case confirm g cfg v pl approval_command of
        Inl _ \<Rightarrow> Raised
      | Inr c \<Rightarrow>
          if (case c of None \<Rightarrow> False | Some cf \<Rightarrow> \<not> cf_approved cf)
          then Reject [cwd_pair v, message_pair (cf_message (the c)), (''write_scope'', public_write_plan pl),
                       (''operator_confirmation'', confirmation_json (the c))]
          else (case helper_argv g cfg allowed_root (v_trusted v) of
                  Inl m \<Rightarrow> Reject [message_pair m, (''operator_confirmation'', case c of None \<Rightarrow> JNull | Some cf \<Rightarrow> confirmation_json cf)]
                | Inr argv \<Rightarrow> Start pl c argv))"

definition decide :: "gate \<Rightarrow> json \<Rightarrow> path \<Rightarrow> valid_request \<Rightarrow> verdict" where
  "decide g cfg allowed_root v =
     (case prohibited_command_reason (v_command v) of
        Some reason \<Rightarrow> Reject [cwd_pair v, message_pair ''repository visibility policy forbids agents from creating a public repository or making a repository public'', reason_pair reason]
      | None \<Rightarrow>
          (if high_impact_command_category (v_command v) = Some ''remote_shell_or_copy'' \<and> v_trusted v = None
           then Reject [cwd_pair v, message_pair ''raw SSH/SCP/SFTP/rsync cannot be authorized by a popup; use a separately installed, host- and action-pinned trusted operation'', reason_pair ''remote_shell_requires_pinned_capability'']
           else (case resolve_write_plan (g_plan g) v cfg of
                   Inl e \<Rightarrow> Reject [cwd_pair v, message_pair (err_text e)]
                 | Inr pl \<Rightarrow>
                     (if pl_effective pl = EffSystem
                      then Reject [cwd_pair v, message_pair ''unbounded system shell is not an agent capability; use a narrowly scoped trusted helper'', reason_pair ''unbounded_system_authority_prohibited'', (''write_scope'', public_write_plan pl)]
                      else (case v_trusted v of
                              None \<Rightarrow> confirm_and_start g cfg allowed_root v pl (v_command v)
                            | Some t \<Rightarrow>
                                (case review_trusted g cfg allowed_root t of
                                   Inl m \<Rightarrow> Reject [message_pair m]
                                 | Inr text \<Rightarrow>
                                     (if fst t = ssh_operation \<and> \<not> pinned_ssh_material_unchanged (g_review g) (v_trusted v) cfg pl
                                      then Reject [message_pair ''pinned SSH policy or known-host material changed since operator installation; re-provision locally'', reason_pair ''ssh_policy_pin_mismatch'']
                                      else confirm_and_start g cfg allowed_root v pl text)))))))"

subsection \<open>What a start means\<close>

text \<open>The operator's part: a start in an elevation category has an approved confirmation, either of the
  pinned read-only actions or from the dialogue about this request.\<close>

definition approval_in_place :: "gate \<Rightarrow> json \<Rightarrow> valid_request \<Rightarrow> plan \<Rightarrow> confirmation option \<Rightarrow> bool" where
  "approval_in_place g cfg v pl c =
     (if pinned_ssh_readonly_preapproved (g_review g) (v_trusted v) cfg pl then c = Some preapproval
      else (case elevation_category v pl of None \<Rightarrow> c = None | Some cat \<Rightarrow> (case c of None \<Rightarrow> False | Some cf \<Rightarrow> cf_approved cf)))"

text \<open>The containment: a raw command runs inside a sandbox without network whose write roots lie under the
  allowed root, unless it is a call of the workspace coordinator; a trusted operation runs the argument
  list of a helper that is pinned at the moment of execution.\<close>

definition contained :: "gate \<Rightarrow> json \<Rightarrow> path \<Rightarrow> path \<Rightarrow> valid_request \<Rightarrow> plan \<Rightarrow> str list option \<Rightarrow> bool" where
  "contained g cfg base allowed_root v pl argv =
     (case v_trusted v of
        None \<Rightarrow> argv = None
          \<and> (pl_coordinator pl
             \<or> (case pl_write_roots pl of None \<Rightarrow> False
                | Some roots \<Rightarrow> list_all (\<lambda>r. path_under (wd_fs (g_plan g)) r base) roots \<and> \<not> pl_network pl \<and> pl_deny_home pl))
      | Some (name, action) \<Rightarrow>
          (case registered_operation_from_config (wd_sha (g_exec g)) (wd_fs (g_exec g)) cfg name action allowed_root of
             Inl _ \<Rightarrow> False
           | Inr op \<Rightarrow> argv = Some (path_str (to_executable op) # action # map path_str (to_roots op)))
          \<and> (name \<noteq> ssh_operation \<or> pinned_ssh_material_unchanged (g_review g) (v_trusted v) cfg pl))"

lemma confirm_Inr: "confirm g cfg v pl text = Inr c \<Longrightarrow> (case c of None \<Rightarrow> True | Some cf \<Rightarrow> cf_approved cf)
    \<Longrightarrow> approval_in_place g cfg v pl c"
  by (auto simp: confirm_def approval_in_place_def bindE_eq_Inr split: if_splits option.splits)

lemma confirm_and_start_Start:
  assumes "confirm_and_start g cfg allowed_root v pl text = Start pl' c argv"
  shows "pl' = pl \<and> approval_in_place g cfg v pl c \<and> helper_argv g cfg allowed_root (v_trusted v) = Inr argv"
proof (cases "confirm g cfg v pl text")
  case (Inr d)
  with assms have "pl' = pl" "c = d" "helper_argv g cfg allowed_root (v_trusted v) = Inr argv"
    "case d of None \<Rightarrow> True | Some cf \<Rightarrow> cf_approved cf"
    by (auto simp: confirm_and_start_def split: if_splits sum.splits option.splits)
  with confirm_Inr [OF Inr] show ?thesis by simp
qed (use assms in \<open>simp add: confirm_and_start_def\<close>)

lemma helper_argv_Inr:
  "helper_argv g cfg allowed_root (Some (name, action)) = Inr argv \<Longrightarrow>
     case registered_operation_from_config (wd_sha (g_exec g)) (wd_fs (g_exec g)) cfg name action allowed_root of
       Inl _ \<Rightarrow> False | Inr op \<Rightarrow> argv = Some (path_str (to_executable op) # action # map path_str (to_roots op))"
  by (auto simp: helper_argv_def split: sum.splits)

text \<open>An unsandboxed plan is a trusted operation, has system authority, or is a coordinator call.\<close>

lemma open_plan_reason:
  assumes "resolve_write_plan wd v cfg = Inr pl" "v_trusted v = None" "pl_effective pl \<noteq> EffSystem" "\<not> pl_coordinator pl"
  shows "\<exists>base roots. cfg_path wd cfg ''allowed_root'' = Inr base \<and> pl_write_roots pl = Some roots
    \<and> list_all (\<lambda>r. path_under (wd_fs wd) r base) roots \<and> \<not> pl_network pl \<and> pl_deny_home pl"
  using assms git_roots_under
  by (cases "v_scope v") (auto simp: resolve_write_plan_def bindE_eq_Inr scoped_plan_def system_plan_def Let_def open_plan_def
      sandboxed_plan_def split: option.splits if_splits)

lemma decide_Start:
  assumes "decide g cfg allowed_root v = Start pl c argv"
  shows "prohibited_command_reason (v_command v) = None"
    and "v_trusted v = None \<Longrightarrow> high_impact_command_category (v_command v) \<noteq> Some ''remote_shell_or_copy''"
    and "resolve_write_plan (g_plan g) v cfg = Inr pl" and "pl_effective pl \<noteq> EffSystem"
    and "approval_in_place g cfg v pl c"
    and "helper_argv g cfg allowed_root (v_trusted v) = Inr argv"
    and "case v_trusted v of None \<Rightarrow> True
         | Some t \<Rightarrow> fst t \<noteq> ssh_operation \<or> pinned_ssh_material_unchanged (g_review g) (v_trusted v) cfg pl"
  using assms by (auto simp: decide_def dest!: confirm_and_start_Start split: option.splits if_splits sum.splits)

lemma start_contained:
  assumes "decide g cfg allowed_root v = Start pl c argv" "cfg_path (g_plan g) cfg ''allowed_root'' = Inr base"
  shows "contained g cfg base allowed_root v pl argv"
proof (cases "v_trusted v")
  case None
  with decide_Start(6) [OF assms(1)] have "argv = None" by (simp add: helper_argv_def)
  moreover have "pl_coordinator pl \<or> (\<exists>roots. pl_write_roots pl = Some roots
      \<and> list_all (\<lambda>r. path_under (wd_fs (g_plan g)) r base) roots \<and> \<not> pl_network pl \<and> pl_deny_home pl)"
    using open_plan_reason [OF decide_Start(3) [OF assms(1)] None decide_Start(4) [OF assms(1)]] assms(2) by auto
  ultimately show ?thesis by (auto simp: contained_def None)
next
  case (Some t)
  obtain name action where t: "t = (name, action)" by (cases t)
  from decide_Start(6,7) [OF assms(1)] helper_argv_Inr [of g cfg allowed_root name action argv] Some t
  show ?thesis by (simp add: contained_def)
qed



end
