(* ===== verification/Journal.thy ===== *)
theory Journal
  imports Admission Machines
begin

text \<open>
  The journal of one request (\<open>shell_bridge/bridge.py\<close>: \<open>result_envelope\<close>, \<open>_write_upload_delete\<close>,
  \<open>_persist_then_publish\<close>, \<open>_publish_stored\<close>, the recovery of a recorded process group,
  \<open>_process_claimed_request\<close>). A handler is translated into the list of its durable effects, computed
  from what it reads at its start; an effect that raises ends the list, as does a crash. The claim on
  the request keeps its folder unchanged by others in between.
\<close>

record marker =
  mk_request :: str
  mk_pgid :: int
  mk_spawned :: real

record entry =
  en_request :: "str option"
  en_started :: "str option"
  en_finished :: "(str \<times> str) option"
  en_result :: "json option"
  en_active :: "marker option"

definition empty_entry :: entry where
  "empty_entry = \<lparr>en_request = None, en_started = None, en_finished = None, en_result = None, en_active = None\<rparr>"

datatype effect =
    SaveRequest str
  | SaveResult json
  | SaveFinished str str
  | SaveSide str json
  | CreateStarted str
  | SaveActive marker
  | DropActive
  | Terminate int
  | Exec valid_request plan "confirmation option" spawn
  | Upload json
  | Remove

text \<open>What a handler sees beside the journal and the request.\<close>

record turn =
  t_gate :: gate
  t_load :: "str \<Rightarrow> str + json"
  t_time :: str
  t_boot :: "real option"
  t_alive :: "int \<Rightarrow> bool"
  t_runtime :: runtime
  t_child :: child
  t_hook_error :: "str option"

subsection \<open>Results\<close>

definition result_envelope :: "str \<Rightarrow> str \<Rightarrow> str \<Rightarrow> str \<Rightarrow> (str \<times> json) list \<Rightarrow> json" where
  "result_envelope time rid request_sha status extra =
     JObj (filter (\<lambda>p. fst p \<notin> set (map fst extra))
             [(''protocol'', JInt 1), (''kind'', JStr ''result''), (''id'', JStr rid), (''status'', JStr status),
              (''request_sha256'', JStr request_sha), (''processed_at'', JStr time)] @ extra)"

definition persist_then_publish :: "str \<Rightarrow> str \<Rightarrow> json \<Rightarrow> effect list" where
  "persist_then_publish status request_sha result =
     [SaveResult result, SaveFinished status request_sha, Upload result, Remove]"

definition write_upload_delete :: "str \<Rightarrow> json \<Rightarrow> effect list" where
  "write_upload_delete file result = [SaveSide file result, Upload result, Remove]"

definition publish_stored :: "json \<Rightarrow> effect list" where
  "publish_stored result = [Upload result, Remove]"

definition settle_request :: "turn \<Rightarrow> str \<Rightarrow> str \<Rightarrow> str \<Rightarrow> (str \<times> json) list \<Rightarrow> effect list" where
  "settle_request t rid request_sha status extra =
     persist_then_publish status request_sha (result_envelope (t_time t) rid request_sha status extra)"

subsection \<open>Containment of a recorded process group\<close>

definition active_marker_matches :: "marker \<Rightarrow> str \<Rightarrow> int option" where
  "active_marker_matches m rid = (if mk_request m \<noteq> rid \<or> mk_pgid m \<le> 1 then None else Some (mk_pgid m))"

definition recorded_spawn_predates_boot :: "real option \<Rightarrow> marker \<Rightarrow> bool" where
  "recorded_spawn_predates_boot boot m = (case boot of None \<Rightarrow> False | Some b \<Rightarrow> mk_spawned m < b)"

definition contain_recorded_active :: "turn \<Rightarrow> marker option \<Rightarrow> str \<Rightarrow> effect list" where
  "contain_recorded_active t active rid =
     (case active of
        None \<Rightarrow> []
      | Some m \<Rightarrow>
          (case active_marker_matches m rid of
             None \<Rightarrow> []
           | Some pgid \<Rightarrow>
               if recorded_spawn_predates_boot (t_boot t) m then []
               else if \<not> t_alive t pgid then []
               else [Terminate pgid]))"

subsection \<open>Execution\<close>

record limits =
  lm_timeout :: int
  lm_request :: int
  lm_command :: nat
  lm_stdin :: nat
  lm_output :: int

definition cfg_int :: "json \<Rightarrow> str \<Rightarrow> int \<Rightarrow> int option" where
  "cfg_int cfg key d = py_int (obj_get_default cfg key (JInt d))"

definition limits_of :: "json \<Rightarrow> limits option" where
  "limits_of cfg =
     (case (cfg_int cfg ''max_timeout_seconds'' 300, cfg_int cfg ''max_request_bytes'' (2 * 1024 * 1024),
            cfg_int cfg ''max_command_bytes'' (256 * 1024), cfg_int cfg ''max_stdin_bytes'' (1024 * 1024),
            cfg_int cfg ''max_output_bytes'' (16 * 1024 * 1024)) of
        (Some a, Some b, Some c, Some d, Some e) \<Rightarrow>
          Some \<lparr>lm_timeout = a, lm_request = b, lm_command = nat c, lm_stdin = nat d, lm_output = e\<rparr>
      | _ \<Rightarrow> None)"

definition config_path :: "json \<Rightarrow> str \<Rightarrow> path" where
  "config_path cfg key = (case obj_get cfg key of JStr s \<Rightarrow> parse_path s | _ \<Rightarrow> parse_path [])"

definition shell_of :: "host \<Rightarrow> json \<Rightarrow> path" where
  "shell_of h cfg = (case obj_get_default cfg ''shell'' (JStr (hs_default_shell h)) of JStr s \<Rightarrow> parse_path s | _ \<Rightarrow> parse_path [])"

definition call_of :: "turn \<Rightarrow> json \<Rightarrow> limits \<Rightarrow> valid_request \<Rightarrow> plan \<Rightarrow> str list option \<Rightarrow> shell_args" where
  "call_of t cfg lm v pl argv =
     \<lparr>sa_cwd = v_cwd v, sa_command = v_command v, sa_stdin = v_stdin v, sa_timeout = v_timeout v,
      sa_shell = shell_of (g_host (t_gate t)) cfg, sa_max_output = lm_output lm, sa_request_id = Some (v_id v),
      sa_instance = obj_get cfg ''bridge_instance_id'', sa_folder = obj_get cfg ''drive_root_folder_id'',
      sa_state_dir = obj_get cfg ''state_dir'', sa_write_roots = pl_write_roots pl, sa_network = pl_network pl,
      sa_read_roots = pl_read_roots pl, sa_deny_home = pl_deny_home pl, sa_argv = argv\<rparr>"

fun exn_text :: "pyerr \<Rightarrow> str" where
  "exn_text (ValueErr m) = ''ValueError: '' @ m"
| "exn_text (OtherErr m) = m"

definition run_outcome :: "turn \<Rightarrow> spawn option \<Rightarrow> pyerr + run_result \<Rightarrow> pyerr + run_result" where
  "run_outcome t spawned outcome =
     (case (spawned, t_hook_error t) of (Some spw, Some m) \<Rightarrow> Inl (OtherErr m) | _ \<Rightarrow> outcome)"

definition execution_result ::
  "turn \<Rightarrow> str \<Rightarrow> valid_request \<Rightarrow> plan \<Rightarrow> confirmation option \<Rightarrow> pyerr + run_result \<Rightarrow> effect list" where
  "execution_result t request_sha v pl c outcome =
     (case outcome of
        Inl e \<Rightarrow> settle_request t (v_id v) request_sha ''indeterminate''
                   [message_pair (''execution raised after STARTED: '' @ exn_text e), (''write_scope'', public_write_plan pl)]
      | Inr r \<Rightarrow>
          (let pairs = run_pairs (wd_sha (g_exec (t_gate t))) (t_runtime t) r in
           if rr_aborted r \<or> rr_incomplete r
           then settle_request t (v_id v) request_sha ''indeterminate''
                  ([cwd_pair v,
                    message_pair (if rr_aborted r then ''daemon shutdown aborted a STARTED request; request was not replayed''
                                  else ''stdout/stderr/stdin drain incomplete after child exit; effect is indeterminate'')] @ pairs)
           else settle_request t (v_id v) request_sha ''completed''
                  ([cwd_pair v, (''write_scope'', public_write_plan pl)]
                   @ (case c of None \<Rightarrow> [] | Some cf \<Rightarrow> [(''operator_confirmation'', confirmation_json cf)]) @ pairs)))"

definition execute_request ::
  "turn \<Rightarrow> json \<Rightarrow> limits \<Rightarrow> str \<Rightarrow> valid_request \<Rightarrow> plan \<Rightarrow> confirmation option \<Rightarrow> str list option \<Rightarrow> effect list" where
  "execute_request t cfg lm request_sha v pl c argv =
     (case run_shell (wd_fs (g_exec (t_gate t))) (g_host (t_gate t)) (t_runtime t) (call_of t cfg lm v pl argv) (t_child t) of
        (spawned, outcome) \<Rightarrow>
          CreateStarted request_sha
          # (case spawned of
               None \<Rightarrow> []
             | Some spw \<Rightarrow>
                 Exec v pl c spw
                 # (case t_hook_error t of
                      None \<Rightarrow> [SaveActive \<lparr>mk_request = v_id v, mk_pgid = ch_pid (t_child t), mk_spawned = ch_started (t_child t)\<rparr>]
                    | Some _ \<Rightarrow> []))
          @ DropActive # execution_result t request_sha v pl c (run_outcome t spawned outcome))"

subsection \<open>The handler\<close>

definition load_object :: "turn \<Rightarrow> str \<Rightarrow> str + json" where
  "load_object t raw =
     (case t_load t raw of
        Inl m \<Rightarrow> Inl m
      | Inr j \<Rightarrow> if is_JObj j then Inr j else Inl ''request must be a JSON object'')"

definition validated :: "turn \<Rightarrow> json \<Rightarrow> limits \<Rightarrow> str \<Rightarrow> str \<Rightarrow> str + valid_request" where
  "validated t cfg lm name raw =
     (case load_object t raw of
        Inl m \<Rightarrow> Inl m
      | Inr req \<Rightarrow>
          (case validate_request (wd_fs (g_plan (t_gate t))) req name (config_path cfg ''allowed_root'')
                  (lm_timeout lm) (lm_command lm) (lm_stdin lm) of
             Inl e \<Rightarrow> Inl (err_text e)
           | Inr v \<Rightarrow> Inr v))"

definition admit_and_run :: "turn \<Rightarrow> json \<Rightarrow> limits \<Rightarrow> str \<Rightarrow> str \<Rightarrow> str \<Rightarrow> effect list" where
  "admit_and_run t cfg lm rid name raw =
     (let request_sha = wd_sha (g_exec (t_gate t)) raw in
      case validated t cfg lm name raw of
        Inl m \<Rightarrow> settle_request t rid request_sha ''rejected'' [message_pair m]
      | Inr v \<Rightarrow>
          (case decide (t_gate t) cfg (config_path cfg ''allowed_root'') v of
             Reject extra \<Rightarrow> settle_request t (v_id v) request_sha ''rejected'' extra
           | Raised \<Rightarrow> []
           | Start pl c argv \<Rightarrow> execute_request t cfg lm request_sha v pl c argv))"

definition prior_sha :: "(str \<Rightarrow> str) \<Rightarrow> entry \<Rightarrow> str option" where
  "prior_sha sha en = (case en_started en of Some s \<Rightarrow> Some s | None \<Rightarrow> map_option sha (en_request en))"

definition process_claimed :: "turn \<Rightarrow> json \<Rightarrow> str \<Rightarrow> str \<Rightarrow> str \<Rightarrow> entry \<Rightarrow> effect list" where
  "process_claimed t cfg rid name raw en =
     (let sha = wd_sha (g_exec (t_gate t)); request_sha = sha raw in
      case limits_of cfg of
        None \<Rightarrow> []
      | Some lm \<Rightarrow>
          (if lm_request lm < int (length raw)
           then write_upload_delete ''oversize-result.json''
                  (result_envelope (t_time t) rid request_sha ''rejected'' [message_pair ''request is too large''])
           else if (case prior_sha sha en of None \<Rightarrow> False | Some p \<Rightarrow> p \<noteq> request_sha)
           then write_upload_delete ''conflict-result.json''
                  (result_envelope (t_time t) rid request_sha ''rejected''
                     [message_pair ''request id was reused with different bytes'',
                      (''prior_request_sha256'', JStr (the (prior_sha sha en)))])
           else (case (en_finished en, en_result en) of
                   (Some _, Some result) \<Rightarrow> publish_stored result
                 | (finished, _) \<Rightarrow>
                     (if en_started en \<noteq> None \<and> finished = None
                      then contain_recorded_active t (en_active en) rid @ DropActive
                           # settle_request t rid request_sha ''indeterminate''
                               [message_pair ''daemon previously recorded STARTED without FINISHED; active process was contained if still present; request was not re-executed'']
                      else SaveRequest raw # admit_and_run t cfg lm rid name raw))))"

subsection \<open>The journals of all requests\<close>

record sys =
  sy_entry :: "str \<Rightarrow> entry"
  sy_todo :: "str \<Rightarrow> effect list option"
  sy_log :: "(str \<times> effect) list"

text \<open>\<open>sy_todo s rid\<close> is the rest of the handler that holds the claim on \<open>rid\<close>; the log is everything that took
  effect. A worker that finds the claim taken returns. A handler that raises, and a process that dies,
  give up their claims: the lock of a claim ends with its owner.\<close>

definition start_sys :: sys where
  "start_sys = \<lparr>sy_entry = (\<lambda>_. empty_entry), sy_todo = (\<lambda>_. None), sy_log = []\<rparr>"

fun apply_effect :: "effect \<Rightarrow> entry \<Rightarrow> entry" where
  "apply_effect (SaveRequest raw) en = en\<lparr>en_request := Some raw\<rparr>"
| "apply_effect (SaveResult r) en = en\<lparr>en_result := Some r\<rparr>"
| "apply_effect (SaveFinished st sha) en = en\<lparr>en_finished := Some (st, sha)\<rparr>"
| "apply_effect (CreateStarted sha) en = en\<lparr>en_started := Some sha\<rparr>"
| "apply_effect (SaveActive m) en = en\<lparr>en_active := Some m\<rparr>"
| "apply_effect DropActive en = en\<lparr>en_active := None\<rparr>"
| "apply_effect _ en = en"

text \<open>\<open>atomic_create\<close> refuses an existing marker, and the handler returns.\<close>

fun blocked :: "effect \<Rightarrow> entry \<Rightarrow> bool" where
  "blocked (CreateStarted _) en = (en_started en \<noteq> None)"
| "blocked _ en = False"

datatype act =
    Claim turn json str str
  | Perform str
  | Release str
  | Crash

definition perform :: "str \<Rightarrow> sys \<Rightarrow> sys" where
  "perform rid s =
     (case sy_todo s rid of
        Some (e # es) \<Rightarrow>
          if blocked e (sy_entry s rid) then s\<lparr>sy_todo := (sy_todo s)(rid \<mapsto> [])\<rparr>
          else s\<lparr>sy_entry := (sy_entry s)(rid := apply_effect e (sy_entry s rid)),
                 sy_todo := (sy_todo s)(rid \<mapsto> es), sy_log := sy_log s @ [(rid, e)]\<rparr>
      | _ \<Rightarrow> s)"

definition claim_request :: "turn \<Rightarrow> json \<Rightarrow> str \<Rightarrow> str \<Rightarrow> sys \<Rightarrow> sys" where
  "claim_request t cfg name raw s =
     (case validate_request_name name of
        Inl _ \<Rightarrow> s
      | Inr rid \<Rightarrow>
          (case sy_todo s rid of
             Some _ \<Rightarrow> s
           | None \<Rightarrow> s\<lparr>sy_todo := (sy_todo s)(rid \<mapsto> process_claimed t cfg rid name raw (sy_entry s rid))\<rparr>))"

fun act_step :: "act \<Rightarrow> sys \<Rightarrow> sys" where
  "act_step (Claim t cfg name raw) s = claim_request t cfg name raw s"
| "act_step (Perform rid) s = perform rid s"
| "act_step (Release rid) s = s\<lparr>sy_todo := (sy_todo s)(rid := None)\<rparr>"
| "act_step Crash s = s\<lparr>sy_todo := (\<lambda>_. None)\<rparr>"

definition run_acts :: "act list \<Rightarrow> sys" where
  "run_acts as = fold act_step as start_sys"

subsection \<open>The shape of a handler\<close>

fun is_exec :: "effect \<Rightarrow> bool" where
  "is_exec (Exec _ _ _ _) = True"
| "is_exec _ = False"

definition quiet :: "effect list \<Rightarrow> bool" where
  "quiet es = list_all (\<lambda>e. \<not> is_exec e) es"

text \<open>Every execution comes directly after the creation of its STARTED marker, and only one comes.\<close>

fun guarded :: "effect list \<Rightarrow> bool" where
  "guarded [] = True"
| "guarded (CreateStarted _ # Exec _ _ _ _ # es) = quiet es"
| "guarded (e # es) = (\<not> is_exec e \<and> guarded es)"

lemma quiet_simps [simp]: "quiet []" "quiet (e # es) = (\<not> is_exec e \<and> quiet es)" "quiet (es @ fs) = (quiet es \<and> quiet fs)"
  by (auto simp: quiet_def)

lemma guarded_quiet: "quiet es \<Longrightarrow> guarded es"
  by (induction es rule: guarded.induct) auto

lemmas publish_defs = settle_request_def persist_then_publish_def write_upload_delete_def publish_stored_def

lemma quiet_publish [simp]:
  "quiet (settle_request t rid sha st x)" "quiet (write_upload_delete f r)" "quiet (publish_stored r)"
  by (simp_all add: publish_defs)

lemma quiet_contain [simp]: "quiet (contain_recorded_active t m rid)"
  by (auto simp: contain_recorded_active_def split: option.split)

lemma quiet_execution_result [simp]: "quiet (execution_result t sha v pl c out)"
  by (simp add: execution_result_def Let_def split: sum.split)

lemma guarded_execute: "guarded (execute_request t cfg lm sha v pl c argv)"
  by (auto simp: execute_request_def intro!: guarded_quiet split: prod.split option.split)

lemma guarded_admit: "guarded (admit_and_run t cfg lm rid name raw)"
  by (auto simp: admit_and_run_def Let_def guarded_quiet guarded_execute split: sum.split verdict.split)

lemma guarded_process: "guarded (process_claimed t cfg rid name raw en)"
  by (auto simp: process_claimed_def Let_def guarded_quiet guarded_admit split: option.split prod.split)

end
