(* ===== verification/JournalSafety.thy ===== *)
theory JournalSafety
  imports Journal
begin

text \<open>
  What the journal guarantees, for every interleaving of handlers on different requests, every
  redelivery with whatever bytes, and a stop of a handler or of the whole process at any point: at most
  one execution per request, only of sanctioned requests, terminal evidence that never changes, and
  publication in the right order.
\<close>

subsection \<open>One execution\<close>

definition exec_count :: "str \<Rightarrow> sys \<Rightarrow> nat" where
  "exec_count rid s = length (filter (\<lambda>p. fst p = rid \<and> is_exec (snd p)) (sy_log s))"

definition at_exec :: "effect list \<Rightarrow> bool" where
  "at_exec es = (case es of [] \<Rightarrow> False | e # es' \<Rightarrow> is_exec e \<and> quiet es')"

definition inv_exec :: "nat \<Rightarrow> entry \<Rightarrow> effect list option \<Rightarrow> bool" where
  "inv_exec n en todo =
     (n \<le> 1 \<and> (en_started en = None \<longrightarrow> n = 0)
      \<and> (case todo of None \<Rightarrow> True | Some es \<Rightarrow> guarded es \<or> (at_exec es \<and> n = 0 \<and> en_started en \<noteq> None)))"

lemma guarded_tail: "guarded (e # es) \<Longrightarrow> \<not> is_exec e \<and> (guarded es \<or> ((\<exists>sha. e = CreateStarted sha) \<and> at_exec es))"
  by (cases "e # es" rule: guarded.cases) (auto simp: at_exec_def)

lemma started_keeps: "\<forall>sha. e \<noteq> CreateStarted sha \<Longrightarrow> en_started (apply_effect e en) = en_started en"
  by (cases e) auto

lemma inv_exec_perform:
  assumes "inv_exec n en (Some (e # es))" "\<not> blocked e en"
  shows "inv_exec (n + (if is_exec e then 1 else 0)) (apply_effect e en) (Some es)"
proof -
  consider "guarded (e # es)" | "at_exec (e # es)" "n = 0" "en_started en \<noteq> None" using assms(1) by (auto simp: inv_exec_def)
  then show ?thesis
  proof cases
    case 1
    from guarded_tail [OF this] assms show ?thesis
      by (cases "\<exists>sha. e = CreateStarted sha") (auto simp: inv_exec_def started_keeps)
  next
    case 2
    with assms show ?thesis by (cases e) (auto simp: inv_exec_def at_exec_def guarded_quiet)
  qed
qed

subsection \<open>Terminal evidence\<close>

fun settles :: "effect \<Rightarrow> bool" where
  "settles (SaveResult _) = True"
| "settles (SaveFinished _ _) = True"
| "settles _ = False"

definition unsettling :: "effect list \<Rightarrow> bool" where
  "unsettling es = list_all (\<lambda>e. \<not> settles e) es"

text \<open>The result and its FINISHED marker are written once, in this order, directly after each other.\<close>

fun closing :: "effect list \<Rightarrow> bool" where
  "closing [] = True"
| "closing (SaveResult _ # SaveFinished _ _ # es) = unsettling es"
| "closing (e # es) = (\<not> settles e \<and> closing es)"

definition at_finish :: "effect list \<Rightarrow> bool" where
  "at_finish es = (case es of SaveFinished _ _ # es' \<Rightarrow> unsettling es' | _ \<Rightarrow> False)"

lemma unsettling_simps [simp]: "unsettling []" "unsettling (e # es) = (\<not> settles e \<and> unsettling es)"
    "unsettling (es @ fs) = (unsettling es \<and> unsettling fs)"
  by (auto simp: unsettling_def)

lemma closing_unsettling: "unsettling es \<Longrightarrow> closing es"
  by (induction es rule: closing.induct) auto

lemma closing_Cons: "\<not> settles e \<Longrightarrow> closing es \<Longrightarrow> closing (e # es)"
  by (cases e) auto

lemma closing_append: "unsettling es \<Longrightarrow> closing fs \<Longrightarrow> closing (es @ fs)"
  by (induction es) (auto intro: closing_Cons)

lemma closing_publish [simp]: "closing (settle_request t rid sha st x)" "unsettling (write_upload_delete f r)" "unsettling (publish_stored r)"
  by (simp_all add: publish_defs)

lemma unsettling_contain [simp]: "unsettling (contain_recorded_active t m rid)"
  by (auto simp: contain_recorded_active_def split: option.split)

lemma closing_result [simp]: "closing (execution_result t sha v pl c out)"
  by (simp add: execution_result_def Let_def split: sum.split)

lemma closing_execute: "closing (execute_request t cfg lm sha v pl c argv)"
  by (auto simp: execute_request_def intro!: closing_Cons split: prod.split option.split)

lemma closing_admit: "closing (admit_and_run t cfg lm rid name raw)"
  by (auto simp: admit_and_run_def Let_def closing_execute split: sum.split verdict.split)

lemma closing_process: "closing (process_claimed t cfg rid name raw en)"
  by (auto simp: process_claimed_def Let_def closing_admit closing_unsettling intro!: closing_append closing_Cons
      split: option.split prod.split)

lemma process_finished:
  assumes "en_finished en \<noteq> None" "en_result en \<noteq> None"
  shows "unsettling (process_claimed t cfg rid name raw en)"
  using assms by (auto simp: process_claimed_def Let_def split: option.split prod.split)

definition inv_final :: "entry \<Rightarrow> effect list option \<Rightarrow> bool" where
  "inv_final en todo =
     ((en_finished en \<noteq> None \<longrightarrow> en_result en \<noteq> None)
      \<and> (case todo of
           None \<Rightarrow> True
         | Some es \<Rightarrow> if en_finished en \<noteq> None then unsettling es
                      else closing es \<or> (at_finish es \<and> en_result en \<noteq> None)))"

lemma closing_tail:
  "closing (e # es) \<Longrightarrow> (\<not> settles e \<and> closing es) \<or> ((\<exists>r. e = SaveResult r) \<and> at_finish es)"
  by (cases "e # es" rule: closing.cases) (auto simp: at_finish_def)

lemma final_keeps: "\<not> settles e \<Longrightarrow> en_finished (apply_effect e en) = en_finished en \<and> en_result (apply_effect e en) = en_result en"
  by (cases e) auto

lemma inv_final_perform:
  assumes "inv_final en (Some (e # es))"
  shows "inv_final (apply_effect e en) (Some es)"
proof (cases "en_finished en")
  case (Some f)
  with assms final_keeps [of e en] show ?thesis by (auto simp: inv_final_def)
next
  case None
  with assms consider "closing (e # es)" | "at_finish (e # es)" "en_result en \<noteq> None"
    by (auto simp: inv_final_def)
  then show ?thesis
  proof cases
    case 1
    from closing_tail [OF this] None final_keeps [of e en] show ?thesis by (auto simp: inv_final_def)
  next
    case 2
    with None show ?thesis by (cases e) (auto simp: inv_final_def at_finish_def)
  qed
qed

subsection \<open>All requests together\<close>

definition inv_one :: "nat \<Rightarrow> entry \<Rightarrow> effect list option \<Rightarrow> bool" where
  "inv_one n en todo = (inv_exec n en todo \<and> inv_final en todo)"

definition inv_sys :: "sys \<Rightarrow> bool" where
  "inv_sys s = (\<forall>rid. inv_one (exec_count rid s) (sy_entry s rid) (sy_todo s rid))"

definition sys_le :: "sys \<Rightarrow> sys \<Rightarrow> bool" where
  "sys_le s s' =
     (prefix (sy_log s) (sy_log s')
      \<and> (\<forall>rid. (en_started (sy_entry s rid) \<noteq> None \<longrightarrow> en_started (sy_entry s' rid) = en_started (sy_entry s rid))
          \<and> (en_finished (sy_entry s rid) \<noteq> None \<longrightarrow> en_finished (sy_entry s' rid) = en_finished (sy_entry s rid)
              \<and> en_result (sy_entry s' rid) = en_result (sy_entry s rid))))"

lemma inv_one_idle: "inv_one n en todo \<Longrightarrow> inv_one n en None \<and> inv_one n en (Some [])"
  by (auto simp: inv_one_def inv_exec_def inv_final_def)

lemma inv_one_perform:
  "inv_one n en (Some (e # es)) \<Longrightarrow> \<not> blocked e en \<Longrightarrow>
     inv_one (n + (if is_exec e then 1 else 0)) (apply_effect e en) (Some es)"
  unfolding inv_one_def using inv_exec_perform [of n en e es] inv_final_perform [of en e es] by simp

lemma inv_one_claim: "inv_one n en None \<Longrightarrow> inv_one n en (Some (process_claimed t cfg rid name raw en))"
  using guarded_process [of t cfg rid name raw en] closing_process [of t cfg rid name raw en]
    process_finished [of en t cfg rid name raw]
  by (auto simp: inv_one_def inv_exec_def inv_final_def)

lemma perform_cases:
  obtains "perform rid s = s"
  | e es where "sy_todo s rid = Some (e # es)" "blocked e (sy_entry s rid)" "perform rid s = s\<lparr>sy_todo := (sy_todo s)(rid \<mapsto> [])\<rparr>"
  | e es where "sy_todo s rid = Some (e # es)" "\<not> blocked e (sy_entry s rid)"
      "perform rid s = s\<lparr>sy_entry := (sy_entry s)(rid := apply_effect e (sy_entry s rid)),
         sy_todo := (sy_todo s)(rid \<mapsto> es), sy_log := sy_log s @ [(rid, e)]\<rparr>"
  by (cases "sy_todo s rid"; cases "the (sy_todo s rid)") (auto simp: perform_def)

lemma exec_count_snoc:
  "exec_count r (s\<lparr>sy_entry := f, sy_todo := g, sy_log := sy_log s @ [(rid, e)]\<rparr>)
     = exec_count r s + (if r = rid \<and> is_exec e then 1 else 0)"
  by (simp add: exec_count_def)

lemma exec_count_todo [simp]: "exec_count r (s\<lparr>sy_todo := g\<rparr>) = exec_count r s"
  by (simp add: exec_count_def)

lemma inv_give_up: "inv_sys s \<Longrightarrow> (\<And>r. g r = None \<or> g r = Some [] \<or> g r = sy_todo s r) \<Longrightarrow> inv_sys (s\<lparr>sy_todo := g\<rparr>)"
  unfolding inv_sys_def using inv_one_idle by (metis exec_count_todo sys.select_convs(1,2) sys.surjective sys.update_convs(2))

lemma inv_perform:
  assumes "inv_sys s"
  shows "inv_sys (perform rid s)"
proof (cases rule: perform_cases [of rid s])
  case 1
  then show ?thesis using assms by simp
next
  case (2 e es)
  then show ?thesis using inv_give_up [OF assms, of "(sy_todo s)(rid \<mapsto> [])"] by simp
next
  case (3 e es)
  have "inv_one (exec_count r (perform rid s)) (sy_entry (perform rid s) r) (sy_todo (perform rid s) r)" for r
  proof (cases "r = rid")
    case True
    from assms 3(1) have "inv_one (exec_count rid s) (sy_entry s rid) (Some (e # es))" unfolding inv_sys_def by metis
    from inv_one_perform [OF this 3(2)] True show ?thesis by (simp add: 3(3) exec_count_snoc)
  next
    case False
    with assms show ?thesis by (simp add: 3(3) exec_count_snoc inv_sys_def)
  qed
  then show ?thesis by (simp add: inv_sys_def)
qed

lemma inv_claim:
  assumes "inv_sys s"
  shows "inv_sys (claim_request t cfg name raw s)"
proof -
  have "inv_sys (s\<lparr>sy_todo := (sy_todo s)(rid \<mapsto> process_claimed t cfg rid name raw (sy_entry s rid))\<rparr>)" if "sy_todo s rid = None" for rid
    using assms inv_one_claim that unfolding inv_sys_def by (simp add: fun_upd_def) metis
  with assms show ?thesis by (simp add: claim_request_def split: sum.split option.split)
qed

lemma inv_act: "inv_sys s \<Longrightarrow> inv_sys (act_step a s)"
  by (cases a) (auto simp: inv_perform inv_claim intro!: inv_give_up split: if_splits)

lemma sys_le_refl: "sys_le s s"
  by (simp add: sys_le_def)

lemma sys_le_trans: "sys_le s t \<Longrightarrow> sys_le t u \<Longrightarrow> sys_le s u"
  unfolding sys_le_def by (metis prefix_order.trans)

lemma sys_le_act:
  assumes "inv_sys s"
  shows "sys_le s (act_step a s)"
proof (cases a)
  case (Perform rid)
  show ?thesis
  proof (cases rule: perform_cases [of rid s])
    case (3 e es)
    have "inv_final (sy_entry s rid) (sy_todo s rid)" using assms by (simp add: inv_sys_def inv_one_def)
    with 3 final_keeps [of e "sy_entry s rid"]
    have "en_finished (sy_entry s rid) \<noteq> None \<longrightarrow> en_finished (apply_effect e (sy_entry s rid)) = en_finished (sy_entry s rid)
        \<and> en_result (apply_effect e (sy_entry s rid)) = en_result (sy_entry s rid)"
      by (auto simp: inv_final_def)
    moreover from 3 have "en_started (sy_entry s rid) \<noteq> None \<longrightarrow> en_started (apply_effect e (sy_entry s rid)) = en_started (sy_entry s rid)"
      by (cases e) auto
    ultimately show ?thesis using 3 by (simp add: Perform sys_le_def)
  qed (simp_all add: Perform sys_le_def)
next
  case (Claim t cfg name raw)
  then show ?thesis by (simp add: claim_request_def sys_le_def split: sum.split option.split)
qed (simp_all add: sys_le_def)

interpretation journal: ordered_machine act_step inv_sys sys_le
  by unfold_locales (auto intro: inv_act sys_le_refl sys_le_trans sys_le_act)

lemma inv_start: "inv_sys start_sys"
  by (simp add: inv_sys_def inv_one_def inv_exec_def inv_final_def start_sys_def exec_count_def empty_entry_def)

lemma inv_run: "inv_sys (run_acts as)"
  unfolding run_acts_def by (rule journal.run_inv [OF inv_start])

lemma run_later: "sys_le (run_acts as) (run_acts (as @ bs))"
  using journal.run_le [OF inv_run [of as], of bs] by (simp add: run_acts_def)

text \<open>C2: A request identifier is executed at most once, whatever is delivered under it and whenever
  handlers and processes stop, even between the creation of the STARTED marker and the result.\<close>

theorem request_runs_at_most_once: "exec_count rid (run_acts as) \<le> 1"
  using inv_run [of as] by (simp add: inv_sys_def inv_one_def inv_exec_def)

text \<open>Terminal evidence is immutable: once a request has its FINISHED marker it has a result, and no later
  delivery, recovery or crash changes the marker, the result or the STARTED marker.\<close>

theorem terminal_evidence_immutable:
  "case en_finished (sy_entry (run_acts as) rid) of
     None \<Rightarrow> True
   | Some f \<Rightarrow>
       en_result (sy_entry (run_acts as) rid) \<noteq> None
       \<and> en_finished (sy_entry (run_acts (as @ bs)) rid) = Some f
       \<and> en_result (sy_entry (run_acts (as @ bs)) rid) = en_result (sy_entry (run_acts as) rid)"
  using inv_run [of as] run_later [of as bs]
  by (auto simp: inv_sys_def inv_one_def inv_final_def sys_le_def split: option.split)

end
