(* ===== verification/JournalGuarantees.thy ===== *)
theory JournalGuarantees
  imports JournalSafety
begin

text \<open>
  Further guarantees of the journal: every execution was sanctioned, results are recorded before they
  are published and requests are removed only after that, and an undisturbed delivery settles its
  request.
\<close>

subsection \<open>Facts about every effect\<close>

text \<open>A fact that every handler establishes for each of its effects holds of the whole log.\<close>

definition effects_ok :: "(str \<Rightarrow> effect \<Rightarrow> bool) \<Rightarrow> sys \<Rightarrow> bool" where
  "effects_ok ok s =
     (list_all (\<lambda>p. ok (fst p) (snd p)) (sy_log s) \<and> (\<forall>rid es. sy_todo s rid = Some es \<longrightarrow> list_all (ok rid) es))"

lemma effects_ok_perform: "effects_ok ok s \<Longrightarrow> effects_ok ok (perform rid s)"
  by (cases rule: perform_cases [of rid s]) (fastforce simp: effects_ok_def)+

lemma effects_ok_act:
  assumes "\<And>t cfg rid name raw en. validate_request_name name = Inr rid \<Longrightarrow> list_all (ok rid) (process_claimed t cfg rid name raw en)"
    and "effects_ok ok s"
  shows "effects_ok ok (act_step a s)"
proof (cases a)
  case (Claim t cfg name raw)
  with assms show ?thesis by (auto simp: claim_request_def effects_ok_def split: sum.split option.split)
next
  case (Perform rid)
  with assms(2) effects_ok_perform show ?thesis by simp
qed (use assms(2) in \<open>auto simp: effects_ok_def\<close>)

lemma effects_ok_run:
  assumes "\<And>t cfg rid name raw en. validate_request_name name = Inr rid \<Longrightarrow> list_all (ok rid) (process_claimed t cfg rid name raw en)"
  shows "effects_ok ok (run_acts as)"
proof -
  have "effects_ok ok s \<Longrightarrow> effects_ok ok (fold act_step as s)" for s
    using effects_ok_act [OF assms] by (induction as arbitrary: s) auto
  moreover have "effects_ok ok start_sys" by (simp add: effects_ok_def start_sys_def)
  ultimately show ?thesis by (simp add: run_acts_def)
qed

subsection \<open>Every execution was sanctioned\<close>

lemma validate_request_id: "validate_request w req name base m c s = Inr v \<Longrightarrow> validate_request_name name = Inr (v_id v)"
  by (auto simp: validate_request_def bindE_eq_Inr Let_def)

lemma validated_id: "validated t cfg lm name raw = Inr v \<Longrightarrow> validate_request_name name = Inr (v_id v)"
  by (auto simp: validated_def dest: validate_request_id split: sum.splits)

lemma not_exec_quiet: "quiet es \<Longrightarrow> Exec v pl c spw \<notin> set es"
  by (auto simp: quiet_def list_all_iff)

lemma execute_exec:
  "Exec v pl c spw \<in> set (execute_request t cfg lm sha v' pl' c' argv) \<Longrightarrow>
     v = v' \<and> pl = pl' \<and> c = c' \<and>
     fst (run_shell (wd_fs (g_exec (t_gate t))) (g_host (t_gate t)) (t_runtime t) (call_of t cfg lm v pl argv) (t_child t)) = Some spw"
  by (cases "run_shell (wd_fs (g_exec (t_gate t))) (g_host (t_gate t)) (t_runtime t) (call_of t cfg lm v' pl' argv) (t_child t)")
     (auto simp: execute_request_def not_exec_quiet split: option.splits)

lemma admit_exec:
  assumes "Exec v pl c spw \<in> set (admit_and_run t cfg lm rid name raw)"
  shows "\<exists>argv. validated t cfg lm name raw = Inr v
     \<and> decide (t_gate t) cfg (config_path cfg ''allowed_root'') v = Start pl c argv
     \<and> fst (run_shell (wd_fs (g_exec (t_gate t))) (g_host (t_gate t)) (t_runtime t) (call_of t cfg lm v pl argv) (t_child t)) = Some spw"
  using assms not_exec_quiet
  by (auto simp: admit_and_run_def Let_def dest!: execute_exec split: sum.splits verdict.splits)

lemma process_exec:
  assumes "Exec v pl c spw \<in> set (process_claimed t cfg rid name raw en)"
  shows "\<exists>lm argv. limits_of cfg = Some lm \<and> validated t cfg lm name raw = Inr v
     \<and> decide (t_gate t) cfg (config_path cfg ''allowed_root'') v = Start pl c argv
     \<and> fst (run_shell (wd_fs (g_exec (t_gate t))) (g_host (t_gate t)) (t_runtime t) (call_of t cfg lm v pl argv) (t_child t)) = Some spw"
proof (cases "limits_of cfg")
  case (Some lm)
  with assms have "Exec v pl c spw \<in> set (admit_and_run t cfg lm rid name raw)"
    by (auto simp: process_claimed_def Let_def not_exec_quiet split: option.splits if_splits)
  from admit_exec [OF this] Some show ?thesis by blast
qed (use assms in \<open>simp add: process_claimed_def Let_def\<close>)

definition sanctioned :: "str \<Rightarrow> valid_request \<Rightarrow> plan \<Rightarrow> confirmation option \<Rightarrow> spawn \<Rightarrow> bool" where
  "sanctioned rid v pl c spw =
     (v_id v = rid \<and> prohibited_command_reason (v_command v) = None \<and> pl_effective pl \<noteq> EffSystem
      \<and> (case v_trusted v of
           Some _ \<Rightarrow> True
         | None \<Rightarrow> high_impact_command_category (v_command v) \<noteq> Some ''remote_shell_or_copy''
             \<and> (elevation_category v pl = None \<or> (case c of None \<Rightarrow> False | Some cf \<Rightarrow> cf_approved cf))
             \<and> (pl_coordinator pl
                \<or> (pl_write_roots pl \<noteq> None \<and> \<not> pl_network pl \<and> pl_deny_home pl \<and> hd (sp_argv spw) = path_str sandbox_exec))))"

lemma decide_sanctioned:
  assumes "decide g cfg ar v = Start pl c argv" "v_id v = rid"
    and "fst (run_shell w h rt (call_of t cfg lm v pl argv) ch) = Some spw"
  shows "sanctioned rid v pl c spw"
proof (cases "v_trusted v")
  case (Some tr)
  with decide_Start(1,4) [OF assms(1)] assms(2) show ?thesis by (simp add: sanctioned_def)
next
  case None
  from decide_Start(5) [OF assms(1)] None
  have approval: "elevation_category v pl = None \<or> (case c of None \<Rightarrow> False | Some cf \<Rightarrow> cf_approved cf)"
    by (auto simp: approval_in_place_def pinned_ssh_readonly_preapproved_def split: option.splits)
  have sandbox: "pl_write_roots pl \<noteq> None \<and> \<not> pl_network pl \<and> pl_deny_home pl \<and> hd (sp_argv spw) = path_str sandbox_exec"
    if "\<not> pl_coordinator pl"
  proof -
    from open_plan_reason [OF decide_Start(3) [OF assms(1)] None decide_Start(4) [OF assms(1)] that]
    obtain roots where roots: "pl_write_roots pl = Some roots" "\<not> pl_network pl" "pl_deny_home pl" by auto
    from assms(3) obtain x where "prepare_spawn w h rt (call_of t cfg lm v pl argv) x = Inr spw"
      by (auto simp: run_shell_def split: sum.splits option.splits)
    from prepare_spawn_Inr [OF this] roots show ?thesis by (auto simp: call_of_def)
  qed
  with None approval decide_Start(1,2,4) [OF assms(1)] assms(2) show ?thesis by (auto simp: sanctioned_def)
qed

definition effect_sanctioned :: "str \<Rightarrow> effect \<Rightarrow> bool" where
  "effect_sanctioned rid e = (case e of Exec v pl c spw \<Rightarrow> sanctioned rid v pl c spw | _ \<Rightarrow> True)"


subsection \<open>Publication\<close>

text \<open>The effects of one request in their order.\<close>

definition log_of :: "str \<Rightarrow> sys \<Rightarrow> effect list" where
  "log_of rid s = map snd (filter (\<lambda>p. fst p = rid) (sy_log s))"

fun is_upload :: "effect \<Rightarrow> bool" where
  "is_upload (Upload _) = True"
| "is_upload _ = False"

definition recorded :: "entry \<Rightarrow> effect list \<Rightarrow> json \<Rightarrow> bool" where
  "recorded en past r = ((en_finished en \<noteq> None \<and> en_result en = Some r) \<or> list_ex (\<lambda>e. case e of SaveSide f x \<Rightarrow> x = r | _ \<Rightarrow> False) past)"

text \<open>\<open>publishes en past es\<close>: running \<open>es\<close> in the state \<open>en\<close> after the effects \<open>past\<close> uploads only recorded
  results and removes the request only directly after an upload.\<close>

fun publishes :: "entry \<Rightarrow> effect list \<Rightarrow> effect list \<Rightarrow> bool" where
  "publishes en past [] = True"
| "publishes en past (e # es) =
     ((case e of Upload r \<Rightarrow> recorded en past r | Remove \<Rightarrow> past \<noteq> [] \<and> is_upload (last past) | _ \<Rightarrow> True)
      \<and> publishes (apply_effect e en) (past @ [e]) es)"

lemma publishes_append: "publishes en past (es @ fs) = (publishes en past es \<and> publishes (fold apply_effect es en) (past @ es) fs)"
  by (induction es arbitrary: en past) auto

lemma publishes_settle [simp]: "publishes en past (settle_request t rid sha st x)"
  by (simp add: publish_defs recorded_def)

lemma publishes_side [simp]: "publishes en past (write_upload_delete f r)"
  by (simp add: publish_defs recorded_def)

lemma publishes_stored: "en_finished en \<noteq> None \<Longrightarrow> en_result en = Some r \<Longrightarrow> publishes en past (publish_stored r)"
  by (simp add: publish_defs recorded_def)

lemma publishes_contain [simp]: "publishes en past (contain_recorded_active t m rid)"
  by (auto simp: contain_recorded_active_def split: option.split)

lemma publishes_result [simp]: "publishes en past (execution_result t sha v pl c out)"
  by (simp add: execution_result_def Let_def split: sum.split)

lemma publishes_execute: "publishes en past (execute_request t cfg lm sha v pl c argv)"
  by (simp add: execute_request_def publishes_append split: prod.split option.split)

lemma publishes_admit: "publishes en past (admit_and_run t cfg lm rid name raw)"
  by (simp add: admit_and_run_def Let_def publishes_execute split: sum.split verdict.split)

lemma publishes_process: "publishes en past (process_claimed t cfg rid name raw en)"
  by (auto simp: process_claimed_def Let_def publishes_admit publishes_append publishes_stored split: option.split prod.split)

fun removals_ok :: "bool \<Rightarrow> effect list \<Rightarrow> bool" where
  "removals_ok up [] = True"
| "removals_ok up (e # es) = ((case e of Remove \<Rightarrow> up | _ \<Rightarrow> True) \<and> removals_ok (is_upload e) es)"

lemma removals_ok_snoc:
  "removals_ok up (es @ [e]) = (removals_ok up es
     \<and> (case e of Remove \<Rightarrow> (if es = [] then up else is_upload (last es)) | _ \<Rightarrow> True))"
  by (induction es arbitrary: up) (auto split: effect.split)

definition inv_publish :: "sys \<Rightarrow> str \<Rightarrow> bool" where
  "inv_publish s rid =
     (publishes (sy_entry s rid) (log_of rid s) (case sy_todo s rid of None \<Rightarrow> [] | Some es \<Rightarrow> es)
      \<and> (\<forall>r. Upload r \<in> set (log_of rid s) \<longrightarrow> recorded (sy_entry s rid) (log_of rid s) r)
      \<and> removals_ok False (log_of rid s))"

lemma recorded_later:
  "recorded en past r \<Longrightarrow> (en_finished en \<noteq> None \<Longrightarrow> en_finished en' = en_finished en \<and> en_result en' = en_result en)
     \<Longrightarrow> recorded en' (past @ [e]) r"
  by (auto simp: recorded_def)

lemma log_of_snoc [simp]:
  "log_of r (s\<lparr>sy_entry := f, sy_todo := g, sy_log := sy_log s @ [(rid, e)]\<rparr>) = log_of r s @ (if r = rid then [e] else [])"
  by (simp add: log_of_def)

lemma log_of_todo [simp]: "log_of r (s\<lparr>sy_todo := g\<rparr>) = log_of r s"
  by (simp add: log_of_def)

lemma inv_publish_step:
  assumes "inv_publish s rid" "inv_sys s" "sy_todo s rid = Some (e # es)" "\<not> blocked e (sy_entry s rid)"
  shows "inv_publish (perform rid s) rid"
proof -
  have eq: "perform rid s = s\<lparr>sy_entry := (sy_entry s)(rid := apply_effect e (sy_entry s rid)),
      sy_todo := (sy_todo s)(rid \<mapsto> es), sy_log := sy_log s @ [(rid, e)]\<rparr>"
    using assms(3,4) by (simp add: perform_def)
  let ?en = "sy_entry s rid" and ?past = "log_of rid s"
  have pub: "case e of Upload r \<Rightarrow> recorded ?en ?past r | Remove \<Rightarrow> ?past \<noteq> [] \<and> is_upload (last ?past) | _ \<Rightarrow> True"
      "publishes (apply_effect e ?en) (?past @ [e]) es"
    using assms(1,3) by (simp_all add: inv_publish_def)
  have keep: "recorded (apply_effect e ?en) (?past @ [e]) r" if "recorded ?en ?past r" for r
  proof (rule recorded_later [OF that])
    assume "en_finished ?en \<noteq> None"
    moreover have "sys_le s (perform rid s)" using sys_le_act [OF assms(2), of "Perform rid"] by simp
    then have "en_finished ?en \<noteq> None \<longrightarrow> en_finished (sy_entry (perform rid s) rid) = en_finished ?en
        \<and> en_result (sy_entry (perform rid s) rid) = en_result ?en"
      unfolding sys_le_def by blast
    ultimately show "en_finished (apply_effect e ?en) = en_finished ?en \<and> en_result (apply_effect e ?en) = en_result ?en"
      by (simp add: eq)
  qed
  have "Upload r \<in> set (?past @ [e]) \<Longrightarrow> recorded (apply_effect e ?en) (?past @ [e]) r" for r
    using assms(1) keep pub(1) by (auto simp: inv_publish_def)
  moreover have "removals_ok False (?past @ [e])"
    using assms(1) pub(1) by (cases e) (auto simp: inv_publish_def removals_ok_snoc)
  ultimately show ?thesis using pub(2) by (simp add: inv_publish_def eq)
qed

lemma inv_publish_same:
  "inv_publish s r \<Longrightarrow> sy_entry s' r = sy_entry s r \<Longrightarrow> sy_todo s' r = sy_todo s r \<Longrightarrow> log_of r s' = log_of r s \<Longrightarrow> inv_publish s' r"
  by (simp add: inv_publish_def)

lemma inv_publish_todo: "inv_publish s r \<Longrightarrow> (case g r of None \<Rightarrow> True | Some es \<Rightarrow> publishes (sy_entry s r) (log_of r s) es)
    \<Longrightarrow> inv_publish (s\<lparr>sy_todo := g\<rparr>) r"
  by (auto simp: inv_publish_def split: option.splits)

lemma inv_publish_act:
  assumes "inv_sys s" "\<And>r. inv_publish s r"
  shows "inv_publish (act_step a s) r"
proof (cases a)
  case (Claim t cfg name raw)
  have "inv_publish (s\<lparr>sy_todo := (sy_todo s)(rid \<mapsto> process_claimed t cfg rid name raw (sy_entry s rid))\<rparr>) r" for rid
    by (rule inv_publish_todo [OF assms(2)]) (use assms(2) [of r] in \<open>auto simp: publishes_process inv_publish_def split: option.splits\<close>)
  with assms(2) show ?thesis by (simp add: Claim claim_request_def split: sum.split option.split)
next
  case (Perform rid)
  show ?thesis
  proof (cases rule: perform_cases [of rid s])
    case 1
    with assms(2) show ?thesis by (simp add: Perform)
  next
    case (2 e es)
    have "inv_publish (s\<lparr>sy_todo := (sy_todo s)(rid \<mapsto> [])\<rparr>) r"
      by (rule inv_publish_todo [OF assms(2)]) (use assms(2) [of r] in \<open>auto simp: inv_publish_def split: option.splits\<close>)
    with 2 show ?thesis by (simp add: Perform)
  next
    case (3 e es)
    show ?thesis
    proof (cases "r = rid")
      case True
      with inv_publish_step [OF assms(2) assms(1) 3(1,2)] show ?thesis by (simp add: Perform)
    next
      case False
      have "inv_publish (perform rid s) r" by (rule inv_publish_same [OF assms(2)]) (simp_all add: 3(3) False)
      then show ?thesis by (simp add: Perform)
    qed
  qed
next
  case (Release rid)
  have "inv_publish (s\<lparr>sy_todo := (sy_todo s)(rid := None)\<rparr>) r"
    by (rule inv_publish_todo [OF assms(2)]) (use assms(2) [of r] in \<open>auto simp: inv_publish_def split: option.splits\<close>)
  then show ?thesis by (simp add: Release)
next
  case Crash
  have "inv_publish (s\<lparr>sy_todo := (\<lambda>_. None)\<rparr>) r" by (rule inv_publish_todo [OF assms(2)]) simp
  then show ?thesis by (simp add: Crash)
qed

lemma inv_publish_run: "inv_publish (run_acts as) r"
proof (induction as arbitrary: r rule: rev_induct)
  case Nil
  show ?case by (simp add: run_acts_def start_sys_def inv_publish_def log_of_def)
next
  case (snoc a as)
  from inv_publish_act [OF inv_run snoc] show ?case by (simp add: run_acts_def)
qed


subsection \<open>Progress\<close>

definition handler_raises :: "turn \<Rightarrow> json \<Rightarrow> str \<Rightarrow> str \<Rightarrow> bool" where
  "handler_raises t cfg name raw =
     (case limits_of cfg of
        None \<Rightarrow> True
      | Some lm \<Rightarrow>
          (case validated t cfg lm name raw of
             Inl _ \<Rightarrow> False
           | Inr v \<Rightarrow> decide (t_gate t) cfg (config_path cfg ''allowed_root'') v = Raised))"

text \<open>No effect of the list is refused, given the STARTED marker at its start.\<close>

fun unblocked :: "bool \<Rightarrow> effect list \<Rightarrow> bool" where
  "unblocked started [] = True"
| "unblocked started (CreateStarted _ # es) = (\<not> started \<and> unblocked True es)"
| "unblocked started (_ # es) = unblocked started es"

fun starts :: "effect \<Rightarrow> bool" where
  "starts (CreateStarted _) = True"
| "starts _ = False"

lemma unblocked_quiet: "list_all (\<lambda>e. \<not> starts e) es \<Longrightarrow> unblocked b es"
  by (induction b es rule: unblocked.induct) auto

lemma unblocked_append: "list_all (\<lambda>e. \<not> starts e) es \<Longrightarrow> unblocked b fs \<Longrightarrow> unblocked b (es @ fs)"
  by (induction b es rule: unblocked.induct) auto

lemma no_start [simp]:
  "list_all (\<lambda>e. \<not> starts e) (settle_request t rid sha st x)" "list_all (\<lambda>e. \<not> starts e) (write_upload_delete f r)"
  "list_all (\<lambda>e. \<not> starts e) (publish_stored r)" "list_all (\<lambda>e. \<not> starts e) (contain_recorded_active t m rid)"
  "list_all (\<lambda>e. \<not> starts e) (execution_result t sha v pl c out)"
  by (auto simp: publish_defs contain_recorded_active_def execution_result_def Let_def split: option.split sum.split)

lemma unblocked_execute: "unblocked False (execute_request t cfg lm sha v pl c argv)"
  by (auto simp: execute_request_def intro!: unblocked_quiet split: prod.split option.split)

lemma unblocked_admit: "unblocked False (admit_and_run t cfg lm rid name raw)"
  by (auto simp: admit_and_run_def Let_def unblocked_execute unblocked_quiet split: sum.split verdict.split)

lemma unblocked_process:
  assumes "en_finished en \<noteq> None \<Longrightarrow> en_result en \<noteq> None"
  shows "unblocked (en_started en \<noteq> None) (process_claimed t cfg rid name raw en)"
  using assms
  by (auto simp: process_claimed_def Let_def unblocked_admit intro!: unblocked_quiet unblocked_append
      split: option.split prod.split)

lemma last_settle [simp]: "last (settle_request t rid sha st x) = Remove" "settle_request t rid sha st x \<noteq> []"
    "last (write_upload_delete f r) = Remove" "last (publish_stored r) = Remove"
  by (simp_all add: publish_defs)

lemma last_result [simp]: "last (execution_result t sha v pl c out) = Remove" "execution_result t sha v pl c out \<noteq> []"
  by (simp_all add: execution_result_def Let_def split: sum.split)

lemma last_execute: "last (execute_request t cfg lm sha v pl c argv) = Remove" "execute_request t cfg lm sha v pl c argv \<noteq> []"
  by (simp_all add: execute_request_def split: prod.split)

lemma last_process:
  assumes "\<not> handler_raises t cfg name raw"
  shows "last (process_claimed t cfg rid name raw en) = Remove"
proof (cases "limits_of cfg")
  case None
  with assms show ?thesis by (simp add: handler_raises_def)
next
  case (Some lm)
  with assms have "last (SaveRequest raw # admit_and_run t cfg lm rid name raw) = Remove"
    by (auto simp: handler_raises_def admit_and_run_def Let_def last_execute split: sum.split verdict.split)
  with Some show ?thesis by (auto simp: process_claimed_def Let_def split: option.split prod.split)
qed

lemma run_handler:
  "sy_todo s rid = Some es \<Longrightarrow> unblocked (en_started (sy_entry s rid) \<noteq> None) es \<Longrightarrow>
     sy_log (fold act_step (replicate (length es) (Perform rid)) s) = sy_log s @ map (Pair rid) es"
proof (induction es arbitrary: s)
  case (Cons e es)
  let ?s = "perform rid s"
  have b: "\<not> blocked e (sy_entry s rid)" using Cons.prems(2) by (cases e) auto
  then have s: "sy_todo ?s rid = Some es" "sy_log ?s = sy_log s @ [(rid, e)]" "sy_entry ?s rid = apply_effect e (sy_entry s rid)"
    using Cons.prems(1) by (simp_all add: perform_def)
  have "unblocked (en_started (sy_entry ?s rid) \<noteq> None) es" using Cons.prems(2) unfolding s(3) by (cases e) auto
  from Cons.IH [OF s(1) this] s(2) show ?case by simp
qed simp

text \<open>C36: A delivery that is left alone settles: after the claim and as many turns as the handler has effects,
  all of them took effect, and unless the handler raised before the start (configuration, operator
  dialogue) the last one removed the request from the mailbox. No reachable journal blocks it.\<close>

theorem undisturbed_delivery_settles:
  "case validate_request_name name of Inl _ \<Rightarrow> True | Inr rid \<Rightarrow>
     (case sy_todo (run_acts as) rid of Some _ \<Rightarrow> True | None \<Rightarrow>
        (let es = process_claimed t cfg rid name raw (sy_entry (run_acts as) rid) in
           sy_log (run_acts (as @ Claim t cfg name raw # replicate (length es) (Perform rid)))
             = sy_log (run_acts as) @ map (Pair rid) es
           \<and> (last es = Remove \<or> handler_raises t cfg name raw)))"
proof (cases "validate_request_name name")
  case (Inr rid)
  let ?s = "run_acts as"
  show ?thesis
  proof (cases "sy_todo ?s rid")
    case None
    let ?es = "process_claimed t cfg rid name raw (sy_entry ?s rid)" and ?c = "claim_request t cfg name raw ?s"
    have "inv_final (sy_entry ?s rid) (sy_todo ?s rid)" using inv_run [of as] by (simp add: inv_sys_def inv_one_def)
    then have "unblocked (en_started (sy_entry ?s rid) \<noteq> None) ?es"
      by (intro unblocked_process) (simp add: inv_final_def)
    moreover have c: "?c = ?s\<lparr>sy_todo := (sy_todo ?s)(rid \<mapsto> ?es)\<rparr>" by (simp add: claim_request_def Inr None)
    ultimately have "sy_log (fold act_step (replicate (length ?es) (Perform rid)) ?c) = sy_log ?s @ map (Pair rid) ?es"
      using run_handler [of ?c rid ?es] by simp
    moreover have "run_acts (as @ Claim t cfg name raw # replicate n (Perform rid)) = fold act_step (replicate n (Perform rid)) ?c" for n
      by (simp add: run_acts_def)
    ultimately show ?thesis using last_process [of t cfg name raw rid "sy_entry ?s rid"]
      by (auto simp: Inr None Let_def simp del: fold_replicate)
  qed (simp add: Inr)
qed simp

end
