(* ===== verification/Operations.thy ===== *)
theory Operations
  imports JournalGuarantees
begin

text \<open>
  Logical operations (\<open>shell_bridge/bridge.py\<close>: \<open>canonical_operation_payload\<close>,
  \<open>_verified_logical_original\<close>, \<open>process_one\<close>). A request may carry an operation identifier that stays the
  same when a client repeats it under a new file name. The first delivery writes an admission record
  before anything runs; later ones are answered from the journal of the original request.

  The admission lock makes deliveries of one operation sequential: here a delivery is the list of durable
  effects of \<open>process_one\<close>, cut off anywhere by a crash, and a run is a sequence of deliveries. Files are
  regular files: a symbolic link in the journal, which makes the code return without any effect, is not
  modelled. \<open>sha\<close> is the SHA-256 hex digest, \<open>fr\<close> prints a float.
\<close>

subsection \<open>Indented JSON\<close>

definition new_line :: "nat \<Rightarrow> str" where
  "new_line n = CHR 0x0A # replicate n (CHR '' '')"

fun pretty :: "(real \<Rightarrow> str) \<Rightarrow> nat \<Rightarrow> json \<Rightarrow> str" where
  "pretty fr n (JList []) = ''[]''"
| "pretty fr n (JList (x # xs)) =
     ''['' @ new_line (n + 2) @ join ('','' @ new_line (n + 2)) (map (pretty fr (n + 2)) (x # xs)) @ new_line n @ '']''"
| "pretty fr n (JObj []) = [CHR 0x7B, CHR 0x7D]"
| "pretty fr n (JObj (kv # kvs)) =
     CHR 0x7B # new_line (n + 2)
     @ join ('','' @ new_line (n + 2)) (map (\<lambda>(k, t). json_string True k @ '': '' @ t)
         (sort_key fst (map (\<lambda>(k, v). (k, pretty fr (n + 2) v)) (kv # kvs))))
     @ new_line n @ [CHR 0x7D]"
| "pretty fr n v = canonical True fr v"

definition result_file :: "(real \<Rightarrow> str) \<Rightarrow> json \<Rightarrow> str" where
  "result_file fr r = pretty fr 0 r"

text \<open>The keys in sorted order and the default separators of \<open>json.dumps\<close>.\<close>

definition finished_file :: "str \<times> str \<Rightarrow> str" where
  "finished_file f = CHR 0x7B # json_string True ''request_sha256'' @ '': '' @ json_string True (snd f) @ '', ''
     @ json_string True ''status'' @ '': '' @ json_string True (fst f) @ [CHR 0x7D]"

subsection \<open>The identity of an execution\<close>

definition payload_json :: "valid_request \<Rightarrow> (str \<Rightarrow> str) \<Rightarrow> plan \<Rightarrow> json" where
  "payload_json v sha pl = JObj
     [(''cwd'', JStr (path_str (v_cwd v))), (''command'', JStr (v_command v)), (''stdin_sha256'', JStr (sha (v_stdin v))),
      (''timeout'', JInt (v_timeout v)), (''explanation'', JStr (v_explanation v)),
      (''requested_scope'', JStr (scope_str (v_scope v))), (''effective_scope'', public_write_plan pl)]"

definition canonical_operation_payload :: "(str \<Rightarrow> str) \<Rightarrow> (real \<Rightarrow> str) \<Rightarrow> world \<Rightarrow> valid_request \<Rightarrow> json \<Rightarrow> pyerr + str" where
  "canonical_operation_payload sha fr w v cfg =
     bindE (resolve_write_plan w v cfg) (\<lambda>pl. Inr (sha (canonical True fr (payload_json v sha pl))))"

subsection \<open>State and effects\<close>

datatype op_effect = Admit str json | On str effect

record logical =
  lg_admitted :: "str \<Rightarrow> json option"
  lg_entry :: "str \<Rightarrow> entry"
  lg_log :: "(str \<times> effect) list"

text \<open>What a delivery sees beside the turn of its handler: the machine when the prefetched request is
  examined, and the clock.\<close>

record preview =
  pv_world :: world
  pv_now :: real

definition preview_request :: "turn \<Rightarrow> preview \<Rightarrow> json \<Rightarrow> limits \<Rightarrow> str \<Rightarrow> str \<Rightarrow> pyerr + valid_request" where
  "preview_request t p cfg lm name raw =
     (case load_object t raw of
        Inl m \<Rightarrow> Inl (ValueErr m)
      | Inr req \<Rightarrow> validate_request (wd_fs (pv_world p)) req name (config_path cfg ''allowed_root'')
                     (lm_timeout lm) (lm_command lm) (lm_stdin lm))"

subsection \<open>The source of a replay\<close>

definition receipts_agree :: "(str \<Rightarrow> str) \<Rightarrow> str \<Rightarrow> str \<Rightarrow> json \<Rightarrow> str \<Rightarrow> str \<times> str \<Rightarrow> json \<Rightarrow> bool" where
  "receipts_agree sha rid op req raw finished result =
     (obj_get req ''id'' = JStr rid \<and> obj_get req ''operation_id'' = JStr op
      \<and> obj_get result ''status'' \<in> {JStr ''completed'', JStr ''rejected'', JStr ''indeterminate''}
      \<and> obj_get result ''kind'' = JStr ''result'' \<and> py_eq_int (obj_get result ''protocol'') 1
      \<and> obj_get result ''id'' = JStr rid \<and> obj_get result ''request_sha256'' = JStr (sha raw)
      \<and> snd finished = sha raw \<and> JStr (fst finished) = obj_get result ''status'')"

definition verified_logical_original ::
  "turn \<Rightarrow> preview \<Rightarrow> (str \<Rightarrow> str) \<Rightarrow> json \<Rightarrow> limits \<Rightarrow> str \<Rightarrow> str \<Rightarrow> str \<Rightarrow> str option \<Rightarrow> entry \<Rightarrow> json option" where
  "verified_logical_original t p sha cfg lm rid op digest expected en =
     (case (en_request en, en_finished en, en_result en) of
        (Some raw, Some finished, Some result) \<Rightarrow>
          if slug_ok rid \<and> en_active en = None
             \<and> length raw \<le> 2 * 1024 * 1024 \<and> length (finished_file finished) \<le> 65536
             \<and> length (result_file (g_float (t_gate t)) result) \<le> 48 * 1024 * 1024 \<and> is_JObj result
             \<and> (case preview_request t p cfg lm (rid @ ''.json'') raw of
                  Inl _ \<Rightarrow> False
                | Inr v \<Rightarrow> canonical_operation_payload sha (g_float (t_gate t)) (pv_world p) v cfg = Inr digest)
             \<and> (case load_object t raw of Inl _ \<Rightarrow> False | Inr req \<Rightarrow> receipts_agree sha rid op req raw finished result)
             \<and> (case expected of None \<Rightarrow> True | Some x \<Rightarrow> x = sha raw)
             \<and> (en_started en = None \<longrightarrow> obj_get result ''status'' \<noteq> JStr ''completed'')
             \<and> (case en_started en of None \<Rightarrow> True | Some s \<Rightarrow> s = sha raw)
          then Some result else None
      | _ \<Rightarrow> None)"

subsection \<open>Answers\<close>

definition logical_conflict :: "turn \<Rightarrow> str \<Rightarrow> str \<Rightarrow> str \<Rightarrow> effect list" where
  "logical_conflict t rid request_sha message =
     write_upload_delete ''logical-conflict-result.json''
       (result_envelope (t_time t) rid request_sha ''rejected'' [message_pair message])"

text \<open>A new delivery of the request that was admitted; \<open>again\<close> is the ordinary handler.\<close>

definition answer_original ::
  "turn \<Rightarrow> preview \<Rightarrow> (str \<Rightarrow> str) \<Rightarrow> json \<Rightarrow> limits \<Rightarrow> str \<Rightarrow> str \<Rightarrow> str \<Rightarrow> str \<Rightarrow> effect list \<Rightarrow> entry \<Rightarrow> effect list" where
  "answer_original t p sha cfg lm rid op digest raw again en =
     (case (en_finished en, en_result en) of
        (Some _, Some result) \<Rightarrow>
          (case verified_logical_original t p sha cfg lm rid op digest (Some (sha raw)) en of
             None \<Rightarrow> []
           | Some _ \<Rightarrow> publish_stored result)
      | (None, None) \<Rightarrow>
          (if en_started en \<noteq> None then again
           else if en_active en \<noteq> None then []
           else if en_request en \<noteq> None \<and> en_request en \<noteq> Some raw then []
           else (if en_request en = None then [SaveRequest raw] else [])
                @ settle_request t rid (sha raw) ''indeterminate''
                    [message_pair ''logical operation was admitted before a provable STARTED/FINISHED result; original request was not executed again'',
                     (''logical_operation_id'', JStr op), (''original_request_id'', JStr rid)])
      | _ \<Rightarrow> [])"

fun dict_set :: "str \<Rightarrow> json \<Rightarrow> (str \<times> json) list \<Rightarrow> (str \<times> json) list" where
  "dict_set k v [] = [(k, v)]"
| "dict_set k v ((k', w) # kvs) = (if k' = k then (k, v) # kvs else (k', w) # dict_set k v kvs)"

definition dict_update :: "(str \<times> json) list \<Rightarrow> (str \<times> json) list \<Rightarrow> (str \<times> json) list" where
  "dict_update kvs new = fold (\<lambda>(k, v). dict_set k v) new kvs"

fun obj_pairs :: "json \<Rightarrow> (str \<times> json) list" where
  "obj_pairs (JObj kvs) = kvs"
| "obj_pairs _ = []"

definition envelope_keys :: "str list" where
  "envelope_keys = [''id'', ''protocol'', ''kind'', ''processed_at'', ''request_sha256'', ''status'']"

text \<open>Status and details of the answer to another request of the operation, from its original.\<close>

definition replay_of ::
  "turn \<Rightarrow> preview \<Rightarrow> (str \<Rightarrow> str) \<Rightarrow> json \<Rightarrow> limits \<Rightarrow> str \<Rightarrow> str \<Rightarrow> str \<Rightarrow> entry \<Rightarrow> str \<times> (str \<times> json) list" where
  "replay_of t p sha cfg lm prior_id op digest en =
     (case verified_logical_original t p sha cfg lm prior_id op digest None en of
        Some prior \<Rightarrow>
          ((case obj_get prior ''status'' of JStr s \<Rightarrow> s | _ \<Rightarrow> []),
           dict_update (filter (\<lambda>kv. fst kv \<notin> set envelope_keys) (obj_pairs prior))
             [(''logical_operation_id'', JStr op), (''original_request_id'', JStr prior_id), (''replayed'', JBool True),
              (''original_result_sha256'', JStr (sha (result_file (g_float (t_gate t)) prior)))])
      | None \<Rightarrow>
          (''indeterminate'',
           [message_pair ''logical operation source has no verifiable terminal/request pair; no replay'',
            (''logical_operation_id'', JStr op), (''original_request_id'', JStr prior_id)]))"

definition answer_other ::
  "turn \<Rightarrow> (str \<Rightarrow> str) \<Rightarrow> str \<Rightarrow> str \<Rightarrow> effect list \<Rightarrow> str \<times> (str \<times> json) list \<Rightarrow> entry \<Rightarrow> effect list" where
  "answer_other t sha rid raw again answer en =
     (case (en_finished en, en_result en) of
        (Some f, Some result) \<Rightarrow>
          if snd f = sha raw then publish_stored result
          else logical_conflict t rid (sha raw) ''request id was reused with different bytes or terminal metadata''
      | (None, None) \<Rightarrow>
          (if en_started en \<noteq> None then again
           else if en_active en \<noteq> None then []
           else if en_request en \<noteq> None \<and> en_request en \<noteq> Some raw
           then logical_conflict t rid (sha raw) ''request id was reused with different bytes''
           else settle_request t rid (sha raw) (fst answer) (snd answer))
      | _ \<Rightarrow> [])"

definition original_id :: "json \<Rightarrow> str \<Rightarrow> str option" where
  "original_id admitted op =
     (if is_JObj admitted \<and> obj_get admitted ''operation_id'' = JStr op
      then (case obj_get admitted ''original_request_id'' of JStr r \<Rightarrow> if slug_ok r then Some r else None | _ \<Rightarrow> None)
      else None)"

text \<open>A delivery of an operation that has an admission record.\<close>

definition answer_admitted ::
  "turn \<Rightarrow> preview \<Rightarrow> (str \<Rightarrow> str) \<Rightarrow> json \<Rightarrow> limits \<Rightarrow> str \<Rightarrow> str \<Rightarrow> str \<Rightarrow> str \<Rightarrow> effect list \<Rightarrow> json \<Rightarrow> (str \<Rightarrow> entry) \<Rightarrow> effect list" where
  "answer_admitted t p sha cfg lm rid op digest raw again admitted entries =
     (case original_id admitted op of
        None \<Rightarrow> answer_other t sha rid raw again
                  (''indeterminate'', [message_pair ''logical operation admission record is corrupt; no replay'']) (entries rid)
      | Some prior_id \<Rightarrow>
          if obj_get admitted ''payload_sha256'' \<noteq> JStr digest
          then (let message = ''logical operation ID reused for conflicting canonical payload'' in
                if rid = prior_id then logical_conflict t rid (sha raw) message
                else answer_other t sha rid raw again (''rejected'', [message_pair message]) (entries rid))
          else if rid = prior_id then answer_original t p sha cfg lm rid op digest raw again (entries rid)
          else answer_other t sha rid raw again (replay_of t p sha cfg lm prior_id op digest (entries prior_id)) (entries rid))"

definition admission_record :: "str \<Rightarrow> str \<Rightarrow> str \<Rightarrow> real \<Rightarrow> json" where
  "admission_record op digest rid now = JObj
     [(''operation_id'', JStr op), (''payload_sha256'', JStr digest), (''original_request_id'', JStr rid), (''admitted_at'', JFloat now)]"

subsection \<open>One delivery\<close>

text \<open>The exceptions after which \<open>process_one\<close> leaves the rejection to the handler.\<close>

fun is_refusal :: "pyerr \<Rightarrow> bool" where
  "is_refusal (ValueErr _) = True"
| "is_refusal (OtherErr m) = (m = ''TypeError'')"

definition process_one ::
  "turn \<Rightarrow> preview \<Rightarrow> (str \<Rightarrow> str) \<Rightarrow> json \<Rightarrow> str \<Rightarrow> str \<Rightarrow> (str \<Rightarrow> json option) \<Rightarrow> (str \<Rightarrow> entry) \<Rightarrow> op_effect list" where
  "process_one t p sha cfg name raw admissions entries =
     (case validate_request_name name of
        Inl _ \<Rightarrow> []
      | Inr rid \<Rightarrow>
          (let again = process_claimed t cfg rid name raw (entries rid) in
           case limits_of cfg of
             None \<Rightarrow> []
           | Some lm \<Rightarrow>
               if lm_request lm < int (length raw) then map (On rid) again
               else (case preview_request t p cfg lm name raw of
                       Inl e \<Rightarrow> if is_refusal e then map (On rid) again else []
                     | Inr v \<Rightarrow>
                         (case v_operation_id v of
                            None \<Rightarrow> map (On rid) again
                          | Some op \<Rightarrow>
                              (case canonical_operation_payload sha (g_float (t_gate t)) (pv_world p) v cfg of
                                 Inl _ \<Rightarrow> map (On rid) again
                               | Inr digest \<Rightarrow>
                                   (case admissions (sha op) of
                                      Some admitted \<Rightarrow>
                                        map (On rid) (answer_admitted t p sha cfg lm rid op digest raw again admitted entries)
                                    | None \<Rightarrow>
                                        Admit (sha op) (admission_record op digest rid (pv_now p)) # map (On rid) again))))))"

subsection \<open>Sequences of deliveries\<close>

fun run_effects :: "op_effect list \<Rightarrow> logical \<Rightarrow> logical" where
  "run_effects [] s = s"
| "run_effects (Admit k j # es) s = run_effects es (s\<lparr>lg_admitted := (lg_admitted s)(k \<mapsto> j)\<rparr>)"
| "run_effects (On rid e # es) s =
     (if blocked e (lg_entry s rid) then s
      else run_effects es
             (s\<lparr>lg_entry := (lg_entry s)(rid := apply_effect e (lg_entry s rid)), lg_log := lg_log s @ [(rid, e)]\<rparr>))"

text \<open>A delivery with its turn, its preview, its configuration, name and bytes, and the number of effects it
  reaches before it dies.\<close>

record delivery =
  dv_turn :: turn
  dv_preview :: preview
  dv_cfg :: json
  dv_name :: str
  dv_raw :: str
  dv_reach :: nat

definition deliver :: "(str \<Rightarrow> str) \<Rightarrow> delivery \<Rightarrow> logical \<Rightarrow> logical" where
  "deliver sha d s =
     run_effects
       (take (dv_reach d)
         (process_one (dv_turn d) (dv_preview d) sha (dv_cfg d) (dv_name d) (dv_raw d) (lg_admitted s) (lg_entry s))) s"

definition start_logical :: logical where
  "start_logical = \<lparr>lg_admitted = (\<lambda>_. None), lg_entry = (\<lambda>_. empty_entry), lg_log = []\<rparr>"

definition run_deliveries :: "(str \<Rightarrow> str) \<Rightarrow> delivery list \<Rightarrow> logical" where
  "run_deliveries sha ds = fold (deliver sha) ds start_logical"

text \<open>The machine of the handler is the one the preview saw: no change of the file system, of Git or of the
  coordinator between the two.\<close>

definition steady :: "delivery \<Rightarrow> delivery" where
  "steady d = d\<lparr>dv_preview := (dv_preview d)\<lparr>pv_world := g_plan (t_gate (dv_turn d))\<rparr>\<rparr>"

end
