(* ===== verification/OperationGuarantees.thy ===== *)
theory OperationGuarantees
  imports Operations
begin

text \<open>
  What the admission of logical operations guarantees for every sequence of deliveries under whatever
  names, each of them cut off anywhere: one execution per operation while the machine is the same for the
  preview and the handler, terminal evidence that never changes, replays that repeat their original.
\<close>

subsection \<open>The shape of a delivery\<close>

text \<open>\<open>settled en es\<close>: running \<open>es\<close> on the journal \<open>en\<close> keeps terminal evidence.\<close>

definition settled :: "entry \<Rightarrow> effect list \<Rightarrow> bool" where
  "settled en es = ((en_finished en \<noteq> None \<longrightarrow> en_result en \<noteq> None) \<longrightarrow> inv_final en (Some es))"

lemma settled_process: "settled en (process_claimed t cfg rid name raw en)"
  using closing_process [of t cfg rid name raw en] process_finished [of en t cfg rid name raw]
  by (auto simp: settled_def inv_final_def)

lemma settled_answer [simp]:
  "settled en []" "settled en (publish_stored r)" "settled en (logical_conflict t rid sha m)"
  by (auto simp: settled_def inv_final_def logical_conflict_def closing_unsettling)

lemma quiet_recovery:
  "en_started en \<noteq> None \<Longrightarrow> en_finished en = None \<Longrightarrow> quiet (process_claimed t cfg rid name raw en)"
  by (auto simp: process_claimed_def Let_def split: option.split prod.split)

lemma quiet_conflict [simp]: "quiet (logical_conflict t rid sha m)"
  by (simp add: logical_conflict_def)

definition answers :: "entry \<Rightarrow> effect list \<Rightarrow> bool" where
  "answers en es = (quiet es \<and> settled en es)"

lemma answers_original:
  "answers en (answer_original t p sha cfg lm rid op digest raw (process_claimed t cfg rid name raw en) en)"
  unfolding answers_def answer_original_def
  by (auto simp: quiet_recovery settled_process split: option.split)
    (auto simp: settled_def inv_final_def)

lemma answers_other:
  "answers en (answer_other t sha rid raw (process_claimed t cfg rid name raw en) a en)"
  unfolding answers_def answer_other_def
  by (auto simp: quiet_recovery settled_process split: option.split)
    (auto simp: settled_def inv_final_def)

lemma answers_admitted:
  "answers (entries rid)
     (answer_admitted t p sha cfg lm rid op digest raw (process_claimed t cfg rid name raw (entries rid)) admitted entries)"
  by (auto simp: answer_admitted_def Let_def answers_original answers_other answers_def [where es = "logical_conflict t r s m" for t r s m]
      split: option.split)

text \<open>A delivery either answers from an admission record, or runs the handler: with a new admission, or for
  a request that is no admissible operation.\<close>

definition no_operation :: "turn \<Rightarrow> preview \<Rightarrow> (str \<Rightarrow> str) \<Rightarrow> json \<Rightarrow> str \<Rightarrow> str \<Rightarrow> bool" where
  "no_operation t p sha cfg name raw =
     (case limits_of cfg of
        None \<Rightarrow> True
      | Some lm \<Rightarrow> lm_request lm < int (length raw)
          \<or> (case preview_request t p cfg lm name raw of
               Inl _ \<Rightarrow> True
             | Inr v \<Rightarrow> v_operation_id v = None
                 \<or> (case canonical_operation_payload sha (g_float (t_gate t)) (pv_world p) v cfg of Inl _ \<Rightarrow> True | Inr _ \<Rightarrow> False)))"

lemma process_one_cases:
  obtains (nothing) "process_one t p sha cfg name raw adm entries = []"
  | (answer) rid es where "validate_request_name name = Inr rid" "process_one t p sha cfg name raw adm entries = map (On rid) es"
      "answers (entries rid) es"
  | (plain) rid where "validate_request_name name = Inr rid" "no_operation t p sha cfg name raw"
      "process_one t p sha cfg name raw adm entries = map (On rid) (process_claimed t cfg rid name raw (entries rid))"
  | (admit) rid lm v op j where "validate_request_name name = Inr rid" "limits_of cfg = Some lm"
      "preview_request t p cfg lm name raw = Inr v" "v_operation_id v = Some op" "adm (sha op) = None"
      "process_one t p sha cfg name raw adm entries
         = Admit (sha op) j # map (On rid) (process_claimed t cfg rid name raw (entries rid))"
proof (cases "validate_request_name name")
  case (Inl e)
  then have "process_one t p sha cfg name raw adm entries = []" by (simp add: process_one_def)
  then show ?thesis by (rule nothing)
next
  case (Inr rid)
  show ?thesis
  proof (cases "no_operation t p sha cfg name raw")
    case True
    then have "process_one t p sha cfg name raw adm entries \<in> {[], map (On rid) (process_claimed t cfg rid name raw (entries rid))}"
      by (auto simp: Inr no_operation_def process_one_def Let_def split: option.split sum.split)
    then consider "process_one t p sha cfg name raw adm entries = []"
      | "process_one t p sha cfg name raw adm entries = map (On rid) (process_claimed t cfg rid name raw (entries rid))"
      by blast
    then show ?thesis
    proof cases
      case 1
      then show ?thesis by (rule nothing)
    next
      case 2
      then show ?thesis by (rule plain [OF Inr True])
    qed
  next
    case False
    then obtain lm v op digest where lm: "limits_of cfg = Some lm" "\<not> lm_request lm < int (length raw)"
      and v: "preview_request t p cfg lm name raw = Inr v" "v_operation_id v = Some op"
      and d: "canonical_operation_payload sha (g_float (t_gate t)) (pv_world p) v cfg = Inr digest"
      by (auto simp: no_operation_def split: option.splits sum.splits)
    note unfold = process_one_def Inr lm v d Let_def
    show ?thesis
    proof (cases "adm (sha op)")
      case None
      show ?thesis by (rule admit [OF Inr lm(1) v None]) (simp add: unfold None)
    next
      case (Some a)
      have "process_one t p sha cfg name raw adm entries = map (On rid)
          (answer_admitted t p sha cfg lm rid op digest raw (process_claimed t cfg rid name raw (entries rid)) a entries)"
        by (simp add: unfold Some)
      then show ?thesis by (rule answer [OF Inr]) (rule answers_admitted)
    qed
  qed
qed

subsection \<open>Terminal evidence\<close>

definition inv_logical :: "logical \<Rightarrow> bool" where
  "inv_logical s = (\<forall>rid. inv_final (lg_entry s rid) None)"

definition logical_le :: "logical \<Rightarrow> logical \<Rightarrow> bool" where
  "logical_le s s' =
     (prefix (lg_log s) (lg_log s')
      \<and> (\<forall>k. lg_admitted s k \<noteq> None \<longrightarrow> lg_admitted s' k \<noteq> None)
      \<and> (\<forall>rid. en_finished (lg_entry s rid) \<noteq> None \<longrightarrow>
             en_finished (lg_entry s' rid) = en_finished (lg_entry s rid) \<and> en_result (lg_entry s' rid) = en_result (lg_entry s rid)))"

lemma logical_le_refl: "logical_le s s"
  by (simp add: logical_le_def)

lemma logical_le_trans: "logical_le s t \<Longrightarrow> logical_le t u \<Longrightarrow> logical_le s u"
  unfolding logical_le_def by (metis prefix_order.trans)

lemma inv_final_idle: "inv_final en todo \<Longrightarrow> inv_final en None"
  by (simp add: inv_final_def)

lemma final_step:
  assumes "inv_final en (Some (e # es))" "en_finished en \<noteq> None"
  shows "en_finished (apply_effect e en) = en_finished en \<and> en_result (apply_effect e en) = en_result en"
  using assms final_keeps [of e en] by (auto simp: inv_final_def)

lemma run_on:
  assumes "inv_logical s" "inv_final (lg_entry s rid) (Some es)"
  shows "inv_logical (run_effects (take n (map (On rid) es)) s) \<and> logical_le s (run_effects (take n (map (On rid) es)) s)"
  using assms
proof (induction es arbitrary: s n)
  case Nil
  then show ?case by (simp add: logical_le_refl)
next
  case (Cons e es)
  show ?case
  proof (cases n)
    case 0
    with Cons.prems show ?thesis by (simp add: logical_le_refl)
  next
    case (Suc m)
    show ?thesis
    proof (cases "blocked e (lg_entry s rid)")
      case True
      with Cons.prems Suc show ?thesis by (simp add: logical_le_refl)
    next
      case False
      let ?s = "s\<lparr>lg_entry := (lg_entry s)(rid := apply_effect e (lg_entry s rid)), lg_log := lg_log s @ [(rid, e)]\<rparr>"
      have fin: "inv_final (lg_entry ?s rid) (Some es)" using inv_final_perform [OF Cons.prems(2)] by simp
      have "inv_logical ?s" using Cons.prems(1) inv_final_idle [OF fin] by (auto simp: inv_logical_def)
      moreover have "logical_le s ?s" using final_step [OF Cons.prems(2)] by (auto simp: logical_le_def)
      ultimately show ?thesis using Cons.IH [of ?s m] fin False Suc logical_le_trans by auto
    qed
  qed
qed

lemma take_Admit: "run_effects (take n (Admit k j # es)) s =
    (case n of 0 \<Rightarrow> s | Suc m \<Rightarrow> run_effects (take m es) (s\<lparr>lg_admitted := (lg_admitted s)(k \<mapsto> j)\<rparr>))"
  by (cases n) auto

lemma logical_deliver:
  assumes "inv_logical s"
  shows "inv_logical (deliver sha d s) \<and> logical_le s (deliver sha d s)"
proof -
  have fin: "settled (lg_entry s rid) es \<Longrightarrow> inv_final (lg_entry s rid) (Some es)" for rid es
    using assms by (auto simp: settled_def inv_logical_def inv_final_def)
  show ?thesis
  proof (cases rule: process_one_cases [of "dv_turn d" "dv_preview d" sha "dv_cfg d" "dv_name d" "dv_raw d" "lg_admitted s" "lg_entry s"])
    case nothing
    with assms show ?thesis by (simp add: deliver_def logical_le_refl)
  next
    case (answer rid es)
    from answer(3) have "settled (lg_entry s rid) es" by (simp add: answers_def)
    from run_on [OF assms fin [OF this]] show ?thesis by (simp add: deliver_def answer(2))
  next
    case (plain rid)
    from run_on [OF assms fin [OF settled_process]] show ?thesis by (simp add: deliver_def plain(3))
  next
    case (admit rid lm v op j)
    let ?s = "s\<lparr>lg_admitted := (lg_admitted s)(sha op \<mapsto> j)\<rparr>"
    have s: "inv_logical ?s" "logical_le s ?s" using assms by (auto simp: inv_logical_def logical_le_def)
    from fin [OF settled_process] have "inv_final (lg_entry ?s rid) (Some (process_claimed (dv_turn d) (dv_cfg d) rid (dv_name d) (dv_raw d) (lg_entry s rid)))"
      by simp
    from run_on [OF s(1) this] s(2) assms logical_le_trans logical_le_refl show ?thesis
      by (auto simp: deliver_def admit(6) take_Admit split: nat.split)
  qed
qed

interpretation logical: ordered_machine "deliver sha" inv_logical logical_le for sha
  by unfold_locales (auto intro: logical_le_refl logical_le_trans simp: logical_deliver)

lemma inv_start_logical: "inv_logical start_logical"
  by (simp add: inv_logical_def start_logical_def inv_final_def empty_entry_def)

lemma inv_deliveries: "inv_logical (run_deliveries sha ds)"
  unfolding run_deliveries_def by (rule logical.run_inv [OF inv_start_logical])

lemma deliveries_later: "logical_le (run_deliveries sha ds) (run_deliveries sha (ds @ ds'))"
proof -
  have "logical_le (run_deliveries sha ds) (fold (deliver sha) ds' (run_deliveries sha ds))"
    by (rule logical.run_le [OF inv_deliveries])
  then show ?thesis by (simp add: run_deliveries_def)
qed

text \<open>Deliveries of logical operations keep terminal evidence too: whatever is delivered later, under the
  original name, another name or with another payload, and wherever it dies, a request with a FINISHED
  marker keeps its marker and its result.\<close>

theorem logical_evidence_immutable:
  "case en_finished (lg_entry (run_deliveries sha ds) rid) of
     None \<Rightarrow> True
   | Some f \<Rightarrow>
       en_result (lg_entry (run_deliveries sha ds) rid) \<noteq> None
       \<and> en_finished (lg_entry (run_deliveries sha (ds @ ds')) rid) = Some f
       \<and> en_result (lg_entry (run_deliveries sha (ds @ ds')) rid) = en_result (lg_entry (run_deliveries sha ds) rid)"
  using inv_deliveries [of sha ds] deliveries_later [of sha ds ds']
  by (auto simp: inv_logical_def inv_final_def logical_le_def split: option.split)

subsection \<open>One execution for each operation\<close>

fun runs_operation :: "str \<Rightarrow> effect \<Rightarrow> bool" where
  "runs_operation op (Exec v _ _ _) = (v_operation_id v = Some op)"
| "runs_operation op _ = False"

definition operation_runs :: "str \<Rightarrow> logical \<Rightarrow> nat" where
  "operation_runs op s = length (filter (\<lambda>p. runs_operation op (snd p)) (lg_log s))"

definition run_count :: "str \<Rightarrow> effect list \<Rightarrow> nat" where
  "run_count op es = length (filter (runs_operation op) es)"

lemma runs_is_exec: "runs_operation op e \<Longrightarrow> is_exec e"
  by (cases e) auto

lemma run_count_quiet: "quiet es \<Longrightarrow> run_count op es = 0"
  by (auto simp: run_count_def quiet_def list_all_iff filter_empty_conv dest: runs_is_exec)

lemma run_count_Cons: "run_count op (e # es) = (if runs_operation op e then 1 else 0) + run_count op es"
  by (simp add: run_count_def)

lemma run_count_guarded: "guarded es \<Longrightarrow> run_count op es \<le> 1"
proof (induction es rule: guarded.induct)
  case (2 sha v pl c spw es)
  then show ?case by (simp add: run_count_Cons run_count_quiet)
qed (auto simp: run_count_Cons run_count_def dest: runs_is_exec)

lemma runs_bounded: "operation_runs op (run_effects (take n (map (On rid) es)) s) \<le> operation_runs op s + run_count op es"
proof (induction es arbitrary: s n)
  case (Cons e es)
  show ?case
  proof (cases n)
    case (Suc m)
    let ?s = "s\<lparr>lg_entry := (lg_entry s)(rid := apply_effect e (lg_entry s rid)), lg_log := lg_log s @ [(rid, e)]\<rparr>"
    have "operation_runs op ?s = operation_runs op s + (if runs_operation op e then 1 else 0)" by (simp add: operation_runs_def)
    with Cons.IH [of m ?s] Suc show ?thesis by (simp add: run_count_Cons)
  qed simp
qed simp

lemma admissions_on [simp]: "lg_admitted (run_effects (take n (map (On rid) es)) s) = lg_admitted s"
proof (induction es arbitrary: s n)
  case (Cons e es)
  then show ?case by (cases n) auto
qed simp

text \<open>The handler executes only what its own reading of the request yields, and in an unchanged machine that
  is what the preview read.\<close>

lemma validated_steady:
  assumes "validated t cfg lm name raw = Inr v" "pv_world p = g_plan (t_gate t)"
  shows "preview_request t p cfg lm name raw = Inr v"
  using assms by (auto simp: validated_def preview_request_def split: sum.splits)

lemma process_exec_steady:
  assumes "Exec v pl c spw \<in> set (process_claimed t cfg rid name raw en)" "pv_world p = g_plan (t_gate t)"
  obtains lm digest where "limits_of cfg = Some lm" "preview_request t p cfg lm name raw = Inr v"
    "canonical_operation_payload sha fr (pv_world p) v cfg = Inr digest"
proof -
  from process_exec [OF assms(1)] obtain lm argv where lm: "limits_of cfg = Some lm" "validated t cfg lm name raw = Inr v"
    and d: "decide (t_gate t) cfg (config_path cfg ''allowed_root'') v = Start pl c argv" by blast
  from decide_Start(3) [OF d] assms(2) have "canonical_operation_payload sha fr (pv_world p) v cfg
      = Inr (sha (canonical True fr (payload_json v sha pl)))"
    by (simp add: canonical_operation_payload_def bindE_def)
  from that [OF lm(1) validated_steady [OF lm(2) assms(2)] this] show thesis .
qed

lemma process_oversize:
  "limits_of cfg = Some lm \<Longrightarrow> lm_request lm < int (length raw) \<Longrightarrow> quiet (process_claimed t cfg rid name raw en)"
  by (simp add: process_claimed_def Let_def)

lemma plain_no_runs:
  assumes "no_operation t p sha cfg name raw" "pv_world p = g_plan (t_gate t)"
  shows "run_count op (process_claimed t cfg rid name raw en) = 0"
proof (rule ccontr)
  assume "run_count op (process_claimed t cfg rid name raw en) \<noteq> 0"
  then obtain e where e: "e \<in> set (process_claimed t cfg rid name raw en)" "runs_operation op e"
    by (auto simp: run_count_def filter_empty_conv)
  from e(2) obtain v pl c spw where x: "e = Exec v pl c spw" "v_operation_id v = Some op" by (cases e) auto
  from process_exec_steady [OF e(1) [unfolded x(1)] assms(2)] obtain lm digest where
    "limits_of cfg = Some lm" "preview_request t p cfg lm name raw = Inr v"
    "canonical_operation_payload sha (g_float (t_gate t)) (pv_world p) v cfg = Inr digest" .
  with assms(1) x(2) process_oversize [of cfg lm raw t rid name en] e(1) x(1) show False
    by (auto simp: no_operation_def not_exec_quiet)
qed

lemma admit_runs:
  assumes "pv_world p = g_plan (t_gate t)" "limits_of cfg = Some lm" "preview_request t p cfg lm name raw = Inr v"
    and "v_operation_id v = Some op"
  shows "run_count op' (process_claimed t cfg rid name raw en) \<le> (if op' = op then 1 else 0)"
proof (cases "op' = op")
  case True
  then show ?thesis using run_count_guarded [OF guarded_process] by simp
next
  case False
  have "\<not> runs_operation op' e" if e: "e \<in> set (process_claimed t cfg rid name raw en)" for e
  proof (cases e)
    case (Exec v' pl c spw)
    from process_exec_steady [OF e [unfolded Exec] assms(1)] obtain lm' where
      "limits_of cfg = Some lm'" "preview_request t p cfg lm' name raw = Inr v'" by metis
    with assms False show ?thesis by (simp add: Exec)
  qed simp_all
  with False show ?thesis by (simp add: run_count_def filter_empty_conv)
qed

definition inv_once :: "(str \<Rightarrow> str) \<Rightarrow> logical \<Rightarrow> bool" where
  "inv_once sha s = (\<forall>op. operation_runs op s \<le> (if lg_admitted s (sha op) = None then 0 else 1))"

lemma inv_once_same:
  "inv_once sha s \<Longrightarrow> (\<And>op. operation_runs op s' \<le> operation_runs op s) \<Longrightarrow> lg_admitted s' = lg_admitted s \<Longrightarrow> inv_once sha s'"
  unfolding inv_once_def by (metis order_trans)

lemma once_deliver:
  assumes "inv_once sha s"
  shows "inv_once sha (deliver sha (steady d) s)"
proof -
  let ?t = "dv_turn d" and ?p = "dv_preview (steady d)"
  have same: "pv_world ?p = g_plan (t_gate ?t)" by (simp add: steady_def)
  have d: "deliver sha (steady d) s =
      run_effects (take (dv_reach d) (process_one ?t ?p sha (dv_cfg d) (dv_name d) (dv_raw d) (lg_admitted s) (lg_entry s))) s"
    by (simp add: deliver_def steady_def)
  show ?thesis
  proof (cases rule: process_one_cases [of ?t ?p sha "dv_cfg d" "dv_name d" "dv_raw d" "lg_admitted s" "lg_entry s"])
    case nothing
    with assms show ?thesis by (simp add: d)
  next
    case (answer rid es)
    show ?thesis
    proof (rule inv_once_same [OF assms])
      show "operation_runs op (deliver sha (steady d) s) \<le> operation_runs op s" for op
        using runs_bounded [of op "dv_reach d" rid es s] answer(3) by (simp add: d answer(2) answers_def run_count_quiet)
    qed (simp add: d answer(2))
  next
    case (plain rid)
    show ?thesis
    proof (rule inv_once_same [OF assms])
      show "operation_runs op (deliver sha (steady d) s) \<le> operation_runs op s" for op
        using runs_bounded [of op "dv_reach d" rid _ s] plain_no_runs [OF plain(2) same] by (simp add: d plain(3)) (metis add.right_neutral)
    qed (simp add: d plain(3))
  next
    case (admit rid lm v op j)
    let ?es = "process_claimed ?t (dv_cfg d) rid (dv_name d) (dv_raw d) (lg_entry s rid)"
    let ?s = "s\<lparr>lg_admitted := (lg_admitted s)(sha op \<mapsto> j)\<rparr>"
    have step: "deliver sha (steady d) s = (case dv_reach d of 0 \<Rightarrow> s | Suc m \<Rightarrow> run_effects (take m (map (On rid) ?es)) ?s)"
      by (simp add: d admit(6) take_Admit)
    have "operation_runs op' (run_effects (take m (map (On rid) ?es)) ?s) \<le> (if lg_admitted ?s (sha op') = None then 0 else 1)" for op' m
    proof -
      have "operation_runs op' ?s = operation_runs op' s" by (simp add: operation_runs_def)
      moreover have "operation_runs op s = 0" using assms admit(5) unfolding inv_once_def by (metis le_zero_eq)
      moreover have "operation_runs op' s \<le> (if lg_admitted s (sha op') = None then 0 else 1)" using assms by (simp add: inv_once_def)
      ultimately show ?thesis
        using runs_bounded [of op' m rid ?es ?s] admit_runs [OF same admit(2,3,4), of op' rid "lg_entry s rid"]
        by (auto split: if_splits)
    qed
    then have "inv_once sha (run_effects (take m (map (On rid) ?es)) ?s)" for m
      unfolding inv_once_def by simp
    with assms show ?thesis by (simp add: step split: nat.split)
  qed
qed

text \<open>C4: An operation identifier is executed at most once, over all request names and payloads it is
  delivered under and wherever deliveries die, as long as the machine does not change between the
  preview of a delivery and its handler: the admission record is durable before the request starts.\<close>

theorem operation_runs_at_most_once: "operation_runs op (run_deliveries sha (map steady ds)) \<le> 1"
proof -
  have "inv_once sha s \<Longrightarrow> inv_once sha (fold (deliver sha) (map steady ds) s)" for s
    by (induction ds arbitrary: s) (auto intro: once_deliver)
  moreover have "inv_once sha start_logical" by (simp add: inv_once_def operation_runs_def start_logical_def)
  ultimately have "inv_once sha (run_deliveries sha (map steady ds))" by (simp add: run_deliveries_def)
  then have "operation_runs op (run_deliveries sha (map steady ds))
      \<le> (if lg_admitted (run_deliveries sha (map steady ds)) (sha op) = None then 0 else 1)"
    unfolding inv_once_def by blast
  then show ?thesis by (simp split: if_splits)
qed

subsection \<open>Replays\<close>

lemma map_of_dict_set [simp]: "map_of (dict_set k v kvs) q = (if q = k then Some v else map_of kvs q)"
  by (induction k v kvs rule: dict_set.induct) auto

lemma map_of_filter_keys: "map_of (filter (\<lambda>kv. fst kv \<notin> S) kvs) q = (if q \<in> S then None else map_of kvs q)"
  by (induction kvs) auto

definition replay_marks :: "str list" where
  "replay_marks = [''logical_operation_id'', ''original_request_id'', ''replayed'', ''original_result_sha256'']"

lemma map_of_replay:
  "map_of (dict_update kvs [(''logical_operation_id'', a), (''original_request_id'', b), (''replayed'', c), (''original_result_sha256'', d)]) q
     = (if q = ''logical_operation_id'' then Some a else if q = ''original_request_id'' then Some b
        else if q = ''replayed'' then Some c else if q = ''original_result_sha256'' then Some d else map_of kvs q)"
  by (simp add: dict_update_def)

lemma map_of_fresh: "set (map fst xs) \<inter> set (map fst ys) = {} \<Longrightarrow>
    map_of (filter (\<lambda>p. fst p \<notin> set (map fst ys)) xs @ ys) q = (case map_of xs q of None \<Rightarrow> map_of ys q | Some v \<Rightarrow> Some v)"
  by (induction xs) (auto simp: map_of_eq_None_iff split: option.split)

definition envelope_base :: "str \<Rightarrow> str \<Rightarrow> str \<Rightarrow> str \<Rightarrow> (str \<times> json) list" where
  "envelope_base time rid request_sha status =
     [(''protocol'', JInt 1), (''kind'', JStr ''result''), (''id'', JStr rid), (''status'', JStr status),
      (''request_sha256'', JStr request_sha), (''processed_at'', JStr time)]"

lemma envelope_base_keys: "set (map fst (envelope_base time rid sha st)) = set envelope_keys"
  by (simp add: envelope_base_def envelope_keys_def insert_commute)

lemma envelope_base_get: "map_of (envelope_base time rid sha st) ''id'' = Some (JStr rid)"
    "map_of (envelope_base time rid sha st) ''status'' = Some (JStr st)"
  by (simp_all add: envelope_base_def)

lemma result_envelope_get:
  assumes "set (map fst extra) \<inter> set envelope_keys = {}"
  shows "obj_get (result_envelope time rid sha st extra) k =
     (case map_of (envelope_base time rid sha st) k of Some v \<Rightarrow> v | None \<Rightarrow> obj_get (JObj extra) k)"
proof -
  have "set (map fst (envelope_base time rid sha st)) \<inter> set (map fst extra) = {}"
    using assms by (simp only: envelope_base_keys Int_commute)
  from map_of_fresh [OF this, of k] show ?thesis
    unfolding result_envelope_def envelope_base_def [symmetric] by (simp split: option.split)
qed

lemma verified_result:
  "verified_logical_original t p sha cfg lm rid op digest x en = Some r \<Longrightarrow>
     slug_ok rid \<and> is_JObj r \<and> (\<exists>s. obj_get r ''status'' = JStr s)"
  by (auto simp: verified_logical_original_def receipts_agree_def split: option.splits if_splits sum.splits)

text \<open>The fields of an uploaded replay, compared with the result it repeats.\<close>

definition repeats :: "str \<Rightarrow> str \<Rightarrow> json \<Rightarrow> json \<Rightarrow> bool" where
  "repeats rid prior result r =
     (obj_get r ''id'' = JStr rid \<and> obj_get r ''status'' = obj_get result ''status''
      \<and> obj_get r ''replayed'' = JBool True \<and> obj_get r ''original_request_id'' = JStr prior
      \<and> (\<forall>k. k \<in> set envelope_keys \<or> k \<in> set replay_marks \<or> obj_get r k = obj_get result k))"

lemma replay_keys:
  assumes "set (map fst kvs) \<inter> S = {}" "set (map fst new) \<inter> S = {}"
  shows "set (map fst (dict_update kvs new)) \<inter> S = {}"
proof -
  have set: "set (map fst (dict_set k v kvs)) = insert k (set (map fst kvs))" for k v and kvs :: "(str \<times> json) list"
    by (induction k v kvs rule: dict_set.induct) auto
  have "set (map fst (dict_update kvs new)) = set (map fst kvs) \<union> set (map fst new)"
    unfolding dict_update_def by (induction new arbitrary: kvs) (simp_all add: set split_beta del: set_map)
  with assms show ?thesis by auto
qed

lemma replay_repeats:
  assumes "verified_logical_original t p sha cfg lm prior op digest None en = Some result"
  shows "repeats rid prior result
     (result_envelope time rid request_sha (fst (replay_of t p sha cfg lm prior op digest en)) (snd (replay_of t p sha cfg lm prior op digest en)))
   \<and> JStr (fst (replay_of t p sha cfg lm prior op digest en)) = obj_get result ''status''"
proof -
  from verified_result [OF assms] obtain kvs st where r: "result = JObj kvs" and st: "obj_get result ''status'' = JStr st"
    by (cases result) auto
  define new where "new = [(''logical_operation_id'', JStr op), (''original_request_id'', JStr prior), (''replayed'', JBool True),
      (''original_result_sha256'', JStr (sha (result_file (g_float (t_gate t)) result)))]"
  define extra where "extra = dict_update (filter (\<lambda>kv. fst kv \<notin> set envelope_keys) kvs) new"
  have replay: "replay_of t p sha cfg lm prior op digest en = (st, extra)"
    using assms st unfolding replay_of_def extra_def new_def by (simp only: option.case json.case) (simp add: r)
  have "set (map fst (filter (\<lambda>kv. fst kv \<notin> set envelope_keys) kvs)) \<inter> set envelope_keys = {}" by auto
  moreover have "set (map fst new) \<inter> set envelope_keys = {}" unfolding new_def envelope_keys_def by code_simp
  ultimately have "set (map fst extra) \<inter> set envelope_keys = {}" unfolding extra_def by (rule replay_keys)
  note get = result_envelope_get [OF this]
  have marks: "map_of extra ''original_request_id'' = Some (JStr prior)" "map_of extra ''replayed'' = Some (JBool True)"
    unfolding extra_def new_def map_of_replay by simp_all
  have names: "''replayed'' \<notin> set envelope_keys" "''original_request_id'' \<notin> set envelope_keys" by code_simp+
  have base: "map_of (envelope_base time rid request_sha st) k = None" if "k \<notin> set envelope_keys" for k
    using that envelope_base_keys [of time rid request_sha st] unfolding map_of_eq_None_iff by (metis list.set_map)
  have "k \<in> set envelope_keys \<or> k \<in> set replay_marks \<or> obj_get (result_envelope time rid request_sha st extra) k = obj_get result k" for k
  proof (cases "k \<in> set envelope_keys \<or> k \<in> set replay_marks")
    case False
    then have "map_of extra k = map_of kvs k"
      unfolding extra_def new_def map_of_replay by (simp add: replay_marks_def map_of_filter_keys)
    with False show ?thesis by (simp add: get base r)
  qed blast
  then show ?thesis
    using st by (simp add: replay repeats_def get envelope_base_get base names marks)
qed

text \<open>The answer to another request of an admitted operation, when the original has a verifiable terminal
  result, is recorded and published under the new name with the status of the original, all its other
  fields, and a mark that names the original; nothing is executed.\<close>

theorem replay_repeats_original:
  "case verified_logical_original t p sha cfg lm prior op digest None (entries prior) of
     None \<Rightarrow> True
   | Some result \<Rightarrow>
       if rid = prior then True
       else (case answer_admitted t p sha cfg lm rid op digest raw again (admission_record op digest prior now) (entries(rid := empty_entry)) of
               [SaveResult r, SaveFinished st request_sha, Upload r', Remove] \<Rightarrow>
                 r' = r \<and> request_sha = sha raw \<and> JStr st = obj_get result ''status'' \<and> repeats rid prior result r
             | _ \<Rightarrow> False)"
proof (cases "verified_logical_original t p sha cfg lm prior op digest None (entries prior)")
  case (Some result)
  have "original_id (admission_record op digest prior now) op = Some prior"
    using verified_result [OF Some] by (simp add: original_id_def admission_record_def)
  moreover have "obj_get (admission_record op digest prior now) ''payload_sha256'' = JStr digest"
    by (simp add: admission_record_def)
  ultimately show ?thesis using replay_repeats [OF Some, of rid "t_time t" "sha raw"]
    by (simp add: Some answer_admitted_def answer_other_def empty_entry_def settle_request_def persist_then_publish_def)
qed simp

end
