(* ===== verification/Locks.thy ===== *)
theory Locks
  imports Request JsonText Machines
begin

text \<open>
  Ownership of a mailbox (\<open>shell_bridge/bridge.py\<close>: \<open>_lock_digest\<close>, \<open>_instance_lock_path\<close>,
  \<open>_stable_instance_lock_path\<close>, \<open>_durable_lock_root\<close>, \<open>_mailbox_lock_identities\<close>, \<open>_mailbox_lock_paths\<close>,
  \<open>_open_instance_lock_file\<close>, \<open>_flock_lock_path\<close>, \<open>_HeldMailboxLocks\<close>, \<open>acquire_instance_lock\<close>). The kernel's
  side is the record \<open>locks\<close>: which inode a canonical path names, and which open file description holds
  the advisory lock of an inode. The process identifier written into the files is not modelled.
\<close>

subsection \<open>Lock paths\<close>

text \<open>What the process sees: its user, temporary and home directories, \<open>resolve(strict=False)\<close>, the tests of
  lock directories and lock files, whether a path can be examined, and the 32 hex digits of the digest.\<close>

record lock_env =
  le_uid :: int
  le_tmpdir :: path
  le_home :: path
  le_resolve :: "path \<Rightarrow> path"
  le_private_dir :: "path \<Rightarrow> bool"
  le_private_file :: "nat \<Rightarrow> bool"
  le_reachable :: "path \<Rightarrow> bool"
  le_digest :: "str \<Rightarrow> str"

fun given :: "json \<Rightarrow> str" where
  "given (JStr s) = s"
| "given _ = []"

definition stripped :: "json \<Rightarrow> str option" where
  "stripped j = (case j of JStr s \<Rightarrow> if py_strip s = [] then None else Some (py_strip s) | _ \<Rightarrow> None)"

definition mailbox_lock_identities :: "json \<Rightarrow> str list" where
  "mailbox_lock_identities cfg =
     (let folder = (case stripped (obj_get cfg ''drive_root_folder_id'') of Some f \<Rightarrow> [''drive-mailbox:'' @ f] | None \<Rightarrow> []);
          remote = given (obj_get cfg ''remote''); base = given (obj_get cfg ''base_path'') in
      folder
      @ (if folder = [] \<or> (remote \<noteq> [] \<and> base \<noteq> []) then [''mailbox:'' @ remote @ ''|'' @ base] else [])
      @ (case stripped (obj_get cfg ''bridge_instance_id'') of Some i \<Rightarrow> [''instance:'' @ i] | None \<Rightarrow> []))"

definition lock_dir_name :: "lock_env \<Rightarrow> str" where
  "lock_dir_name env = ''chatgpt-shell-bridge-'' @ int_str (le_uid env)"

definition instance_lock_path :: "lock_env \<Rightarrow> json \<Rightarrow> path" where
  "instance_lock_path env cfg =
     (let identity = (case stripped (obj_get cfg ''drive_root_folder_id'') of
          Some f \<Rightarrow> ''drive-mailbox:'' @ f
        | None \<Rightarrow> ''mailbox:'' @ given (obj_get cfg ''remote'') @ ''|'' @ given (obj_get cfg ''base_path'')) in
      child (child (le_tmpdir env) (lock_dir_name env)) (le_digest env identity @ ''.lock''))"

definition stable_instance_lock_path :: "lock_env \<Rightarrow> json \<Rightarrow> path" where
  "stable_instance_lock_path env cfg =
     (let old = instance_lock_path env cfg in child (child (parse_path ''/tmp'') (path_name (parent old))) (path_name old))"

definition durable_lock_root :: "lock_env \<Rightarrow> path" where
  "durable_lock_root env = child (child (child (le_home env) ''.local'') ''state'') ''local-executor-bridge-locks''"

definition lock_roots :: "lock_env \<Rightarrow> path list" where
  "lock_roots env = [child (le_tmpdir env) (lock_dir_name env), child (parse_path ''/tmp'') (lock_dir_name env), durable_lock_root env]"

definition canonical_path :: "lock_env \<Rightarrow> path \<Rightarrow> path" where
  "canonical_path env p = child (le_resolve env (parent p)) (path_name p)"

fun keep_first :: "('a \<Rightarrow> 'k) \<Rightarrow> 'k list \<Rightarrow> 'a list \<Rightarrow> 'a list" where
  "keep_first key seen [] = []"
| "keep_first key seen (x # xs) =
     (if key x \<in> set seen then keep_first key seen xs else x # keep_first key (key x # seen) xs)"

definition all_lock_paths :: "lock_env \<Rightarrow> json \<Rightarrow> path list" where
  "all_lock_paths env cfg =
     concat (map (\<lambda>identity. map (\<lambda>base. child base (le_digest env identity @ ''.lock'')) (lock_roots env))
       (mailbox_lock_identities cfg))"

definition mailbox_lock_paths :: "lock_env \<Rightarrow> json \<Rightarrow> path list" where
  "mailbox_lock_paths env cfg = sort_key path_str (keep_first (canonical_path env) [] (all_lock_paths env cfg))"

subsection \<open>Files and advisory locks\<close>

record locks =
  lk_inode :: "path \<Rightarrow> nat option"
  lk_holder :: "nat \<Rightarrow> nat option"
  lk_inodes :: nat
  lk_handles :: nat

definition no_locks :: locks where
  "no_locks = \<lparr>lk_inode = (\<lambda>_. None), lk_holder = (\<lambda>_. None), lk_inodes = 0, lk_handles = 0\<rparr>"

text \<open>The path, the open file description and the inode of a held lock.\<close>

type_synonym held = "path \<times> nat \<times> nat"

definition open_lock_file :: "path \<Rightarrow> locks \<Rightarrow> nat \<times> locks" where
  "open_lock_file c w =
     (case lk_inode w c of
        Some i \<Rightarrow> (i, w)
      | None \<Rightarrow> (lk_inodes w, w\<lparr>lk_inode := (lk_inode w)(c \<mapsto> lk_inodes w), lk_inodes := lk_inodes w + 1\<rparr>))"

definition flock_lock_path :: "lock_env \<Rightarrow> path \<Rightarrow> locks \<Rightarrow> (str + held) \<times> locks" where
  "flock_lock_path env p w =
     (if \<not> le_private_dir env (parent p) then (Inl ''bridge lock directory is not exclusively owned'', w)
      else (case open_lock_file (canonical_path env p) w of
              (i, w1) \<Rightarrow>
                if \<not> le_private_file env i then (Inl ''bridge lock file is not a private regular file'', w1)
                else if lk_holder w1 i \<noteq> None then (Inl ''another shell-bridge instance already holds the instance lock'', w1)
                else (Inr (p, lk_handles w1, i),
                      w1\<lparr>lk_holder := (lk_holder w1)(i \<mapsto> lk_handles w1), lk_handles := lk_handles w1 + 1\<rparr>)))"

definition close_handles :: "nat list \<Rightarrow> locks \<Rightarrow> locks" where
  "close_handles hs w = w\<lparr>lk_holder := (\<lambda>i. case lk_holder w i of None \<Rightarrow> None | Some h \<Rightarrow> if h \<in> set hs then None else Some h)\<rparr>"

definition handle_of :: "held \<Rightarrow> nat" where
  "handle_of e = fst (snd e)"

fun acquire_paths :: "lock_env \<Rightarrow> held list \<Rightarrow> path list \<Rightarrow> locks \<Rightarrow> (str + held list) \<times> locks" where
  "acquire_paths env held [] w = (Inr held, w)"
| "acquire_paths env held (p # ps) w =
     (case flock_lock_path env p w of
        (Inl e, w') \<Rightarrow> (Inl e, close_handles (map handle_of held) w')
      | (Inr l, w') \<Rightarrow> acquire_paths env (held @ [l]) ps w')"

definition acquire_instance_lock :: "lock_env \<Rightarrow> json \<Rightarrow> locks \<Rightarrow> (str + held list) \<times> locks" where
  "acquire_instance_lock env cfg w = acquire_paths env [] (mailbox_lock_paths env cfg) w"

text \<open>\<open>verify\<close>: the answer, the entries, and the descriptions of replaced files, which stay open.\<close>

fun verify_locks :: "lock_env \<Rightarrow> held list \<Rightarrow> locks \<Rightarrow> bool \<times> held list \<times> nat list \<times> locks" where
  "verify_locks env [] w = (True, [], [], w)"
| "verify_locks env ((p, h, i) # es) w =
     (if \<not> le_reachable env p then (False, (p, h, i) # es, [], w)
      else if lk_inode w (canonical_path env p) = Some i
      then (case verify_locks env es w of (ok, es', old, w') \<Rightarrow> (ok, (p, h, i) # es', old, w'))
      else (case flock_lock_path env p w of
              (Inl _, w') \<Rightarrow> (False, (p, h, i) # es, [], w')
            | (Inr l, w') \<Rightarrow> (case verify_locks env es w' of (ok, es', old, w'') \<Rightarrow> (ok, l # es', h # old, w''))))"

subsection \<open>Several claimants\<close>

text \<open>Claimants of one machine differ in their temporary directory and their configuration. In between, the
  cleaner of temporary files may unlink a lock file anywhere but in the durable directory.\<close>

record mailbox =
  mb_world :: locks
  mb_held :: "nat \<Rightarrow> held list option"
  mb_old :: "nat \<Rightarrow> nat list"

datatype lock_event = Acquire nat | Verify nat | Close nat | Clean path

definition env_of :: "lock_env \<Rightarrow> (nat \<Rightarrow> path) \<Rightarrow> nat \<Rightarrow> lock_env" where
  "env_of env tmp a = env\<lparr>le_tmpdir := tmp a\<rparr>"

definition durable_name :: "lock_env \<Rightarrow> path \<Rightarrow> bool" where
  "durable_name env c = (parent c = le_resolve env (durable_lock_root env))"

fun lock_step :: "lock_env \<Rightarrow> (nat \<Rightarrow> path) \<Rightarrow> (nat \<Rightarrow> json) \<Rightarrow> lock_event \<Rightarrow> mailbox \<Rightarrow> mailbox" where
  "lock_step env tmp cfg (Acquire a) s =
     (if mb_held s a \<noteq> None then s
      else (case acquire_instance_lock (env_of env tmp a) (cfg a) (mb_world s) of
              (Inl _, w) \<Rightarrow> s\<lparr>mb_world := w\<rparr>
            | (Inr es, w) \<Rightarrow> s\<lparr>mb_world := w, mb_held := (mb_held s)(a \<mapsto> es), mb_old := (mb_old s)(a := [])\<rparr>))"
| "lock_step env tmp cfg (Verify a) s =
     (case mb_held s a of
        None \<Rightarrow> s
      | Some es \<Rightarrow>
          (case verify_locks (env_of env tmp a) es (mb_world s) of
             (ok, es', old, w) \<Rightarrow>
               s\<lparr>mb_world := w, mb_held := (mb_held s)(a \<mapsto> es'), mb_old := (mb_old s)(a := mb_old s a @ old)\<rparr>))"
| "lock_step env tmp cfg (Close a) s =
     (case mb_held s a of
        None \<Rightarrow> s
      | Some es \<Rightarrow> s\<lparr>mb_world := close_handles (map handle_of es @ mb_old s a) (mb_world s),
                      mb_held := (mb_held s)(a := None), mb_old := (mb_old s)(a := [])\<rparr>)"
| "lock_step env tmp cfg (Clean c) s =
     (if durable_name env c then s
      else s\<lparr>mb_world := (mb_world s)\<lparr>lk_inode := (lk_inode (mb_world s))(c := None)\<rparr>\<rparr>)"

definition start_mailbox :: mailbox where
  "start_mailbox = \<lparr>mb_world = no_locks, mb_held = (\<lambda>_. None), mb_old = (\<lambda>_. [])\<rparr>"

definition run_locks :: "lock_env \<Rightarrow> (nat \<Rightarrow> path) \<Rightarrow> (nat \<Rightarrow> json) \<Rightarrow> lock_event list \<Rightarrow> mailbox" where
  "run_locks env tmp cfg es = fold (lock_step env tmp cfg) es start_mailbox"

subsection \<open>What opening and locking change\<close>

definition locks_le :: "locks \<Rightarrow> locks \<Rightarrow> bool" where
  "locks_le w w' =
     ((\<forall>c i. lk_inode w c = Some i \<longrightarrow> lk_inode w' c = Some i)
      \<and> (\<forall>i h. lk_holder w i = Some h \<longrightarrow> lk_holder w' i = Some h)
      \<and> lk_handles w \<le> lk_handles w')"

definition handles_ok :: "locks \<Rightarrow> bool" where
  "handles_ok w = (\<forall>i h. lk_holder w i = Some h \<longrightarrow> h < lk_handles w)"

text \<open>An entry is live when its path names the inode on which its description has the lock.\<close>

definition live :: "lock_env \<Rightarrow> locks \<Rightarrow> held \<Rightarrow> bool" where
  "live env w e = (case e of (p, h, i) \<Rightarrow> lk_inode w (canonical_path env p) = Some i \<and> lk_holder w i = Some h)"

lemma locks_le_refl [simp]: "locks_le w w"
  by (simp add: locks_le_def)

lemma locks_le_trans [trans]: "locks_le u v \<Longrightarrow> locks_le v w \<Longrightarrow> locks_le u w"
  unfolding locks_le_def by auto

lemma live_le: "live env w e \<Longrightarrow> locks_le w w' \<Longrightarrow> live env w' e"
  by (auto simp: live_def locks_le_def split: prod.splits)

lemma open_le: "open_lock_file c w = (i, w') \<Longrightarrow> locks_le w w' \<and> lk_inode w' c = Some i \<and> lk_holder w' = lk_holder w \<and> lk_handles w' = lk_handles w"
  by (auto simp: open_lock_file_def locks_le_def split: option.splits if_splits)

lemma flock_facts:
  assumes "flock_lock_path env p w = (r, w')" "handles_ok w"
  shows "locks_le w w'" "handles_ok w'"
    and "r = Inr e \<Longrightarrow> fst e = p \<and> handle_of e = lk_handles w \<and> lk_handles w' = Suc (lk_handles w) \<and> live env w' e"
proof -
  obtain i w1 where o: "open_lock_file (canonical_path env p) w = (i, w1)" by fastforce
  note facts = open_le [OF o]
  from assms facts show "locks_le w w'" "handles_ok w'"
    "r = Inr e \<Longrightarrow> fst e = p \<and> handle_of e = lk_handles w \<and> lk_handles w' = Suc (lk_handles w) \<and> live env w' e"
    by (auto simp: flock_lock_path_def o locks_le_def handles_ok_def live_def handle_of_def less_SucI split: if_splits)
qed

definition fresh_from :: "nat \<Rightarrow> locks \<Rightarrow> held list \<Rightarrow> bool" where
  "fresh_from n w es = (\<forall>e\<in>set es. n \<le> handle_of e \<and> handle_of e < lk_handles w)"

lemma acquire_paths_facts:
  assumes "acquire_paths env held ps w = (r, w')" "handles_ok w" "fresh_from n w held" "n \<le> lk_handles w"
    and "\<forall>e\<in>set held. live env w e"
  shows "handles_ok w' \<and> lk_handles w \<le> lk_handles w'
    \<and> (\<forall>c i. lk_inode w c = Some i \<longrightarrow> lk_inode w' c = Some i)
    \<and> (\<forall>i h. lk_holder w i = Some h \<longrightarrow> h < n \<longrightarrow> lk_holder w' i = Some h)
    \<and> (case r of Inl _ \<Rightarrow> True
       | Inr es \<Rightarrow> locks_le w w' \<and> map fst es = map fst held @ ps \<and> fresh_from n w' es \<and> (\<forall>e\<in>set es. live env w' e))"
  using assms
proof (induction ps arbitrary: held w)
  case Nil
  then show ?case by (auto simp: live_def)
next
  case (Cons p ps)
  obtain r1 w1 where f: "flock_lock_path env p w = (r1, w1)" by fastforce
  note facts = flock_facts [OF f Cons.prems(2)]
  show ?case
  proof (cases r1)
    case (Inl e)
    with Cons.prems f have w': "w' = close_handles (map handle_of held) w1" "r = Inl e" by auto
    have "lk_holder w' i = Some h" if "lk_holder w i = Some h" "h < n" for i h
      using that facts(1) Cons.prems(3) by (auto simp: w' close_handles_def locks_le_def fresh_from_def)
    moreover have "handles_ok w'" using facts(2) by (auto simp: w' handles_ok_def close_handles_def split: option.splits if_splits)
    ultimately show ?thesis using facts(1) by (simp add: w' close_handles_def locks_le_def)
  next
    case (Inr e)
    note new = facts(3) [OF Inr]
    have "acquire_paths env (held @ [e]) ps w1 = (r, w')" using Cons.prems(1) f Inr by simp
    moreover have "fresh_from n w1 (held @ [e])" using Cons.prems(3,4) new by (auto simp: fresh_from_def)
    moreover have "\<forall>x\<in>set (held @ [e]). live env w1 x" using Cons.prems(5) new live_le [OF _ facts(1)] by auto
    moreover have "n \<le> lk_handles w1" using new Cons.prems(4) by simp
    ultimately have IH: "handles_ok w' \<and> lk_handles w1 \<le> lk_handles w'
      \<and> (\<forall>c i. lk_inode w1 c = Some i \<longrightarrow> lk_inode w' c = Some i)
      \<and> (\<forall>i h. lk_holder w1 i = Some h \<longrightarrow> h < n \<longrightarrow> lk_holder w' i = Some h)
      \<and> (case r of Inl _ \<Rightarrow> True
         | Inr es \<Rightarrow> locks_le w1 w' \<and> map fst es = map fst (held @ [e]) @ ps \<and> fresh_from n w' es \<and> (\<forall>e\<in>set es. live env w' e))"
      using Cons.IH facts(2) by blast
    with facts(1) new show ?thesis
      by (auto simp: locks_le_def split: sum.splits)
  qed
qed

definition holds :: "locks \<Rightarrow> held \<Rightarrow> bool" where
  "holds w e = (lk_holder w (snd (snd e)) = Some (handle_of e))"

lemma live_holds: "live env w e \<Longrightarrow> holds w e"
  by (auto simp: live_def holds_def handle_of_def split: prod.splits)

lemma holds_le: "holds w e \<Longrightarrow> locks_le w w' \<Longrightarrow> holds w' e"
  by (auto simp: holds_def locks_le_def)

lemma verify_facts:
  assumes "verify_locks env es w = (ok, es', old, w')" "handles_ok w" "\<forall>e\<in>set es. holds w e"
  shows "handles_ok w' \<and> locks_le w w' \<and> map fst es' = map fst es
    \<and> (\<forall>h\<in>set (map handle_of es') \<union> set old. h \<in> set (map handle_of es) \<or> (lk_handles w \<le> h \<and> h < lk_handles w'))
    \<and> (\<forall>e\<in>set es'. holds w' e) \<and> (ok \<longrightarrow> (\<forall>e\<in>set es'. live env w' e))
    \<and> (\<forall>e\<in>set es. live env w e \<longrightarrow> e \<in> set es')"
  using assms
proof (induction es arbitrary: w ok es' old w')
  case (Cons e es)
  obtain p h i where e: "e = (p, h, i)" by (cases e)
  consider "\<not> le_reachable env p" | "le_reachable env p" "lk_inode w (canonical_path env p) = Some i"
    | "le_reachable env p" "lk_inode w (canonical_path env p) \<noteq> Some i" by blast
  then show ?case
  proof cases
    case 1
    with Cons.prems show ?thesis by (auto simp: e)
  next
    case 2
    obtain ok1 es1 old1 w1 where v: "verify_locks env es w = (ok1, es1, old1, w1)" by (cases "verify_locks env es w") auto
    from 2 Cons.prems(1) v have eq: "ok = ok1" "es' = e # es1" "old = old1" "w' = w1" by (auto simp: e)
    have "live env w e" using 2 Cons.prems(3) by (simp add: e live_def holds_def handle_of_def)
    with Cons.IH [OF v Cons.prems(2)] Cons.prems(3) show ?thesis
      unfolding eq by (auto intro: live_le holds_le)
  next
    case 3
    obtain r w1 where f: "flock_lock_path env p w = (r, w1)" by fastforce
    note facts = flock_facts [OF f Cons.prems(2)]
    have dead: "\<not> live env w e" using 3 by (simp add: e live_def)
    show ?thesis
    proof (cases r)
      case (Inl x)
      with 3 Cons.prems f facts dead show ?thesis by (auto simp: e intro: holds_le)
    next
      case (Inr l)
      obtain ok1 es1 old1 w2 where v: "verify_locks env es w1 = (ok1, es1, old1, w2)" by (cases "verify_locks env es w1") auto
      from 3 Cons.prems(1) f Inr v have eq: "ok = ok1" "es' = l # es1" "old = h # old1" "w' = w2" by (auto simp: e)
      note new = facts(3) [OF Inr]
      have "\<forall>e\<in>set es. holds w1 e" using Cons.prems(3) facts(1) by (auto intro: holds_le)
      note IH = Cons.IH [OF v facts(2) this]
      have "locks_le w w2" using facts(1) IH locks_le_trans by blast
      moreover have "live env w2 l" using new IH live_le by blast
      moreover have "x \<in> set es1" if "x \<in> set es" "live env w x" for x
        using that IH live_le [OF that(2) facts(1)] by blast
      moreover have "map fst es' = map fst ((p, h, i) # es)" using IH new by (simp add: eq)
      moreover have "\<forall>e\<in>set es'. holds w' e" using IH calculation(2) live_holds by (auto simp: eq)
      moreover have "ok \<longrightarrow> (\<forall>e\<in>set es'. live env w' e)" using IH calculation(2) by (auto simp: eq)
      moreover have "k \<in> set (map handle_of (e # es)) \<or> (lk_handles w \<le> k \<and> k < lk_handles w')"
        if k: "k \<in> set (map handle_of es') \<union> set old" for k
      proof -
        have bounds: "lk_handles w1 = Suc (lk_handles w)" "lk_handles w1 \<le> lk_handles w'" "handle_of l = lk_handles w"
          using IH new by (auto simp: eq locks_le_def)
        consider "k = handle_of l" | "k = h" | "k \<in> set (map handle_of es1) \<union> set old1" using k by (auto simp: eq)
        then show ?thesis
        proof cases
          case 1
          then show ?thesis using bounds by simp
        next
          case 2
          then show ?thesis by (simp add: e handle_of_def)
        next
          case 3
          then have "k \<in> set (map handle_of es) \<or> (lk_handles w1 \<le> k \<and> k < lk_handles w2)" using IH by blast
          then show ?thesis using bounds by (auto simp: eq)
        qed
      qed
      moreover have "\<forall>x\<in>set (e # es). live env w x \<longrightarrow> x \<in> set es'" using calculation(3) dead by (auto simp: eq)
      moreover have "handles_ok w'" using IH by (simp add: eq)
      ultimately show ?thesis unfolding eq(4) [symmetric] e by blast
    qed
  qed
qed simp

subsection \<open>One owner\<close>

definition durable_file :: "lock_env \<Rightarrow> str \<Rightarrow> path" where
  "durable_file env identity = child (le_resolve env (durable_lock_root env)) (le_digest env identity @ ''.lock'')"

lemma child_simps [simp]: "parent (child p n) = p" "path_name (child p n) = n"
  by (simp_all add: child_def parent_def path_name_def)

lemma keep_first_covers: "x \<in> set xs \<Longrightarrow> key x \<notin> set seen \<Longrightarrow> \<exists>y\<in>set (keep_first key seen xs). key y = key x"
proof (induction key seen xs rule: keep_first.induct)
  case (2 key seen y ys)
  then show ?case by (cases "key x = key y") auto
qed simp

lemma env_of_simps [simp]: "canonical_path (env_of env tmp a) = canonical_path env" "live (env_of env tmp a) = live env"
  by (auto simp: canonical_path_def env_of_def live_def fun_eq_iff)

lemma lock_paths_durable:
  assumes "identity \<in> set (mailbox_lock_identities cfg)"
  shows "\<exists>p\<in>set (mailbox_lock_paths (env_of env tmp a) cfg). canonical_path env p = durable_file env identity"
proof -
  let ?p = "child (durable_lock_root env) (le_digest env identity @ ''.lock'')"
  have "?p \<in> set (all_lock_paths (env_of env tmp a) cfg)"
    using assms by (auto simp: all_lock_paths_def lock_roots_def env_of_def durable_lock_root_def)
  from keep_first_covers [OF this, of "canonical_path env" "[]"] show ?thesis
    by (auto simp: mailbox_lock_paths_def canonical_path_def durable_file_def)
qed

definition covered :: "lock_env \<Rightarrow> json \<Rightarrow> locks \<Rightarrow> held list \<Rightarrow> bool" where
  "covered env cfg w es =
     (\<forall>identity\<in>set (mailbox_lock_identities cfg). \<exists>e\<in>set es. canonical_path env (fst e) = durable_file env identity \<and> live env w e)"

definition handles :: "mailbox \<Rightarrow> nat \<Rightarrow> nat set" where
  "handles s a = (case mb_held s a of None \<Rightarrow> {} | Some es \<Rightarrow> set (map handle_of es) \<union> set (mb_old s a))"

definition inv_mailbox :: "lock_env \<Rightarrow> (nat \<Rightarrow> json) \<Rightarrow> mailbox \<Rightarrow> bool" where
  "inv_mailbox env cfg s =
     (handles_ok (mb_world s)
      \<and> (\<forall>a es. mb_held s a = Some es \<longrightarrow> (\<forall>e\<in>set es. holds (mb_world s) e) \<and> covered env (cfg a) (mb_world s) es)
      \<and> (\<forall>a. \<forall>h\<in>handles s a. h < lk_handles (mb_world s))
      \<and> (\<forall>a b. a \<noteq> b \<longrightarrow> handles s a \<inter> handles s b = {}))"

lemma handles_world [simp]: "handles (s\<lparr>mb_world := w\<rparr>) a = handles s a"
  by (simp add: handles_def split: option.split)

lemma handles_update [simp]:
  "handles (s\<lparr>mb_world := w, mb_held := (mb_held s)(a := x), mb_old := (mb_old s)(a := old)\<rparr>) b
     = (if b = a then (case x of None \<Rightarrow> {} | Some es \<Rightarrow> set (map handle_of es) \<union> set old) else handles s b)"
  "handles (s\<lparr>mb_held := (mb_held s)(a := x), mb_old := (mb_old s)(a := old)\<rparr>) b
     = (if b = a then (case x of None \<Rightarrow> {} | Some es \<Rightarrow> set (map handle_of es) \<union> set old) else handles s b)"
  by (auto simp: handles_def split: option.split)

lemma covered_le: "covered env c w es \<Longrightarrow> locks_le w w' \<Longrightarrow> covered env c w' es"
  unfolding covered_def using live_le by blast

text \<open>A world in which the locks of a claimant are kept.\<close>

definition keeps :: "lock_env \<Rightarrow> locks \<Rightarrow> locks \<Rightarrow> held list \<Rightarrow> bool" where
  "keeps env w w' es =
     (\<forall>e\<in>set es. (holds w e \<longrightarrow> holds w' e)
        \<and> (\<forall>identity. canonical_path env (fst e) = durable_file env identity \<longrightarrow> live env w e \<longrightarrow> live env w' e))"

lemma keeps_le: "locks_le w w' \<Longrightarrow> keeps env w w' es"
  unfolding keeps_def using live_le holds_le by blast

lemma keeps_covered: "keeps env w w' es \<Longrightarrow> covered env c w es \<Longrightarrow> covered env c w' es"
  unfolding keeps_def covered_def by blast

lemma inv_world:
  assumes "inv_mailbox env cfg s" "handles_ok w'" "lk_handles (mb_world s) \<le> lk_handles w'"
    and "\<And>a es. mb_held s a = Some es \<Longrightarrow> keeps env (mb_world s) w' es"
  shows "inv_mailbox env cfg (s\<lparr>mb_world := w'\<rparr>)"
proof -
  have "(\<forall>e\<in>set es. holds w' e) \<and> covered env (cfg a) w' es" if h: "mb_held s a = Some es" for a es
  proof -
    from assms(1) h have "(\<forall>e\<in>set es. holds (mb_world s) e)" "covered env (cfg a) (mb_world s) es" by (auto simp: inv_mailbox_def)
    with assms(4) [OF h] keeps_covered show ?thesis unfolding keeps_def by blast
  qed
  moreover have "h < lk_handles w'" if "h \<in> handles s a" for a h
    using assms(1,3) that unfolding inv_mailbox_def by (meson less_le_trans)
  ultimately show ?thesis using assms(1,2) by (auto simp: inv_mailbox_def)
qed

lemma inv_claimant:
  assumes inv: "inv_mailbox env cfg (s\<lparr>mb_world := w'\<rparr>)"
    and es: "\<forall>e\<in>set es. holds w' e" "covered env (cfg a) w' es"
    and new: "\<forall>h\<in>set (map handle_of es) \<union> set old. h \<in> handles s a \<or> (lk_handles (mb_world s) \<le> h \<and> h < lk_handles w')"
    and before: "inv_mailbox env cfg s"
  shows "inv_mailbox env cfg (s\<lparr>mb_world := w', mb_held := (mb_held s)(a \<mapsto> es), mb_old := (mb_old s)(a := old)\<rparr>)"
proof -
  let ?s = "s\<lparr>mb_world := w', mb_held := (mb_held s)(a \<mapsto> es), mb_old := (mb_old s)(a := old)\<rparr>"
  have ha: "handles ?s a = set (map handle_of es) \<union> set old" by simp
  have hb: "handles ?s b = handles s b" if "b \<noteq> a" for b using that by simp
  have lt: "h < lk_handles w'" if "h \<in> handles s b" for h b
    using inv that by (auto simp: inv_mailbox_def)
  have "handles ?s b \<inter> handles ?s c = {}" if "b \<noteq> c" for b c
  proof -
    have sep: "handles s a \<inter> handles s d = {}" "\<forall>h\<in>handles s d. h < lk_handles (mb_world s)" if "d \<noteq> a" for d
      using before that by (auto simp: inv_mailbox_def)
    have "handles ?s a \<inter> handles s d = {}" if "d \<noteq> a" for d
      using sep [OF that] new unfolding ha by fastforce
    moreover have "handles s b \<inter> handles s c = {}" using before that by (auto simp: inv_mailbox_def)
    ultimately show ?thesis using that hb by (cases "b = a"; cases "c = a") auto
  qed
  moreover have "h < lk_handles w'" if "h \<in> handles ?s b" for h b
    using that new lt hb [of b] unfolding ha by (cases "b = a") (auto simp: ha)
  ultimately show ?thesis using inv es by (auto simp: inv_mailbox_def)
qed

lemma handle_held: "mb_held s a = Some es \<Longrightarrow> e \<in> set es \<Longrightarrow> handle_of e \<in> handles s a"
  by (simp add: handles_def)

lemma keeps_holders:
  assumes "\<forall>c i. lk_inode w c = Some i \<longrightarrow> lk_inode w' c = Some i"
    and "\<forall>e\<in>set es. \<forall>i. lk_holder w i = Some (handle_of e) \<longrightarrow> lk_holder w' i = Some (handle_of e)"
  shows "keeps env w w' es"
  using assms unfolding keeps_def live_def holds_def handle_of_def by (auto split: prod.splits)

lemma inv_lock_step:
  assumes inv: "inv_mailbox env cfg s"
  shows "inv_mailbox env cfg (lock_step env tmp cfg ev s)"
proof (cases ev)
  case (Acquire a)
  obtain r w' where acq: "acquire_instance_lock (env_of env tmp a) (cfg a) (mb_world s) = (r, w')" by fastforce
  have ok: "handles_ok (mb_world s)" using inv by (simp add: inv_mailbox_def)
  have small: "handle_of e < lk_handles (mb_world s)" if "mb_held s b = Some es" "e \<in> set es" for b es e
    using inv handle_held [OF that] by (auto simp: inv_mailbox_def)
  note facts = acquire_paths_facts [OF acq [unfolded acquire_instance_lock_def] ok, of "lk_handles (mb_world s)"]
  have "keeps env (mb_world s) w' es" if "mb_held s b = Some es" for b es
    by (rule keeps_holders) (use facts small [OF that] in \<open>auto simp: fresh_from_def\<close>)
  with inv facts have world: "inv_mailbox env cfg (s\<lparr>mb_world := w'\<rparr>)"
    by (intro inv_world) (auto simp: fresh_from_def)
  show ?thesis
  proof (cases r)
    case (Inl e)
    with world inv acq show ?thesis by (simp add: Acquire)
  next
    case (Inr es)
    with facts have es: "map fst es = mailbox_lock_paths (env_of env tmp a) (cfg a)" "\<forall>e\<in>set es. live env w' e"
      and new: "\<forall>e\<in>set es. lk_handles (mb_world s) \<le> handle_of e \<and> handle_of e < lk_handles w'"
      by (auto simp: fresh_from_def)
    have "covered env (cfg a) w' es"
      unfolding covered_def using lock_paths_durable [of _ "cfg a" env tmp a] es by (metis (no_types, lifting) imageE list.set_map)
    moreover have "\<forall>e\<in>set es. holds w' e" using es live_holds by blast
    ultimately have "inv_mailbox env cfg (s\<lparr>mb_world := w', mb_held := (mb_held s)(a \<mapsto> es), mb_old := (mb_old s)(a := [])\<rparr>)"
      using inv_claimant [OF world _ _ _ inv, of es a "[]"] new by auto
    with inv acq Inr show ?thesis by (simp add: Acquire)
  qed
next
  case (Verify a)
  show ?thesis
  proof (cases "mb_held s a")
    case None
    with inv show ?thesis by (simp add: Verify)
  next
    case (Some es)
    obtain ok es' old w' where v: "verify_locks (env_of env tmp a) es (mb_world s) = (ok, es', old, w')"
      by (cases "verify_locks (env_of env tmp a) es (mb_world s)") auto
    have pre: "handles_ok (mb_world s)" "\<forall>e\<in>set es. holds (mb_world s) e" "covered env (cfg a) (mb_world s) es"
      using inv Some by (auto simp: inv_mailbox_def)
    note facts = verify_facts [OF v pre(1,2)]
    have world: "inv_mailbox env cfg (s\<lparr>mb_world := w'\<rparr>)"
      using facts by (intro inv_world [OF inv]) (auto intro: keeps_le simp: locks_le_def)
    have "covered env (cfg a) w' es'"
      using pre(3) facts unfolding covered_def env_of_simps by (meson live_le)
    moreover have "\<forall>h\<in>set (map handle_of es') \<union> set (mb_old s a @ old).
        h \<in> handles s a \<or> (lk_handles (mb_world s) \<le> h \<and> h < lk_handles w')"
      using facts Some by (auto simp: handles_def)
    ultimately show ?thesis using inv_claimant [OF world _ _ _ inv, of es' a "mb_old s a @ old"] facts Some v
      by (auto simp: Verify)
  qed
next
  case (Close a)
  show ?thesis
  proof (cases "mb_held s a")
    case None
    with inv show ?thesis by (simp add: Close)
  next
    case (Some es)
    let ?w = "close_handles (map handle_of es @ mb_old s a) (mb_world s)"
    let ?s = "s\<lparr>mb_held := (mb_held s)(a := None), mb_old := (mb_old s)(a := [])\<rparr>"
    have inv': "inv_mailbox env cfg ?s" using inv by (auto simp: inv_mailbox_def split: if_splits)
    have "keeps env (mb_world ?s) ?w es'" if "mb_held ?s b = Some es'" for b es'
    proof -
      have b: "b \<noteq> a" "mb_held s b = Some es'" using that by (auto split: if_splits)
      have "handles s b \<inter> handles s a = {}" using inv b(1) by (simp add: inv_mailbox_def)
      moreover have "handles s a = set (map handle_of es @ mb_old s a)" by (simp add: handles_def Some)
      ultimately have "handle_of e \<notin> set (map handle_of es @ mb_old s a)" if "e \<in> set es'" for e
        using handle_held [OF b(2) that] by blast
      then show ?thesis by (intro keeps_holders) (auto simp: close_handles_def)
    qed
    with inv' have "inv_mailbox env cfg (?s\<lparr>mb_world := ?w\<rparr>)"
      by (intro inv_world) (auto simp: inv_mailbox_def handles_ok_def close_handles_def split: option.splits if_splits)
    moreover have "?s\<lparr>mb_world := ?w\<rparr> = lock_step env tmp cfg ev s" by (simp add: Close Some)
    ultimately show ?thesis by simp
  qed
next
  case (Clean c)
  show ?thesis
  proof (cases "durable_name env c")
    case False
    have ne: "durable_file env identity \<noteq> c" for identity
      using False by (auto simp: durable_name_def durable_file_def)
    have "keeps env (mb_world s) ((mb_world s)\<lparr>lk_inode := (lk_inode (mb_world s))(c := None)\<rparr>) es" for es
      using ne by (auto simp: keeps_def live_def holds_def split: prod.splits) metis+
    with inv False show ?thesis unfolding Clean
      by (simp, intro inv_world) (auto simp: inv_mailbox_def handles_ok_def)
  qed (use inv in \<open>simp add: Clean\<close>)
qed

interpretation mailbox: machine "lock_step env tmp cfg" "inv_mailbox env cfg" for env tmp cfg
  by unfold_locales (rule inv_lock_step)

lemma inv_run_locks: "inv_mailbox env cfg (run_locks env tmp cfg evs)"
  unfolding run_locks_def
  by (rule mailbox.run_inv) (auto simp: inv_mailbox_def start_mailbox_def no_locks_def handles_ok_def handles_def)

text \<open>C7: A mailbox has one owner: of all processes that claim, verify and give up their locks in any order,
  with different temporary directories and while temporary lock files are cleaned away, two hold their
  locks at the same time only if their configurations have no identity in common (folder, named
  mailbox or bridge instance).\<close>

theorem mailbox_has_one_owner:
  "case (mb_held (run_locks env tmp cfg evs) a, mb_held (run_locks env tmp cfg evs) b) of
     (Some _, Some _) \<Rightarrow> a = b \<or> set (mailbox_lock_identities (cfg a)) \<inter> set (mailbox_lock_identities (cfg b)) = {}
   | _ \<Rightarrow> True"
proof -
  let ?s = "run_locks env tmp cfg evs"
  note inv = inv_run_locks [of env cfg tmp evs]
  have "a = b" if held: "mb_held ?s a = Some es" "mb_held ?s b = Some fs"
    and x: "x \<in> set (mailbox_lock_identities (cfg a))" "x \<in> set (mailbox_lock_identities (cfg b))" for es fs x
  proof -
    have cov: "covered env (cfg a) (mb_world ?s) es" "covered env (cfg b) (mb_world ?s) fs"
      using inv held by (auto simp: inv_mailbox_def)
    from cov(1) x(1) obtain e where e: "e \<in> set es" "canonical_path env (fst e) = durable_file env x" "live env (mb_world ?s) e"
      unfolding covered_def by blast
    from cov(2) x(2) obtain f where f: "f \<in> set fs" "canonical_path env (fst f) = durable_file env x" "live env (mb_world ?s) f"
      unfolding covered_def by blast
    from e(2,3) f(2,3) have "handle_of e = handle_of f" by (auto simp: live_def handle_of_def split: prod.splits)
    with handle_held [OF held(1) e(1)] handle_held [OF held(2) f(1)] have "handles ?s a \<inter> handles ?s b \<noteq> {}" by auto
    with inv show ?thesis unfolding inv_mailbox_def by blast
  qed
  then show ?thesis by (auto split: option.split)
qed

text \<open>After a successful verification every lock path again names the very file on which this process
  holds the lock, whatever was cleaned before; a failed one is reported, never ignored.\<close>

theorem verified_locks_are_held:
  "case mb_held (run_locks env tmp cfg evs) a of None \<Rightarrow> True
   | Some es \<Rightarrow>
       (case verify_locks (env_of env tmp a) es (mb_world (run_locks env tmp cfg evs)) of
          (ok, es', old, w) \<Rightarrow> map fst es' = map fst es \<and> (if ok then list_all (live env w) es' else True))"
proof (cases "mb_held (run_locks env tmp cfg evs) a")
  case (Some es)
  have "handles_ok (mb_world (run_locks env tmp cfg evs))" "\<forall>e\<in>set es. holds (mb_world (run_locks env tmp cfg evs)) e"
    using inv_run_locks [of env cfg tmp evs] Some by (auto simp: inv_mailbox_def)
  from verify_facts [OF _ this, of "env_of env tmp a"] Some show ?thesis by (auto simp: list_all_iff)
qed simp

subsection \<open>A free mailbox\<close>

lemma keep_first_distinct: "distinct (map key (keep_first key seen xs)) \<and> set (map key (keep_first key seen xs)) \<inter> set seen = {}"
  by (induction key seen xs rule: keep_first.induct) auto

text \<open>Inodes without a lock are new, and new inodes belong to no path.\<close>

definition inodes_ok :: "lock_env \<Rightarrow> locks \<Rightarrow> path list \<Rightarrow> bool" where
  "inodes_ok env w ps =
     ((\<forall>p\<in>set ps. lk_inode w (canonical_path env p) = None) \<and> (\<forall>i h. lk_holder w i = Some h \<longrightarrow> i < lk_inodes w))"

definition open_env :: "lock_env \<Rightarrow> lock_env" where
  "open_env env = env\<lparr>le_private_dir := (\<lambda>_. True), le_private_file := (\<lambda>_. True)\<rparr>"

lemma acquire_free:
  assumes "distinct (map (canonical_path env) ps)" "inodes_ok env w ps"
  shows "case fst (acquire_paths (open_env env) held ps w) of Inl _ \<Rightarrow> False | Inr es \<Rightarrow> map fst es = map fst held @ ps"
  using assms
proof (induction ps arbitrary: held w)
  case (Cons p ps)
  define w' where "w' = w\<lparr>lk_inode := (lk_inode w)(canonical_path env p \<mapsto> lk_inodes w), lk_inodes := lk_inodes w + 1,
      lk_holder := (lk_holder w)(lk_inodes w \<mapsto> lk_handles w), lk_handles := lk_handles w + 1\<rparr>"
  have "lk_holder w (lk_inodes w) = None"
    using Cons.prems(2) by (cases "lk_holder w (lk_inodes w)") (auto simp: inodes_ok_def)
  then have f: "flock_lock_path (open_env env) p w = (Inr (p, lk_handles w, lk_inodes w), w')"
    using Cons.prems(2)
    by (simp add: flock_lock_path_def open_env_def open_lock_file_def canonical_path_def inodes_ok_def w'_def)
  have "canonical_path env q \<noteq> canonical_path env p" if "q \<in> set ps" for q
  proof
    assume eq: "canonical_path env q = canonical_path env p"
    from that have "canonical_path env q \<in> canonical_path env ` set ps" by simp
    with eq Cons.prems(1) show False by simp
  qed
  then have "inodes_ok env w' ps" using Cons.prems(2) by (auto simp: inodes_ok_def w'_def less_SucI)
  with Cons.IH [of w' "held @ [(p, lk_handles w, lk_inodes w)]"] Cons.prems(1) f show ?case by (simp split: sum.splits)
qed simp

text \<open>On a mailbox without an owner, with private lock directories, the locks are obtained, all of them and
  in the fixed order of their names: a process never blocks itself through two names of one file.\<close>

theorem free_mailbox_is_acquired:
  "case fst (acquire_instance_lock (open_env env) cfg no_locks) of
     Inl _ \<Rightarrow> False
   | Inr es \<Rightarrow> map fst es = mailbox_lock_paths env cfg \<and> sorted (map (path_str \<circ> fst) es)"
proof -
  have paths: "mailbox_lock_paths (open_env env) cfg = mailbox_lock_paths env cfg"
  proof -
    have "canonical_path (open_env env) = canonical_path env" by (simp add: canonical_path_def open_env_def fun_eq_iff)
    moreover have "all_lock_paths (open_env env) cfg = all_lock_paths env cfg"
      unfolding all_lock_paths_def lock_roots_def open_env_def lock_dir_name_def durable_lock_root_def by simp
    ultimately show ?thesis by (simp add: mailbox_lock_paths_def)
  qed
  have "distinct (map (canonical_path env) (mailbox_lock_paths env cfg))"
    using keep_first_distinct [of "canonical_path env" "[]" "all_lock_paths env cfg"]
    by (simp add: mailbox_lock_paths_def distinct_map inj_on_def)
  moreover have "inodes_ok env no_locks ps" for ps by (simp add: inodes_ok_def no_locks_def)
  ultimately have "case fst (acquire_paths (open_env env) [] (mailbox_lock_paths env cfg) no_locks) of
      Inl _ \<Rightarrow> False | Inr es \<Rightarrow> map fst es = map fst ([] :: held list) @ mailbox_lock_paths env cfg"
    by (rule acquire_free)
  moreover have "sorted (map path_str (mailbox_lock_paths env cfg))" by (simp add: mailbox_lock_paths_def)
  ultimately show ?thesis
    by (auto simp: acquire_instance_lock_def paths simp flip: map_map split: sum.splits)
qed

end
