(* ===== verification/Transport.thy ===== *)
theory Transport
  imports Request
begin

text \<open>
  The mailbox as the executor reaches it (\<open>shell_bridge/bridge.py\<close>: \<open>_rclone_prefix\<close>, \<open>rclone_target\<close>,
  \<open>run_rclone\<close>, \<open>_target\<close>, \<open>ensure_remote_dirs\<close>, \<open>list_requests_cfg\<close> and the copy and delete commands). A
  call of \<open>rclone\<close> is its argument vector; what it answers is a parameter: None when it times out, and
  otherwise the exit status and its standard output as text (None when that is not UTF-8).
\<close>

subsection \<open>Targets\<close>

fun drop_colons :: "str \<Rightarrow> str" where
  "drop_colons s = rev (dropWhile (\<lambda>c. c = CHR '':'') (rev s))"

definition strip_slashes :: "str \<Rightarrow> str" where
  "strip_slashes s = rev (dropWhile (\<lambda>c. c = CHR ''/'') (rev (dropWhile (\<lambda>c. c = CHR ''/'') s)))"

definition rclone_target :: "str \<Rightarrow> str \<Rightarrow> str \<Rightarrow> bool \<Rightarrow> str" where
  "rclone_target remote base leaf root_pinned =
     drop_colons remote @ '':''
     @ join ''/'' (map strip_slashes (filter (\<lambda>p. p \<noteq> []) (if root_pinned then [leaf] else [base, leaf])))"

record remote =
  rm_remote :: str
  rm_base :: str
  rm_root :: "str option"

text \<open>The remote of a configuration that \<open>load_config\<close> accepted: an empty or missing folder is no pinned
  root, and then the base path is a text.\<close>

definition text_at :: "json \<Rightarrow> str \<Rightarrow> str" where
  "text_at cfg k = (case obj_get cfg k of JStr s \<Rightarrow> s | _ \<Rightarrow> [])"

definition remote_of :: "json \<Rightarrow> remote" where
  "remote_of cfg =
     \<lparr>rm_remote = text_at cfg ''remote'', rm_base = text_at cfg ''base_path'',
      rm_root = (if text_at cfg ''drive_root_folder_id'' = [] then None else Some (text_at cfg ''drive_root_folder_id''))\<rparr>"

definition target :: "remote \<Rightarrow> str \<Rightarrow> str" where
  "target r leaf = rclone_target (rm_remote r) (rm_base r) leaf (rm_root r \<noteq> None)"

definition rclone_prefix :: "remote \<Rightarrow> str list" where
  "rclone_prefix r = (case rm_root r of None \<Rightarrow> [] | Some i \<Rightarrow> [''--drive-root-folder-id'', i])"

definition rclone_argv :: "remote \<Rightarrow> str list \<Rightarrow> str list" where
  "rclone_argv r args = ''rclone'' # rclone_prefix r @ args"

subsection \<open>Commands\<close>

type_synonym rclone_answer = "(int \<times> str option) option"

definition run_rclone :: "rclone_answer \<Rightarrow> str + str option" where
  "run_rclone answer =
     (case answer of
        None \<Rightarrow> Inl ''rclone command timed out''
      | Some (rc, out) \<Rightarrow> if rc \<noteq> 0 then Inl ''rclone command failed'' else Inr out)"

definition mkdir_argvs :: "remote \<Rightarrow> str list list" where
  "mkdir_argvs r = map (\<lambda>leaf. rclone_argv r [''mkdir'', target r leaf]) [''requests'', ''results'']"

definition list_argv :: "remote \<Rightarrow> str list" where
  "list_argv r = rclone_argv r [''lsf'', target r ''requests'', ''--files-only'']"

definition fetch_argv :: "remote \<Rightarrow> str \<Rightarrow> str \<Rightarrow> str list" where
  "fetch_argv r name local = rclone_argv r [''copyto'', target r (''requests/'' @ name), local]"

definition publish_argv :: "remote \<Rightarrow> str \<Rightarrow> str \<Rightarrow> str list" where
  "publish_argv r name local = rclone_argv r [''copyto'', local, target r (''results/'' @ name)]"

definition delete_argv :: "remote \<Rightarrow> str \<Rightarrow> str list" where
  "delete_argv r name = rclone_argv r [''deletefile'', target r (''requests/'' @ name)]"

text \<open>\<open>splitlines\<close> yields no last empty line; empty names are dropped anyway.\<close>

definition is_break :: "char \<Rightarrow> bool" where
  "is_break c = (code c \<in> {10, 11, 12, 13, 28, 29, 30, 133})"

fun split_lines :: "str \<Rightarrow> str \<Rightarrow> str list" where
  "split_lines acc [] = [acc]"
| "split_lines acc (c # cs) = (if is_break c then acc # split_lines [] cs else split_lines (acc @ [c]) cs)"

definition request_names :: "str \<Rightarrow> str list" where
  "request_names out =
     filter (\<lambda>n. suffix ''.json'' n \<and> CHR ''/'' \<notin> set n \<and> (case validate_request_name n of Inl _ \<Rightarrow> False | Inr _ \<Rightarrow> True))
       (map py_strip (split_lines [] out))"

definition list_requests_cfg :: "rclone_answer \<Rightarrow> str + str list" where
  "list_requests_cfg answer =
     (case run_rclone answer of
        Inl e \<Rightarrow> Inl e
      | Inr None \<Rightarrow> Inl ''UnicodeDecodeError''
      | Inr (Some out) \<Rightarrow> Inr (sort (request_names out)))"

text \<open>What a listing yields are file names of requests, in sorted order: every name is an identifier with
  the extension, without a slash, and it starts with a letter or a digit, so that no name is an option
  of \<open>rclone\<close> or leaves the directory.\<close>

theorem listed_names_are_requests:
  "case list_requests_cfg answer of
     Inl _ \<Rightarrow> True
   | Inr names \<Rightarrow> sorted names
       \<and> list_all (\<lambda>n. case validate_request_name n of
            Inl _ \<Rightarrow> False
          | Inr rid \<Rightarrow> n = rid @ ''.json'' \<and> slug_head (hd rid) \<and> CHR ''/'' \<notin> set n \<and> rid \<noteq> ''..'') names"
proof (cases answer)
  case (Some a)
  have valid: "n = rid @ ''.json'' \<and> slug_head (hd rid) \<and> rid \<noteq> ''..''" if v: "validate_request_name n = Inr rid" for n rid
  proof -
    from v have s: "suffix ''.json'' n" and rid: "rid = take (length n - 5) n" "rid \<notin> {[], ''.'', ''..''}" "slug_ok rid"
      by (auto simp: validate_request_name_def Let_def split: if_splits)
    from s obtain p where "n = p @ ''.json''" by (auto simp: suffix_def)
    with rid show ?thesis by (cases rid) auto
  qed
  show ?thesis
    by (auto simp: list_requests_cfg_def run_rclone_def Some list_all_iff request_names_def valid split: option.split sum.splits)
qed (simp add: list_requests_cfg_def run_rclone_def)

end
