(* ===== verification/WakeLease.thy ===== *)
theory WakeLease
  imports Machines
begin

text \<open>
  The idle-sleep assertion of the daemon (\<open>shell_bridge/bridge.py\<close>: \<open>WakeLease\<close>). All methods hold one
  lock, so the lease is a state machine over their calls. \<open>spawned\<close> is the process identifier of
  \<open>caffeinate\<close>, None on a host without it; \<open>alive\<close> is what \<open>poll\<close> says of the process; the wall clock
  and the monotonic clock are arguments.
\<close>

datatype lease_state = LeaseOff | LeaseBusy | LeaseGrace

record lease =
  ls_enabled :: bool
  ls_grace :: real
  ls_proc :: "nat option"
  ls_state :: lease_state
  ls_reason :: "str option"
  ls_acquired_at :: "real option"
  ls_idle_since :: "real option"
  ls_release_at :: "real option"

definition new_lease :: "bool \<Rightarrow> real \<Rightarrow> lease" where
  "new_lease enabled grace =
     \<lparr>ls_enabled = enabled, ls_grace = grace, ls_proc = None, ls_state = LeaseOff, ls_reason = None,
      ls_acquired_at = None, ls_idle_since = None, ls_release_at = None\<rparr>"

definition ensure_process :: "nat option \<Rightarrow> real \<Rightarrow> lease \<Rightarrow> lease" where
  "ensure_process spawned now l =
     (if \<not> ls_enabled l \<or> ls_proc l \<noteq> None then l
      else case spawned of None \<Rightarrow> l | Some pid \<Rightarrow> l\<lparr>ls_proc := Some pid, ls_acquired_at := Some now\<rparr>)"

definition acquire :: "nat option \<Rightarrow> real \<Rightarrow> str \<Rightarrow> lease \<Rightarrow> lease" where
  "acquire spawned now reason l =
     (let l' = ensure_process spawned now l in
      if ls_proc l' = None then l'
      else l'\<lparr>ls_state := LeaseBusy, ls_reason := Some reason, ls_idle_since := None, ls_release_at := None\<rparr>)"

definition enter_idle_grace :: "real \<Rightarrow> real \<Rightarrow> lease \<Rightarrow> lease" where
  "enter_idle_grace now clock l =
     (if ls_proc l = None \<or> ls_state l = LeaseGrace then l
      else l\<lparr>ls_state := LeaseGrace, ls_reason := Some ''idle_grace'', ls_idle_since := Some now,
             ls_release_at := Some (clock + max 0 (ls_grace l))\<rparr>)"

definition release_locked :: "lease \<Rightarrow> lease" where
  "release_locked l =
     l\<lparr>ls_proc := None, ls_state := LeaseOff, ls_reason := None, ls_idle_since := None, ls_release_at := None\<rparr>"

definition tick :: "bool \<Rightarrow> real \<Rightarrow> lease \<Rightarrow> lease" where
  "tick alive clock l =
     (let l' = (if ls_proc l \<noteq> None \<and> \<not> alive
                then l\<lparr>ls_proc := None, ls_state := LeaseOff, ls_reason := None, ls_release_at := None\<rparr> else l) in
      case ls_release_at l' of
        None \<Rightarrow> l'
      | Some due \<Rightarrow> if ls_proc l' \<noteq> None \<and> due \<le> clock then release_locked l' else l')"

definition grace_remaining :: "real \<Rightarrow> lease \<Rightarrow> real option" where
  "grace_remaining clock l = map_option (\<lambda>due. max 0 (due - clock)) (ls_release_at l)"

datatype lease_call = CallAcquire "nat option" real str | CallIdle real real | CallTick bool real | CallClose

fun lease_step :: "lease_call \<Rightarrow> lease \<Rightarrow> lease" where
  "lease_step (CallAcquire spawned now reason) l = acquire spawned now reason l"
| "lease_step (CallIdle now clock) l = enter_idle_grace now clock l"
| "lease_step (CallTick alive clock) l = tick alive clock l"
| "lease_step CallClose l = release_locked l"

definition run_lease :: "bool \<Rightarrow> real \<Rightarrow> lease_call list \<Rightarrow> lease" where
  "run_lease enabled grace cs = fold lease_step cs (new_lease enabled grace)"

definition inv_lease :: "lease \<Rightarrow> bool" where
  "inv_lease l =
     ((ls_proc l = None) = (ls_state l = LeaseOff) \<and> (ls_release_at l \<noteq> None) = (ls_state l = LeaseGrace)
      \<and> (ls_reason l = None) = (ls_state l = LeaseOff) \<and> (\<not> ls_enabled l \<longrightarrow> ls_proc l = None))"

lemmas lease_defs = acquire_def ensure_process_def enter_idle_grace_def release_locked_def tick_def Let_def

lemma inv_lease_step: "inv_lease l \<Longrightarrow> inv_lease (lease_step c l)"
  by (cases c) (auto simp: inv_lease_def lease_defs split: option.splits)

interpretation lease: machine lease_step inv_lease
  by unfold_locales (rule inv_lease_step)

lemma inv_run_lease: "inv_lease (run_lease enabled grace cs)"
  unfolding run_lease_def by (rule lease.run_inv) (simp add: inv_lease_def new_lease_def)

text \<open>The lease is consistent after any calls: it holds a process exactly while it is busy or in grace, it
  has a release time exactly in grace, a reason exactly while it is not off, and never a process when
  it is disabled.\<close>

theorem lease_is_consistent:
  "(case ls_state (run_lease enabled grace cs) of
      LeaseOff \<Rightarrow> ls_proc (run_lease enabled grace cs) = None \<and> ls_release_at (run_lease enabled grace cs) = None
        \<and> ls_reason (run_lease enabled grace cs) = None
    | LeaseBusy \<Rightarrow> ls_proc (run_lease enabled grace cs) \<noteq> None \<and> ls_release_at (run_lease enabled grace cs) = None
        \<and> ls_reason (run_lease enabled grace cs) \<noteq> None
    | LeaseGrace \<Rightarrow> ls_proc (run_lease enabled grace cs) \<noteq> None \<and> ls_release_at (run_lease enabled grace cs) \<noteq> None
        \<and> ls_reason (run_lease enabled grace cs) \<noteq> None)
   \<and> (ls_proc (run_lease enabled grace cs) = None \<or> ls_enabled (run_lease enabled grace cs))"
  using inv_run_lease [of enabled grace cs] by (auto simp: inv_lease_def split: lease_state.split)

text \<open>Ticks in between neither shorten nor extend the grace.\<close>

lemma ticks_keep_grace:
  assumes "ls_proc l \<noteq> None" "ls_release_at l = Some due" "list_all (\<lambda>m. m < due) ms"
  shows "fold (tick True) ms l = l"
  using assms(3) by (induction ms) (use assms(1,2) in \<open>auto simp: tick_def\<close>)

text \<open>A held lease that becomes idle is kept for its grace period and released by the first tick after it:
  ticks before the end keep it, one at or after the end gives the process up.\<close>

theorem grace_is_observed:
  "case ls_state (run_lease enabled grace cs) of
     LeaseBusy \<Rightarrow>
       (let l = enter_idle_grace now clock (run_lease enabled grace cs); due = clock + max 0 (ls_grace l) in
          fold (tick True) (filter (\<lambda>m. m < due) ms) l = l
          \<and> ls_state (tick True (due + max 0 d) (fold (tick True) (filter (\<lambda>m. m < due) ms) l)) = LeaseOff)
   | _ \<Rightarrow> True"
proof (cases "ls_state (run_lease enabled grace cs)")
  case LeaseBusy
  let ?l = "enter_idle_grace now clock (run_lease enabled grace cs)"
  have p: "ls_proc ?l \<noteq> None" "ls_release_at ?l = Some (clock + max 0 (ls_grace ?l))"
    using inv_run_lease [of enabled grace cs] LeaseBusy by (auto simp: inv_lease_def enter_idle_grace_def)
  have "fold (tick True) (filter (\<lambda>m. m < clock + max 0 (ls_grace ?l)) ms) ?l = ?l"
    by (rule ticks_keep_grace [OF p]) (simp add: list_all_iff)
  moreover have "ls_state (tick True (clock + max 0 (ls_grace ?l) + max 0 d) ?l) = LeaseOff"
    using p by (simp add: tick_def release_locked_def)
  ultimately show ?thesis by (simp add: LeaseBusy Let_def)
qed simp_all

end
