(* ===== verification/Daemon.thy ===== *)
theory Daemon
  imports JournalGuarantees Transport WakeLease
begin

text \<open>
  The daemon (\<open>shell_bridge/bridge.py\<close>: \<open>_result_state_counts\<close>, \<open>sweep_incomplete_processes\<close>, \<open>_worker\<close>,
  \<open>_signal_shutdown\<close>, \<open>_drain_workers_before_unlock\<close>, \<open>daemon\<close>). The loop is a step relation: its
  position, the names in progress, the threads that still wind down, and the flags. What a listing
  yields, whether the locks verify, when a worker ends and when a signal arrives is not determined.
\<close>

subsection \<open>Counts of the journal\<close>

text \<open>A directory of the journal: not a folder of ours (a link or a file, or with a linked marker), or its
  STARTED marker and its FINISHED marker: unreadable, or the status it states.\<close>

datatype finished_marker = Unsafe | States json

datatype journal_dir = Odd | Folder bool "finished_marker option"

record counts =
  ct_started :: nat
  ct_finished :: nat
  ct_indeterminate :: nat
  ct_unverifiable :: nat

definition no_counts :: counts where
  "no_counts = \<lparr>ct_started = 0, ct_finished = 0, ct_indeterminate = 0, ct_unverifiable = 0\<rparr>"

fun count_marker :: "finished_marker \<Rightarrow> counts \<Rightarrow> counts" where
  "count_marker Unsafe c = c\<lparr>ct_unverifiable := ct_unverifiable c + 1\<rparr>"
| "count_marker (States j) c =
     (if j = JStr ''indeterminate'' then c\<lparr>ct_indeterminate := ct_indeterminate c + 1\<rparr>
      else if j \<noteq> JStr ''completed'' \<and> j \<noteq> JStr ''rejected'' then c\<lparr>ct_unverifiable := ct_unverifiable c + 1\<rparr> else c)"

fun count_dir :: "journal_dir \<Rightarrow> counts \<Rightarrow> counts" where
  "count_dir Odd c = c\<lparr>ct_unverifiable := ct_unverifiable c + 1\<rparr>"
| "count_dir (Folder started finished) c =
     (case finished of
        None \<Rightarrow> if started then c\<lparr>ct_started := ct_started c + 1\<rparr> else c
      | Some m \<Rightarrow> count_marker m (c\<lparr>ct_finished := ct_finished c + 1\<rparr>))"

text \<open>None: there is no journal directory; \<open>Some None\<close>: it cannot be listed.\<close>

definition result_state_counts :: "journal_dir list option option \<Rightarrow> counts" where
  "result_state_counts dirs =
     (case dirs of
        None \<Rightarrow> no_counts
      | Some None \<Rightarrow> no_counts\<lparr>ct_unverifiable := 1\<rparr>
      | Some (Some ds) \<Rightarrow> fold count_dir ds no_counts)"

definition entry_dir :: "entry \<Rightarrow> journal_dir" where
  "entry_dir en = Folder (en_started en \<noteq> None) (map_option (\<lambda>f. States (JStr (fst f))) (en_finished en))"

subsection \<open>The sweep at the start\<close>

definition sweep_entry :: "turn \<Rightarrow> str \<Rightarrow> entry \<Rightarrow> effect list" where
  "sweep_entry t rid en =
     (if en_started en = None \<or> en_finished en \<noteq> None \<or> en_active en = None then []
      else contain_recorded_active t (en_active en) rid @ [DropActive])"

definition sweep_incomplete_processes :: "turn \<Rightarrow> (str \<times> entry) list \<Rightarrow> (str \<times> effect) list \<times> nat" where
  "sweep_incomplete_processes t dirs =
     (concat (map (\<lambda>(rid, en). map (Pair rid) (sweep_entry t rid en)) dirs),
      length (filter (\<lambda>(rid, en). sweep_entry t rid en \<noteq> []) dirs))"

subsection \<open>The loop\<close>

text \<open>\<open>Admitting\<close>: the names of the listing that are still to be looked at. \<open>Checked\<close>: the shutdown flag was
  not set when the loop looked at the name.\<close>

datatype position = Top | Admitting "str list" | Checked str "str list" | Draining | Stopped

text \<open>\<open>dm_active\<close> are the active names, \<open>dm_winding\<close> the threads that have discarded their name but still
  live, \<open>dm_admitted\<close> what was admitted so far.\<close>

record daemon =
  dm_at :: position
  dm_active :: "str list"
  dm_winding :: nat
  dm_shutdown :: bool
  dm_lost :: bool
  dm_locked :: bool
  dm_admitted :: "str list"

definition start_daemon :: daemon where
  "start_daemon = \<lparr>dm_at = Top, dm_active = [], dm_winding = 0, dm_shutdown = False, dm_lost = False, dm_locked = True, dm_admitted = []\<rparr>"

inductive daemon_step :: "nat \<Rightarrow> daemon \<Rightarrow> daemon \<Rightarrow> bool" for limit where
  top_stop: "dm_at s = Top \<Longrightarrow> dm_shutdown s \<Longrightarrow> daemon_step limit s (s\<lparr>dm_at := Draining\<rparr>)"
| top_lost: "dm_at s = Top \<Longrightarrow> \<not> dm_shutdown s \<Longrightarrow> daemon_step limit s (s\<lparr>dm_at := Draining, dm_lost := True\<rparr>)"
| top_list: "dm_at s = Top \<Longrightarrow> \<not> dm_shutdown s \<Longrightarrow> list_requests_cfg answer = Inr names \<Longrightarrow>
    daemon_step limit s (s\<lparr>dm_at := Admitting names\<rparr>)"
| top_error: "dm_at s = Top \<Longrightarrow> \<not> dm_shutdown s \<Longrightarrow> list_requests_cfg answer = Inl e \<Longrightarrow>
    daemon_step limit s (s\<lparr>dm_at := Admitting []\<rparr>)"
| admit_none: "dm_at s = Admitting [] \<Longrightarrow> daemon_step limit s (s\<lparr>dm_at := Top\<rparr>)"
| admit_stop: "dm_at s = Admitting (n # ns) \<Longrightarrow> dm_shutdown s \<Longrightarrow> daemon_step limit s (s\<lparr>dm_at := Top\<rparr>)"
| admit_check: "dm_at s = Admitting (n # ns) \<Longrightarrow> \<not> dm_shutdown s \<Longrightarrow> daemon_step limit s (s\<lparr>dm_at := Checked n ns\<rparr>)"
| admit_skip: "dm_at s = Checked n ns \<Longrightarrow> n \<in> set (dm_active s) \<Longrightarrow> daemon_step limit s (s\<lparr>dm_at := Admitting ns\<rparr>)"
| admit_full: "dm_at s = Checked n ns \<Longrightarrow> n \<notin> set (dm_active s) \<Longrightarrow> limit \<le> length (dm_active s) \<Longrightarrow>
    daemon_step limit s (s\<lparr>dm_at := Top\<rparr>)"
| admit: "dm_at s = Checked n ns \<Longrightarrow> n \<notin> set (dm_active s) \<Longrightarrow> length (dm_active s) < limit \<Longrightarrow>
    daemon_step limit s (s\<lparr>dm_at := Admitting ns, dm_active := n # dm_active s, dm_admitted := n # dm_admitted s\<rparr>)"
| worker_done: "n \<in> set (dm_active s) \<Longrightarrow>
    daemon_step limit s (s\<lparr>dm_active := removeAll n (dm_active s), dm_winding := Suc (dm_winding s)\<rparr>)"
| thread_exit: "dm_winding s = Suc k \<Longrightarrow> daemon_step limit s (s\<lparr>dm_winding := k\<rparr>)"
| signal: "\<not> dm_shutdown s \<Longrightarrow> dm_at s \<noteq> Stopped \<Longrightarrow> daemon_step limit s (s\<lparr>dm_shutdown := True\<rparr>)"
| drained: "dm_at s = Draining \<Longrightarrow> dm_active s = [] \<Longrightarrow> dm_winding s = 0 \<Longrightarrow>
    daemon_step limit s (s\<lparr>dm_at := Stopped, dm_shutdown := True, dm_locked := False\<rparr>)"

inductive daemon_run :: "nat \<Rightarrow> daemon \<Rightarrow> daemon \<Rightarrow> bool" for limit where
  here: "daemon_run limit s s"
| onward: "daemon_run limit s t \<Longrightarrow> daemon_step limit t u \<Longrightarrow> daemon_run limit s u"

inductive_cases daemon_stepE: "daemon_step limit s t"

subsection \<open>What the loop guarantees\<close>

definition valid_name :: "str \<Rightarrow> bool" where
  "valid_name n = (case validate_request_name n of Inl _ \<Rightarrow> False | Inr _ \<Rightarrow> True)"

definition inv_daemon :: "nat \<Rightarrow> daemon \<Rightarrow> bool" where
  "inv_daemon limit s =
     (distinct (dm_active s) \<and> length (dm_active s) \<le> limit \<and> dm_locked s = (dm_at s \<noteq> Stopped)
      \<and> (dm_at s = Stopped \<longrightarrow> dm_active s = [] \<and> dm_winding s = 0)
      \<and> (dm_at s = Draining \<longrightarrow> dm_shutdown s \<or> dm_lost s)
      \<and> list_all valid_name (dm_admitted s)
      \<and> (case dm_at s of
           Admitting ns \<Rightarrow> list_all valid_name ns
         | Checked n ns \<Rightarrow> list_all valid_name (n # ns)
         | _ \<Rightarrow> True))"

lemma listing_valid:
  "list_requests_cfg answer = Inr names \<Longrightarrow> list_all valid_name names"
  by (auto simp: list_requests_cfg_def request_names_def list_all_iff valid_name_def split: sum.splits option.splits)

lemma length_removeAll: "length xs \<le> n \<Longrightarrow> length (removeAll x xs) \<le> n"
  unfolding removeAll_filter_not_eq by (rule le_trans [OF length_filter_le])

lemma inv_daemon_step: "daemon_step limit s t \<Longrightarrow> inv_daemon limit s \<Longrightarrow> inv_daemon limit t"
proof (induction rule: daemon_step.induct)
  case (worker_done n s)
  then have "dm_at s \<noteq> Stopped" by (auto simp: inv_daemon_def)
  with worker_done show ?case
    by (auto simp: inv_daemon_def distinct_removeAll length_removeAll split: position.splits)
next
  case (thread_exit s k)
  then have "dm_at s \<noteq> Stopped" by (auto simp: inv_daemon_def)
  with thread_exit show ?case by (auto simp: inv_daemon_def split: position.splits)
qed (auto simp: inv_daemon_def listing_valid split: position.splits)

lemma inv_daemon_run: "daemon_run limit s t \<Longrightarrow> inv_daemon limit s \<Longrightarrow> inv_daemon limit t"
  by (induction rule: daemon_run.induct) (auto intro: inv_daemon_step)

lemma inv_daemon_start: "inv_daemon limit start_daemon"
  by (simp add: inv_daemon_def start_daemon_def)

text \<open>C37: The daemon keeps its bounds at every moment: never more workers than the limit, at most one for each
  name, only valid names, and the mailbox locks are given up only when no worker and no thread of a
  worker is left.\<close>

theorem daemon_keeps_bounds:
  assumes "daemon_run limit start_daemon s"
  shows "distinct (dm_active s) \<and> length (dm_active s) \<le> limit
    \<and> list_all valid_name (dm_admitted s)
    \<and> (dm_locked s \<or> (dm_active s = [] \<and> dm_winding s = 0))"
  using inv_daemon_run [OF assms inv_daemon_start] by (auto simp: inv_daemon_def)

theorem daemon_keeps_bounds_witness:
  "length (dm_active (start_daemon\<lparr>dm_shutdown := True\<rparr>)) \<le> 4"
proof -
  have "daemon_run 4 start_daemon (start_daemon\<lparr>dm_shutdown := True\<rparr>)"
    by (rule daemon_run.onward [OF daemon_run.here daemon_step.signal]) (simp_all add: start_daemon_def)
  from daemon_keeps_bounds [OF this] show ?thesis by blast
qed

subsection \<open>Shutdown\<close>

fun position_rank :: "position \<Rightarrow> nat" where
  "position_rank Stopped = 0"
| "position_rank Draining = 1"
| "position_rank Top = 2"
| "position_rank (Admitting _) = 3"
| "position_rank (Checked _ _) = 6"

definition drain_measure :: "daemon \<Rightarrow> nat" where
  "drain_measure s = position_rank (dm_at s) + 2 * length (dm_active s) + dm_winding s"

lemma drain_step: "daemon_step limit s t \<Longrightarrow> dm_shutdown s \<Longrightarrow> dm_shutdown t \<and> drain_measure t < drain_measure s"
proof (induction rule: daemon_step.induct)
  case (worker_done n s)
  then have "length (removeAll n (dm_active s)) < length (dm_active s)" by (simp add: length_removeAll_less)
  with worker_done show ?case by (simp add: drain_measure_def)
qed (simp_all add: drain_measure_def)

lemma drain_progress:
  assumes "dm_shutdown s" "dm_at s \<noteq> Stopped"
  shows "\<exists>t. daemon_step limit s t"
proof (cases "dm_at s")
  case Top
  with assms(1) show ?thesis by (blast intro: daemon_step.top_stop)
next
  case (Admitting ns)
  with assms(1) show ?thesis by (cases ns) (blast intro: daemon_step.admit_none daemon_step.admit_stop)+
next
  case (Checked n ns)
  show ?thesis
  proof (cases "n \<in> set (dm_active s)")
    case True
    from daemon_step.admit_skip [OF Checked True] show ?thesis by blast
  next
    case False
    with Checked show ?thesis
      by (cases "length (dm_active s) < limit") (auto intro: daemon_step.admit daemon_step.admit_full simp: not_less)
  qed
next
  case Draining
  show ?thesis
  proof (cases "dm_active s")
    case Nil
    with Draining show ?thesis by (cases "dm_winding s") (blast intro: daemon_step.drained daemon_step.thread_exit)+
  next
    case (Cons n ns)
    then have "n \<in> set (dm_active s)" by simp
    then show ?thesis by (blast intro: daemon_step.worker_done)
  qed
qed (use assms in simp)

text \<open>C38: After a shutdown signal the daemon drains: the flag stays set, every further step brings it nearer to
  its end by a measure that bounds their number, and it is stuck nowhere before it has stopped.\<close>

theorem shutdown_drains:
  assumes "dm_shutdown s"
  shows "(\<forall>t\<in>{t. daemon_step limit s t}. dm_shutdown t \<and> drain_measure t < drain_measure s)
    \<and> (dm_at s = Stopped \<or> (\<exists>t. daemon_step limit s t))"
  using drain_step [OF _ assms] drain_progress [OF assms] by blast

theorem shutdown_drains_witness:
  "\<exists>t. daemon_step 4 (start_daemon\<lparr>dm_shutdown := True\<rparr>) t"
proof -
  have "dm_shutdown (start_daemon\<lparr>dm_shutdown := True\<rparr>)" by simp
  from shutdown_drains [OF this, of 4] show ?thesis by (simp add: start_daemon_def)
qed

subsection \<open>Counts\<close>

fun proper_status :: "effect \<Rightarrow> bool" where
  "proper_status (SaveFinished st _) = (st \<in> {''completed'', ''rejected'', ''indeterminate''})"
| "proper_status _ = True"

definition proper :: "effect list \<Rightarrow> bool" where
  "proper es = list_all proper_status es"

lemma proper_simps [simp]: "proper []" "proper (e # es) = (proper_status e \<and> proper es)" "proper (es @ fs) = (proper es \<and> proper fs)"
  by (simp_all add: proper_def)

lemma proper_publish [simp]:
  "proper (settle_request t rid sha ''rejected'' x)" "proper (settle_request t rid sha ''indeterminate'' x)"
  "proper (settle_request t rid sha ''completed'' x)" "proper (write_upload_delete f r)" "proper (publish_stored r)"
  by (simp_all add: publish_defs)

lemma proper_contain [simp]: "proper (contain_recorded_active t m rid)"
  by (auto simp: contain_recorded_active_def split: option.split)

lemma proper_result [simp]: "proper (execution_result t sha v pl c out)"
  by (simp add: execution_result_def Let_def split: sum.split)

lemma proper_execute: "proper (execute_request t cfg lm sha v pl c argv)"
  by (auto simp: execute_request_def split: prod.split option.split)

lemma proper_admit: "proper (admit_and_run t cfg lm rid name raw)"
  by (auto simp: admit_and_run_def Let_def proper_execute split: sum.split verdict.split)

lemma proper_process: "proper (process_claimed t cfg rid name raw en)"
  by (auto simp: process_claimed_def Let_def proper_admit split: option.split prod.split)

definition status_ok :: "entry \<Rightarrow> bool" where
  "status_ok en = (case en_finished en of None \<Rightarrow> True | Some f \<Rightarrow> fst f \<in> {''completed'', ''rejected'', ''indeterminate''})"

definition inv_status :: "sys \<Rightarrow> bool" where
  "inv_status s = (\<forall>rid. status_ok (sy_entry s rid) \<and> (case sy_todo s rid of None \<Rightarrow> True | Some es \<Rightarrow> proper es))"

lemma status_apply: "status_ok en \<Longrightarrow> proper_status e \<Longrightarrow> status_ok (apply_effect e en)"
  by (cases e) (auto simp: status_ok_def)

lemma inv_status_act: "inv_status s \<Longrightarrow> inv_status (act_step a s)"
proof (cases a)
  case (Perform rid)
  assume inv: "inv_status s"
  show ?thesis
  proof (cases rule: perform_cases [of rid s])
    case (3 e es)
    from inv 3(1) have "status_ok (sy_entry s rid)" "proper (e # es)" unfolding inv_status_def by (metis option.case(2))+
    with inv 3 status_apply show ?thesis by (auto simp: Perform inv_status_def)
  qed (use inv in \<open>auto simp: Perform inv_status_def\<close>)
qed (auto simp: inv_status_def claim_request_def proper_process split: sum.split option.split)

lemma inv_status_run: "inv_status (run_acts as)"
proof -
  have "inv_status s \<Longrightarrow> inv_status (fold act_step as s)" for s
    by (induction as arbitrary: s) (auto intro: inv_status_act)
  then show ?thesis by (simp add: run_acts_def inv_status_def start_sys_def status_ok_def empty_entry_def)
qed

lemma count_entries:
  assumes "\<forall>en\<in>set ens. status_ok en"
  shows "fold count_dir (map entry_dir ens) c =
    \<lparr>ct_started = ct_started c + length (filter (\<lambda>en. en_started en \<noteq> None \<and> en_finished en = None) ens),
     ct_finished = ct_finished c + length (filter (\<lambda>en. en_finished en \<noteq> None) ens),
     ct_indeterminate = ct_indeterminate c
       + length (filter (\<lambda>en. case en_finished en of None \<Rightarrow> False | Some f \<Rightarrow> fst f = ''indeterminate'') ens),
     ct_unverifiable = ct_unverifiable c\<rparr>"
  using assms
proof (induction ens arbitrary: c)
  case (Cons en ens)
  then show ?case by (auto simp: entry_dir_def status_ok_def split: option.splits)
qed simp

text \<open>The counts that the health report shows are exact on the executor's own journal, after any run of its
  handlers, crashes included: they count the started requests without a result, the finished ones, and
  among those the indeterminate ones, and nothing the executor wrote is unverifiable.\<close>

theorem health_counts_are_exact:
  "result_state_counts (Some (Some (map (\<lambda>rid. entry_dir (sy_entry (run_acts as) rid)) rids))) =
    \<lparr>ct_started = length (filter (\<lambda>rid. en_started (sy_entry (run_acts as) rid) \<noteq> None \<and> en_finished (sy_entry (run_acts as) rid) = None) rids),
     ct_finished = length (filter (\<lambda>rid. en_finished (sy_entry (run_acts as) rid) \<noteq> None) rids),
     ct_indeterminate = length (filter (\<lambda>rid. case en_finished (sy_entry (run_acts as) rid) of
         None \<Rightarrow> False | Some f \<Rightarrow> fst f = ''indeterminate'') rids),
     ct_unverifiable = 0\<rparr>"
proof -
  have "\<forall>en\<in>set (map (sy_entry (run_acts as)) rids). status_ok en" using inv_status_run [of as] by (simp add: inv_status_def)
  from count_entries [OF this, of no_counts] show ?thesis
    by (simp add: result_state_counts_def no_counts_def comp_def filter_map)
qed

end
