(* ===== verification/BrowserApi.thy ===== *)
theory BrowserApi
  imports HarnessProtocol
begin

text \<open>
  The loopback HTTP interface of the browser extension (\<open>harness/browser_api.py\<close>). A request is its
  method, the path of its target, the headers that are read and the bytes behind it; \<open>parse\<close> decodes a
  body and reads JSON (\<open>Inl\<close> is the text of the exception). A response is its status, its JSON body and
  its CORS header. Two clock readings serve the two transactions of a request.
\<close>

datatype http_method = GET | POST | OPTIONS

record http_request =
  ht_method :: http_method
  ht_path :: str
  ht_origin :: "str option"
  ht_authorization :: str
  ht_length :: str
  ht_body :: str

record http_response =
  rs_status :: nat
  rs_body :: "json option"
  rs_cors :: "str option"

definition bind_address_ok :: "str \<Rightarrow> bool" where
  "bind_address_ok host = (host \<in> {''127.0.0.1'', ''localhost''})"

definition max_body :: int where
  "max_body = 64 * 1024"

definition allowed_origin_prefixes :: "str list" where
  "allowed_origin_prefixes = [''safari-web-extension://'', ''chrome-extension://'', ''moz-extension://'']"

definition allowed_origin :: "http_request \<Rightarrow> str option" where
  "allowed_origin r =
     (case ht_origin r of
        None \<Rightarrow> None
      | Some s \<Rightarrow> if s \<noteq> [] \<and> list_ex (\<lambda>p. prefix p s) allowed_origin_prefixes then Some s else None)"

definition send :: "http_request \<Rightarrow> nat \<Rightarrow> json \<Rightarrow> http_response" where
  "send r status payload = \<lparr>rs_status = status, rs_body = Some payload, rs_cors = allowed_origin r\<rparr>"

definition failed :: "str \<Rightarrow> json" where
  "failed message = JObj [(''ok'', JBool False), (''error'', JStr message)]"

fun herror_text :: "herror \<Rightarrow> str" where
  "herror_text (ValidationError m) = m"
| "herror_text (NotFound m) = m"
| "herror_text (Conflict m) = m"
| "herror_text IntegrityError = []"

text \<open>\<open>IntegrityError\<close> is the database's own exception: no handler catches it, and no response is sent.\<close>

definition refuse :: "http_request \<Rightarrow> nat \<Rightarrow> herror \<Rightarrow> http_response option" where
  "refuse r status e = (if e = IntegrityError then None else Some (send r status (failed (herror_text e))))"

definition read_body :: "(str \<Rightarrow> str + json) \<Rightarrow> http_request \<Rightarrow> str + json" where
  "read_body parse r =
     (case py_int_str (ht_length r) of
        None \<Rightarrow> Inl ''invalid content length''
      | Some n \<Rightarrow>
          if n < 0 \<or> max_body < n then Inl ''request body too large''
          else (case parse (take (nat n) (ht_body r)) of
                  Inl e \<Rightarrow> Inl e
                | Inr j \<Rightarrow> if is_JObj j then Inr j else Inl ''JSON body must be an object''))"

definition bearer :: "http_request \<Rightarrow> str option" where
  "bearer r = (if prefix ''Bearer '' (ht_authorization r) then Some (drop 7 (ht_authorization r)) else None)"

fun truthy :: "json \<Rightarrow> bool" where
  "truthy JNull = False"
| "truthy (JBool b) = b"
| "truthy (JInt i) = (i \<noteq> 0)"
| "truthy (JFloat x) = (x \<noteq> 0)"
| "truthy (JStr s) = (s \<noteq> [])"
| "truthy (JList xs) = (xs \<noteq> [])"
| "truthy (JObj kvs) = (kvs \<noteq> [])"

definition opt_text :: "str option \<Rightarrow> json" where
  "opt_text v = (case v of None \<Rightarrow> JNull | Some s \<Rightarrow> JStr s)"

definition item_pairs :: "handoff_item \<Rightarrow> (str \<times> json) list" where
  "item_pairs i =
     [(''handoff_id'', JStr (hi_handoff_id i)), (''job_id'', JStr (hi_job_id i)), (''title'', JStr (hi_title i)),
      (''created_at'', JFloat (hi_created_at i)), (''expires_at'', JFloat (hi_expires_at i)),
      (''next_action'', opt_text (hi_next_action i)), (''lifecycle'', JStr (lifecycle_str (hi_lifecycle i))),
      (''prompt'', JStr (hi_prompt i))]
     @ (case hi_new_reservation i of
          None \<Rightarrow> []
        | Some b \<Rightarrow> [(''new_reservation'', JBool b),
             (''starting_expires_at'', case hi_starting_expires_at i of None \<Rightarrow> JNull | Some t \<Rightarrow> JFloat t)])"

definition pending_payload :: "str \<Rightarrow> handoff_item list \<Rightarrow> json" where
  "pending_payload client items =
     JObj [(''ok'', JBool True), (''client_id'', JStr client),
       (''pending'', JList (map (\<lambda>i. JObj (filter (\<lambda>kv. fst kv \<noteq> ''prompt'') (item_pairs i))) items))]"

subsection \<open>The handlers\<close>

definition do_OPTIONS :: "http_request \<Rightarrow> http_response" where
  "do_OPTIONS r =
     (if allowed_origin r = None then send r 403 (failed ''extension origin required'')
      else \<lparr>rs_status = 204, rs_body = None, rs_cors = allowed_origin r\<rparr>)"

definition do_GET :: "(str \<Rightarrow> str) \<Rightarrow> http_request \<Rightarrow> real \<times> real \<Rightarrow> db \<Rightarrow> http_response option \<times> db" where
  "do_GET sha r now d =
     (if ht_path r = ''/health''
      then (Some (send r 200 (JObj [(''ok'', JBool True), (''service'', JStr ''chatgpt-conversation-harness-v1''), (''protocol'', JInt 1)])), d)
      else if ht_path r \<noteq> ''/v1/pending'' then (Some (send r 404 (failed ''not found'')), d)
      else if allowed_origin r = None then (Some (send r 403 (failed ''extension origin required'')), d)
      else (case bearer r of
              None \<Rightarrow> (Some (send r 401 (failed ''bearer token required'')), d)
            | Some token \<Rightarrow>
                if token = [] then (Some (send r 401 (failed ''bearer token required'')), d)
                else (case transaction (authenticate_browser sha (JStr token) (fst now)) d of
                        (Inl e, d1) \<Rightarrow> (refuse r 401 e, d1)
                      | (Inr client, d1) \<Rightarrow>
                          (case transaction (pending_reentries (snd now)) d1 of
                             (Inl e, d2) \<Rightarrow> (refuse r 401 e, d2)
                           | (Inr items, d2) \<Rightarrow> (Some (send r 200 (pending_payload client items)), d2)))))"

definition post_pair :: "(str \<Rightarrow> str) \<Rightarrow> str \<Rightarrow> http_request \<Rightarrow> json \<Rightarrow> real \<Rightarrow> db \<Rightarrow> http_response option \<times> db" where
  "post_pair sha fresh r body now d =
     (case transaction (consume_pairing_code sha (obj_get body ''code'') (obj_get body ''client_id'') fresh now) d of
        (Inl e, d1) \<Rightarrow> (refuse r 403 e, d1)
      | (Inr (token, client), d1) \<Rightarrow>
          (Some (send r 200 (JObj [(''ok'', JBool True), (''token'', JStr token), (''client_id'', JStr client)])), d1))"

definition post_action :: "http_request \<Rightarrow> json \<Rightarrow> str \<Rightarrow> real \<Rightarrow> db \<Rightarrow> http_response option \<times> db" where
  "post_action r body client now d =
     (if ht_path r = ''/v1/pending''
      then (case transaction (pending_reentries now) d of
              (Inl e, d1) \<Rightarrow> (refuse r 409 e, d1)
            | (Inr items, d1) \<Rightarrow> (Some (send r 200 (pending_payload client items)), d1))
      else if ht_path r = ''/v1/open-next''
      then (case transaction (reserve_reentry (JStr client) (obj_get_default body ''ttl'' (JFloat 300)) now) d of
              (Inl e, d1) \<Rightarrow> (refuse r 409 e, d1)
            | (Inr item, d1) \<Rightarrow>
                (Some (send r 200 (JObj [(''ok'', JBool True), (''client_id'', JStr client),
                   (''item'', case item of None \<Rightarrow> JNull | Some i \<Rightarrow> JObj (item_pairs i))])), d1))
      else (case transaction (release_reentry (JStr client) (obj_get body ''handoff_id'') now) d of
              (Inl e, d1) \<Rightarrow> (refuse r 409 e, d1)
            | (Inr hid, d1) \<Rightarrow>
                (Some (send r 200 (JObj [(''ok'', JBool True), (''client_id'', JStr client),
                   (''released'', JBool True), (''handoff_id'', JStr hid)])), d1)))"

definition post_paths :: "str list" where
  "post_paths = [''/pair'', ''/v1/pending'', ''/v1/open-next'', ''/v1/release-start'']"

definition post_token :: "http_request \<Rightarrow> json \<Rightarrow> json" where
  "post_token r body = (case bearer r of Some t \<Rightarrow> if t = [] then obj_get body ''token'' else JStr t | None \<Rightarrow> obj_get body ''token'')"

definition do_POST ::
  "(str \<Rightarrow> str) \<Rightarrow> (str \<Rightarrow> str + json) \<Rightarrow> str \<Rightarrow> http_request \<Rightarrow> real \<times> real \<Rightarrow> db \<Rightarrow> http_response option \<times> db" where
  "do_POST sha parse fresh r now d =
     (if ht_path r \<notin> set post_paths then (Some (send r 404 (failed ''not found'')), d)
      else if allowed_origin r = None then (Some (send r 403 (failed ''extension origin required'')), d)
      else (case read_body parse r of
              Inl e \<Rightarrow> (Some (send r 400 (failed e)), d)
            | Inr body \<Rightarrow>
                if ht_path r = ''/pair'' then post_pair sha fresh r body (fst now) d
                else (let token = post_token r body in
                      if \<not> truthy token then (Some (send r 401 (failed ''browser token required'')), d)
                      else (case transaction (authenticate_browser sha token (fst now)) d of
                              (Inl e, d1) \<Rightarrow> (refuse r 401 e, d1)
                            | (Inr client, d1) \<Rightarrow> post_action r body client (snd now) d1))))"

definition serve ::
  "(str \<Rightarrow> str) \<Rightarrow> (str \<Rightarrow> str + json) \<Rightarrow> str \<Rightarrow> http_request \<Rightarrow> real \<times> real \<Rightarrow> db \<Rightarrow> http_response option \<times> db" where
  "serve sha parse fresh r now d =
     (case ht_method r of
        GET \<Rightarrow> do_GET sha r now d
      | POST \<Rightarrow> do_POST sha parse fresh r now d
      | OPTIONS \<Rightarrow> (Some (do_OPTIONS r), d))"

subsection \<open>The gate\<close>

definition token_known :: "(str \<Rightarrow> str) \<Rightarrow> json \<Rightarrow> db \<Rightarrow> bool" where
  "token_known sha token d = (case authenticate_browser sha token 0 d of Inl _ \<Rightarrow> False | Inr _ \<Rightarrow> True)"

text \<open>A pairing attempt from an extension, and a request from an extension with a current token.\<close>

definition pairs :: "http_request \<Rightarrow> bool" where
  "pairs r = (ht_method r = POST \<and> ht_path r = ''/pair'' \<and> allowed_origin r \<noteq> None)"

definition presents_token :: "(str \<Rightarrow> str) \<Rightarrow> (str \<Rightarrow> str + json) \<Rightarrow> http_request \<Rightarrow> db \<Rightarrow> bool" where
  "presents_token sha parse r d =
     (allowed_origin r \<noteq> None
      \<and> (case ht_method r of
           GET \<Rightarrow> (case bearer r of None \<Rightarrow> False | Some t \<Rightarrow> token_known sha (JStr t) d)
         | POST \<Rightarrow> (case read_body parse r of Inl _ \<Rightarrow> False | Inr body \<Rightarrow> token_known sha (post_token r body) d)
         | OPTIONS \<Rightarrow> False))"

lemma authenticate_unknown:
  "\<not> token_known sha token d \<Longrightarrow> authenticate_browser sha token now d = Inl (Conflict ''invalid browser token'')"
  by (auto simp: token_known_def authenticate_browser_def bindE_def split: json.splits option.splits sum.splits if_splits)

lemma empty_unknown: "\<not> token_known sha token empty_db"
  by (auto simp: token_known_def authenticate_browser_def bindE_def empty_db_def split: json.splits)

lemma serve_unknown:
  assumes "\<not> pairs r" "\<not> presents_token sha parse r d"
  shows "serve sha parse fresh r now d = (fst (serve sha parse fresh r now empty_db), d)"
proof (cases "ht_method r")
  case GET
  with assms(2) show ?thesis
    by (auto simp: serve_def do_GET_def presents_token_def transaction_def authenticate_unknown empty_unknown split: option.splits)
next
  case POST
  with assms show ?thesis
    by (auto simp: serve_def do_POST_def pairs_def presents_token_def transaction_def authenticate_unknown empty_unknown Let_def
        split: sum.splits)
qed (simp add: serve_def)

text \<open>C18: The browser interface is closed to strangers: a request that is neither a pairing attempt of an
  extension nor from an extension with a current token changes nothing, and its answer is the one an
  empty database gives, whatever the database holds.\<close>

theorem browser_interface_is_closed:
  "if pairs r then True else if presents_token sha parse r d then True
   else serve sha parse fresh r now d = (fst (serve sha parse fresh r now empty_db), d)"
  using serve_unknown by auto

text \<open>Whatever its path, a request that reveals a nonce of a handoff reserves it: listings of pending
  handoffs, by either method, never contain the prompt, which holds the nonce.\<close>

theorem listings_hide_prompts:
  "case fst (serve sha parse fresh r now d) of
     None \<Rightarrow> True
   | Some resp \<Rightarrow>
       if ht_path r = ''/v1/pending''
       then (case rs_body resp of
               None \<Rightarrow> True
             | Some body \<Rightarrow>
                 (case obj_get body ''pending'' of
                    JList items \<Rightarrow> list_all (\<lambda>i. ''prompt'' \<notin> set (obj_keys i)) items
                  | j \<Rightarrow> j = JNull))
       else True"
proof -
  have hidden: "case obj_get (pending_payload client items) ''pending'' of
      JList items \<Rightarrow> list_all (\<lambda>i. ''prompt'' \<notin> set (obj_keys i)) items | j \<Rightarrow> j = JNull" for client items
    by (auto simp: pending_payload_def list_all_iff)
  have plain: "obj_get (failed m) ''pending'' = JNull" for m by (simp add: failed_def)
  show ?thesis
    by (cases "ht_method r")
      (auto simp: serve_def do_GET_def do_POST_def do_OPTIONS_def post_action_def send_def refuse_def plain hidden Let_def
        split: option.splits sum.splits if_splits prod.splits)
qed

end
