(* ===== verification/Programs.thy ===== *)
theory Programs
  imports Prelude
begin

text \<open>
  Programs over a log of events. A program takes the events so far and gives a result or an exception,
  with a longer log. What a call answers is a function of the events before it, so that other processes may
  do anything in between. The calculus below proves what holds for every event that a program appends.
\<close>

subsection \<open>Programs\<close>

text \<open>An exception of the program's own class with its text, or any other exception.\<close>

datatype werror = Refused str | Died

type_synonym ('e, 'a) prog = "'e list \<Rightarrow> (werror + 'a) \<times> 'e list"

definition ret :: "'a \<Rightarrow> ('e, 'a) prog" where
  "ret x tr = (Inr x, tr)"

definition refused :: "str \<Rightarrow> ('e, 'a) prog" where
  "refused m tr = (Inl (Refused m), tr)"

definition bindC :: "('e, 'a) prog \<Rightarrow> ('a \<Rightarrow> ('e, 'b) prog) \<Rightarrow> ('e, 'b) prog" where
  "bindC m f tr = (case m tr of (Inl e, tr') \<Rightarrow> (Inl e, tr') | (Inr x, tr') \<Rightarrow> f x tr')"

definition need :: "bool \<Rightarrow> str \<Rightarrow> ('e, unit) prog" where
  "need b m = (if b then ret () else refused m)"

text \<open>A question about the state at this point, and a call that is logged with its answer.\<close>

definition ask :: "('e list \<Rightarrow> 'a) \<Rightarrow> ('e, 'a) prog" where
  "ask f tr = (Inr (f tr), tr)"

definition logged :: "'e \<Rightarrow> ('e list \<Rightarrow> werror + 'a) \<Rightarrow> ('e, 'a) prog" where
  "logged e f tr = (f tr, tr @ [e])"

text \<open>\<open>except\<close> for the program's own class, raised again after the handler; and \<open>except\<close> with a result.\<close>

definition on_refusal :: "('e, 'a) prog \<Rightarrow> (str \<Rightarrow> ('e, unit) prog) \<Rightarrow> ('e, 'a) prog" where
  "on_refusal m h tr =
     (case m tr of
        (Inl (Refused e), tr') \<Rightarrow> (case h e tr' of (Inl e', tr'') \<Rightarrow> (Inl e', tr'') | (Inr _, tr'') \<Rightarrow> (Inl (Refused e), tr''))
      | r \<Rightarrow> r)"

definition rescue :: "('e, 'a) prog \<Rightarrow> 'a \<Rightarrow> ('e, 'a) prog" where
  "rescue m x tr = (case m tr of (Inl (Refused _), tr') \<Rightarrow> (Inr x, tr') | r \<Rightarrow> r)"

text \<open>\<open>finally\<close>\<close>

definition and_then :: "('e, 'a) prog \<Rightarrow> ('e, unit) prog \<Rightarrow> ('e, 'a) prog" where
  "and_then m c tr =
     (case m tr of (r, tr') \<Rightarrow> (case c tr' of (Inl e, tr'') \<Rightarrow> (Inl e, tr'') | (Inr _, tr'') \<Rightarrow> (r, tr'')))"

text \<open>The last characters, as in \<open>s[-n:]\<close>.\<close>

definition last_chars :: "nat \<Rightarrow> str \<Rightarrow> str" where
  "last_chars n s = drop (length s - n) s"

text \<open>Conditions that are asked one after the other until one fails.\<close>

definition andalso :: "('e, bool) prog \<Rightarrow> ('e, bool) prog \<Rightarrow> ('e, bool) prog" where
  "andalso m n = bindC m (\<lambda>b. if b then n else ret False)"

fun each :: "('a \<Rightarrow> ('e, 'b) prog) \<Rightarrow> 'a list \<Rightarrow> ('e, 'b list) prog" where
  "each f [] = ret []"
| "each f (x # xs) = bindC (f x) (\<lambda>y. bindC (each f xs) (\<lambda>ys. ret (y # ys)))"

subsection \<open>What a result shows\<close>

lemma bindC_Inr: "bindC m f tr = (Inr y, tr') \<longleftrightarrow> (\<exists>x us. m tr = (Inr x, us) \<and> f x us = (Inr y, tr'))"
  by (auto simp: bindC_def split: prod.split sum.split)

lemma need_Inr [simp]: "need b m tr = (Inr x, tr') \<longleftrightarrow> b \<and> tr' = tr"
  by (auto simp: need_def ret_def refused_def)

lemma ret_Inr [simp]: "ret x tr = (Inr y, tr') \<longleftrightarrow> y = x \<and> tr' = tr"
  by (auto simp: ret_def)

lemma refused_Inr [simp]: "refused m tr \<noteq> (Inr y, tr')"
  by (simp add: refused_def)

lemma andalso_True: "andalso m n tr = (Inr True, tr') \<longleftrightarrow> (\<exists>us. m tr = (Inr True, us) \<and> n us = (Inr True, tr'))"
  by (auto simp: andalso_def bindC_Inr split: if_splits)

lemma logged_Inr: "logged e f tr = (Inr y, tr') \<longleftrightarrow> f tr = Inr y \<and> tr' = tr @ [e]"
  by (auto simp: logged_def)

lemma bindC_ret: "bindC m ret = m"
  by (auto simp: bindC_def ret_def fun_eq_iff split: prod.split sum.split)

lemma bindC_assoc: "bindC (bindC m f) g = bindC m (\<lambda>x. bindC (f x) g)"
  by (auto simp: bindC_def fun_eq_iff split: prod.split sum.split)

lemma and_then_Inr: "and_then m c tr = (Inr x, us) \<longleftrightarrow> (\<exists>vs. m tr = (Inr x, vs) \<and> c vs = (Inr (), us))"
  by (auto simp: and_then_def split: prod.splits sum.splits)

subsection \<open>Programs that avoid a kind of event\<close>

definition adds :: "('e \<Rightarrow> bool) \<Rightarrow> 'e list \<Rightarrow> 'e list \<Rightarrow> bool" where
  "adds ok tr tr' = (\<exists>es. tr' = tr @ es \<and> list_all ok es)"

definition only :: "('e \<Rightarrow> bool) \<Rightarrow> ('e, 'a) prog \<Rightarrow> bool" where
  "only ok m = (\<forall>tr. adds ok tr (snd (m tr)))"

named_theorems only_rules

lemma adds_refl [simp]: "adds ok tr tr"
  by (simp add: adds_def)

lemma adds_trans: "adds ok tr us \<Longrightarrow> adds ok us vs \<Longrightarrow> adds ok tr vs"
  by (auto simp: adds_def)

lemma adds_snoc: "ok e \<Longrightarrow> adds ok tr (tr @ [e])"
  by (simp add: adds_def)

lemma adds_prefix: "adds ok tr tr' \<Longrightarrow> prefix tr tr'"
  by (auto simp: adds_def)

lemma only_bind [only_rules]: "only ok m \<Longrightarrow> (\<And>x. only ok (f x)) \<Longrightarrow> only ok (bindC m f)"
  unfolding only_def bindC_def
  by (auto split: prod.split sum.split) (metis adds_trans snd_conv)+

lemma only_basic [only_rules]: "only ok (ret x)" "only ok (refused m)" "only ok (need b m)" "only ok (ask g)"
  by (auto simp: only_def ret_def refused_def need_def ask_def)

lemma only_logged [only_rules]: "ok e \<Longrightarrow> only ok (logged e f)"
  by (auto simp: only_def logged_def intro: adds_snoc)

lemma only_and_then [only_rules]: "only ok m \<Longrightarrow> only ok c \<Longrightarrow> only ok (and_then m c)"
  unfolding only_def and_then_def
  by (auto split: prod.split sum.split) (metis adds_trans snd_conv)+

lemma only_rescue [only_rules]: "only ok m \<Longrightarrow> only ok (rescue m x)"
  unfolding only_def rescue_def by (auto split: prod.split sum.split werror.split) (metis snd_conv)+

lemma only_on_refusal [only_rules]: "only ok m \<Longrightarrow> (\<And>e. only ok (h e)) \<Longrightarrow> only ok (on_refusal m h)"
  unfolding only_def on_refusal_def
  by (auto split: prod.split sum.split werror.split) (metis adds_trans snd_conv)+

lemma only_andalso [only_rules]: "only ok m \<Longrightarrow> only ok n \<Longrightarrow> only ok (andalso m n)"
  unfolding andalso_def by (auto intro!: only_rules)

lemma only_flow:
  "only ok m \<Longrightarrow> only ok n \<Longrightarrow> only ok (if b then m else n)"
  "only ok m \<Longrightarrow> (\<And>y. only ok (g y)) \<Longrightarrow> only ok (case z of None \<Rightarrow> m | Some y \<Rightarrow> g y)"
  "(\<And>a c. only ok (h a c)) \<Longrightarrow> only ok (case w of (a, c) \<Rightarrow> h a c)"
  by (auto split: option.split prod.split)

lemma only_each [only_rules]: "(\<And>x. only ok (f x)) \<Longrightarrow> only ok (each f xs)"
  by (induction xs) (auto intro!: only_rules)

lemma only_prefix: "only ok m \<Longrightarrow> m tr = (r, tr') \<Longrightarrow> prefix tr tr'"
  unfolding only_def by (metis adds_prefix snd_conv)

lemma only_mono: "only ok m \<Longrightarrow> (\<And>e. ok e \<Longrightarrow> ok' e) \<Longrightarrow> only ok' m"
  unfolding only_def adds_def by (metis list.pred_mono_strong)

subsection \<open>A law for every appended event\<close>

text \<open>\<open>P us e\<close>: the event \<open>e\<close> may be appended to the events \<open>us\<close>.\<close>

definition grows :: "('e list \<Rightarrow> 'e \<Rightarrow> bool) \<Rightarrow> 'e list \<Rightarrow> 'e list \<Rightarrow> bool" where
  "grows P tr tr' = (prefix tr tr' \<and> (\<forall>us e. prefix tr us \<longrightarrow> prefix (us @ [e]) tr' \<longrightarrow> P us e))"

definition keeps :: "('e list \<Rightarrow> 'e \<Rightarrow> bool) \<Rightarrow> ('e, 'a) prog \<Rightarrow> 'e list \<Rightarrow> bool" where
  "keeps P m tr = grows P tr (snd (m tr))"

lemma not_beyond: "prefix tr us \<Longrightarrow> \<not> prefix (us @ [e]) tr"
  by (auto dest!: prefix_length_le)

lemma grows_refl [simp]: "grows P tr tr"
  by (simp add: grows_def not_beyond)

lemma grows_snoc: "P tr e \<Longrightarrow> grows P tr (tr @ [e])"
  by (auto simp: grows_def not_beyond)

lemma grows_trans:
  assumes "grows P tr us" "grows P us vs"
  shows "grows P tr vs"
  unfolding grows_def
proof (intro conjI allI impI)
  show "prefix tr vs" using assms by (auto simp: grows_def)
  fix ws e assume a: "prefix tr ws" "prefix (ws @ [e]) vs"
  have "prefix us vs" using assms by (simp add: grows_def)
  with a(2) have "prefix (ws @ [e]) us \<or> prefix us (ws @ [e])" by (rule prefix_same_cases)
  then show "P ws e" using assms a by (auto simp: grows_def)
qed

lemma keeps_bind:
  assumes "keeps P m tr" "\<And>x us. m tr = (Inr x, us) \<Longrightarrow> keeps P (f x) us"
  shows "keeps P (bindC m f) tr"
  using assms unfolding keeps_def bindC_def
  by (auto split: prod.split sum.split intro: grows_trans)

lemma keeps_need: "(b \<Longrightarrow> keeps P (f ()) tr) \<Longrightarrow> keeps P (bindC (need b m) f) tr"
  by (auto simp: keeps_def bindC_def need_def ret_def refused_def)

lemma keeps_leaf: "keeps P (ret x) tr" "keeps P (refused m) tr" "keeps P (ask g) tr"
  by (simp_all add: keeps_def ret_def refused_def ask_def)

lemma keeps_logged: "P tr e \<Longrightarrow> keeps P (logged e f) tr"
  by (simp add: keeps_def logged_def grows_snoc)

lemma keeps_and_then:
  assumes "keeps P m tr" "\<And>us. keeps P c us"
  shows "keeps P (and_then m c) tr"
  using assms unfolding keeps_def and_then_def
  by (auto split: prod.split sum.split) (metis grows_trans snd_conv)+

lemma keeps_rescue: "keeps P m tr \<Longrightarrow> keeps P (rescue m x) tr"
  unfolding keeps_def rescue_def by (auto split: prod.split sum.split werror.split)

lemma keeps_if: "(b \<Longrightarrow> keeps P m tr) \<Longrightarrow> (\<not> b \<Longrightarrow> keeps P n tr) \<Longrightarrow> keeps P (if b then m else n) tr"
  by simp

lemma keeps_pair: "(\<And>a b. z = (a, b) \<Longrightarrow> keeps P (f a b) tr) \<Longrightarrow> keeps P (case z of (a, b) \<Rightarrow> f a b) tr"
  by (cases z) simp

lemma keeps_prefix: "keeps P m tr \<Longrightarrow> m tr = (r, us) \<Longrightarrow> prefix tr us"
  by (simp add: keeps_def grows_def)

lemma adds_grows:
  assumes "adds ok tr tr'" "\<And>us e. ok e \<Longrightarrow> P us e"
  shows "grows P tr tr'"
proof -
  from assms(1) obtain es where es: "tr' = tr @ es" "list_all ok es"
    by (auto simp: adds_def)
  have "list_all ok es \<Longrightarrow> grows P tr (tr @ es)"
  proof (induction es rule: rev_induct)
    case (snoc e es)
    then have "grows P tr (tr @ es)" "P (tr @ es) e" by (auto intro: assms(2))
    then have "grows P tr ((tr @ es) @ [e])" by (blast intro: grows_trans grows_snoc)
    then show ?case by simp
  qed simp
  with es show ?thesis by simp
qed

lemma keeps_only: "only ok m \<Longrightarrow> (\<And>us e. ok e \<Longrightarrow> P us e) \<Longrightarrow> keeps P m tr"
  unfolding keeps_def only_def by (blast intro: adds_grows)

lemma keeps_nth:
  assumes "keeps P m tr" "length tr \<le> i" "i < length (snd (m tr))"
  shows "P (take i (snd (m tr))) (snd (m tr) ! i)"
proof -
  have "prefix (take i (snd (m tr)) @ [snd (m tr) ! i]) (snd (m tr))"
    using assms(3) by (metis take_Suc_conv_app_nth take_is_prefix)
  moreover from assms(1) have "prefix tr (snd (m tr))" by (simp add: keeps_def grows_def)
  then have "prefix tr (take i (snd (m tr)))" using assms(2,3)
    by (metis length_take min.absorb2 nat_less_le prefix_length_prefix take_is_prefix)
  ultimately show ?thesis using assms(1) by (simp add: keeps_def grows_def)
qed

lemma keeps_all:
  assumes "keeps P m tr" "\<And>us e. P us e \<Longrightarrow> Q us e"
  shows "list_all (\<lambda>i. Q (take i (snd (m tr))) (snd (m tr) ! i)) [length tr..<length (snd (m tr))]"
  using keeps_nth [OF assms(1)] assms(2) by (fastforce simp: list_all_iff)

text \<open>One step of a program that appends nothing of interest, with what its result shows.\<close>

lemma keeps_step:
  assumes "only ok m" "\<And>us e. ok e \<Longrightarrow> P us e" "prefix tr0 tr"
    and "\<And>x us. m tr = (Inr x, us) \<Longrightarrow> prefix tr us \<Longrightarrow> prefix tr0 us \<Longrightarrow> keeps P (f x) us"
  shows "keeps P (bindC m f) tr"
  by (intro keeps_bind keeps_only [OF assms(1,2)]) (auto intro: assms only_prefix prefix_order.trans)

subsection \<open>What a result shows of the log\<close>

text \<open>A result \<open>x\<close> shows \<open>R x\<close> between any earlier and any later log.\<close>

definition yields :: "('e, 'a) prog \<Rightarrow> ('a \<Rightarrow> 'e list \<Rightarrow> 'e list \<Rightarrow> bool) \<Rightarrow> bool" where
  "yields m R = (\<forall>tr x tr' t0 us. m tr = (Inr x, tr') \<longrightarrow> prefix t0 tr \<longrightarrow> prefix tr' us \<longrightarrow> R x t0 us)"

abbreviation logs :: "('e, 'a) prog \<Rightarrow> bool" where
  "logs \<equiv> only (\<lambda>_. True)"

lemma only_logs: "only ok m \<Longrightarrow> logs m"
  by (erule only_mono) simp

lemma yieldsI: "(\<And>tr x tr' t0 us. m tr = (Inr x, tr') \<Longrightarrow> prefix t0 tr \<Longrightarrow> prefix tr' us \<Longrightarrow> R x t0 us) \<Longrightarrow> yields m R"
  by (auto simp: yields_def)

lemma yields_stable:
  assumes "\<And>tr x tr'. m tr = (Inr x, tr') \<Longrightarrow> R x tr tr'"
    and "\<And>x tr tr' t0 us. R x tr tr' \<Longrightarrow> prefix t0 tr \<Longrightarrow> prefix tr' us \<Longrightarrow> R x t0 us"
  shows "yields m R"
  using assms by (intro yieldsI) blast

lemma yieldsD: "yields m R \<Longrightarrow> m tr = (Inr x, tr') \<Longrightarrow> prefix t0 tr \<Longrightarrow> prefix tr' us \<Longrightarrow> R x t0 us"
  by (auto simp: yields_def)

lemma yields_mono: "yields m R \<Longrightarrow> (\<And>x t0 us. R x t0 us \<Longrightarrow> S x t0 us) \<Longrightarrow> yields m S"
  by (auto simp: yields_def)

lemma yields_any: "yields m (\<lambda>_ _ _. True)"
  by (simp add: yields_def)

lemma yields_bind:
  assumes "logs m" "\<And>x. logs (f x)" "yields m R" "\<And>x. yields (f x) (S x)"
  shows "yields (bindC m f) (\<lambda>y t0 us. \<exists>x. R x t0 us \<and> S x y t0 us)"
proof (rule yieldsI)
  fix tr y tr' t0 us assume "bindC m f tr = (Inr y, tr')" and t: "prefix t0 tr" "prefix tr' us"
  then obtain x vs where x: "m tr = (Inr x, vs)" "f x vs = (Inr y, tr')" by (auto simp: bindC_Inr)
  have "prefix tr vs" "prefix vs tr'" using only_prefix [OF assms(1) x(1)] only_prefix [OF assms(2) x(2)] by auto
  with t have "prefix vs us" "prefix t0 vs" by (meson prefix_order.trans)+
  with x t show "\<exists>x. R x t0 us \<and> S x y t0 us" by (meson assms(3,4) yieldsD)
qed

lemma yields_andalso:
  assumes "logs m" "logs n" "yields m R" "yields n S"
  shows "yields (andalso m n) (\<lambda>b t0 us. if b then R True t0 us \<and> S True t0 us else True)"
proof (rule yieldsI)
  fix tr b tr' t0 us assume a: "andalso m n tr = (Inr b, tr')" and t: "prefix t0 tr" "prefix tr' us"
  show "if b then R True t0 us \<and> S True t0 us else True"
  proof (cases b)
    case True
    with a obtain vs where x: "m tr = (Inr True, vs)" "n vs = (Inr True, tr')" by (auto simp: andalso_True)
    have "prefix tr vs" "prefix vs tr'" using only_prefix [OF assms(1) x(1)] only_prefix [OF assms(2) x(2)] by auto
    with t have "prefix vs us" "prefix t0 vs" by (meson prefix_order.trans)+
    with x t True show ?thesis by (simp add: yieldsD [OF assms(3)] yieldsD [OF assms(4)])
  qed simp
qed

lemma yields_if: "yields m R \<Longrightarrow> yields n S \<Longrightarrow> yields (if b then m else n) (\<lambda>x t0 us. if b then R x t0 us else S x t0 us)"
  by simp

lemma yields_option:
  "yields m R \<Longrightarrow> (\<And>y. yields (n y) (S y)) \<Longrightarrow>
     yields (case z of None \<Rightarrow> m | Some y \<Rightarrow> n y) (\<lambda>x t0 us. case z of None \<Rightarrow> R x t0 us | Some y \<Rightarrow> S y x t0 us)"
  by (cases z) simp_all

lemma yields_pair:
  "(\<And>a b. yields (f a b) (R a b)) \<Longrightarrow> yields (case z of (a, b) \<Rightarrow> f a b) (\<lambda>x t0 us. R (fst z) (snd z) x t0 us)"
  by (cases z) simp

lemma yields_rescue: "yields m R \<Longrightarrow> yields (rescue m x) (\<lambda>y t0 us. y = x \<or> R y t0 us)"
  by (auto intro!: yieldsI simp: rescue_def dest: yieldsD split: prod.splits sum.splits werror.splits)

text \<open>One step of a program with what its result shows of every later log.\<close>

lemma known_step:
  assumes "keeps P m tr" "logs m" "yields m R" "prefix t0 tr"
    and "\<And>x us. (\<And>vs. prefix us vs \<Longrightarrow> R x t0 vs) \<Longrightarrow> prefix tr us \<Longrightarrow> prefix t0 us \<Longrightarrow> keeps P (f x) us"
  shows "keeps P (bindC m f) tr"
proof (rule keeps_bind [OF assms(1)])
  fix x us assume x: "m tr = (Inr x, us)"
  then have "prefix tr us" by (rule only_prefix [OF assms(2)])
  then show "keeps P (f x) us"
    using assms(4) x by (intro assms(5)) (auto intro: yieldsD [OF assms(3)] prefix_order.trans)
qed

end
