(* ===== verification/Workspace.thy ===== *)
theory Workspace
  imports Programs Plan JsonText Sandbox
begin

text \<open>
  The worktree coordinator (\<open>shell_bridge/workspace.py\<close>). Every call of Git, of a job shell and of the state
  directory is an event; what it answers is a function of the events before it, the environment. An
  operation takes the events so far and gives a result or an exception together with the longer list:
  whatever other processes do in between is in the environment's answers. Paths are texts, \<open>expanduser\<close> with
  \<open>resolve\<close>, the digest and the reading of JSON are parameters. Printing, the parsing of the command line and
  the process tree of a timed out command are not modelled; texts of exceptions that print Python values
  with \<open>repr\<close> are shortened.
\<close>

subsection \<open>Jobs, receipts and events\<close>

record wjob =
  w_id :: str
  w_repo :: str
  w_repo_id :: str
  w_remote :: str
  w_url :: "str option"
  w_push_url :: "str option"
  w_target :: str
  w_base :: str
  w_branch :: str
  w_worktree :: str
  w_resource :: str
  w_state :: str
  w_created :: str
  w_updated :: str
  w_checkpoint :: "str option"
  w_remote_checkpoint :: "str option"
  w_reconciled :: "str option"
  w_integration :: "str option"
  w_integrated_at :: "str option"
  w_error :: "str option"
  w_conflict :: "(str \<times> str list \<times> bool) option"
  w_released :: "(str \<times> bool) option"
  w_note :: "str option"

record receipt =
  rc_job :: str
  rc_repo :: str
  rc_remote :: str
  rc_target :: str
  rc_checkpoint :: "str option"
  rc_integration :: "str option"
  rc_policy_revision :: "str option"
  rc_policy_sha :: "str option"
  rc_tree :: "str option"
  rc_legacy :: bool
  rc_verified_at :: str

datatype event =
    Git str "str list"
  | Shell str str
  | Load str
  | SaveJob wjob
  | SaveReceipt receipt
  | Lock str

text \<open>None: the call does not return in time, or the program is missing.\<close>

record env =
  ev_git :: "event list \<Rightarrow> str \<Rightarrow> str list \<Rightarrow> (int \<times> str \<times> str) option"
  ev_shell :: "event list \<Rightarrow> str \<Rightarrow> str \<Rightarrow> str + int \<times> str \<times> str"
  ev_job :: "event list \<Rightarrow> str \<Rightarrow> str + wjob"
  ev_jobs :: "event list \<Rightarrow> wjob list"
  ev_job_exists :: "event list \<Rightarrow> str \<Rightarrow> bool"
  ev_receipt :: "event list \<Rightarrow> str \<Rightarrow> receipt option"
  ev_is_dir :: "event list \<Rightarrow> str \<Rightarrow> bool"
  ev_exists :: "event list \<Rightarrow> str \<Rightarrow> bool"
  ev_lock :: "event list \<Rightarrow> str \<Rightarrow> bool"
  ev_now :: "event list \<Rightarrow> str"
  ev_stamp :: "event list \<Rightarrow> str"
  ev_token :: "event list \<Rightarrow> str"
  ev_resolve :: "str \<Rightarrow> str"
  ev_sha :: "str \<Rightarrow> str"
  ev_epoch :: "str \<Rightarrow> int option"
  ev_parse :: "str \<Rightarrow> json option"

type_synonym 'a coord = "(event, 'a) prog"

text \<open>A call that is not checked, and one whose failure is an exception.\<close>

definition git_try :: "env \<Rightarrow> str \<Rightarrow> str list \<Rightarrow> (int \<times> str \<times> str) coord" where
  "git_try v dir args tr =
     (case ev_git v tr dir args of None \<Rightarrow> (Inl Died, tr @ [Git dir args]) | Some a \<Rightarrow> (Inr a, tr @ [Git dir args]))"

definition git :: "env \<Rightarrow> str \<Rightarrow> str list \<Rightarrow> str coord" where
  "git v dir args =
     bindC (git_try v dir args) (\<lambda>(rc, out, err).
       if rc \<noteq> 0
       then refused (''command failed rc='' @ int_str rc @ '': '' @ shlex_join ([''git'', ''-C'', dir] @ args)
              @ '': '' @ py_strip (if err = [] then out else err))
       else ret out)"

definition git_line :: "env \<Rightarrow> str \<Rightarrow> str list \<Rightarrow> str coord" where
  "git_line v dir args = bindC (git v dir args) (\<lambda>out. ret (py_strip out))"

definition job_shell :: "env \<Rightarrow> str \<Rightarrow> str \<Rightarrow> (int \<times> str \<times> str) coord" where
  "job_shell v cwd command tr =
     (case ev_shell v tr cwd command of
        Inl m \<Rightarrow> (Inl (Refused m), tr @ [Shell cwd command])
      | Inr a \<Rightarrow> (Inr a, tr @ [Shell cwd command]))"

definition load_job :: "env \<Rightarrow> str \<Rightarrow> wjob coord" where
  "load_job v jid tr =
     (case ev_job v tr jid of Inl m \<Rightarrow> (Inl (Refused m), tr @ [Load jid]) | Inr j \<Rightarrow> (Inr j, tr @ [Load jid]))"

definition save_job :: "env \<Rightarrow> wjob \<Rightarrow> wjob coord" where
  "save_job v job tr = (let j = job\<lparr>w_updated := ev_now v tr\<rparr> in (Inr j, tr @ [SaveJob j]))"

text \<open>The exclusive lock of a file. A blocking call that does not get the lock does not return.\<close>

definition take_lock :: "env \<Rightarrow> str \<Rightarrow> unit coord" where
  "take_lock v name tr =
     (if ev_lock v tr name then (Inr (), tr @ [Lock name]) else (Inl Died, tr))"

text \<open>Without waiting: \<open>LOCK_NB\<close>.\<close>

definition try_lock :: "env \<Rightarrow> str \<Rightarrow> unit coord" where
  "try_lock v name tr =
     (if ev_lock v tr name then (Inr (), tr @ [Lock name]) else (Inl (Refused (''resource is busy: '' @ name)), tr))"

definition job_lock :: "str \<Rightarrow> str" where
  "job_lock jid = ''job-'' @ jid @ ''.lock''"

subsection \<open>Remotes\<close>

definition text_of :: "str option \<Rightarrow> str" where
  "text_of t = (case t of None \<Rightarrow> ''None'' | Some s \<Rightarrow> s)"

definition remote_url :: "env \<Rightarrow> str \<Rightarrow> str \<Rightarrow> str coord" where
  "remote_url v repo remote = git_line v repo [''remote'', ''get-url'', remote]"

definition remote_push_url :: "env \<Rightarrow> str \<Rightarrow> str \<Rightarrow> str coord" where
  "remote_push_url v repo remote = git_line v repo [''remote'', ''get-url'', ''--push'', remote]"

definition push_url :: "wjob \<Rightarrow> str option" where
  "push_url job = (case w_push_url job of Some u \<Rightarrow> Some u | None \<Rightarrow> w_url job)"

definition url_given :: "str option \<Rightarrow> str option" where
  "url_given u = (case u of None \<Rightarrow> None | Some s \<Rightarrow> if s = [] then None else Some s)"

definition assert_remote_identity :: "env \<Rightarrow> wjob \<Rightarrow> (str \<times> str) coord" where
  "assert_remote_identity v job =
     (case (url_given (w_url job), url_given (push_url job)) of
        (Some fetch, Some push) \<Rightarrow>
          bindC (remote_url v (w_repo job) (w_remote job)) (\<lambda>u.
            if u \<noteq> fetch then refused ''configured Git remote changed since workspace admission; preserve job and reconcile''
            else bindC (remote_push_url v (w_repo job) (w_remote job)) (\<lambda>p.
              if p \<noteq> push then refused ''configured Git remote changed since workspace admission; preserve job and reconcile''
              else ret (fetch, push)))
      | _ \<Rightarrow> refused ''job has no pinned Git remote URL'')"

definition fetch_target :: "env \<Rightarrow> wjob \<Rightarrow> str coord" where
  "fetch_target v job = bindC (assert_remote_identity v job) (\<lambda>(fetch, push). ret fetch)"

definition push_target :: "env \<Rightarrow> wjob \<Rightarrow> str coord" where
  "push_target v job = bindC (assert_remote_identity v job) (\<lambda>(fetch, push). ret push)"

definition text_lines :: "str \<Rightarrow> str list" where
  "text_lines s = filter (\<lambda>l. l \<noteq> []) (line_pieces [] s)"

definition first_word :: "str \<Rightarrow> str" where
  "first_word s = takeWhile (\<lambda>c. \<not> is_space c) (dropWhile is_space s)"

definition remote_ref :: "env \<Rightarrow> str \<Rightarrow> str \<Rightarrow> str \<Rightarrow> str coord" where
  "remote_ref v repo remote branch =
     bindC (git v repo [''ls-remote'', remote, ''refs/heads/'' @ branch]) (\<lambda>out.
       case nonblank_lines out of
         [l] \<Rightarrow> ret (first_word l)
       | _ \<Rightarrow> refused (''remote branch not found or ambiguous: '' @ remote @ ''/'' @ branch))"

definition verify_remote_branch :: "env \<Rightarrow> str \<Rightarrow> str \<Rightarrow> str \<Rightarrow> str \<Rightarrow> unit coord" where
  "verify_remote_branch v repo remote branch expected =
     bindC (remote_ref v repo remote branch) (\<lambda>actual.
       need (actual = expected)
         (''remote verification failed for '' @ remote @ ''/'' @ branch @ '': expected '' @ expected @ '', got '' @ actual))"

definition verify_job_branch :: "env \<Rightarrow> wjob \<Rightarrow> str \<Rightarrow> unit coord" where
  "verify_job_branch v job head =
     bindC (fetch_target v job) (\<lambda>url. verify_remote_branch v (w_repo job) url (w_branch job) head)"

text \<open>Fetching the canonical branch and reading its tip.\<close>

definition tracking :: "str \<Rightarrow> str \<Rightarrow> str" where
  "tracking remote target = ''refs/remotes/'' @ remote @ ''/'' @ target"

definition fetch_args :: "str \<Rightarrow> str \<Rightarrow> str \<Rightarrow> str list" where
  "fetch_args url remote target = [''fetch'', ''--prune'', url, ''refs/heads/'' @ target @ '':'' @ tracking remote target]"

definition tip_args :: "str \<Rightarrow> str \<Rightarrow> str list" where
  "tip_args remote target = [''rev-parse'', tracking remote target @ ''^{commit}'']"

definition canonical_tip :: "env \<Rightarrow> wjob \<Rightarrow> str coord" where
  "canonical_tip v job =
     bindC (fetch_target v job) (\<lambda>url.
     bindC (git v (w_repo job) (fetch_args url (w_remote job) (w_target job))) (\<lambda>_.
     git_line v (w_repo job) (tip_args (w_remote job) (w_target job))))"

definition dirty :: "env \<Rightarrow> str \<Rightarrow> bool coord" where
  "dirty v worktree = bindC (git v worktree [''status'', ''--porcelain'']) (\<lambda>out. ret (out \<noteq> []))"

definition head_of :: "env \<Rightarrow> str \<Rightarrow> str coord" where
  "head_of v dir = git_line v dir [''rev-parse'', ''HEAD'']"

definition is_ancestor :: "env \<Rightarrow> str \<Rightarrow> str \<Rightarrow> str \<Rightarrow> bool coord" where
  "is_ancestor v repo a b = bindC (git_try v repo [''merge-base'', ''--is-ancestor'', a, b]) (\<lambda>(rc, out, err). ret (rc = 0))"

subsection \<open>Checkpoints and job commands\<close>

definition push_branch_args :: "str \<Rightarrow> str \<Rightarrow> str list" where
  "push_branch_args url branch = [''push'', url, ''HEAD:refs/heads/'' @ branch]"

definition checkpoint :: "env \<Rightarrow> wjob \<Rightarrow> str option \<Rightarrow> wjob coord" where
  "checkpoint v job message =
     bindC (assert_remote_identity v job) (\<lambda>_.
     bindC (git v (w_worktree job) [''add'', ''-A'']) (\<lambda>_.
     bindC (git_try v (w_worktree job) [''diff'', ''--cached'', ''--quiet'']) (\<lambda>(rc, out, err).
     bindC (if rc = 0 then ret []
            else git v (w_worktree job) [''commit'', ''--no-verify'', ''-m'',
                   case message of Some m \<Rightarrow> if m = [] then ''checkpoint: '' @ w_id job else m | None \<Rightarrow> ''checkpoint: '' @ w_id job]) (\<lambda>_.
     bindC (head_of v (w_worktree job)) (\<lambda>head.
     bindC (push_target v job) (\<lambda>url.
     bindC (git v (w_worktree job) (push_branch_args url (w_branch job))) (\<lambda>_.
     bindC (verify_job_branch v job head) (\<lambda>_.
     save_job v (job\<lparr>w_checkpoint := Some head, w_remote_checkpoint := Some head, w_state := ''active''\<rparr>)))))))))"

record exec_args =
  xa_job :: str
  xa_command :: str
  xa_no_checkpoint :: bool
  xa_message :: "str option"

record exec_result =
  xr_exit :: int
  xr_stdout :: str
  xr_stderr :: str
  xr_checkpoint :: "str option"

definition interrupted :: "env \<Rightarrow> wjob \<Rightarrow> str \<Rightarrow> unit coord" where
  "interrupted v job m = bindC (save_job v (job\<lparr>w_state := ''interrupted'', w_error := Some m\<rparr>)) (\<lambda>_. ret ())"

definition exec_body :: "env \<Rightarrow> exec_args \<Rightarrow> wjob \<Rightarrow> exec_result coord" where
  "exec_body v a job =
     bindC (job_shell v (w_worktree job) (xa_command a)) (\<lambda>(rc, out, err).
       if rc = 0 \<and> \<not> xa_no_checkpoint a
       then bindC (dirty v (w_worktree job)) (\<lambda>d.
              if d then bindC (checkpoint v job (xa_message a)) (\<lambda>j.
                          ret \<lparr>xr_exit = rc, xr_stdout = out, xr_stderr = err, xr_checkpoint = w_checkpoint j\<rparr>)
              else ret \<lparr>xr_exit = rc, xr_stdout = out, xr_stderr = err, xr_checkpoint = None\<rparr>)
       else if rc \<noteq> 0
       then bindC (interrupted v job (''command exited '' @ int_str rc)) (\<lambda>_.
              ret \<lparr>xr_exit = rc, xr_stdout = out, xr_stderr = err, xr_checkpoint = None\<rparr>)
       else ret \<lparr>xr_exit = rc, xr_stdout = out, xr_stderr = err, xr_checkpoint = None\<rparr>)"

definition exec_job :: "env \<Rightarrow> exec_args \<Rightarrow> exec_result coord" where
  "exec_job v a =
     bindC (load_job v (xa_job a)) (\<lambda>job.
     bindC (need (w_state job \<noteq> ''integrated'') ''job is already integrated'') (\<lambda>_.
     bindC (ask (\<lambda>tr. ev_is_dir v tr (w_worktree job))) (\<lambda>d.
     bindC (need d ''job worktree is missing; run recover'') (\<lambda>_.
     bindC (take_lock v (job_lock (w_id job))) (\<lambda>_.
     on_refusal (exec_body v a job) (interrupted v job))))))"

subsection \<open>Ready and reconciled\<close>

definition ready_job_locked :: "env \<Rightarrow> bool \<Rightarrow> str option \<Rightarrow> wjob \<Rightarrow> wjob coord" where
  "ready_job_locked v with_checkpoint message job =
     bindC (need (w_state job \<noteq> ''integrated'') ''already integrated; do not reset historical completion'') (\<lambda>_.
     bindC (dirty v (w_worktree job)) (\<lambda>d.
     bindC (if d then (if with_checkpoint then checkpoint v job message
                       else refused ''job worktree is dirty; checkpoint before marking ready'')
            else ret job) (\<lambda>job1.
     bindC (head_of v (w_worktree job1)) (\<lambda>head.
     bindC (verify_job_branch v job1 head) (\<lambda>_.
     save_job v (job1\<lparr>w_checkpoint := Some head, w_remote_checkpoint := Some head, w_state := ''ready''\<rparr>))))))"

definition ready_job :: "env \<Rightarrow> str \<Rightarrow> bool \<Rightarrow> str option \<Rightarrow> wjob coord" where
  "ready_job v jid with_checkpoint message =
     bindC (take_lock v (job_lock jid)) (\<lambda>_.
     bindC (load_job v jid) (ready_job_locked v with_checkpoint message))"

definition mark_reconciled :: "env \<Rightarrow> str \<Rightarrow> str option \<Rightarrow> wjob coord" where
  "mark_reconciled v jid expected =
     bindC (load_job v jid) (\<lambda>job.
     bindC (canonical_tip v job) (\<lambda>target.
     bindC (need (case url_given expected of None \<Rightarrow> True | Some t \<Rightarrow> t = target) (''target moved: expected '' @ text_of expected @ '', actual '' @ target)) (\<lambda>_.
     bindC (dirty v (w_worktree job)) (\<lambda>d.
     bindC (need (\<not> d) ''job worktree is dirty; checkpoint before reconciliation'') (\<lambda>_.
     bindC (head_of v (w_worktree job)) (\<lambda>checkpoint.
     bindC (is_ancestor v (w_repo job) target checkpoint) (\<lambda>anc.
     bindC (need anc ''reconciliation not proven: canonical target is not an ancestor of the job checkpoint'') (\<lambda>_.
     save_job v (job\<lparr>w_reconciled := Some target\<rparr>)))))))))"

subsection \<open>Validation policy and receipts\<close>

definition policy_path :: str where
  "policy_path = ''.bridge/validation.json''"

definition changed_paths :: "env \<Rightarrow> str \<Rightarrow> str \<Rightarrow> str \<Rightarrow> str list coord" where
  "changed_paths v repo a b = bindC (git v repo [''diff'', ''--name-only'', a @ ''..'' @ b]) (\<lambda>out. ret (text_lines out))"

definition contains :: "str \<Rightarrow> str \<Rightarrow> bool" where
  "contains needle s = sublist needle s"

fun split_nul :: "str \<Rightarrow> str \<Rightarrow> str list" where
  "split_nul acc [] = [acc]"
| "split_nul acc (c # cs) = (if c = CHR 0x00 then acc # split_nul [] cs else split_nul (acc @ [c]) cs)"

definition resource_seen_since :: "env \<Rightarrow> str \<Rightarrow> str \<Rightarrow> str \<Rightarrow> str \<Rightarrow> bool coord" where
  "resource_seen_since v repo base current resource =
     (if base = current then ret False
      else bindC (git v repo [''log'', ''--format=%B%x00'', base @ ''..'' @ current]) (\<lambda>out.
             ret (list_ex (contains (''Bridge-Resource: '' @ resource)) (split_nul [] out))))"

definition policy_command :: "json \<Rightarrow> str option" where
  "policy_command value =
     (case obj_get value ''command'' of
        JStr c \<Rightarrow> if is_JObj value \<and> py_eq_int (obj_get value ''schema'') 1 \<and> py_strip c \<noteq> [] \<and> length c \<le> 4096 then Some c else None
      | _ \<Rightarrow> None)"

definition show_policy_args :: "str \<Rightarrow> str list" where
  "show_policy_args current = [''show'', current @ '':'' @ policy_path]"

definition trusted_validation :: "env \<Rightarrow> str \<Rightarrow> str \<Rightarrow> (str \<times> str) coord" where
  "trusted_validation v repo current =
     bindC (git_try v repo (show_policy_args current)) (\<lambda>(rc, out, err).
       if rc \<noteq> 0 then refused ''missing trusted canonical validation policy; publication blocked''
       else (case Option.bind (ev_parse v out) policy_command of
               None \<Rightarrow> refused ''invalid trusted canonical validation policy; publication blocked''
             | Some command \<Rightarrow> ret (command, ev_sha v out)))"

definition receipt_of :: "wjob \<Rightarrow> str option \<Rightarrow> str option \<Rightarrow> str option \<Rightarrow> bool \<Rightarrow> str \<Rightarrow> receipt" where
  "receipt_of job revision sha tree legacy now =
     \<lparr>rc_job = w_id job, rc_repo = w_repo job, rc_remote = w_remote job, rc_target = w_target job,
      rc_checkpoint = w_checkpoint job, rc_integration = w_integration job, rc_policy_revision = revision,
      rc_policy_sha = sha, rc_tree = tree, rc_legacy = legacy, rc_verified_at = now\<rparr>"

definition write_terminal_receipt :: "env \<Rightarrow> wjob \<Rightarrow> str option \<Rightarrow> str option \<Rightarrow> str option \<Rightarrow> bool \<Rightarrow> receipt coord" where
  "write_terminal_receipt v job revision sha tree legacy tr =
     (let r = receipt_of job revision sha tree legacy (ev_now v tr) in
      case ev_receipt v tr (w_id job) of
        Some old \<Rightarrow>
          if rc_checkpoint old \<noteq> rc_checkpoint r \<or> rc_integration old \<noteq> rc_integration r \<or> rc_job old \<noteq> rc_job r
          then (Inl (Refused ''terminal receipt conflicts with integrated effect; preserve evidence''), tr)
          else (Inr old, tr)
      | None \<Rightarrow> (Inr r, tr @ [SaveReceipt r]))"

subsection \<open>Integration\<close>

definition after_prefix :: "str \<Rightarrow> str \<Rightarrow> str option" where
  "after_prefix p l = (if prefix p l then Some (drop (length p) l) else None)"

definition trailer :: "str \<Rightarrow> str \<Rightarrow> str option" where
  "trailer key message = find_row (\<lambda>_. True) (List.map_filter (after_prefix (key @ '': '')) (line_pieces [] message))"

definition job_checkpoint :: "wjob \<Rightarrow> str option" where
  "job_checkpoint job = (case url_given (w_remote_checkpoint job) of Some c \<Rightarrow> Some c | None \<Rightarrow> w_checkpoint job)"

definition names_job :: "wjob \<Rightarrow> str \<Rightarrow> bool" where
  "names_job job message =
     (contains (''Bridge-Job-ID: '' @ w_id job) message
      \<and> contains (''Bridge-Checkpoint: '' @ text_of (job_checkpoint job)) message)"

fun matching :: "env \<Rightarrow> wjob \<Rightarrow> str list \<Rightarrow> (str \<times> str) list coord" where
  "matching v job [] = ret []"
| "matching v job (sha # shas) =
     bindC (git v (w_repo job) [''show'', ''-s'', ''--format=%B'', sha]) (\<lambda>message.
     bindC (matching v job shas) (\<lambda>ms. ret (if names_job job message then (sha, message) # ms else ms)))"

definition log_args :: "wjob \<Rightarrow> str \<Rightarrow> str list" where
  "log_args job tip = [''log'', ''--max-count=2000'', ''--format=%H'', ''--fixed-strings'', ''--grep=Bridge-Job-ID: '' @ w_id job, tip]"

definition tree_args :: "str \<Rightarrow> str list" where
  "tree_args sha = [''rev-parse'', sha @ ''^{tree}'']"

definition find_existing_integration :: "env \<Rightarrow> wjob \<Rightarrow> wjob option coord" where
  "find_existing_integration v job =
     bindC (canonical_tip v job) (\<lambda>tip.
     bindC (git v (w_repo job) (log_args job tip)) (\<lambda>out.
     bindC (matching v job (text_lines out)) (\<lambda>ms.
       case ms of
         [] \<Rightarrow> ret None
       | [(sha, message)] \<Rightarrow>
           bindC (ask (ev_now v)) (\<lambda>now.
           let cp = job_checkpoint job;
               settled = job\<lparr>w_state := ''integrated'', w_integration := Some sha, w_checkpoint := cp, w_remote_checkpoint := cp,
                          w_integrated_at := Some (case url_given (w_integrated_at job) of Some t \<Rightarrow> t | None \<Rightarrow> now)\<rparr>;
               policy_sha = trailer ''Bridge-Policy-SHA256'' message;
               policy_rev = trailer ''Bridge-Policy-Revision'' message in
           bindC (git_line v (w_repo job) (tree_args sha)) (\<lambda>tree.
           bindC (write_terminal_receipt v settled policy_rev policy_sha (Some tree) (policy_sha = None)) (\<lambda>_.
           bindC (save_job v settled) (\<lambda>j. ret (Some j)))))
       | _ \<Rightarrow> refused ''multiple canonical integrations match job checkpoint; manual reconciliation required'')))"

record integrate_args =
  ia_job :: str
  ia_message :: "str option"
  ia_validate :: "str option"

definition integrate_lock :: "env \<Rightarrow> wjob \<Rightarrow> str" where
  "integrate_lock v job = ''integrate-'' @ take 24 (ev_sha v (w_repo_id job @ [CHR 0x00] @ w_target job)) @ ''.lock''"

definition commit_body :: "wjob \<Rightarrow> str option \<Rightarrow> str \<Rightarrow> str \<Rightarrow> str \<Rightarrow> str" where
  "commit_body job message cp current policy_sha =
     (let nl = [CHR 0x0A] in
      (case url_given message of Some m \<Rightarrow> m | None \<Rightarrow> ''Integrate workspace '' @ w_id job)
      @ nl @ nl @ ''Bridge-Job-ID: '' @ w_id job @ nl @ ''Bridge-Resource: '' @ w_resource job @ nl
      @ ''Bridge-Base: '' @ w_base job @ nl @ ''Bridge-Checkpoint: '' @ cp @ nl
      @ ''Bridge-Policy-Revision: '' @ current @ nl @ ''Bridge-Policy-SHA256: '' @ policy_sha @ nl)"

text \<open>The temporary worktree next to the repository.\<close>

definition integration_dir :: "wjob \<Rightarrow> str \<Rightarrow> str" where
  "integration_dir job token =
     path_str (child (child (child (child (parent (parse_path (w_repo job))) ''.worktrees'') (w_repo_id job)) ''.integration'')
       (w_id job @ ''-'' @ token))"

definition run_validation :: "env \<Rightarrow> str \<Rightarrow> str \<Rightarrow> str \<Rightarrow> unit coord" where
  "run_validation v dir command label =
     bindC (job_shell v dir command) (\<lambda>(rc, out, err). need (rc = 0) (label @ '' failed rc='' @ int_str rc @ '': '' @ last_chars 3000 (if err = [] then out else err)))"

text \<open>Before the temporary worktree: what is merged, under which policy. A job that touches what canonical
  history touched since its base has to be reconciled with the very tip.\<close>

definition reconcile_gate :: "env \<Rightarrow> wjob \<Rightarrow> str \<Rightarrow> str \<Rightarrow> str list \<Rightarrow> unit coord" where
  "reconcile_gate v job cp current changed_job =
     bindC (changed_paths v (w_repo job) (w_base job) current) (\<lambda>changed_main.
     bindC (resource_seen_since v (w_repo job) (w_base job) current (w_resource job)) (\<lambda>seen.
     bindC (if w_reconciled job = Some current then is_ancestor v (w_repo job) current cp else ret False) (\<lambda>reconciled.
     let overlap = sort (remdups (filter (\<lambda>p. p \<in> set changed_main) changed_job)) in
     if (overlap \<noteq> [] \<or> seen) \<and> \<not> reconciled
     then bindC (save_job v (job\<lparr>w_state := ''conflicted'', w_conflict := Some (current, overlap, seen)\<rparr>)) (\<lambda>_.
            refused ''reconcile_required: canonical target changed in the same logical resource or paths'')
     else ret ())))"

definition prepare_integration :: "env \<Rightarrow> wjob \<Rightarrow> str \<Rightarrow> (str \<times> str \<times> str) coord" where
  "prepare_integration v job cp =
     bindC (canonical_tip v job) (\<lambda>current.
     bindC (is_ancestor v (w_repo job) (w_base job) current) (\<lambda>anc.
     bindC (need anc ''job base is no longer an ancestor of canonical target; manual recovery required'') (\<lambda>_.
     bindC (changed_paths v (w_repo job) (w_base job) cp) (\<lambda>changed_job.
     bindC (need (policy_path \<notin> set changed_job) ''candidate changed the trusted validation policy; use a separately reviewed policy update'') (\<lambda>_.
     bindC (trusted_validation v (w_repo job) current) (\<lambda>(validator, policy_sha).
     bindC (reconcile_gate v job cp current changed_job) (\<lambda>_.
     ret (current, validator, policy_sha))))))))"

definition push_target_args :: "str \<Rightarrow> str \<Rightarrow> str list" where
  "push_target_args url target = [''push'', url, ''HEAD:refs/heads/'' @ target]"

text \<open>In the temporary worktree: merge, validation, commit, push and its verification.\<close>

definition merge_checkpoint :: "env \<Rightarrow> wjob \<Rightarrow> str \<Rightarrow> str \<Rightarrow> unit coord" where
  "merge_checkpoint v job cp dir =
     bindC (git_try v dir [''merge'', ''--squash'', cp]) (\<lambda>(rc, out, err).
       if rc \<noteq> 0
       then bindC (save_job v (job\<lparr>w_state := ''conflicted'', w_error := Some (py_strip (if err = [] then out else err))\<rparr>)) (\<lambda>_.
              refused ''squash merge conflicted; job requires reconciliation'')
       else ret ())"

definition commit_candidate :: "env \<Rightarrow> integrate_args \<Rightarrow> wjob \<Rightarrow> str \<Rightarrow> str \<times> str \<times> str \<Rightarrow> str \<Rightarrow> str coord" where
  "commit_candidate v a job cp = (\<lambda>(current, validator, policy_sha) dir.
     bindC (case url_given (ia_validate a) of
              None \<Rightarrow> ret ()
            | Some extra \<Rightarrow> if extra = validator then ret () else run_validation v dir extra ''additional integration validation'') (\<lambda>_.
     bindC (git_try v dir [''diff'', ''--cached'', ''--quiet'']) (\<lambda>(rc', out', err').
     bindC (need (rc' \<noteq> 0) ''job has no canonical changes to integrate'') (\<lambda>_.
     bindC (git v dir [''commit'', ''-m'', commit_body job (ia_message a) cp current policy_sha]) (\<lambda>_.
     head_of v dir)))))"

definition build_candidate :: "env \<Rightarrow> integrate_args \<Rightarrow> wjob \<Rightarrow> str \<Rightarrow> str \<times> str \<times> str \<Rightarrow> str \<Rightarrow> str coord" where
  "build_candidate v a job cp = (\<lambda>(current, validator, policy_sha) dir.
     bindC (merge_checkpoint v job cp dir) (\<lambda>_.
     bindC (run_validation v dir validator ''trusted integration validation'') (\<lambda>_.
     commit_candidate v a job cp (current, validator, policy_sha) dir)))"

definition publish_candidate :: "env \<Rightarrow> wjob \<Rightarrow> str \<Rightarrow> str \<Rightarrow> str \<Rightarrow> unit coord" where
  "publish_candidate v job dir current candidate =
     bindC (canonical_tip v job) (\<lambda>latest.
     bindC (need (latest = current) (''canonical target moved during integration: '' @ current @ '' -> '' @ latest)) (\<lambda>_.
     bindC (push_target v job) (\<lambda>url.
     bindC (git_try v dir (push_target_args url (w_target job))) (\<lambda>(rc, out, err).
     bindC (need (rc = 0) (''canonical push rejected: '' @ py_strip (if err = [] then out else err))) (\<lambda>_.
     bindC (fetch_target v job) (\<lambda>fetch.
     verify_remote_branch v (w_repo job) fetch (w_target job) candidate))))))"

definition settle_integration :: "env \<Rightarrow> wjob \<Rightarrow> str \<Rightarrow> str \<Rightarrow> str \<Rightarrow> str \<Rightarrow> wjob coord" where
  "settle_integration v job cp current policy_sha candidate =
     bindC (ask (ev_now v)) (\<lambda>now.
     let settled = job\<lparr>w_state := ''integrated'', w_integration := Some candidate, w_integrated_at := Some now,
                       w_checkpoint := Some cp, w_remote_checkpoint := Some cp\<rparr> in
     bindC (git_line v (w_repo job) (tree_args candidate)) (\<lambda>tree.
     bindC (write_terminal_receipt v settled (Some current) (Some policy_sha) (Some tree) False) (\<lambda>_.
     save_job v settled)))"

text \<open>The temporary worktree is removed when it exists, whatever happened; the removal is not checked.\<close>

definition remove_worktree :: "env \<Rightarrow> wjob \<Rightarrow> str \<Rightarrow> unit coord" where
  "remove_worktree v job dir =
     bindC (ask (\<lambda>tr. ev_exists v tr dir)) (\<lambda>d.
       if d then bindC (git_try v (w_repo job) [''worktree'', ''remove'', ''--force'', dir]) (\<lambda>_. ret ()) else ret ())"

definition attempt_integration :: "env \<Rightarrow> integrate_args \<Rightarrow> wjob \<Rightarrow> str \<Rightarrow> str \<times> str \<times> str \<Rightarrow> str \<Rightarrow> wjob coord" where
  "attempt_integration v a job cp = (\<lambda>(current, validator, policy_sha) dir.
     and_then
       (bindC (git v (w_repo job) [''worktree'', ''add'', ''--detach'', dir, current]) (\<lambda>_.
        bindC (build_candidate v a job cp (current, validator, policy_sha) dir) (\<lambda>candidate.
        bindC (publish_candidate v job dir current candidate) (\<lambda>_.
        settle_integration v job cp current policy_sha candidate))))
       (remove_worktree v job dir))"

definition integrate_ready :: "env \<Rightarrow> integrate_args \<Rightarrow> wjob \<Rightarrow> wjob coord" where
  "integrate_ready v a job =
     bindC (dirty v (w_worktree job)) (\<lambda>d.
     bindC (need (\<not> d) ''job worktree is dirty; checkpoint first'') (\<lambda>_.
     bindC (head_of v (w_worktree job)) (\<lambda>cp.
     bindC (verify_job_branch v job cp) (\<lambda>_.
     bindC (take_lock v (integrate_lock v job)) (\<lambda>_.
     bindC (prepare_integration v job cp) (\<lambda>plan.
     bindC (ask (ev_token v)) (\<lambda>token.
     attempt_integration v a job cp plan (integration_dir job token))))))))"

definition integrate_job_locked :: "env \<Rightarrow> integrate_args \<Rightarrow> wjob coord" where
  "integrate_job_locked v a =
     bindC (load_job v (ia_job a)) (\<lambda>job.
       if w_state job = ''integrated'' then ret job
       else bindC (find_existing_integration v job) (\<lambda>existing.
              case existing of
                Some j \<Rightarrow> ret j
              | None \<Rightarrow>
                  bindC (need (w_state job = ''ready'') ''job must be ready before canonical integration'') (\<lambda>_.
                  integrate_ready v a job)))"

definition integrate_job :: "env \<Rightarrow> integrate_args \<Rightarrow> wjob coord" where
  "integrate_job v a = bindC (take_lock v (job_lock (ia_job a))) (\<lambda>_. integrate_job_locked v a)"

definition the_receipt :: "env \<Rightarrow> str \<Rightarrow> str \<Rightarrow> receipt coord" where
  "the_receipt v jid m = bindC (ask (\<lambda>tr. ev_receipt v tr jid)) (\<lambda>r. case r of Some x \<Rightarrow> ret x | None \<Rightarrow> refused m)"

definition finish_job :: "env \<Rightarrow> integrate_args \<Rightarrow> (wjob \<times> receipt) coord" where
  "finish_job v a =
     bindC (take_lock v (job_lock (ia_job a))) (\<lambda>_.
     bindC (load_job v (ia_job a)) (\<lambda>job.
     bindC (find_existing_integration v job) (\<lambda>existing.
       if w_state job = ''integrated''
       then bindC (the_receipt v (ia_job a) ''integrated metadata lacks terminal receipt; recover before finish'') (\<lambda>r.
              ret (case existing of Some j \<Rightarrow> j | None \<Rightarrow> job, r))
       else (case existing of
               Some j \<Rightarrow> bindC (the_receipt v (ia_job a) ''FileNotFoundError'') (\<lambda>r. ret (j, r))
             | None \<Rightarrow>
                 bindC (dirty v (w_worktree job)) (\<lambda>d.
                 bindC (if d then checkpoint v job (ia_message a) else ret job) (\<lambda>job1.
                 bindC (ready_job_locked v False (ia_message a) job1) (\<lambda>_.
                 bindC (integrate_job_locked v a) (\<lambda>j.
                 bindC (the_receipt v (ia_job a) ''integration missing immutable completion receipt'') (\<lambda>r.
                 ret (j, r))))))))))"

subsection \<open>Creating a job\<close>

definition resource_ok :: "str \<Rightarrow> bool" where
  "resource_ok s =
     (case s of
        [] \<Rightarrow> False
      | c # cs \<Rightarrow> (is_lower c \<or> is_upper c \<or> is_digit c) \<and> length cs \<le> 199
          \<and> list_all (\<lambda>x. is_lower x \<or> is_upper x \<or> is_digit x \<or> x \<in> set ''._:/-'') cs)"

record create_args =
  ca_repo :: str
  ca_resource :: str
  ca_remote :: str
  ca_target :: str
  ca_job :: "str option"
  ca_worktree_root :: "str option"
  ca_push_initial :: bool

text \<open>\<open>re.sub\<close> of runs of other characters by one hyphen, the last 36 characters, and the random suffix.\<close>

fun slug_runs :: "bool \<Rightarrow> str \<Rightarrow> str" where
  "slug_runs sep [] = []"
| "slug_runs sep (c # cs) =
     (let l = (if is_upper c then char_of (code c + 32) else c) in
      if is_lower l \<or> is_digit l then l # slug_runs False cs
      else if sep then slug_runs True cs else CHR ''-'' # slug_runs True cs)"

definition strip_hyphens :: "str \<Rightarrow> str" where
  "strip_hyphens s = rev (dropWhile (\<lambda>c. c = CHR ''-'') (rev (dropWhile (\<lambda>c. c = CHR ''-'') s)))"

definition new_job_id :: "str \<Rightarrow> str \<Rightarrow> str \<Rightarrow> str" where
  "new_job_id resource stamp token =
     (let slug = strip_hyphens (slug_runs False resource); short = drop (length slug - 36) slug in
      ''ws-'' @ stamp @ ''-'' @ (if short = [] then ''job'' else short) @ ''-'' @ token)"

definition branch_prefix :: str where
  "branch_prefix = ''ai/workspace/''"

definition repo_root :: "env \<Rightarrow> str \<Rightarrow> str coord" where
  "repo_root v dir = bindC (git_line v dir [''rev-parse'', ''--show-toplevel'']) (\<lambda>out. ret (ev_resolve v out))"

definition repo_id :: "env \<Rightarrow> str \<Rightarrow> str \<Rightarrow> str coord" where
  "repo_id v repo remote =
     bindC (remote_url v repo remote) (\<lambda>url. ret (take 16 (ev_sha v (ev_resolve v repo @ [CHR 0x00] @ url))))"

definition worktree_path :: "env \<Rightarrow> create_args \<Rightarrow> str \<Rightarrow> str \<Rightarrow> str \<Rightarrow> str" where
  "worktree_path v a repo rid jid =
     path_str (child
       (case url_given (ca_worktree_root a) of
          Some r \<Rightarrow> parse_path (ev_resolve v r)
        | None \<Rightarrow> child (child (parent (parse_path repo)) ''.worktrees'') rid) jid)"

definition new_job :: "create_args \<Rightarrow> str \<Rightarrow> str \<Rightarrow> str \<Rightarrow> str \<Rightarrow> str \<Rightarrow> str \<Rightarrow> str \<Rightarrow> str \<Rightarrow> wjob" where
  "new_job a jid repo rid fetch push base worktree now =
     \<lparr>w_id = jid, w_repo = repo, w_repo_id = rid, w_remote = ca_remote a, w_url = Some fetch, w_push_url = Some push,
      w_target = ca_target a, w_base = base, w_branch = branch_prefix @ jid, w_worktree = worktree, w_resource = ca_resource a,
      w_state = ''active'', w_created = now, w_updated = now, w_checkpoint = Some base, w_remote_checkpoint = None,
      w_reconciled = Some base, w_integration = None, w_integrated_at = None, w_error = None, w_conflict = None, w_released = None, w_note = None\<rparr>"

definition create_job :: "env \<Rightarrow> create_args \<Rightarrow> wjob coord" where
  "create_job v a =
     bindC (repo_root v (ca_repo a)) (\<lambda>repo.
     bindC (need (resource_ok (ca_resource a)) ''resource must be 1..200 characters using letters/digits/._:/-'') (\<lambda>_.
     bindC (remote_url v repo (ca_remote a)) (\<lambda>fetch.
     bindC (remote_push_url v repo (ca_remote a)) (\<lambda>push.
     bindC (git v repo (fetch_args fetch (ca_remote a) (ca_target a))) (\<lambda>_.
     bindC (git_line v repo (tip_args (ca_remote a) (ca_target a))) (\<lambda>base.
     bindC (ask (\<lambda>tr. case url_given (ca_job a) of Some j \<Rightarrow> j | None \<Rightarrow> new_job_id (ca_resource a) (ev_stamp v tr) (ev_token v tr))) (\<lambda>jid.
     bindC (ask (\<lambda>tr. ev_job_exists v tr jid)) (\<lambda>known.
     bindC (need (\<not> known) (''job already exists: '' @ jid)) (\<lambda>_.
     let branch = branch_prefix @ jid in
     bindC (git_try v repo [''show-ref'', ''--verify'', ''--quiet'', ''refs/heads/'' @ branch]) (\<lambda>(rc, out, err).
     bindC (need (rc \<noteq> 0) (''job branch already exists: '' @ branch)) (\<lambda>_.
     bindC (repo_id v repo (ca_remote a)) (\<lambda>rid.
     let worktree = worktree_path v a repo rid jid in
     bindC (ask (\<lambda>tr. ev_exists v tr worktree)) (\<lambda>there.
     bindC (need (\<not> there) (''worktree path already exists: '' @ worktree)) (\<lambda>_.
     bindC (git v repo [''worktree'', ''add'', ''--lock'', ''--reason'', ''ChatGPT workspace '' @ jid, ''-b'', branch, worktree, base]) (\<lambda>_.
     bindC (ask (ev_now v)) (\<lambda>now.
     bindC (save_job v (new_job a jid repo rid fetch push base worktree now)) (\<lambda>job.
     if \<not> ca_push_initial a then ret job
     else bindC (git v worktree (push_branch_args push branch)) (\<lambda>_.
          bindC (head_of v worktree) (\<lambda>head.
          bindC (verify_remote_branch v repo fetch branch head) (\<lambda>_.
          save_job v (job\<lparr>w_remote_checkpoint := Some head\<rparr>)))))))))))))))))))))"

definition same_identity :: "wjob \<Rightarrow> create_args \<Rightarrow> str \<Rightarrow> bool" where
  "same_identity job a repo =
     (w_repo job = repo \<and> w_resource job = ca_resource a \<and> w_remote job = ca_remote a \<and> w_target job = ca_target a)"

definition ensure_job :: "env \<Rightarrow> create_args \<Rightarrow> wjob coord" where
  "ensure_job v a =
     (case url_given (ca_job a) of
        None \<Rightarrow> create_job v a
      | Some jid \<Rightarrow>
          bindC (ask (\<lambda>tr. ev_job_exists v tr jid)) (\<lambda>known.
            if \<not> known then create_job v a
            else
              bindC (load_job v jid) (\<lambda>job.
              bindC (repo_root v (ca_repo a)) (\<lambda>repo.
              bindC (need (resource_ok (ca_resource a)) ''resource must be 1..200 characters using letters/digits/._:/-'') (\<lambda>_.
              bindC (need (same_identity job a repo) (''existing job '' @ jid @ '' does not match requested identity'')) (\<lambda>_.
              bindC (ask (\<lambda>tr. ev_is_dir v tr (w_worktree job))) (\<lambda>d.
              bindC (need d (''existing job '' @ jid @ '' worktree is missing: '' @ w_worktree job)) (\<lambda>_.
              bindC (git_line v (w_worktree job) [''branch'', ''--show-current'']) (\<lambda>branch.
              bindC (need (branch = w_branch job) (''existing job '' @ jid @ '' worktree branch does not match metadata'')) (\<lambda>_.
              if ca_push_initial a \<and> url_given (w_remote_checkpoint job) = None
              then
                bindC (head_of v (w_worktree job)) (\<lambda>head.
                bindC (push_target v job) (\<lambda>url.
                bindC (git v (w_worktree job) (push_branch_args url (w_branch job))) (\<lambda>_.
                bindC (fetch_target v job) (\<lambda>fetch.
                bindC (verify_remote_branch v repo fetch (w_branch job) head) (\<lambda>_.
                save_job v (job\<lparr>w_remote_checkpoint := Some head\<rparr>))))))
              else ret job))))))))))"

end
