(* ===== verification/WorkspaceSafety.thy ===== *)
theory WorkspaceSafety
  imports Workspace
begin

text \<open>
  What the worktree coordinator guarantees whatever Git and other processes answer: the canonical branch is
  pushed only after the trusted policy of the current canonical commit passed in the very worktree that is
  pushed and the tip was read again unchanged; every push goes to the recorded address; receipts come
  before the job is marked as integrated.
\<close>

subsection \<open>Programs without a publication\<close>

definition publishes :: "str \<Rightarrow> event \<Rightarrow> bool" where
  "publishes target e =
     (case e of Git d args \<Rightarrow> args \<noteq> [] \<and> hd args = ''push'' \<and> last args = ''HEAD:refs/heads/'' @ target | _ \<Rightarrow> False)"

definition settles :: "event \<Rightarrow> bool" where
  "settles e = (case e of SaveJob j \<Rightarrow> w_state j = ''integrated'' | _ \<Rightarrow> False)"

abbreviation silent :: "str \<Rightarrow> 'a coord \<Rightarrow> bool" where
  "silent target \<equiv> only (\<lambda>e. \<not> publishes target e \<and> \<not> settles e)"

lemma silent_prefix: "silent t m \<Longrightarrow> m tr = (r, tr') \<Longrightarrow> prefix tr tr'"
  by (rule only_prefix)

lemma silent_basic [only_rules]:
  "silent t (load_job v jid)" "silent t (take_lock v n)" "silent t (job_shell v d c)"
  "silent t (write_terminal_receipt v j p q w leg)"
  by (auto simp: only_def load_job_def take_lock_def job_shell_def settles_def
      write_terminal_receipt_def Let_def publishes_def intro: adds_snoc split: sum.split option.split)

lemma silent_save [only_rules]: "w_state j \<noteq> ''integrated'' \<Longrightarrow> silent t (save_job v j)"
  by (auto simp: only_def save_job_def Let_def publishes_def settles_def intro: adds_snoc)

lemma silent_git_try [only_rules]: "\<not> publishes t (Git d a) \<Longrightarrow> silent t (git_try v d a)"
  by (auto simp: only_def git_try_def settles_def intro: adds_snoc split: option.split)

lemma silent_git [only_rules]: "\<not> publishes t (Git d a) \<Longrightarrow> silent t (git v d a)"
  unfolding git_def by (auto intro!: only_rules)

lemma silent_git_line [only_rules]: "\<not> publishes t (Git d a) \<Longrightarrow> silent t (git_line v d a)"
  unfolding git_line_def by (auto intro!: only_rules)

lemma publishes_other [simp]: "args \<noteq> [] \<Longrightarrow> hd args \<noteq> ''push'' \<Longrightarrow> \<not> publishes t (Git d args)"
  by (simp add: publishes_def)

lemmas remote_defs = remote_url_def remote_push_url_def assert_remote_identity_def fetch_target_def push_target_def
  remote_ref_def verify_remote_branch_def verify_job_branch_def canonical_tip_def fetch_args_def tip_args_def dirty_def
  head_of_def is_ancestor_def

lemma silent_remote [only_rules]:
  "silent t (remote_url v r n)" "silent t (remote_push_url v r n)" "silent t (assert_remote_identity v j)"
  "silent t (fetch_target v j)" "silent t (push_target v j)" "silent t (remote_ref v r n b)"
  "silent t (verify_remote_branch v r n b x)" "silent t (verify_job_branch v j h)" "silent t (canonical_tip v j)"
  "silent t (dirty v d)" "silent t (head_of v d)" "silent t (is_ancestor v r a b)"
  unfolding remote_defs by (auto intro!: only_rules split: option.split list.split)

lemma silent_reading [only_rules]:
  "silent t (changed_paths v r a b)" "silent t (resource_seen_since v r a b c)" "silent t (trusted_validation v r c)"
  "silent t (the_receipt v jid m)" "silent t (run_validation v d c l)" "silent t (remove_worktree v j d)"
  unfolding changed_paths_def resource_seen_since_def trusted_validation_def the_receipt_def show_policy_args_def
    run_validation_def remove_worktree_def
  by (auto intro!: only_rules split: option.split)

lemma silent_matching [only_rules]: "silent t (matching v j shas)"
  by (induction shas) (auto intro!: only_rules)

lemma silent_gate [only_rules]: "silent t (reconcile_gate v j cp c ps)"
  unfolding reconcile_gate_def Let_def by (auto intro!: only_rules)

lemma silent_prepare [only_rules]: "silent t (prepare_integration v j cp)"
  unfolding prepare_integration_def Let_def by (auto intro!: only_rules)

lemma silent_merge [only_rules]: "silent t (merge_checkpoint v j cp d)"
  unfolding merge_checkpoint_def by (auto intro!: only_rules split: prod.split)

lemma silent_commit [only_rules]: "silent t (commit_candidate v a j cp p d)"
  unfolding commit_candidate_def by (auto intro!: only_rules split: prod.split option.split)

lemma silent_build [only_rules]: "silent t (build_candidate v a j cp p d)"
  unfolding build_candidate_def by (auto intro!: only_rules split: prod.split)

subsection \<open>What a result shows\<close>

text \<open>Between the events \<open>tr\<close> and \<open>tr'\<close> a call of Git succeeded with the output \<open>out\<close>, a shell with status 0.\<close>

definition read_since :: "env \<Rightarrow> event list \<Rightarrow> event list \<Rightarrow> str \<Rightarrow> str list \<Rightarrow> str \<Rightarrow> bool" where
  "read_since v tr tr' d args out =
     (\<exists>us err. prefix tr us \<and> prefix (us @ [Git d args]) tr' \<and> ev_git v us d args = Some (0, out, err))"

definition passed_since :: "env \<Rightarrow> event list \<Rightarrow> event list \<Rightarrow> str \<Rightarrow> str \<Rightarrow> bool" where
  "passed_since v tr tr' d command =
     (\<exists>us out err. prefix tr us \<and> prefix (us @ [Shell d command]) tr' \<and> ev_shell v us d command = Inr (0, out, err))"

definition tip_since :: "env \<Rightarrow> wjob \<Rightarrow> event list \<Rightarrow> event list \<Rightarrow> str \<Rightarrow> bool" where
  "tip_since v job tr tr' tip =
     (\<exists>out. read_since v tr tr' (w_repo job) (tip_args (w_remote job) (w_target job)) out \<and> py_strip out = tip)"

text \<open>The candidate is cleared for validation: the canonical tip, the policy of that very commit, and a job that
  neither left the base of the branch nor touched the policy.\<close>

definition cleared :: "env \<Rightarrow> wjob \<Rightarrow> event list \<Rightarrow> event list \<Rightarrow> str \<Rightarrow> str \<Rightarrow> bool" where
  "cleared v job tr tr' current command =
     (tip_since v job tr tr' current
      \<and> (\<exists>out. read_since v tr tr' (w_repo job) (show_policy_args current) out
           \<and> Option.bind (ev_parse v out) policy_command = Some command)
      \<and> (\<exists>out. read_since v tr tr' (w_repo job) [''merge-base'', ''--is-ancestor'', w_base job, current] out)
      \<and> (\<exists>cp out. read_since v tr tr' (w_repo job) [''diff'', ''--name-only'', w_base job @ ''..'' @ cp] out
           \<and> policy_path \<notin> set (text_lines out)))"

definition validated_push :: "env \<Rightarrow> wjob \<Rightarrow> event list \<Rightarrow> event list \<Rightarrow> str \<Rightarrow> bool" where
  "validated_push v job tr us dir =
     (\<exists>current command t1 t2. prefix t1 t2 \<and> prefix t2 us \<and> cleared v job tr t1 current command
        \<and> passed_since v t1 t2 dir command \<and> tip_since v job t2 us current)"

lemma read_since_later:
  assumes "read_since v us vs d args out" "prefix tr us" "prefix vs tr'"
  shows "read_since v tr tr' d args out"
  using assms unfolding read_since_def by (meson prefix_order.trans)

lemma git_try_read: "git_try v d a tr = (Inr (0, out, err), tr') \<Longrightarrow> read_since v tr tr' d a out"
  by (auto simp: git_try_def read_since_def split: option.splits)

lemma git_read: "git v d a tr = (Inr out, tr') \<Longrightarrow> read_since v tr tr' d a out"
  by (auto simp: git_def bindC_Inr ret_def refused_def split: if_splits dest: git_try_read)

lemma git_line_read: "git_line v d a tr = (Inr line, tr') \<Longrightarrow> \<exists>out. read_since v tr tr' d a out \<and> py_strip out = line"
  by (auto simp: git_line_def bindC_Inr ret_def dest: git_read)

lemma tip_read:
  assumes "canonical_tip v job tr = (Inr current, tr')"
  shows "tip_since v job tr tr' current"
proof -
  from assms obtain url us out vs where
    "fetch_target v job tr = (Inr url, us)"
    "git v (w_repo job) (fetch_args url (w_remote job) (w_target job)) us = (Inr out, vs)"
    "git_line v (w_repo job) (tip_args (w_remote job) (w_target job)) vs = (Inr current, tr')"
    by (auto simp: canonical_tip_def bindC_Inr)
  note calls = this
  have "silent (w_target job) (fetch_target v job)" by (rule only_rules)
  then have "prefix tr us" using calls(1) by (rule silent_prefix)
  have "silent (w_target job) (git v (w_repo job) (fetch_args url (w_remote job) (w_target job)))"
    by (rule only_rules) (simp add: fetch_args_def)
  then have "prefix us vs" using calls(2) by (rule silent_prefix)
  with \<open>prefix tr us\<close> have "prefix tr vs" by (rule prefix_order.trans)
  with git_line_read [OF calls(3)] show ?thesis
    unfolding tip_since_def by (metis prefix_order.refl read_since_later)
qed

lemma policy_read:
  assumes "trusted_validation v repo current tr = (Inr (command, sha), tr')"
  shows "\<exists>out. read_since v tr tr' repo (show_policy_args current) out \<and> Option.bind (ev_parse v out) policy_command = Some command"
  using assms by (auto simp: trusted_validation_def bindC_Inr ret_def refused_def split: if_splits option.splits dest!: git_try_read)

lemma changed_read:
  assumes "changed_paths v repo a b tr = (Inr paths, tr')"
  shows "\<exists>out. read_since v tr tr' repo [''diff'', ''--name-only'', a @ ''..'' @ b] out \<and> text_lines out = paths"
  using assms by (auto simp: changed_paths_def bindC_Inr ret_def dest!: git_read)

lemma ancestor_read:
  assumes "is_ancestor v repo a b tr = (Inr True, tr')"
  shows "\<exists>out. read_since v tr tr' repo [''merge-base'', ''--is-ancestor'', a, b] out"
  using assms by (auto simp: is_ancestor_def bindC_Inr ret_def dest!: git_try_read)

lemma read_since_mono: "read_since v tr us d args out \<Longrightarrow> prefix us tr' \<Longrightarrow> read_since v tr tr' d args out"
  by (rule read_since_later) auto

lemma tip_since_later: "tip_since v job us vs c \<Longrightarrow> prefix tr us \<Longrightarrow> prefix vs tr' \<Longrightarrow> tip_since v job tr tr' c"
  unfolding tip_since_def by (metis read_since_later)

lemma prepare_clears:
  assumes "prepare_integration v job cp tr = (Inr (current, command, sha), tr')"
  shows "cleared v job tr tr' current command"
proof -
  from assms obtain t1 t2 changed t3 t4 where
    tip: "canonical_tip v job tr = (Inr current, t1)"
    and anc: "is_ancestor v (w_repo job) (w_base job) current t1 = (Inr True, t2)"
    and changed: "changed_paths v (w_repo job) (w_base job) cp t2 = (Inr changed, t3)" "policy_path \<notin> set changed"
    and policy: "trusted_validation v (w_repo job) current t3 = (Inr (command, sha), t4)"
    and gate: "reconcile_gate v job cp current changed t4 = (Inr (), tr')"
    by (auto simp: prepare_integration_def bindC_Inr ret_def split: prod.splits)
  have p1: "prefix tr t1" by (rule silent_prefix [of "w_target job", OF silent_remote(9) tip])
  have p2: "prefix t1 t2" by (rule silent_prefix [of "w_target job", OF silent_remote(12) anc])
  have p3: "prefix t2 t3" by (rule silent_prefix [of "w_target job", OF silent_reading(1) changed(1)])
  have p4: "prefix t3 t4" by (rule silent_prefix [of "w_target job", OF silent_reading(3) policy])
  have p5: "prefix t4 tr'" by (rule silent_prefix [of "w_target job", OF silent_gate gate])
  note p = p1 p2 p3 p4 p5
  have "tip_since v job tr tr' current"
    by (rule tip_since_later [OF tip_read [OF tip]]) (use p in auto)
  moreover from policy_read [OF policy] have
    "\<exists>out. read_since v tr tr' (w_repo job) (show_policy_args current) out \<and> Option.bind (ev_parse v out) policy_command = Some command"
    by (meson p prefix_order.trans read_since_later)
  moreover from ancestor_read [OF anc] have
    "\<exists>out. read_since v tr tr' (w_repo job) [''merge-base'', ''--is-ancestor'', w_base job, current] out"
    by (meson p prefix_order.trans read_since_later)
  moreover from changed_read [OF changed(1)] changed(2) have
    "\<exists>cp out. read_since v tr tr' (w_repo job) [''diff'', ''--name-only'', w_base job @ ''..'' @ cp] out
       \<and> policy_path \<notin> set (text_lines out)"
    by (meson p prefix_order.trans read_since_later)
  ultimately show ?thesis by (simp add: cleared_def)
qed

lemma validation_passes:
  assumes "run_validation v dir command label tr = (Inr x, tr')"
  shows "passed_since v tr tr' dir command"
  using assms unfolding passed_since_def
  by (auto simp: run_validation_def bindC_Inr job_shell_def split: sum.splits prod.splits)

lemma build_passes:
  assumes "build_candidate v a job cp (current, command, sha) dir tr = (Inr candidate, tr')"
  shows "passed_since v tr tr' dir command"
proof -
  from assms obtain t1 t2 where
    merge: "merge_checkpoint v job cp dir tr = (Inr (), t1)"
    and val: "run_validation v dir command ''trusted integration validation'' t1 = (Inr (), t2)"
    and commit: "commit_candidate v a job cp (current, command, sha) dir t2 = (Inr candidate, tr')"
    by (auto simp: build_candidate_def bindC_Inr)
  have "prefix tr t1" by (rule silent_prefix [of "w_target job", OF silent_merge merge])
  moreover have "prefix t2 tr'" by (rule silent_prefix [of "w_target job", OF silent_commit commit])
  ultimately show ?thesis using validation_passes [OF val] unfolding passed_since_def by (meson prefix_order.trans)
qed

subsection \<open>Every step of an integration\<close>

definition push_cleared :: "env \<Rightarrow> wjob \<Rightarrow> event list \<Rightarrow> event list \<Rightarrow> event \<Rightarrow> bool" where
  "push_cleared v job tr us e =
     (case e of
        Git dir args \<Rightarrow>
          if publishes (w_target job) e
          then validated_push v job tr us dir \<and> push_url job = Some (args ! 1)
          else True
      | _ \<Rightarrow> True)"

definition certifies :: "receipt \<Rightarrow> wjob \<Rightarrow> bool" where
  "certifies r j = (rc_job r = w_id j \<and> rc_checkpoint r = w_checkpoint j \<and> rc_integration r = w_integration j)"

text \<open>The receipt is written, or read from the disk, before the job is saved as integrated.\<close>

definition receipt_since :: "env \<Rightarrow> event list \<Rightarrow> event list \<Rightarrow> wjob \<Rightarrow> bool" where
  "receipt_since v tr us j =
     (\<exists>ws r. prefix tr ws \<and> certifies r j
        \<and> (prefix (ws @ [SaveReceipt r]) us \<or> (prefix ws us \<and> ev_receipt v ws (w_id j) = Some r)))"

definition save_certified :: "env \<Rightarrow> event list \<Rightarrow> event list \<Rightarrow> event \<Rightarrow> bool" where
  "save_certified v tr us e =
     (case e of SaveJob j \<Rightarrow> if w_state j = ''integrated'' then receipt_since v tr us j else True | _ \<Rightarrow> True)"

definition sound :: "env \<Rightarrow> wjob \<Rightarrow> event list \<Rightarrow> event list \<Rightarrow> event \<Rightarrow> bool" where
  "sound v job tr us e = (push_cleared v job tr us e \<and> save_certified v tr us e)"

lemma keeps_silent: "silent (w_target job) m \<Longrightarrow> keeps (sound v job tr0) m tr"
  by (rule keeps_only, assumption) (auto simp: sound_def push_cleared_def save_certified_def settles_def split: event.splits)

lemma receipt_certifies:
  assumes "write_terminal_receipt v j p q w leg tr = (Inr r, tr')"
  shows "receipt_since v tr tr' j"
  using assms unfolding receipt_since_def
  by (auto simp: write_terminal_receipt_def Let_def certifies_def receipt_of_def split: option.splits if_splits)

lemma receipt_since_later: "receipt_since v us vs j \<Longrightarrow> prefix tr us \<Longrightarrow> prefix vs tr' \<Longrightarrow> receipt_since v tr tr' j"
  unfolding receipt_since_def by (meson prefix_order.trans)

lemma receipt_since_stamp [simp]: "receipt_since v tr us (j\<lparr>w_updated := n\<rparr>) = receipt_since v tr us j"
  by (simp add: receipt_since_def certifies_def)

lemma keeps_certified_save:
  assumes "receipt_since v tr0 tr j"
  shows "keeps (sound v job tr0) (save_job v j) tr"
  using assms unfolding keeps_def
  by (auto simp: save_job_def Let_def sound_def push_cleared_def save_certified_def intro: grows_snoc)

text \<open>A receipt for a job and then the job itself.\<close>

lemma keeps_settling:
  assumes "prefix tr0 tr" "\<And>x us. keeps (sound v job tr0) (f x) us"
  shows "keeps (sound v job tr0) (bindC (write_terminal_receipt v j p q w leg) (\<lambda>_. bindC (save_job v j) f)) tr"
proof (rule keeps_bind)
  show "keeps (sound v job tr0) (write_terminal_receipt v j p q w leg) tr" by (rule keeps_silent) (rule only_rules)
  fix r us assume "write_terminal_receipt v j p q w leg tr = (Inr r, us)"
  then have "receipt_since v tr us j" by (rule receipt_certifies)
  then have "receipt_since v tr0 us j" by (rule receipt_since_later [OF _ assms(1)]) simp
  then show "keeps (sound v job tr0) (bindC (save_job v j) f) us"
    by (intro keeps_bind keeps_certified_save assms(2))
qed

lemma keeps_settling_last:
  assumes "prefix tr0 tr"
  shows "keeps (sound v job tr0) (bindC (write_terminal_receipt v j p q w leg) (\<lambda>_. save_job v j)) tr"
  using keeps_settling [OF assms, of v job ret j p q w leg] by (simp add: bindC_ret keeps_silent only_rules)

lemma keeps_settle: "prefix tr0 tr \<Longrightarrow> keeps (sound v job tr0) (settle_integration v job cp current sha candidate) tr"
  unfolding settle_integration_def Let_def
  by (intro keeps_bind keeps_settling_last)
    (auto intro!: keeps_silent only_rules simp: tree_args_def dest!: silent_prefix [of "w_target job", rotated]
      intro: prefix_order.trans only_rules)

lemma silent_step:
  assumes "silent (w_target job) m" "prefix tr0 tr"
    and "\<And>x us. m tr = (Inr x, us) \<Longrightarrow> prefix tr us \<Longrightarrow> prefix tr0 us \<Longrightarrow> keeps (sound v job tr0) (f x) us"
  shows "keeps (sound v job tr0) (bindC m f) tr"
  by (intro keeps_bind keeps_silent assms) (auto intro: assms silent_prefix prefix_order.trans)

lemma keeps_existing:
  assumes "prefix tr0 tr"
  shows "keeps (sound v job tr0) (find_existing_integration v job) tr"
  unfolding find_existing_integration_def Let_def
  by (intro silent_step assms)
    (auto intro!: keeps_settling keeps_leaf only_rules silent_step [where m = "ask g" for g]
      silent_step [where m = "git_line w d l" for w d l] simp: tree_args_def log_args_def split: list.split)

lemma push_address: "push_target v job tr = (Inr url, tr') \<Longrightarrow> push_url job = Some url"
  by (auto simp: push_target_def assert_remote_identity_def bindC_Inr ret_def refused_def url_given_def
      split: option.splits if_splits)

lemma keeps_publish:
  assumes "prefix tr0 t1" "cleared v job tr0 t1 current command" "prefix t1 t2" "passed_since v t1 t2 dir command" "prefix t2 tr"
  shows "keeps (sound v job tr0) (publish_candidate v job dir current candidate) tr"
  unfolding publish_candidate_def
proof (rule silent_step)
  show "silent (w_target job) (canonical_tip v job)" by (rule only_rules)
  show "prefix tr0 tr" using assms by (meson prefix_order.trans)
  fix latest us assume tip: "canonical_tip v job tr = (Inr latest, us)" and later: "prefix tr us" "prefix tr0 us"
  from tip have "tip_since v job tr us latest" by (rule tip_read)
  then have tip2: "tip_since v job t2 us latest" using assms(5) by (rule tip_since_later) simp
  show "keeps (sound v job tr0) (bindC (need (latest = current) (''canonical target moved during integration: '' @ current @ '' -> '' @ latest)) (\<lambda>_.
     bindC (push_target v job) (\<lambda>url.
     bindC (git_try v dir (push_target_args url (w_target job))) (\<lambda>(rc, out, err).
     bindC (need (rc = 0) (''canonical push rejected: '' @ py_strip (if err = [] then out else err))) (\<lambda>_.
     bindC (fetch_target v job) (\<lambda>fetch.
     verify_remote_branch v (w_repo job) fetch (w_target job) candidate)))))) us"
  proof (rule keeps_need, rule silent_step)
    show "silent (w_target job) (push_target v job)" by (rule only_rules)
    show "prefix tr0 us" by (rule later)
    fix url vs assume same: "latest = current" and url: "push_target v job us = (Inr url, vs)" and "prefix us vs" "prefix tr0 vs"
    have "tip_since v job t2 vs current" using tip2 same \<open>prefix us vs\<close> by (auto intro: tip_since_later)
    moreover have "prefix t2 vs" using assms(5) later(1) \<open>prefix us vs\<close> by (meson prefix_order.trans)
    ultimately have valid: "validated_push v job tr0 vs dir"
      using assms unfolding validated_push_def by blast
    show "keeps (sound v job tr0) (bindC (git_try v dir (push_target_args url (w_target job))) (\<lambda>(rc, out, err).
       bindC (need (rc = 0) (''canonical push rejected: '' @ py_strip (if err = [] then out else err))) (\<lambda>_.
       bindC (fetch_target v job) (\<lambda>fetch.
       verify_remote_branch v (w_repo job) fetch (w_target job) candidate)))) vs"
    proof (rule keeps_bind)
      show "keeps (sound v job tr0) (git_try v dir (push_target_args url (w_target job))) vs"
        using valid push_address [OF url] unfolding keeps_def
        by (auto simp: git_try_def sound_def push_cleared_def save_certified_def push_target_args_def intro!: grows_snoc split: option.split)
    qed (auto intro!: keeps_silent only_rules split: prod.split)
  qed
qed

lemma keeps_attempt:
  assumes "prefix tr0 t1" "cleared v job tr0 t1 current command" "prefix t1 tr"
  shows "keeps (sound v job tr0) (attempt_integration v a job cp (current, command, sha) dir) tr"
  unfolding attempt_integration_def prod.case
proof (rule keeps_and_then)
  show "keeps (sound v job tr0) (remove_worktree v job dir) us" for us by (rule keeps_silent) (rule only_rules)
  have start: "prefix tr0 tr" using assms(1,3) by (rule prefix_order.trans)
  show "keeps (sound v job tr0)
       (bindC (git v (w_repo job) [''worktree'', ''add'', ''--detach'', dir, current]) (\<lambda>_.
        bindC (build_candidate v a job cp (current, command, sha) dir) (\<lambda>candidate.
        bindC (publish_candidate v job dir current candidate) (\<lambda>_.
        settle_integration v job cp current sha candidate)))) tr"
  proof (rule silent_step [OF _ start], rule_tac [2] silent_step)
    show "silent (w_target job) (git v (w_repo job) [''worktree'', ''add'', ''--detach'', dir, current])"
      by (rule only_rules) simp
    show "silent (w_target job) (build_candidate v a job cp (current, command, sha) dir)" by (rule only_rules)
    fix t2 candidate t3
    assume "prefix tr t2" and build: "build_candidate v a job cp (current, command, sha) dir t2 = (Inr candidate, t3)"
      and "prefix t2 t3" "prefix tr0 t3"
    have "prefix t1 t2" using assms(3) \<open>prefix tr t2\<close> by (rule prefix_order.trans)
    with build_passes [OF build] have "passed_since v t1 t3 dir command"
      unfolding passed_since_def by (meson prefix_order.trans)
    then have pub: "keeps (sound v job tr0) (publish_candidate v job dir current candidate) t3"
      using assms(1,2) \<open>prefix t1 t2\<close> \<open>prefix t2 t3\<close> by (meson keeps_publish prefix_order.trans prefix_order.refl)
    show "keeps (sound v job tr0)
        (bindC (publish_candidate v job dir current candidate) (\<lambda>_. settle_integration v job cp current sha candidate)) t3"
      using pub by (rule keeps_bind)
        (intro keeps_settle prefix_order.trans [OF \<open>prefix tr0 t3\<close>] keeps_prefix [OF pub])
  qed
qed

lemma keeps_ready:
  assumes "prefix tr0 tr"
  shows "keeps (sound v job tr0) (integrate_ready v a job) tr"
  unfolding integrate_ready_def
proof (intro silent_step assms keeps_need)
  fix cp t1 p t2 token t3
  assume prep: "prepare_integration v job cp t1 = (Inr p, t2)" and "prefix tr0 t1" "prefix t1 t2" "prefix tr0 t2" "prefix t2 t3"
  obtain current command sha where p: "p = (current, command, sha)" by (cases p)
  have "cleared v job t1 t2 current command" using prep unfolding p by (rule prepare_clears)
  then have "cleared v job tr0 t2 current command"
    using \<open>prefix tr0 t1\<close> unfolding cleared_def
    by (meson prefix_order.refl read_since_later tip_since_later)
  then show "keeps (sound v job tr0) (attempt_integration v a job cp p (integration_dir job token)) t3"
    unfolding p using \<open>prefix tr0 t2\<close> \<open>prefix t2 t3\<close> by (intro keeps_attempt)
qed (auto intro: only_rules)

lemma keeps_locked:
  assumes "ev_job v tr (ia_job a) = Inr job" "prefix tr0 tr"
  shows "keeps (sound v job tr0) (integrate_job_locked v a) tr"
  unfolding integrate_job_locked_def
proof (rule keeps_bind)
  show "keeps (sound v job tr0) (load_job v (ia_job a)) tr" by (rule keeps_silent) (rule only_rules)
  fix j us assume "load_job v (ia_job a) tr = (Inr j, us)"
  with assms have j: "j = job" and us: "prefix tr0 us" by (auto simp: load_job_def)
  have found: "keeps (sound v job tr0) (find_existing_integration v job) us" using us by (rule keeps_existing)
  have "keeps (sound v job tr0) (case existing of Some i \<Rightarrow> ret i
      | None \<Rightarrow> bindC (need (w_state job = ''ready'') m) (\<lambda>_. integrate_ready v a job)) vs"
    if "find_existing_integration v job us = (Inr existing, vs)" for existing vs m
    using prefix_order.trans [OF us keeps_prefix [OF found that]]
    by (auto intro!: keeps_leaf keeps_need keeps_ready split: option.split)
  then show "keeps (sound v job tr0) (if w_state j = ''integrated'' then ret j
      else bindC (find_existing_integration v j) (\<lambda>existing. case existing of Some i \<Rightarrow> ret i
        | None \<Rightarrow> bindC (need (w_state j = ''ready'') ''job must be ready before canonical integration'') (\<lambda>_. integrate_ready v a j))) us"
    unfolding j by (auto intro: keeps_leaf keeps_bind [OF found])
qed

lemma integration_is_sound:
  assumes "ev_job v (tr @ [Lock (job_lock (ia_job a))]) (ia_job a) = Inr job"
  shows "keeps (sound v job tr) (integrate_job v a) tr"
  unfolding integrate_job_def
proof (rule silent_step)
  fix x us assume "take_lock v (job_lock (ia_job a)) tr = (Inr x, us)"
  then have "us = tr @ [Lock (job_lock (ia_job a))]" by (auto simp: take_lock_def split: if_splits)
  with assms show "keeps (sound v job tr) (integrate_job_locked v a) us" by (auto intro: keeps_locked)
qed (auto intro: only_rules)

subsection \<open>The guarantees of an integration\<close>


text \<open>C17: An integration saves a job in the state "integrated" only when, since it began, the terminal receipt of
  exactly that job, checkpoint and integration commit has been written, or was found on the disk.\<close>

theorem receipt_precedes_integration:
  "case ev_job v (tr @ [Lock (job_lock (ia_job a))]) (ia_job a) of
     Inl _ \<Rightarrow> True
   | Inr job \<Rightarrow>
       let evs = snd (integrate_job v a tr) in
       list_all (\<lambda>i. save_certified v tr (take i evs) (evs ! i)) [length tr..<length evs]"
  unfolding Let_def using integration_is_sound [of v tr a]
  by (auto split: sum.split intro!: keeps_all simp: sound_def)

text \<open>A job command works on the copy of the job that was loaded before its lock was taken. If the job is
  integrated between the two and the command fails, what is saved last is the old copy: the record loses its
  state "integrated" and its integration commit.\<close>

theorem exec_overwrites_integration:
  assumes "ev_job v tr (xa_job a) = Inr job" "w_id job = xa_job a" "w_state job \<noteq> ''integrated''"
    and "ev_is_dir v (tr @ [Load (xa_job a)]) (w_worktree job)" "ev_lock v (tr @ [Load (xa_job a)]) (job_lock (xa_job a))"
    and "ev_job v (tr @ [Load (xa_job a), Lock (job_lock (xa_job a))]) (xa_job a) = Inr now"
    and "w_state now = ''integrated''" "w_integration now \<noteq> w_integration job"
    and "ev_shell v (tr @ [Load (xa_job a), Lock (job_lock (xa_job a))]) (w_worktree job) (xa_command a) = Inr (rc, out, err)" "rc \<noteq> 0"
  shows "\<exists>j. last (snd (exec_job v a tr)) = SaveJob j \<and> w_id j = xa_job a \<and> w_state j = ''interrupted''
           \<and> w_integration j \<noteq> w_integration now"
  using assms
  by (auto simp: exec_job_def bindC_def load_job_def need_def ret_def ask_def take_lock_def exec_body_def job_shell_def
      interrupted_def save_job_def on_refusal_def Let_def)

definition sample_job :: wjob where
  "sample_job =
     \<lparr>w_id = ''j'', w_repo = ''/r'', w_repo_id = ''i'', w_remote = ''origin'', w_url = Some ''u'', w_push_url = Some ''u'',
      w_target = ''main'', w_base = ''b'', w_branch = ''ai/workspace/j'', w_worktree = ''/w'', w_resource = ''x'',
      w_state = ''ready'', w_created = ''t'', w_updated = ''t'', w_checkpoint = None, w_remote_checkpoint = None,
      w_reconciled = None, w_integration = None, w_integrated_at = None, w_error = None, w_conflict = None, w_released = None, w_note = None\<rparr>"

definition sample_env :: env where
  "sample_env =
     \<lparr>ev_git = \<lambda>_ _ _. None, ev_shell = \<lambda>_ _ _. Inr (1, [], []),
      ev_job = \<lambda>tr _. Inr (if tr = [] then sample_job else sample_job\<lparr>w_state := ''integrated'', w_integration := Some ''c''\<rparr>),
      ev_jobs = \<lambda>_. [], ev_job_exists = \<lambda>_ _. True, ev_receipt = \<lambda>_ _. None, ev_is_dir = \<lambda>_ _. True, ev_exists = \<lambda>_ _. True, ev_lock = \<lambda>_ _. True,
      ev_now = \<lambda>_. ''t'', ev_stamp = \<lambda>_. ''t'', ev_token = \<lambda>_. ''k'', ev_resolve = \<lambda>p. p, ev_sha = \<lambda>s. s, ev_epoch = \<lambda>_. None, ev_parse = \<lambda>_. None\<rparr>"

lemma exec_overwrites_integration_witness:
  "\<exists>j. last (snd (exec_job sample_env \<lparr>xa_job = ''j'', xa_command = ''false'', xa_no_checkpoint = False, xa_message = None\<rparr> []))
         = SaveJob j \<and> w_id j = ''j'' \<and> w_state j = ''interrupted'' \<and> w_integration j \<noteq> Some ''c''"
  using exec_overwrites_integration [of sample_env "[]"
      "\<lparr>xa_job = ''j'', xa_command = ''false'', xa_no_checkpoint = False, xa_message = None\<rparr>" sample_job
      "sample_job\<lparr>w_state := ''integrated'', w_integration := Some ''c''\<rparr>" 1 "[]" "[]"]
  by (simp add: sample_env_def) (simp add: sample_job_def)

text \<open>A repository on which an integration succeeds: the guarantees above are not about runs that never push.\<close>

definition calm_git :: "str list \<Rightarrow> (int \<times> str \<times> str) option" where
  "calm_git args =
     (case args of
        [] \<Rightarrow> None
      | c # cs \<Rightarrow>
          if c = ''diff'' then Some (if cs = [''--cached'', ''--quiet''] then 1 else 0, [], [])
          else if c = ''log'' \<or> c = ''status'' then Some (0, [], [])
          else Some (0, if c = ''remote'' then ''u'' else ''c'', []))"

definition calm_env :: env where
  "calm_env = sample_env\<lparr>ev_git := \<lambda>_ _ args. calm_git args, ev_shell := \<lambda>_ _ _. Inr (0, [], []), ev_job := \<lambda>_ _. Inr sample_job,
     ev_parse := \<lambda>_. Some (JObj [(''schema'', JInt 1), (''command'', JStr ''check'')])\<rparr>"

lemma integration_can_publish:
  "case integrate_job calm_env \<lparr>ia_job = ''j'', ia_message = None, ia_validate = None\<rparr> [] of
     (Inl _, _) \<Rightarrow> False
   | (Inr job, evs) \<Rightarrow> w_state job = ''integrated'' \<and> list_ex (publishes ''main'') evs"
  by code_simp

end
