(* ===== verification/WorkspaceMaintenance.thy ===== *)
theory WorkspaceMaintenance
  imports WorkspaceSafety
begin

text \<open>
  Listing, recovery and garbage collection of worktrees (\<open>shell_bridge/workspace.py\<close>). The cutoff of the
  collection is in whole seconds; \<open>ev_epoch\<close> reads the time of an integration, None when it is not one.
\<close>

subsection \<open>Listing and recovery\<close>

fun of_repo :: "env \<Rightarrow> str option \<Rightarrow> wjob list \<Rightarrow> wjob list coord" where
  "of_repo v repo [] = ret []"
| "of_repo v repo (j # js) =
     (case url_given repo of
        None \<Rightarrow> bindC (of_repo v repo js) (\<lambda>rest. ret (j # rest))
      | Some r \<Rightarrow> bindC (repo_root v r) (\<lambda>root. bindC (of_repo v repo js) (\<lambda>rest.
          ret (if ev_resolve v (w_repo j) \<noteq> root then rest else j # rest))))"

definition list_jobs :: "env \<Rightarrow> str option \<Rightarrow> wjob list coord" where
  "list_jobs v repo = bindC (ask (ev_jobs v)) (of_repo v repo)"

text \<open>\<open>s.split("\n\n")\<close>, and the pairs of one block.\<close>

fun split_blank :: "str \<Rightarrow> str \<Rightarrow> str list" where
  "split_blank acc (a # b # cs) =
     (if code a = 10 \<and> code b = 10 then acc # split_blank [] cs else split_blank (acc @ [a]) (b # cs))"
| "split_blank acc [a] = [acc @ [a]]"
| "split_blank acc [] = [acc]"

definition block_value :: "str \<Rightarrow> str \<Rightarrow> str option" where
  "block_value key block = find_row (\<lambda>_. True) (rev (List.map_filter (after_prefix (key @ '' '')) (line_pieces [] block)))"

definition recovered_job ::
  "str \<Rightarrow> str \<Rightarrow> str \<Rightarrow> str \<Rightarrow> str \<Rightarrow> str \<Rightarrow> str \<Rightarrow> str \<Rightarrow> str \<Rightarrow> str \<Rightarrow> str \<Rightarrow> wjob" where
  "recovered_job jid repo rid remote fetch push target base worktree head now =
     \<lparr>w_id = jid, w_repo = repo, w_repo_id = rid, w_remote = remote, w_url = Some fetch, w_push_url = Some push,
      w_target = target, w_base = base, w_branch = branch_prefix @ jid, w_worktree = worktree, w_resource = ''repo:'' @ rid,
      w_state = ''interrupted'', w_created = now, w_updated = now, w_checkpoint = Some head, w_remote_checkpoint = None,
      w_reconciled = Some base, w_integration = None, w_integrated_at = None, w_error = None, w_conflict = None, w_released = None,
      w_note = Some ''metadata reconstructed conservatively from Git worktree''\<rparr>"

definition rebuild_job :: "env \<Rightarrow> str \<Rightarrow> str \<Rightarrow> str \<Rightarrow> str \<Rightarrow> str \<Rightarrow> str \<Rightarrow> str option \<Rightarrow> wjob coord" where
  "rebuild_job v repo rid remote target jid worktree listed =
     bindC (case url_given listed of Some h \<Rightarrow> ret h | None \<Rightarrow> head_of v worktree) (\<lambda>head.
     bindC (remote_url v repo remote) (\<lambda>url.
     bindC (git v repo (fetch_args url remote target)) (\<lambda>_.
     bindC (git_line v repo (tip_args remote target)) (\<lambda>current.
     bindC (git_line v repo [''merge-base'', head, current]) (\<lambda>base.
     bindC (remote_url v repo remote) (\<lambda>fetch.
     bindC (remote_push_url v repo remote) (\<lambda>push.
     bindC (ask (ev_now v)) (\<lambda>now.
     save_job v (recovered_job jid repo rid remote fetch push target base worktree head now)))))))))"

definition recover_block :: "env \<Rightarrow> str \<Rightarrow> str \<Rightarrow> str \<Rightarrow> str \<Rightarrow> str \<Rightarrow> wjob list coord" where
  "recover_block v repo rid remote target block =
     (case after_prefix (''refs/heads/'' @ branch_prefix) (case block_value ''branch'' block of None \<Rightarrow> [] | Some b \<Rightarrow> b) of
        None \<Rightarrow> ret []
      | Some jid \<Rightarrow>
          bindC (ask (\<lambda>tr. ev_job_exists v tr jid)) (\<lambda>known.
            if known then bindC (load_job v jid) (\<lambda>j. ret [j])
            else (case block_value ''worktree'' block of
                    None \<Rightarrow> (\<lambda>tr. (Inl Died, tr))
                  | Some wt \<Rightarrow>
                      bindC (rebuild_job v repo rid remote target jid wt (block_value ''HEAD'' block)) (\<lambda>j. ret [j]))))"

definition recover_jobs :: "env \<Rightarrow> str \<Rightarrow> str \<Rightarrow> str \<Rightarrow> wjob list coord" where
  "recover_jobs v dir remote target =
     bindC (repo_root v dir) (\<lambda>repo.
     bindC (repo_id v repo remote) (\<lambda>rid.
     bindC (git_line v repo [''worktree'', ''list'', ''--porcelain'']) (\<lambda>out.
     bindC (each (recover_block v repo rid remote target) (if out = [] then [] else split_blank [] out)) (\<lambda>jss.
     ret (concat jss)))))"

subsection \<open>Garbage collection\<close>

record gc_args =
  gc_enabled :: bool
  gc_repo :: "str option"
  gc_cutoff :: int
  gc_delete_remote :: bool

definition check :: "bool \<Rightarrow> bool coord" where
  "check b = ret b"

text \<open>The record of the job alone.\<close>

definition gc_candidate :: "env \<Rightarrow> gc_args \<Rightarrow> wjob \<Rightarrow> bool" where
  "gc_candidate v a job =
     (w_state job = ''integrated''
      \<and> (case Option.bind (w_integrated_at job) (ev_epoch v) of None \<Rightarrow> False | Some t \<Rightarrow> t \<le> gc_cutoff a))"

definition gc_settled :: "str \<Rightarrow> wjob \<Rightarrow> bool" where
  "gc_settled jid job =
     (url_given (w_remote_checkpoint job) \<noteq> None \<and> url_given (w_integration job) \<noteq> None
      \<and> w_remote_checkpoint job = w_checkpoint job \<and> w_branch job = branch_prefix @ jid)"

definition registered :: "str \<Rightarrow> str \<Rightarrow> bool" where
  "registered wt listing =
     (case find_row (\<lambda>b. ''worktree '' @ wt \<in> set (line_pieces [] b)) (split_blank [] listing) of
        None \<Rightarrow> False
      | Some b \<Rightarrow> \<not> list_ex (prefix ''locked'') (line_pieces [] b))"

definition branch_tip_is :: "env \<Rightarrow> str \<Rightarrow> str \<Rightarrow> str \<Rightarrow> bool coord" where
  "branch_tip_is v repo branch cp =
     bindC (git_try v repo [''rev-parse'', ''refs/heads/'' @ branch]) (\<lambda>(rc, out, err). check (rc = 0 \<and> py_strip out = cp))"

definition message_names :: "env \<Rightarrow> str \<Rightarrow> str \<Rightarrow> str \<Rightarrow> str \<Rightarrow> bool coord" where
  "message_names v repo integration jid cp =
     bindC (git v repo [''show'', ''-s'', ''--format=%B'', integration]) (\<lambda>m.
       check (contains (''Bridge-Job-ID: '' @ jid) m \<and> contains (''Bridge-Checkpoint: '' @ cp) m))"

definition gc_proven :: "env \<Rightarrow> str \<Rightarrow> str \<Rightarrow> wjob \<Rightarrow> str \<Rightarrow> str \<Rightarrow> bool coord" where
  "gc_proven v jid repo job cp integration =
     bindC (fetch_target v job) (\<lambda>url.
     bindC (git v repo (fetch_args url (w_remote job) (w_target job))) (\<lambda>_.
     bindC (git_line v repo (tip_args (w_remote job) (w_target job))) (\<lambda>current.
     andalso (is_ancestor v repo integration current)
     (andalso (message_names v repo integration jid cp)
     (andalso (branch_tip_is v repo (w_branch job) cp)
     (andalso (rescue (bindC (fetch_target v job) (\<lambda>u. bindC (remote_ref v repo u (w_branch job)) (\<lambda>tip. check (tip = cp)))) False)
     (andalso (ask (\<lambda>tr. ev_is_dir v tr (w_worktree job)))
     (andalso (bindC (dirty v (w_worktree job)) (\<lambda>d. check (\<not> d)))
     (bindC (git v repo [''worktree'', ''list'', ''--porcelain'']) (\<lambda>out. check (registered (w_worktree job) out)))))))))))"

definition remove_args :: "str \<Rightarrow> str list" where
  "remove_args wt = [''worktree'', ''remove'', wt]"

definition delete_args :: "str \<Rightarrow> str \<Rightarrow> str \<Rightarrow> str list" where
  "delete_args url branch cp =
     [''push'', ''--force-with-lease=refs/heads/'' @ branch @ '':'' @ cp, url, '':refs/heads/'' @ branch]"

definition delete_remote :: "env \<Rightarrow> str \<Rightarrow> wjob \<Rightarrow> str \<Rightarrow> bool coord" where
  "delete_remote v repo job cp =
     bindC (push_target v job) (\<lambda>url.
     bindC (git_try v repo (delete_args url (w_branch job) cp)) (\<lambda>(rc, out, err).
       if rc \<noteq> 0 then ret False
       else bindC (fetch_target v job) (\<lambda>fetch.
            bindC (git_line v repo [''ls-remote'', ''--heads'', fetch, ''refs/heads/'' @ w_branch job]) (\<lambda>left. check (left = [])))))"

definition gc_release :: "env \<Rightarrow> gc_args \<Rightarrow> str \<Rightarrow> wjob \<Rightarrow> str \<Rightarrow> bool coord" where
  "gc_release v a repo job cp =
     bindC (git_try v repo (remove_args (w_worktree job))) (\<lambda>(rc, out, err).
     bindC (if rc \<noteq> 0 then ret False else bindC (ask (\<lambda>tr. ev_exists v tr (w_worktree job))) (\<lambda>b. check (\<not> b))) (\<lambda>gone.
       if \<not> gone then ret False
       else bindC (if gc_delete_remote a then delete_remote v repo job cp else ret True) (\<lambda>ok.
              if \<not> ok then ret False
              else bindC (ask (ev_now v)) (\<lambda>now.
                   bindC (save_job v (job\<lparr>w_released := Some (now, gc_delete_remote a)\<rparr>)) (\<lambda>_. ret True)))))"

definition gc_loaded :: "env \<Rightarrow> gc_args \<Rightarrow> str \<Rightarrow> wjob \<Rightarrow> bool coord" where
  "gc_loaded v a jid job =
     (if \<not> gc_candidate v a job then ret False
      else bindC (repo_root v (w_repo job)) (\<lambda>repo.
             if \<not> gc_settled jid job then ret False
             else (let cp = text_of (w_checkpoint job) in
                   bindC (gc_proven v jid repo job cp (text_of (w_integration job))) (\<lambda>ok.
                     if ok then gc_release v a repo job cp else ret False))))"

definition gc_one :: "env \<Rightarrow> gc_args \<Rightarrow> str \<Rightarrow> str list coord" where
  "gc_one v a jid =
     (if jid = [] then ret []
      else bindC (try_lock v (job_lock jid)) (\<lambda>_.
           bindC (load_job v jid) (\<lambda>job.
           bindC (gc_loaded v a jid job) (\<lambda>ok. ret (if ok then [jid] else [])))))"

definition gc_jobs :: "env \<Rightarrow> gc_args \<Rightarrow> str list coord" where
  "gc_jobs v a =
     bindC (need (gc_enabled a) ''destructive workspace GC is frozen; no artifacts removed'') (\<lambda>_.
     bindC (list_jobs v (gc_repo a)) (\<lambda>jobs.
     bindC (each (gc_one v a) (map w_id jobs)) (\<lambda>xss. ret (concat xss))))"

subsection \<open>What a removal needs\<close>

definition removes :: "event \<Rightarrow> bool" where
  "removes e =
     (case e of
        Git d args \<Rightarrow>
          (case args of
             a # b # _ \<Rightarrow> (a = ''worktree'' \<and> b = ''remove'') \<or> (a = ''push'' \<and> prefix ''--force-with-lease'' b)
           | _ \<Rightarrow> False)
      | _ \<Rightarrow> False)"

text \<open>What was read after the job was loaded, from the events \<open>t0\<close> to the events \<open>us\<close>: the integration commit
  is an ancestor of the canonical tip and its message names the job and the checkpoint; the local and the
  remote branch are at the checkpoint; the worktree is clean, registered and not locked.\<close>

definition release_proven :: "env \<Rightarrow> event list \<Rightarrow> event list \<Rightarrow> str \<Rightarrow> str \<Rightarrow> wjob \<Rightarrow> bool" where
  "release_proven v t0 us jid repo job =
     (let cp = text_of (w_checkpoint job); commit = text_of (w_integration job) in
      (\<exists>current out.
         read_since v t0 us repo (tip_args (w_remote job) (w_target job)) current
         \<and> read_since v t0 us repo [''merge-base'', ''--is-ancestor'', commit, py_strip current] out)
      \<and> (\<exists>m. read_since v t0 us repo [''show'', ''-s'', ''--format=%B'', commit] m
           \<and> contains (''Bridge-Job-ID: '' @ jid) m \<and> contains (''Bridge-Checkpoint: '' @ cp) m)
      \<and> (\<exists>out. read_since v t0 us repo [''rev-parse'', ''refs/heads/'' @ w_branch job] out \<and> py_strip out = cp)
      \<and> (\<exists>u l out. read_since v t0 us repo [''ls-remote'', u, ''refs/heads/'' @ w_branch job] out
           \<and> nonblank_lines out = [l] \<and> first_word l = cp)
      \<and> read_since v t0 us (w_worktree job) [''status'', ''--porcelain''] []
      \<and> (\<exists>out. read_since v t0 us repo [''worktree'', ''list'', ''--porcelain''] out \<and> registered (w_worktree job) out))"

definition removal_justified :: "env \<Rightarrow> gc_args \<Rightarrow> event list \<Rightarrow> event list \<Rightarrow> event \<Rightarrow> bool" where
  "removal_justified v a tr us e =
     (\<exists>jid repo job t0 url.
        prefix tr t0 \<and> prefix (t0 @ [Lock (job_lock jid)]) us
        \<and> ev_job v (t0 @ [Lock (job_lock jid)]) jid = Inr job
        \<and> gc_candidate v a job \<and> gc_settled jid job
        \<and> release_proven v t0 us jid repo job
        \<and> (e = Git repo (remove_args (w_worktree job))
           \<or> (gc_delete_remote a \<and> e = Git repo (delete_args url (w_branch job) (text_of (w_checkpoint job))))))"

definition removal_ok :: "env \<Rightarrow> gc_args \<Rightarrow> event list \<Rightarrow> event list \<Rightarrow> event \<Rightarrow> bool" where
  "removal_ok v a tr us e = (if removes e then removal_justified v a tr us e else True)"

abbreviation harmless :: "'a coord \<Rightarrow> bool" where
  "harmless \<equiv> only (\<lambda>e. \<not> removes e)"

lemma harmless_basic [only_rules]:
  "harmless (load_job v jid)" "harmless (take_lock v n)" "harmless (try_lock v n)" "harmless (save_job v j)"
  by (auto simp: only_def load_job_def take_lock_def try_lock_def save_job_def removes_def Let_def intro: adds_snoc split: sum.split)

lemma harmless_git_try [only_rules]: "\<not> removes (Git d a) \<Longrightarrow> harmless (git_try v d a)"
  by (auto simp: only_def git_try_def intro: adds_snoc split: option.split)

lemma harmless_git [only_rules]: "\<not> removes (Git d a) \<Longrightarrow> harmless (git v d a)"
  unfolding git_def by (auto intro!: only_rules)

lemma harmless_git_line [only_rules]: "\<not> removes (Git d a) \<Longrightarrow> harmless (git_line v d a)"
  unfolding git_line_def by (auto intro!: only_rules)

lemma removes_other [simp]: "args \<noteq> [] \<Longrightarrow> hd args \<noteq> ''worktree'' \<Longrightarrow> hd args \<noteq> ''push'' \<Longrightarrow> \<not> removes (Git d args)"
  by (auto simp: removes_def split: list.split)

lemma removes_listing [simp]: "\<not> removes (Git d [''worktree'', ''list'', ''--porcelain''])"
  by (simp add: removes_def)

lemma harmless_remote [only_rules]:
  "harmless (remote_url v r n)" "harmless (remote_push_url v r n)" "harmless (assert_remote_identity v j)"
  "harmless (fetch_target v j)" "harmless (push_target v j)" "harmless (remote_ref v r n b)"
  "harmless (dirty v d)" "harmless (is_ancestor v r a b)" "harmless (repo_root v d)"
  unfolding remote_defs repo_root_def by (auto intro!: only_rules split: option.split list.split)

lemma harmless_steps [only_rules]:
  "harmless (message_names v r i jid cp)" "harmless (branch_tip_is v r b cp)" "harmless (list_jobs v repo)"
proof -
  have "harmless (of_repo v repo js)" for js
    by (induction js) (auto intro!: only_rules split: option.split)
  then show "harmless (list_jobs v repo)" unfolding list_jobs_def by (auto intro!: only_rules)
qed (auto simp: message_names_def branch_tip_is_def check_def intro!: only_rules)

lemma harmless_proven [only_rules]: "harmless (gc_proven v jid repo job cp i)"
  unfolding gc_proven_def fetch_args_def tip_args_def check_def by (auto intro!: only_rules)

lemma rescue_Inr: "rescue m x tr = (Inr y, tr') \<Longrightarrow> m tr = (Inr y, tr') \<or> y = x"
  by (auto simp: rescue_def split: prod.splits sum.splits werror.splits)

lemma yields_read: "yields (git v d a) (\<lambda>out t us. read_since v t us d a out)"
  by (rule yields_stable, erule git_read) (rule read_since_later)

lemma yields_line: "yields (git_line v d a) (\<lambda>l t us. \<exists>out. read_since v t us d a out \<and> py_strip out = l)"
  by (rule yields_stable, erule git_line_read) (blast intro: read_since_later)

lemma yields_ancestor:
  "yields (is_ancestor v repo a b) (\<lambda>r t us. r \<longrightarrow> (\<exists>out. read_since v t us repo [''merge-base'', ''--is-ancestor'', a, b] out))"
  by (rule yields_stable, force dest: ancestor_read) (blast intro: read_since_later)

lemma message_read:
  "message_names v repo i jid cp tr = (Inr True, tr') \<Longrightarrow> \<exists>m. read_since v tr tr' repo [''show'', ''-s'', ''--format=%B'', i] m
    \<and> contains (''Bridge-Job-ID: '' @ jid) m \<and> contains (''Bridge-Checkpoint: '' @ cp) m"
  by (auto simp: message_names_def bindC_Inr check_def dest!: git_read)

lemma yields_message:
  "yields (message_names v repo i jid cp) (\<lambda>r t us. r \<longrightarrow> (\<exists>m. read_since v t us repo [''show'', ''-s'', ''--format=%B'', i] m
    \<and> contains (''Bridge-Job-ID: '' @ jid) m \<and> contains (''Bridge-Checkpoint: '' @ cp) m))"
  by (rule yields_stable, force dest: message_read) (blast intro: read_since_later)

lemma branch_read:
  "branch_tip_is v repo b cp tr = (Inr True, tr') \<Longrightarrow>
     \<exists>out. read_since v tr tr' repo [''rev-parse'', ''refs/heads/'' @ b] out \<and> py_strip out = cp"
  by (auto simp: branch_tip_is_def bindC_Inr check_def dest!: git_try_read)

lemma yields_branch:
  "yields (branch_tip_is v repo b cp)
    (\<lambda>r t us. r \<longrightarrow> (\<exists>out. read_since v t us repo [''rev-parse'', ''refs/heads/'' @ b] out \<and> py_strip out = cp))"
  by (rule yields_stable, force dest: branch_read) (blast intro: read_since_later)

lemma ref_read:
  assumes "remote_ref v repo u b tr = (Inr tip, tr')"
  shows "\<exists>l out. read_since v tr tr' repo [''ls-remote'', u, ''refs/heads/'' @ b] out \<and> nonblank_lines out = [l] \<and> first_word l = tip"
proof -
  from assms obtain out vs where out: "git v repo [''ls-remote'', u, ''refs/heads/'' @ b] tr = (Inr out, vs)"
    and l: "(case nonblank_lines out of [l] \<Rightarrow> ret (first_word l) | _ \<Rightarrow> refused (''remote branch not found or ambiguous: '' @ u @ ''/'' @ b)) vs
              = (Inr tip, tr')"
    by (auto simp: remote_ref_def bindC_Inr)
  from l obtain x where "nonblank_lines out = [x]" "first_word x = tip" "tr' = vs" by (auto split: list.splits)
  with git_read [OF out] show ?thesis by blast
qed

lemma yields_ref:
  "yields (remote_ref v repo u b)
    (\<lambda>tip t us. \<exists>l out. read_since v t us repo [''ls-remote'', u, ''refs/heads/'' @ b] out \<and> nonblank_lines out = [l] \<and> first_word l = tip)"
  by (rule yields_stable, erule ref_read) (blast intro: read_since_later)

lemma yields_check: "yields (check b) (\<lambda>r t us. r = b)"
  by (auto intro!: yieldsI simp: check_def)

lemma yields_dirty: "yields (dirty v d) (\<lambda>r t us. r \<or> read_since v t us d [''status'', ''--porcelain''] [])"
  by (rule yields_stable, force simp: dirty_def bindC_Inr dest: git_read) (blast intro: read_since_later)

lemma logs_basic [only_rules]: "logs (git_try v d a)" "logs (git v d a)" "logs (git_line v d a)"
proof -
  show t: "logs (git_try v d a)" for d a by (auto simp: only_def git_try_def intro: adds_snoc split: option.split)
  show "logs (git v d a)" "logs (git_line v d a)" unfolding git_line_def git_def by (auto intro!: only_rules t)
qed

lemma logs_remote [only_rules]:
  "logs (fetch_target v j)" "logs (remote_ref v r n b)" "logs (dirty v d)" "logs (is_ancestor v r a b)"
  "logs (message_names v r i jid cp)" "logs (branch_tip_is v r b cp)" "logs (check c)"
  unfolding remote_defs message_names_def branch_tip_is_def check_def by (auto intro!: only_rules split: option.split list.split)

lemma proven_reads:
  "yields (gc_proven v jid repo job (text_of (w_checkpoint job)) (text_of (w_integration job)))
     (\<lambda>b t us. if b then release_proven v t us jid repo job else True)"
  unfolding gc_proven_def
  apply (rule yields_mono)
   apply (rule yields_bind yields_andalso yields_rescue yields_read yields_line yields_ancestor yields_message yields_branch yields_ref
      yields_check yields_dirty yields_any only_rules)+
  subgoal for b t us
    by (cases b) (auto simp: release_proven_def Let_def)
  done

subsection \<open>Every step of the collection\<close>

lemma harmless_prefix: "harmless m \<Longrightarrow> m tr = (r, tr') \<Longrightarrow> prefix tr tr'"
  by (rule only_prefix)

lemma keeps_harmless: "harmless m \<Longrightarrow> keeps (removal_ok v a tr0) m tr"
  by (rule keeps_only, assumption) (simp add: removal_ok_def)

lemma harmless_step:
  assumes "harmless m" "prefix tr0 tr"
    and "\<And>x us. m tr = (Inr x, us) \<Longrightarrow> prefix tr us \<Longrightarrow> prefix tr0 us \<Longrightarrow> keeps (removal_ok v a tr0) (f x) us"
  shows "keeps (removal_ok v a tr0) (bindC m f) tr"
  by (intro keeps_bind keeps_harmless assms) (auto intro: assms harmless_prefix prefix_order.trans)

lemma release_proven_later:
  "release_proven v t0 us jid repo job \<Longrightarrow> prefix us vs \<Longrightarrow> release_proven v t0 vs jid repo job"
  unfolding release_proven_def Let_def by (meson prefix_order.refl read_since_later)

lemma justified:
  assumes "prefix tr t0" "prefix (t0 @ [Lock (job_lock jid)]) us" "ev_job v (t0 @ [Lock (job_lock jid)]) jid = Inr job"
    and "gc_candidate v a job" "gc_settled jid job" "release_proven v t0 us jid repo job" "prefix us vs"
  shows "removal_ok v a tr vs (Git repo (remove_args (w_worktree job)))"
    and "gc_delete_remote a \<Longrightarrow> removal_ok v a tr vs (Git repo (delete_args url (w_branch job) (text_of (w_checkpoint job))))"
proof -
  have "release_proven v t0 vs jid repo job" "prefix (t0 @ [Lock (job_lock jid)]) vs"
    using assms release_proven_later prefix_order.trans by blast+
  with assms have "removal_justified v a tr vs e"
    if "e = Git repo (remove_args (w_worktree job))
        \<or> (gc_delete_remote a \<and> e = Git repo (delete_args url (w_branch job) (text_of (w_checkpoint job))))" for e
    using that unfolding removal_justified_def by blast
  then show "removal_ok v a tr vs (Git repo (remove_args (w_worktree job)))"
    and "gc_delete_remote a \<Longrightarrow> removal_ok v a tr vs (Git repo (delete_args url (w_branch job) (text_of (w_checkpoint job))))"
    by (simp_all add: removal_ok_def)
qed

lemma keeps_git_try: "P tr (Git d args) \<Longrightarrow> keeps P (git_try v d args) tr"
  by (auto simp: keeps_def git_try_def intro: grows_snoc split: option.split)

lemma keeps_release:
  assumes "prefix tr0 t0" "prefix (t0 @ [Lock (job_lock jid)]) tr" "ev_job v (t0 @ [Lock (job_lock jid)]) jid = Inr job"
    and "gc_candidate v a job" "gc_settled jid job" "release_proven v t0 tr jid repo job"
  shows "keeps (removal_ok v a tr0) (gc_release v a repo job (text_of (w_checkpoint job))) tr"
proof -
  note ok = justified [OF assms]
  have later: "keeps (removal_ok v a tr0) (bindC (if gc_delete_remote a then delete_remote v repo job (text_of (w_checkpoint job)) else ret True)
      (\<lambda>b. if \<not> b then ret False else bindC (ask (ev_now v)) (\<lambda>now. bindC (save_job v (job\<lparr>w_released := Some (now, gc_delete_remote a)\<rparr>))
        (\<lambda>_. ret True)))) us" if "prefix tr us" for us
  proof (rule keeps_bind)
    have "keeps (removal_ok v a tr0) (delete_remote v repo job (text_of (w_checkpoint job))) us" if "gc_delete_remote a"
      unfolding delete_remote_def
    proof (rule keeps_bind, rule keeps_harmless)
      fix url vs assume "push_target v job us = (Inr url, vs)"
      then have "prefix us vs" by (rule harmless_prefix [OF harmless_remote(5)])
      with \<open>prefix tr us\<close> have "prefix tr vs" by (rule prefix_order.trans)
      then show "keeps (removal_ok v a tr0)
          (bindC (git_try v repo (delete_args url (w_branch job) (text_of (w_checkpoint job)))) (\<lambda>(rc, out, err).
             if rc \<noteq> 0 then ret False
             else bindC (fetch_target v job) (\<lambda>fetch.
               bindC (git_line v repo [''ls-remote'', ''--heads'', fetch, ''refs/heads/'' @ w_branch job]) (\<lambda>left. check (left = []))))) vs"
        by (intro keeps_bind keeps_git_try ok(2) that) (auto intro!: keeps_harmless only_rules simp: check_def split: prod.split)
    qed (rule only_rules)
    then show "keeps (removal_ok v a tr0) (if gc_delete_remote a then delete_remote v repo job (text_of (w_checkpoint job)) else ret True) us"
      by (simp add: keeps_leaf)
  qed (auto intro!: keeps_harmless only_rules)
  show ?thesis
    unfolding gc_release_def
  proof (rule keeps_bind)
    show "keeps (removal_ok v a tr0) (git_try v repo (remove_args (w_worktree job))) tr"
      by (intro keeps_git_try ok(1)) simp
    fix r us assume "git_try v repo (remove_args (w_worktree job)) tr = (Inr r, us)"
    then have "prefix tr us" by (auto simp: git_try_def split: option.splits)
    obtain rc out err where r: "r = (rc, out, err)" by (cases r)
    have "keeps (removal_ok v a tr0) (bindC (if rc \<noteq> 0 then ret False else bindC (ask (\<lambda>tr. ev_exists v tr (w_worktree job))) (\<lambda>b. check (\<not> b)))
      (\<lambda>gone. if \<not> gone then ret False else
        bindC (if gc_delete_remote a then delete_remote v repo job (text_of (w_checkpoint job)) else ret True)
      (\<lambda>b. if \<not> b then ret False else bindC (ask (ev_now v)) (\<lambda>now. bindC (save_job v (job\<lparr>w_released := Some (now, gc_delete_remote a)\<rparr>))
        (\<lambda>_. ret True))))) us"
    proof (rule keeps_bind)
      show "keeps (removal_ok v a tr0) (if rc \<noteq> 0 then ret False else bindC (ask (\<lambda>tr. ev_exists v tr (w_worktree job))) (\<lambda>b. check (\<not> b))) us"
        by (auto intro!: keeps_harmless only_rules simp: check_def)
      fix gone ws
      assume "(if rc \<noteq> 0 then ret False else bindC (ask (\<lambda>tr. ev_exists v tr (w_worktree job))) (\<lambda>b. check (\<not> b))) us = (Inr gone, ws)"
      then have "ws = us" by (auto simp: bindC_Inr ask_def check_def split: if_splits)
      with later [OF \<open>prefix tr us\<close>] show "keeps (removal_ok v a tr0) (if \<not> gone then ret False else
          bindC (if gc_delete_remote a then delete_remote v repo job (text_of (w_checkpoint job)) else ret True)
            (\<lambda>b. if \<not> b then ret False else bindC (ask (ev_now v)) (\<lambda>now.
              bindC (save_job v (job\<lparr>w_released := Some (now, gc_delete_remote a)\<rparr>)) (\<lambda>_. ret True)))) ws"
        by (cases gone) (simp_all only: not_True_eq_False not_False_eq_True if_False if_True keeps_leaf)
    qed
    then show "keeps (removal_ok v a tr0) ((\<lambda>(rc, out, err).
        bindC (if rc \<noteq> 0 then ret False else bindC (ask (\<lambda>tr. ev_exists v tr (w_worktree job))) (\<lambda>b. check (\<not> b))) (\<lambda>gone.
          if \<not> gone then ret False
          else bindC (if gc_delete_remote a then delete_remote v repo job (text_of (w_checkpoint job)) else ret True) (\<lambda>ok.
            if \<not> ok then ret False
            else bindC (ask (ev_now v)) (\<lambda>now.
              bindC (save_job v (job\<lparr>w_released := Some (now, gc_delete_remote a)\<rparr>)) (\<lambda>_. ret True))))) r) us"
      by (simp add: r)
  qed
qed

lemma keeps_loaded:
  assumes "prefix tr0 t0" "prefix (t0 @ [Lock (job_lock jid)]) tr" "ev_job v (t0 @ [Lock (job_lock jid)]) jid = Inr job"
  shows "keeps (removal_ok v a tr0) (gc_loaded v a jid job) tr"
proof -
  have start: "prefix t0 tr" using assms(2) by (auto simp: prefix_def)
  then have tr0: "prefix tr0 tr" using assms(1) by (rule prefix_order.trans [rotated])
  have proven: "keeps (removal_ok v a tr0)
      (bindC (gc_proven v jid repo job (text_of (w_checkpoint job)) (text_of (w_integration job)))
        (\<lambda>ok. if ok then gc_release v a repo job (text_of (w_checkpoint job)) else ret False)) us"
    if c: "gc_candidate v a job" "gc_settled jid job" and us: "prefix tr us" "prefix tr0 us" for repo us
  proof (rule harmless_step)
    fix ok vs assume p: "gc_proven v jid repo job (text_of (w_checkpoint job)) (text_of (w_integration job)) us = (Inr ok, vs)"
      and "prefix us vs"
    have lock: "prefix (t0 @ [Lock (job_lock jid)]) vs" using assms(2) us(1) \<open>prefix us vs\<close> by (meson prefix_order.trans)
    have "prefix t0 us" using start us(1) by (rule prefix_order.trans)
    then have "ok \<Longrightarrow> release_proven v t0 vs jid repo job"
      using yieldsD [OF proven_reads p, of t0 vs] by simp
    then show "keeps (removal_ok v a tr0) (if ok then gc_release v a repo job (text_of (w_checkpoint job)) else ret False) vs"
      using keeps_release [OF assms(1) lock assms(3) c] by (simp add: keeps_leaf)
  qed (auto intro: only_rules us)
  show ?thesis
    unfolding gc_loaded_def Let_def
    using tr0 by (auto intro!: keeps_leaf harmless_step [where m = "repo_root v r" for r] proven only_rules)
qed

lemma keeps_one:
  assumes "prefix tr0 tr"
  shows "keeps (removal_ok v a tr0) (gc_one v a jid) tr"
proof -
  have body: "keeps (removal_ok v a tr0)
      (bindC (load_job v jid) (\<lambda>job. bindC (gc_loaded v a jid job) (\<lambda>ok. ret (if ok then [jid] else []))))
      (tr @ [Lock (job_lock jid)])"
  proof (rule harmless_step)
    fix job us assume l: "load_job v jid (tr @ [Lock (job_lock jid)]) = (Inr job, us)" and "prefix (tr @ [Lock (job_lock jid)]) us"
    then have "ev_job v (tr @ [Lock (job_lock jid)]) jid = Inr job" by (auto simp: load_job_def split: sum.splits)
    then show "keeps (removal_ok v a tr0) (bindC (gc_loaded v a jid job) (\<lambda>ok. ret (if ok then [jid] else []))) us"
      using assms \<open>prefix (tr @ [Lock (job_lock jid)]) us\<close> by (intro keeps_bind keeps_leaf keeps_loaded)
  qed (use assms in \<open>auto intro: only_rules\<close>)
  show ?thesis unfolding gc_one_def
  proof (cases "jid = []")
    case False
    have "keeps (removal_ok v a tr0) (bindC (try_lock v (job_lock jid)) (\<lambda>_. bindC (load_job v jid) (\<lambda>job.
        bindC (gc_loaded v a jid job) (\<lambda>ok. ret (if ok then [jid] else []))))) tr"
      by (rule keeps_bind, rule keeps_harmless, rule only_rules) (use body in \<open>auto simp: try_lock_def split: if_splits\<close>)
    with False show "keeps (removal_ok v a tr0) (if jid = [] then ret [] else bindC (try_lock v (job_lock jid)) (\<lambda>_.
        bindC (load_job v jid) (\<lambda>job. bindC (gc_loaded v a jid job) (\<lambda>ok. ret (if ok then [jid] else []))))) tr" by simp
  qed (simp add: keeps_leaf)
qed

lemma keeps_each:
  assumes "\<And>x tr. prefix tr0 tr \<Longrightarrow> keeps P (f x) tr" "prefix tr0 tr"
  shows "keeps P (each f xs) tr"
  using assms(2)
proof (induction xs arbitrary: tr)
  case (Cons x xs)
  have first: "keeps P (f x) tr" using assms(1) Cons.prems by blast
  show ?case
    unfolding each.simps
  proof (rule keeps_bind [OF first])
    fix y us assume "f x tr = (Inr y, us)"
    then have "prefix tr0 us" using keeps_prefix [OF first] Cons.prems prefix_order.trans by blast
    then show "keeps P (bindC (each f xs) (\<lambda>ys. ret (y # ys))) us" by (intro keeps_bind Cons.IH keeps_leaf)
  qed
qed (simp add: keeps_leaf)

lemma collection_keeps: "keeps (removal_ok v a tr) (gc_jobs v a) tr"
  unfolding gc_jobs_def
  by (rule keeps_need, rule harmless_step, rule only_rules)
    (auto intro!: keeps_bind keeps_leaf keeps_each keeps_one only_rules)


text \<open>A collection that does remove a worktree.\<close>

definition gc_git :: "str list \<Rightarrow> (int \<times> str \<times> str) option" where
  "gc_git args =
     (case args of
        [] \<Rightarrow> None
      | c # cs \<Rightarrow>
          Some (0, if c = ''status'' then [] else if c = ''remote'' then ''u''
                   else if c = ''show'' then ''Bridge-Job-ID: j, Bridge-Checkpoint: c''
                   else if c = ''worktree'' then ''worktree /w'' else ''c'', []))"

definition gc_env :: env where
  "gc_env = sample_env\<lparr>ev_git := \<lambda>_ _ args. gc_git args, ev_exists := \<lambda>_ _. False, ev_epoch := \<lambda>_. Some 0,
     ev_job := \<lambda>_ _. Inr (sample_job\<lparr>w_state := ''integrated'', w_integrated_at := Some ''t'', w_integration := Some ''c'',
       w_checkpoint := Some ''c'', w_remote_checkpoint := Some ''c''\<rparr>), ev_jobs := \<lambda>_. [sample_job]\<rparr>"

lemma collection_can_remove:
  "case gc_jobs gc_env \<lparr>gc_enabled = True, gc_repo = None, gc_cutoff = 1, gc_delete_remote = False\<rparr> [] of
     (Inl _, _) \<Rightarrow> False | (Inr ids, evs) \<Rightarrow> ids = [''j''] \<and> list_ex removes evs"
  by code_simp

end
