(* ===== verification/WorkspaceSandbox.thy ===== *)
theory WorkspaceSandbox
  imports Sandbox Plan
begin

text \<open>
  The profile under which a workspace command and a validation run (\<open>shell_bridge/workspace.py\<close>:
  \<open>_workspace_git_roots\<close>, \<open>_sbpl_string\<close>, \<open>_workspace_sandbox_profile\<close>). The output of
  \<open>git rev-parse\<close>, None when it fails, is an argument. A path that does not resolve raises: None.
\<close>

fun git_roots_of :: "fs \<Rightarrow> path \<Rightarrow> str list \<Rightarrow> path list \<Rightarrow> path list option" where
  "git_roots_of w cwd [] roots = Some roots"
| "git_roots_of w cwd (l # ls) roots =
     (let raw = py_strip l; p = parse_path raw in
      if raw = [] then git_roots_of w cwd ls roots
      else (case full_resolve w (if is_absolute p then p else join_path cwd p) of
              None \<Rightarrow> None
            | Some q \<Rightarrow> git_roots_of w cwd ls (if q \<in> set roots then roots else roots @ [q])))"

definition workspace_git_roots :: "fs \<Rightarrow> path \<Rightarrow> str option \<Rightarrow> path list option" where
  "workspace_git_roots w cwd output =
     Option.bind (full_resolve w cwd) (\<lambda>c.
       case output of None \<Rightarrow> Some [c] | Some out \<Rightarrow> git_roots_of w cwd (line_pieces [] out) [c])"

definition workspace_sandbox_profile :: "fs \<Rightarrow> path \<Rightarrow> path \<Rightarrow> path \<Rightarrow> str option \<Rightarrow> str option" where
  "workspace_sandbox_profile w home cwd temp output =
     Option.bind (workspace_git_roots w cwd output) (\<lambda>roots.
     Option.bind (full_resolve w temp) (\<lambda>t.
     Option.bind (full_resolve w home) (\<lambda>h.
     Some (''(version 1)(allow default)(deny file-write*)(deny network*)''
       @ ''(deny file-read* '' @ sb_clause ''subpath'' h @ '')''
       @ ''(allow file-read* '' @ join '' '' (map (sb_clause ''subpath'') roots) @ '')''
       @ ''(allow file-write* (literal '' @ [dquote] @ ''/dev/null'' @ [dquote] @ '') ''
       @ join '' '' (map (sb_clause ''subpath'') (roots @ [t])) @ '')''))))"

definition workspace_tokens :: "path \<Rightarrow> path list \<Rightarrow> path \<Rightarrow> sb_token list" where
  "workspace_tokens home roots temp =
     [Open, Atom ''version'', Atom ''1'', Close] @ rule_tokens ''allow'' ''default'' [] @ rule_tokens ''deny'' ''file-write*'' []
     @ rule_tokens ''deny'' ''network*'' []
     @ rule_tokens ''deny'' ''file-read*'' (clause_tokens ''subpath'' home)
     @ rule_tokens ''allow'' ''file-read*'' (concat (map (clause_tokens ''subpath'') roots))
     @ rule_tokens ''allow'' ''file-write*''
         ([Open, Atom ''literal'', Text ''/dev/null'', Close] @ concat (map (clause_tokens ''subpath'') (roots @ [temp])))"

lemma sb_reads_workspace:
  "sb_reads (''(version 1)(allow default)(deny file-write*)(deny network*)''
       @ ''(deny file-read* '' @ sb_clause ''subpath'' h @ '')''
       @ ''(allow file-read* '' @ join '' '' (map (sb_clause ''subpath'') roots) @ '')''
       @ ''(allow file-write* (literal '' @ [dquote] @ ''/dev/null'' @ [dquote] @ '') ''
       @ join '' '' (map (sb_clause ''subpath'') (roots @ [t])) @ '')'') (workspace_tokens h roots t)"
proof -
  have k: "atom_text ''deny''" "atom_text ''allow''" "atom_text ''file-write*''" "atom_text ''file-read*''" "atom_text ''subpath''"
    by (simp_all add: atom_text_def dquote_def)
  have preamble: "sb_reads ''(version 1)(allow default)(deny file-write*)(deny network*)''
      ([Open, Atom ''version'', Atom ''1'', Close] @ rule_tokens ''allow'' ''default'' [] @ rule_tokens ''deny'' ''file-write*'' []
       @ rule_tokens ''deny'' ''network*'' [])"
    by (simp add: sb_reads_def rule_tokens_def dquote_def split: option.split)
  have null: "sb_reads (''(literal '' @ [dquote] @ ''/dev/null'' @ [dquote] @ '') '') [Open, Atom ''literal'', Text ''/dev/null'', Close]"
    by (simp add: sb_reads_def dquote_def escape_char_def split: option.split)
  note home = sb_reads_rule [OF k(1,4) sb_reads_clause [OF k(5), of h]]
  note reads = sb_reads_rule [OF k(2,4) sb_reads_clauses [of roots]]
  note writes = sb_reads_rule [OF k(2,3) sb_reads_append [OF null sb_reads_clauses [of "roots @ [t]"]]]
  show ?thesis
    using sb_reads_append [OF preamble sb_reads_append [OF home sb_reads_append [OF reads writes]]]
    unfolding workspace_tokens_def append_assoc append_Cons append_Nil .
qed

text \<open>Whatever characters the paths contain, the profile of a workspace command reads back as exactly this:
  no writes except to \<open>/dev/null\<close>, the worktree with its Git directories and the scratch directory, no
  network, and no reads below the home directory except of the worktree and its Git directories.\<close>

theorem workspace_profile_says_what_is_meant:
  "case workspace_sandbox_profile w home cwd temp output of
     None \<Rightarrow> True
   | Some profile \<Rightarrow>
       (case (workspace_git_roots w cwd output, full_resolve w temp, full_resolve w home) of
          (Some roots, Some t, Some h) \<Rightarrow> sb_read profile = Some (workspace_tokens h roots t)
        | _ \<Rightarrow> False)"
proof -
  have "sb_reads s toks \<Longrightarrow> sb_read s = Some toks" for s toks
    unfolding sb_reads_def sb_read_def by (auto dest: spec [of _ "[]"])
  note whole = this [OF sb_reads_workspace]
  show ?thesis
    using whole by (cases "workspace_git_roots w cwd output"; cases "full_resolve w temp"; cases "full_resolve w home")
      (simp_all add: workspace_sandbox_profile_def del: map_append append.simps)
qed

end
