(* ===== verification/BridgeRules.thy ===== *)
theory BridgeRules
  imports Programs JsonText Files Trusted Plan
begin

text \<open>
  The rules of the file bridge (\<open>llm_git_bridge/core.py\<close>) that need no surroundings: names, branches and
  transactions; which paths and which contents never leave or enter a repository; the environment of a
  configured command; the tail that is kept of its output. \<open>sha\<close> is SHA-256 in hexadecimal, \<open>parse\<close> reads
  JSON and keeps duplicate keys. Contents of files are bytes.
\<close>

definition low :: "str \<Rightarrow> str" where
  "low s = map (\<lambda>c. if is_upper c then char_of (code c + 32) else c) s"

text \<open>\<open>upper()\<close> of the sharp s is two letters; other letters outside ASCII stay outside ASCII.\<close>

definition up :: "str \<Rightarrow> str" where
  "up s = concat (map (\<lambda>c. if is_lower c then [char_of (code c - 32)] else if code c = 223 then ''SS'' else [c]) s)"

fun split_on :: "char \<Rightarrow> str \<Rightarrow> str \<Rightarrow> str list" where
  "split_on x acc [] = [acc]"
| "split_on x acc (c # cs) = (if c = x then acc # split_on x [] cs else split_on x (acc @ [c]) cs)"

definition has_text :: "str \<Rightarrow> str \<Rightarrow> bool" where
  "has_text needle s = sublist needle s"

definition ends_with :: "str \<Rightarrow> str \<Rightarrow> bool" where
  "ends_with t s = suffix t s"

subsection \<open>Names\<close>

definition is_alnum :: "char \<Rightarrow> bool" where
  "is_alnum c = (is_lower c \<or> is_upper c \<or> is_digit c)"

definition name_ok :: "nat \<Rightarrow> str \<Rightarrow> bool" where
  "name_ok n s =
     (case s of [] \<Rightarrow> False | c # cs \<Rightarrow> is_alnum c \<and> length cs \<le> n \<and> list_all (\<lambda>x. is_alnum x \<or> x \<in> set ''_-'') cs)"

definition command_name_ok :: "str \<Rightarrow> bool" where
  "command_name_ok s = name_ok 63 s"

definition validate_transaction_id :: "json \<Rightarrow> str + str" where
  "validate_transaction_id value =
     (case value of JStr s \<Rightarrow> if name_ok 119 s then Inr s else Inl ''invalid transaction_id'' | _ \<Rightarrow> Inl ''invalid transaction_id'')"

text \<open>The first duplicate key, in the order in which the decoder closes objects.\<close>

fun repeated :: "str list \<Rightarrow> str list \<Rightarrow> str option" where
  "repeated seen [] = None"
| "repeated seen (k # ks) = (if k \<in> set seen then Some k else repeated (k # seen) ks)"

fun first_some :: "'a option list \<Rightarrow> 'a option" where
  "first_some [] = None"
| "first_some (x # xs) = (case x of Some y \<Rightarrow> Some y | None \<Rightarrow> first_some xs)"

fun duplicate_key :: "json \<Rightarrow> str option" where
  "duplicate_key (JList xs) = first_some (map duplicate_key xs)"
| "duplicate_key (JObj kvs) =
     (case first_some (map (\<lambda>(k, v). duplicate_key v) kvs) of Some d \<Rightarrow> Some d | None \<Rightarrow> repeated [] (map fst kvs))"
| "duplicate_key _ = None"

definition strict_json_loads :: "(str \<Rightarrow> json option) \<Rightarrow> str \<Rightarrow> str + json" where
  "strict_json_loads parse t =
     (case parse t of
        None \<Rightarrow> Inl ''invalid JSON''
      | Some j \<Rightarrow> (case duplicate_key j of Some k \<Rightarrow> Inl (''duplicate JSON key: '' @ k) | None \<Rightarrow> Inr j))"

definition load_json :: "(str \<Rightarrow> json option) \<Rightarrow> str option \<Rightarrow> str + json" where
  "load_json parse file =
     (case file of
        None \<Rightarrow> Inl ''cannot read JSON file''
      | Some t \<Rightarrow> bindE (strict_json_loads parse t) (\<lambda>j. if is_JObj j then Inr j else Inl ''JSON document must be an object''))"

definition transaction_request_sha256 :: "(str \<Rightarrow> str) \<Rightarrow> (real \<Rightarrow> str) \<Rightarrow> json \<Rightarrow> str" where
  "transaction_request_sha256 sha fr obj = sha (canonical False fr obj)"

definition slug_safe :: "char \<Rightarrow> bool" where
  "slug_safe c = (is_lower c \<or> is_digit c \<or> c \<in> set ''._-'')"

text \<open>Both substitutions of \<open>slugify\<close> at once: a run of hyphens and other characters becomes one hyphen.\<close>

fun squeeze :: "bool \<Rightarrow> str \<Rightarrow> str" where
  "squeeze dash [] = []"
| "squeeze dash (c # cs) =
     (if slug_safe c \<and> c \<noteq> CHR ''-'' then c # squeeze False cs
      else if dash then squeeze True cs else CHR ''-'' # squeeze True cs)"

definition strip_chars :: "str \<Rightarrow> str \<Rightarrow> str" where
  "strip_chars cs s = rev (dropWhile (\<lambda>c. c \<in> set cs) (rev (dropWhile (\<lambda>c. c \<in> set cs) s)))"

definition slugify :: "str \<Rightarrow> str" where
  "slugify value =
     (let v = strip_chars ''-.'' (squeeze False (low (py_strip value))) in if v = [] then ''repo'' else v)"

definition branch_token :: "(str \<Rightarrow> str) \<Rightarrow> str \<Rightarrow> str" where
  "branch_token sha branch =
     take 100 (slugify (concat (map (\<lambda>c. if c = CHR ''/'' then ''--'' else [c]) branch))) @ ''-'' @ take 10 (sha branch)"

definition path_fingerprint :: "(str \<Rightarrow> str) \<Rightarrow> str \<Rightarrow> str" where
  "path_fingerprint sha resolved = take 8 (sha resolved)"

subsection \<open>Branches and transactions\<close>

definition branch_char :: "char \<Rightarrow> bool" where
  "branch_char c = (is_alnum c \<or> c \<in> set ''._/-'')"

definition branch_unsafe :: "str \<Rightarrow> bool" where
  "branch_unsafe b =
     (prefix ''-'' b \<or> ends_with ''.'' b \<or> ends_with ''/'' b \<or> has_text ''..'' b \<or> has_text ''//'' b \<or> has_text [CHR ''@'', CHR 0x7B] b
      \<or> list_ex (\<lambda>part. prefix ''.'' part \<or> ends_with ''.lock'' part) (split_slash [] b))"

definition validate_branch_name :: "json \<Rightarrow> str + str" where
  "validate_branch_name branch =
     (case branch of
        JStr b \<Rightarrow>
          if b = [] \<or> 200 < length b \<or> \<not> list_all branch_char b then Inl ''branch contains unsupported characters''
          else if branch_unsafe b then Inl ''unsafe branch name''
          else Inr b
      | _ \<Rightarrow> Inl ''branch must be a string'')"

definition validate_safe_branch_name :: "str \<Rightarrow> json \<Rightarrow> str + str" where
  "validate_safe_branch_name safe branch =
     bindE (validate_branch_name branch) (\<lambda>b. if prefix safe b then Inr b else Inl (''branch must start with '' @ py_repr safe))"

definition tx_trailer :: str where
  "tx_trailer = ''LLM-Git-Bridge-Transaction''"

definition hash_trailer :: str where
  "hash_trailer = ''LLM-Git-Bridge-Request-SHA256''"

definition prefix_ci :: "str \<Rightarrow> str \<Rightarrow> bool" where
  "prefix_ci p s = (low (take (length p) s) = low p)"

text \<open>\<open>^\<close> under MULTILINE: the beginning and after every line feed.\<close>

fun at_lines :: "(str \<Rightarrow> bool) \<Rightarrow> bool \<Rightarrow> str \<Rightarrow> bool" where
  "at_lines P start [] = (start \<and> P [])"
| "at_lines P start (c # cs) = ((start \<and> P (c # cs)) \<or> at_lines P (code c = 10) cs)"

definition names_trailer :: "str \<Rightarrow> bool" where
  "names_trailer s =
     (let t = dropWhile is_space s in
      list_ex (\<lambda>k. prefix_ci k t \<and> prefix '':'' (dropWhile is_space (drop (length k) t))) [tx_trailer, hash_trailer])"

definition reserved_trailer :: "str \<Rightarrow> bool" where
  "reserved_trailer message = at_lines names_trailer True message"

definition is_hex_ci :: "char \<Rightarrow> bool" where
  "is_hex_ci c = (is_digit c \<or> (97 \<le> code c \<and> code c \<le> 102) \<or> (65 \<le> code c \<and> code c \<le> 70))"

lemma is_hex_ci_members [code]: "is_hex_ci c = (is_hex c \<or> c \<in> set ''ABCDEF'')"
proof -
  have members: "code ` set ''ABCDEF'' = {65..70}" by code_simp
  show ?thesis unfolding class_members [OF members] by (simp add: is_hex_ci_def is_hex_def)
qed

definition object_id_ok :: "str \<Rightarrow> bool" where
  "object_id_ok s = (length s \<in> {40, 64} \<and> list_all is_hex_ci s)"

record transaction =
  tx_id :: str
  tx_repo :: str
  tx_base :: str
  tx_branch :: str
  tx_patch :: str
  tx_run :: "str list"
  tx_message :: "str option"
  tx_push :: bool
  tx_snapshot :: bool

definition get_bool :: "json \<Rightarrow> str \<Rightarrow> str + bool" where
  "get_bool obj key =
     (case obj_get_default obj key (JBool False) of JBool b \<Rightarrow> Inr b | _ \<Rightarrow> Inl (key @ '' must be a boolean''))"

definition run_names :: "json \<Rightarrow> str list option" where
  "run_names v =
     (case v of
        JList xs \<Rightarrow> those (map (\<lambda>x. case x of JStr s \<Rightarrow> if command_name_ok s then Some s else None | _ \<Rightarrow> None) xs)
      | _ \<Rightarrow> None)"

definition message_of :: "json \<Rightarrow> str + str option" where
  "message_of v =
     (case v of
        JNull \<Rightarrow> Inr None
      | JStr m \<Rightarrow>
          if py_strip m = [] \<or> 500 < length m then Inl ''invalid commit_message''
          else if reserved_trailer m then Inl ''commit_message uses a reserved bridge trailer''
          else Inr (Some m)
      | _ \<Rightarrow> Inl ''invalid commit_message'')"

definition nonblank_text :: "json \<Rightarrow> str option" where
  "nonblank_text v = (case v of JStr s \<Rightarrow> if py_strip s = [] then None else Some s | _ \<Rightarrow> None)"

definition text_or :: "str \<Rightarrow> 'a option \<Rightarrow> str + 'a" where
  "text_or e v = (case v of None \<Rightarrow> Inl e | Some x \<Rightarrow> Inr x)"

definition validate_transaction :: "str \<Rightarrow> str option \<Rightarrow> int \<Rightarrow> json \<Rightarrow> str + transaction" where
  "validate_transaction safe exact max_patch obj =
     bindE (guardE (py_eq_int (obj_get obj ''protocol'') 2) ''unsupported protocol'') (\<lambda>_.
     bindE (guardE (obj_get obj ''kind'' = JStr ''transaction'') (''transaction kind must be '' @ py_repr ''transaction'')) (\<lambda>_.
     bindE (validate_transaction_id (obj_get obj ''transaction_id'')) (\<lambda>txid.
     bindE (text_or ''missing repo'' (nonblank_text (obj_get obj ''repo''))) (\<lambda>repo.
     bindE (text_or ''base_sha must be a 40- or 64-character hex object ID''
              (case obj_get obj ''base_sha'' of JStr s \<Rightarrow> if object_id_ok s then Some s else None | _ \<Rightarrow> None)) (\<lambda>base.
     bindE (if exact \<noteq> None \<and> obj_get obj ''branch'' = JStr (the exact) then validate_branch_name (obj_get obj ''branch'')
            else validate_safe_branch_name safe (obj_get obj ''branch'')) (\<lambda>branch.
     bindE (text_or ''patch must be a non-empty string'' (nonblank_text (obj_get obj ''patch''))) (\<lambda>patch.
     bindE (guardE (int (utf8_length patch) \<le> max_patch) ''patch exceeds maximum allowed size'') (\<lambda>_.
     bindE (text_or ''run must be a list of safe symbolic command names'' (run_names (obj_get_default obj ''run'' (JList [])))) (\<lambda>run.
     bindE (guardE (length run \<le> 16) ''run may contain at most 16 commands'') (\<lambda>_.
     bindE (message_of (obj_get obj ''commit_message'')) (\<lambda>message.
     bindE (get_bool obj ''push'') (\<lambda>push.
     bindE (get_bool obj ''publish_snapshot'') (\<lambda>snapshot.
     Inr \<lparr>tx_id = txid, tx_repo = repo, tx_base = base, tx_branch = branch, tx_patch = patch, tx_run = run,
           tx_message = message, tx_push = push, tx_snapshot = snapshot\<rparr>)))))))))))))"

definition transaction_safe :: "str \<Rightarrow> str option \<Rightarrow> int \<Rightarrow> transaction \<Rightarrow> bool" where
  "transaction_safe safe exact max_patch t =
     (name_ok 119 (tx_id t) \<and> py_strip (tx_repo t) \<noteq> [] \<and> object_id_ok (tx_base t)
      \<and> tx_branch t \<noteq> [] \<and> length (tx_branch t) \<le> 200 \<and> list_all branch_char (tx_branch t) \<and> \<not> branch_unsafe (tx_branch t)
      \<and> (prefix safe (tx_branch t) \<or> exact = Some (tx_branch t))
      \<and> py_strip (tx_patch t) \<noteq> [] \<and> int (utf8_length (tx_patch t)) \<le> max_patch
      \<and> length (tx_run t) \<le> 16 \<and> list_all command_name_ok (tx_run t)
      \<and> (case tx_message t of None \<Rightarrow> True | Some m \<Rightarrow> py_strip m \<noteq> [] \<and> length m \<le> 500 \<and> \<not> reserved_trailer m))"

lemma run_names_ok: "run_names v = Some xs \<Longrightarrow> list_all command_name_ok xs"
proof -
  have "those (map (\<lambda>x. case x of JStr s \<Rightarrow> if command_name_ok s then Some s else None | _ \<Rightarrow> None) js) = Some xs
      \<Longrightarrow> list_all command_name_ok xs" for js :: "json list" and xs
    by (induction js arbitrary: xs) (auto split: json.splits if_splits option.splits)
  then show "run_names v = Some xs \<Longrightarrow> list_all command_name_ok xs"
    by (auto simp: run_names_def split: json.splits)
qed

lemma branch_name_ok:
  "validate_branch_name j = Inr b \<Longrightarrow> j = JStr b \<and> b \<noteq> [] \<and> length b \<le> 200 \<and> list_all branch_char b \<and> \<not> branch_unsafe b"
  by (auto simp: validate_branch_name_def split: json.splits if_splits)

lemma safe_branch_ok: "validate_safe_branch_name safe j = Inr b \<Longrightarrow> validate_branch_name j = Inr b \<and> prefix safe b"
  by (auto simp: validate_safe_branch_name_def bindE_def split: sum.splits if_splits)

lemma validated_is_safe:
  assumes "validate_transaction safe exact max_patch obj = Inr t"
  shows "transaction_safe safe exact max_patch t"
proof -
  from assms obtain txid repo base branch patch run message push snap where
    t: "t = \<lparr>tx_id = txid, tx_repo = repo, tx_base = base, tx_branch = branch, tx_patch = patch, tx_run = run,
           tx_message = message, tx_push = push, tx_snapshot = snap\<rparr>"
    and txid: "validate_transaction_id (obj_get obj ''transaction_id'') = Inr txid"
    and repo: "nonblank_text (obj_get obj ''repo'') = Some repo"
    and base: "object_id_ok base"
    and branch: "(if exact \<noteq> None \<and> obj_get obj ''branch'' = JStr (the exact) then validate_branch_name (obj_get obj ''branch'')
            else validate_safe_branch_name safe (obj_get obj ''branch'')) = Inr branch"
    and patch: "nonblank_text (obj_get obj ''patch'') = Some patch" "int (utf8_length patch) \<le> max_patch"
    and run: "run_names (obj_get_default obj ''run'' (JList [])) = Some run" "length run \<le> 16"
    and message: "message_of (obj_get obj ''commit_message'') = Inr message"
    unfolding validate_transaction_def bindE_def guardE_def text_or_def
    by (auto split: sum.splits option.splits json.splits if_splits)
  have "validate_branch_name (obj_get obj ''branch'') = Inr branch \<and> (prefix safe branch \<or> exact = Some branch)"
    using branch by (auto split: if_splits dest: safe_branch_ok branch_name_ok)
  moreover have "name_ok 119 txid" using txid by (auto simp: validate_transaction_id_def split: json.splits if_splits)
  moreover have "py_strip repo \<noteq> []" "py_strip patch \<noteq> []" using repo patch(1) by (auto simp: nonblank_text_def split: json.splits if_splits)
  moreover have "case message of None \<Rightarrow> True | Some m \<Rightarrow> py_strip m \<noteq> [] \<and> length m \<le> 500 \<and> \<not> reserved_trailer m"
    using message by (auto simp: message_of_def split: json.splits if_splits)
  ultimately show ?thesis
    using base patch(2) run run_names_ok branch_name_ok unfolding t transaction_safe_def by auto
qed


end
