(* ===== verification/Commits.thy ===== *)
theory Commits
  imports BridgeContent
begin

text \<open>
  What the file bridge reads from the answers of Git (\<open>llm_git_bridge/core.py\<close>): commit objects with the two
  reserved trailers, exact references, the status of a repository and a staged difference.
\<close>

definition oid_ok :: "str \<Rightarrow> bool" where
  "oid_ok s = (40 \<le> length s \<and> length s \<le> 64 \<and> list_all is_hex s)"

definition hash_ok :: "str \<Rightarrow> bool" where
  "hash_ok s = (length s = 64 \<and> list_all is_hex s)"

subsection \<open>Trailers\<close>

text \<open>\<open>\s*$\<close> under MULTILINE, at the end of a value.\<close>

definition line_over :: "str \<Rightarrow> bool" where
  "line_over s = (let w = takeWhile is_space s in w = s \<or> lf \<in> set w)"

text \<open>The values of \<open>^KEY:\s*(...)\s*$\<close>, from left to right and without overlap. \<open>split\<close> takes the value
  from the text behind the key.\<close>

definition word_value :: "str \<Rightarrow> (str \<times> str) option" where
  "word_value s =
     (let t = dropWhile is_space s; w = takeWhile (\<lambda>c. \<not> is_space c) t; r = dropWhile (\<lambda>c. \<not> is_space c) t in
      if w \<noteq> [] \<and> line_over r then Some (w, r) else None)"

definition digest_value :: "str \<Rightarrow> (str \<times> str) option" where
  "digest_value s =
     (let t = dropWhile is_space s in
      if length (take 64 t) = 64 \<and> list_all is_hex_ci (take 64 t) \<and> line_over (drop 64 t) then Some (take 64 t, drop 64 t) else None)"

definition after_key :: "str \<Rightarrow> str \<Rightarrow> str option" where
  "after_key key s = (if prefix_ci key s \<and> prefix '':'' (drop (length key) s) then Some (drop (Suc (length key)) s) else None)"

lemma after_key_shorter: "after_key key s = Some r \<Longrightarrow> length r < length s"
  by (cases "length key < length s") (auto simp: after_key_def split: if_splits)

lemma word_value_shorter: "word_value s = Some (w, r) \<Longrightarrow> length r \<le> length s"
  by (auto simp: word_value_def Let_def split: if_splits) (meson length_dropWhile_le order_trans)

lemma digest_value_shorter: "digest_value s = Some (w, r) \<Longrightarrow> length r \<le> length s"
  by (auto simp: digest_value_def Let_def split: if_splits) (meson diff_le_self length_dropWhile_le order_trans)

function trailers :: "(str \<Rightarrow> (str \<times> str) option) \<Rightarrow> str \<Rightarrow> bool \<Rightarrow> str \<Rightarrow> str list" where
  "trailers val key start [] = []"
| "trailers val key start (c # cs) =
     (case (if start then Option.bind (after_key key (c # cs)) val else None) of
        Some (v, r) \<Rightarrow> if length r \<le> length cs then v # trailers val key False r else [v]
      | None \<Rightarrow> trailers val key (c = lf) cs)"
  by pat_completeness auto

termination by (relation "measure (\<lambda>(val, key, start, s). length s)") auto

subsection \<open>Commit objects\<close>

record commit_record =
  cr_oid :: str
  cr_tree :: str
  cr_identity :: "(str \<times> str) option"
  cr_parents :: "str list"

definition no_commit :: commit_record where
  "no_commit = \<lparr>cr_oid = [], cr_tree = [], cr_identity = None, cr_parents = []\<rparr>"

text \<open>\<open>raw.partition("\n\n")\<close>\<close>

fun partition_blank :: "str \<Rightarrow> (str \<times> str) option" where
  "partition_blank (a # b # cs) =
     (if a = lf \<and> b = lf then Some ([], cs) else map_option (\<lambda>(h, t). (a # h, t)) (partition_blank (b # cs)))"
| "partition_blank _ = None"

definition header_values :: "str \<Rightarrow> str \<Rightarrow> str list" where
  "header_values key headers =
     List.map_filter (\<lambda>l. if prefix key l then Some (low (py_strip (drop (length key) l))) else None) (line_pieces [] headers)"

definition identity_of :: "str \<Rightarrow> (str \<times> str) option" where
  "identity_of body =
     (case (trailers word_value tx_trailer True body, trailers digest_value hash_trailer True body) of
        ([txid], [digest]) \<Rightarrow> (case validate_transaction_id (JStr txid) of Inl _ \<Rightarrow> None | Inr t \<Rightarrow> Some (t, digest))
      | _ \<Rightarrow> None)"

definition parse_commit :: "str \<Rightarrow> str \<Rightarrow> commit_record" where
  "parse_commit oid raw =
     (case partition_blank raw of
        None \<Rightarrow> no_commit
      | Some (headers, body) \<Rightarrow>
          let trees = header_values ''tree '' headers; parents = header_values ''parent '' headers;
              tree = (if trees = [] then [] else last trees)
          in if \<not> oid_ok tree then \<lparr>cr_oid = oid, cr_tree = [], cr_identity = None, cr_parents = parents\<rparr>
             else if \<not> list_all oid_ok parents then \<lparr>cr_oid = oid, cr_tree = tree, cr_identity = None, cr_parents = []\<rparr>
             else \<lparr>cr_oid = oid, cr_tree = tree, cr_identity = identity_of body, cr_parents = parents\<rparr>)"

definition matches_request :: "str \<Rightarrow> commit_record \<Rightarrow> str \<Rightarrow> str \<Rightarrow> str \<Rightarrow> str option \<Rightarrow> bool" where
  "matches_request commit r txid request_hash base tree =
     (cr_oid r = low commit \<and> cr_identity r = Some (txid, request_hash)
      \<and> (case cr_parents r of [p] \<Rightarrow> low p = low base | _ \<Rightarrow> False)
      \<and> (case tree of None \<Rightarrow> True | Some t \<Rightarrow> cr_tree r = low t))"

subsection \<open>References\<close>

fun ref_rows :: "str list \<Rightarrow> (str \<times> str \<times> str) list option" where
  "ref_rows [] = Some []"
| "ref_rows (l # ls) =
     (case split_on (CHR 0x00) [] l of
        [name, oid, symref] \<Rightarrow> map_option (Cons (name, low oid, symref)) (ref_rows ls)
      | _ \<Rightarrow> None)"

definition resolve_ref :: "(str \<times> str \<times> str) list \<Rightarrow> str \<Rightarrow> str \<Rightarrow> str + str option" where
  "resolve_ref rows ref description =
     (case filter (\<lambda>(n, _). n = ref) rows of
        [] \<Rightarrow> Inr None
      | [(_, oid, symref)] \<Rightarrow>
          if symref \<noteq> [] then Inl (''symbolic '' @ description @ '' is not allowed'')
          else if \<not> oid_ok oid then Inl (''could not parse '' @ description)
          else Inr (Some oid)
      | _ \<Rightarrow> Inl (''ambiguous '' @ description))"

fun resolve_refs :: "(str \<times> str \<times> str) list \<Rightarrow> (str \<times> str) list \<Rightarrow> str + str option list" where
  "resolve_refs rows [] = Inr []"
| "resolve_refs rows ((ref, d) # refs) =
     bindE (resolve_ref rows ref d) (\<lambda>oid. bindE (resolve_refs rows refs) (\<lambda>oids. Inr (oid # oids)))"

definition exact_refs :: "(str \<times> str) list \<Rightarrow> str \<Rightarrow> str + str option list" where
  "exact_refs refs out =
     (case ref_rows (filter (\<lambda>l. l \<noteq> []) (line_pieces [] out)) of
        None \<Rightarrow> Inl ''could not parse requested refs''
      | Some rows \<Rightarrow> resolve_refs rows refs)"

definition claim_ref :: "str \<Rightarrow> str" where
  "claim_ref txid = ''refs/llm-git-bridge/transactions/'' @ txid"

definition branch_ref :: "str \<Rightarrow> str" where
  "branch_ref branch = ''refs/heads/'' @ branch"

subsection \<open>Status and staged changes\<close>

definition oid_mark :: str where
  "oid_mark = ''# branch.oid ''"

definition head_mark :: str where
  "head_mark = ''# branch.head ''"

text \<open>\<open>record.split(" ", 2)\<close>: the second field, when there is one.\<close>

definition second_field :: "str \<Rightarrow> str option" where
  "second_field r =
     (case dropWhile (\<lambda>c. c \<noteq> CHR '' '') r of [] \<Rightarrow> None | _ # t \<Rightarrow> Some (takeWhile (\<lambda>c. c \<noteq> CHR '' '') t))"

fun tracked_status :: "bool \<times> bool \<times> str \<Rightarrow> str list \<Rightarrow> str + bool \<times> bool \<times> str" where
  "tracked_status st [] = Inr st"
| "tracked_status (staged, unstaged, head) (r # rs) =
     (if prefix oid_mark r then tracked_status (staged, unstaged, low (py_strip (drop (length oid_mark) r))) rs
      else if r = [] \<or> hd r \<notin> set ''12u'' then tracked_status (staged, unstaged, head) rs
      else (case second_field r of
              Some [x, y] \<Rightarrow> tracked_status (staged \<or> x \<noteq> CHR ''.'', unstaged \<or> y \<noteq> CHR ''.'', head) rs
            | _ \<Rightarrow> Inl ''could not parse tracked repository state''))"

definition clean_head :: "str \<Rightarrow> str + str" where
  "clean_head raw =
     bindE (tracked_status (False, False, []) (split_on (CHR 0x00) [] raw)) (\<lambda>(staged, unstaged, head).
     bindE (guardE (\<not> unstaged) ''tracked working tree has unstaged modifications'') (\<lambda>_.
     bindE (guardE (\<not> staged) ''index has staged modifications'') (\<lambda>_.
     bindE (guardE (oid_ok head) ''could not read repository HEAD'') (\<lambda>_. Inr head))))"

record repo_status =
  rp_head :: str
  rp_branch :: "str option"
  rp_tracked_dirty :: bool
  rp_untracked :: bool

definition marked :: "str \<Rightarrow> str \<Rightarrow> str list \<Rightarrow> str option" where
  "marked mark none rs =
     find_row (\<lambda>_. True) (rev (List.map_filter (\<lambda>r. if prefix mark r then
       (let v = py_strip (drop (length mark) r) in if v \<noteq> [] \<and> v \<noteq> none then Some v else None) else None) rs))"

definition repo_state_of :: "str \<Rightarrow> str + repo_status" where
  "repo_state_of raw =
     (let rs = split_on (CHR 0x00) [] raw in
      case marked oid_mark ''(initial)'' rs of
        None \<Rightarrow> Inl ''repository has no readable HEAD commit''
      | Some head \<Rightarrow> Inr \<lparr>rp_head = head, rp_branch = marked head_mark ''(detached)'' rs,
          rp_tracked_dirty = list_ex (\<lambda>r. list_ex (\<lambda>p. prefix p r) [''1 '', ''2 '', ''u '']) rs,
          rp_untracked = list_ex (prefix ''? '') rs\<rparr>)"

definition regular_mode :: "str \<Rightarrow> bool" where
  "regular_mode m = (m \<in> {''000000'', ''100644'', ''100755''})"

definition words_of :: "str \<Rightarrow> str list" where
  "words_of s = filter (\<lambda>w. w \<noteq> []) (split_on (CHR '' '') [] (map (\<lambda>c. if is_space c then CHR '' '' else c) s))"

definition check_change :: "(str \<Rightarrow> bool) \<Rightarrow> str \<Rightarrow> str \<Rightarrow> str + unit" where
  "check_change link metadata path =
     (case words_of metadata of
        [old, new, a, b, status] \<Rightarrow>
          bindE (guardE (prefix '':'' old) ''could not parse staged diff metadata'') (\<lambda>_.
          bindE (guardE (status \<in> {''A'', ''D'', ''M'', ''T''}) ''unsupported staged change status'') (\<lambda>_.
          bindE (guardE (\<not> is_sensitive (parse_path path)) ''transaction touches a protected/sensitive path'') (\<lambda>_.
          bindE (guardE (\<not> is_push_protected (parse_path path)) ''transaction touches a protected CI/automation path'') (\<lambda>_.
          bindE (guardE (regular_mode (tl old) \<and> regular_mode new) ''symlink/submodule changes are not allowed'') (\<lambda>_.
          guardE (\<not> link path) ''symlink/submodule changes are not allowed'')))))
      | _ \<Rightarrow> Inl ''could not parse staged diff metadata'')"

fun check_changes :: "(str \<Rightarrow> bool) \<Rightarrow> str list \<Rightarrow> str + nat" where
  "check_changes link [] = Inr 0"
| "check_changes link (m # parts) =
     (if m = [] then check_changes link parts
      else (case parts of
              [] \<Rightarrow> Inl ''could not parse staged diff metadata''
            | path # later \<Rightarrow> bindE (check_change link m path) (\<lambda>_. bindE (check_changes link later) (\<lambda>n. Inr (Suc n)))))"

definition staged_changes :: "(str \<Rightarrow> bool) \<Rightarrow> str \<Rightarrow> str + nat" where
  "staged_changes link raw = check_changes link (split_on (CHR 0x00) [] raw)"

subsection \<open>The identity of a bridge commit\<close>

text \<open>The text that \<open>git commit-tree -m message -m block\<close> gives to the commit: each paragraph is completed by a
  line feed, with an empty line between.\<close>

definition message_part :: "str \<Rightarrow> str" where
  "message_part m = (if m \<noteq> [] \<and> last m = lf then m else m @ [lf])"

definition trailer_block :: "str \<Rightarrow> str \<Rightarrow> str" where
  "trailer_block txid digest = tx_trailer @ '': '' @ txid @ [lf] @ hash_trailer @ '': '' @ digest"

definition commit_text :: "str \<Rightarrow> str \<Rightarrow> str \<Rightarrow> str" where
  "commit_text m txid digest = message_part m @ [lf] @ message_part (trailer_block txid digest)"

definition commit_message :: "transaction \<Rightarrow> str" where
  "commit_message t =
     (case tx_message t of None \<Rightarrow> ''Apply bridge transaction '' @ tx_id t
      | Some m \<Rightarrow> if m = [] then ''Apply bridge transaction '' @ tx_id t else m)"

lemma lf_code [simp]: "code lf = 10" "is_space lf"
  by (simp_all add: lf_def code_def is_space_def)

lemma lf_iff: "code c = 10 \<longleftrightarrow> c = lf"
  by (metis code_def lf_code(1) of_char_eq_iff)

lemma low_lf: "lf \<in> set s \<Longrightarrow> lf \<in> set (low s)"
  by (force simp: low_def lf_def is_upper_def code_def)

lemma keys_low: "key \<in> {tx_trailer, hash_trailer} \<Longrightarrow> lf \<notin> set (low key) \<and> key \<noteq> [] \<and> low [hd key] = ''l''"
proof -
  have "lf \<notin> set (low tx_trailer) \<and> tx_trailer \<noteq> [] \<and> low [hd tx_trailer] = ''l''" by code_simp
  moreover have "lf \<notin> set (low hash_trailer) \<and> hash_trailer \<noteq> [] \<and> low [hd hash_trailer] = ''l''" by code_simp
  ultimately show "key \<in> {tx_trailer, hash_trailer} \<Longrightarrow> ?thesis" by auto
qed

lemma code_low: "code (hd (low [a])) = (if is_upper a then code a + 32 else code a)"
  by (auto simp: low_def code_def is_upper_def)

lemma low_l_not_space: "low [a] = ''l'' \<Longrightarrow> \<not> is_space a"
  using code_low [of a] by (auto simp: is_space_def is_upper_def code_def split: if_splits)

lemma colon_not_space [simp]: "\<not> is_space (CHR '':'')"
  by (simp add: is_space_def code_def)

lemma key_head:
  assumes "prefix_ci key (a # t)" "key \<in> {tx_trailer, hash_trailer}"
  shows "\<not> is_space a"
proof -
  from keys_low [OF assms(2)] obtain k ks where k: "key = k # ks" "low [k] = ''l''" by (cases key) auto
  with assms(1) have "low [a] = low [k]" by (simp add: prefix_ci_def low_def)
  with k show ?thesis using low_l_not_space by simp
qed

lemma after_key_line:
  assumes "\<not> names_trailer t" "key \<in> {tx_trailer, hash_trailer}"
  shows "after_key key (t @ lf # s) = None"
proof (rule ccontr)
  assume "after_key key (t @ lf # s) \<noteq> None"
  then have key: "prefix_ci key (t @ lf # s)" and colon: "prefix '':'' (drop (length key) (t @ lf # s))"
    by (auto simp: after_key_def split: if_splits)
  show False
  proof (cases "length key < length t")
    case True
    then obtain a u where t: "t = a # u" by (cases t) auto
    from True obtain c cs where d: "drop (length key) t = c # cs" by (metis Cons_nth_drop_Suc)
    with True colon have "c = CHR '':''" by simp
    moreover have "\<not> is_space a" using key_head [OF _ assms(2)] key t by auto
    moreover have "prefix_ci key t" using key True by (simp add: prefix_ci_def)
    ultimately have "names_trailer t" using assms(2) d t \<open>c = CHR '':''\<close> by (auto simp: names_trailer_def Let_def)
    with assms(1) show False by simp
  next
    case False
    have "lf \<in> set (take (length key) (t @ lf # s)) \<or> length key = length t"
      using False less_imp_Suc_add [of "length t" "length key"] by (auto simp: take_Cons split: nat.split)
    then show False
    proof
      assume "lf \<in> set (take (length key) (t @ lf # s))"
      then have "lf \<in> set (low key)" using low_lf key by (metis prefix_ci_def)
      with keys_low [OF assms(2)] show False by simp
    next
      assume "length key = length t"
      with colon show False by (simp add: lf_def)
    qed
  qed
qed

lemma trailers_skip:
  assumes "\<not> at_lines names_trailer start m" "key \<in> {tx_trailer, hash_trailer}"
  shows "trailers val key start (m @ lf # s) = trailers val key True s"
  using assms(1)
proof (induction m arbitrary: start)
  case Nil
  then have "start \<Longrightarrow> after_key key (lf # s) = None" using after_key_line [OF _ assms(2), of "[]"] by simp
  then show ?case by (cases start) simp_all
next
  case (Cons c m)
  then have "start \<Longrightarrow> after_key key (c # m @ lf # s) = None" using after_key_line [OF _ assms(2), of "c # m"] by simp
  moreover have "\<not> at_lines names_trailer (c = lf) m" using Cons.prems by (simp add: lf_iff)
  ultimately show ?case using Cons.IH by (cases start) simp_all
qed

lemma trailers_line: "lf \<notin> set u \<Longrightarrow> trailers val key False (u @ lf # s) = trailers val key True s"
  by (induction u) auto

lemma trailers_no_key: "after_key key (u @ lf # s) = None \<Longrightarrow> lf \<notin> set u \<Longrightarrow> trailers val key True (u @ lf # s) = trailers val key True s"
  using trailers_line [of "tl u" val key s] by (cases u) auto

lemma tokens_no_space:
  "name_ok n t \<Longrightarrow> list_all (\<lambda>c. \<not> is_space c) t \<and> t \<noteq> []" "hash_ok h \<Longrightarrow> list_all (\<lambda>c. \<not> is_space c \<and> is_hex_ci c) h"
proof -
  have alnum: "is_alnum c \<or> c \<in> set ''_-'' \<Longrightarrow> \<not> is_space c" for c
    by (auto simp: is_alnum_def is_lower_def is_upper_def is_digit_def is_space_def code_def)
  then show "name_ok n t \<Longrightarrow> list_all (\<lambda>c. \<not> is_space c) t \<and> t \<noteq> []"
    by (auto simp: name_ok_def list_all_iff split: list.splits)
  have "is_hex c \<Longrightarrow> \<not> is_space c \<and> is_hex_ci c" for c
    by (auto simp: is_hex_def is_hex_ci_def is_digit_def is_space_def)
  then show "hash_ok h \<Longrightarrow> list_all (\<lambda>c. \<not> is_space c \<and> is_hex_ci c) h"
    by (auto simp: hash_ok_def list_all_iff)
qed

lemma line_over_lf [simp]: "line_over (lf # s)"
  by (simp add: line_over_def Let_def)

lemma blank_space [simp]: "is_space (CHR '' '')"
  by (simp add: is_space_def code_def)

lemma word_value_token:
  assumes "list_all (\<lambda>c. \<not> is_space c) t" "t \<noteq> []"
  shows "word_value ('' '' @ t @ lf # s) = Some (t, lf # s)"
proof -
  have "takeWhile (\<lambda>c. \<not> is_space c) (t @ lf # s) = t" "dropWhile (\<lambda>c. \<not> is_space c) (t @ lf # s) = lf # s"
    using assms(1) by (auto simp: list_all_iff takeWhile_append2 dropWhile_append2)
  moreover have "dropWhile is_space ('' '' @ t @ lf # s) = t @ lf # s"
    using assms by (cases t) auto
  ultimately show ?thesis using assms(2) by (simp add: word_value_def Let_def del: append.simps)
qed

lemma digest_value_token:
  assumes "hash_ok h"
  shows "digest_value ('' '' @ h @ lf # s) = Some (h, lf # s)"
proof -
  from assms have n: "length h = 64" by (simp add: hash_ok_def)
  have h: "list_all is_hex_ci h" "dropWhile is_space ('' '' @ h @ lf # s) = h @ lf # s"
    using tokens_no_space(2) [OF assms] n by (auto simp: list_all_iff) (cases h, auto)
  then show ?thesis using n by (simp add: digest_value_def Let_def del: append_Cons)
qed

lemma lf_not_token: "list_all (\<lambda>c. \<not> is_space c) t \<Longrightarrow> lf \<notin> set t"
  by (auto simp: list_all_iff)

lemma block_text:
  assumes "hash_ok h"
  shows "message_part (trailer_block t h) = tx_trailer @ '': '' @ t @ lf # hash_trailer @ '': '' @ h @ [lf]"
proof -
  have "h \<noteq> []" "last h \<noteq> lf" using assms tokens_no_space(2) [OF assms]
    by (auto simp: hash_ok_def list_all_iff) (metis last_in_set lf_code(2) list.size(3) zero_neq_numeral)
  then show ?thesis by (simp add: message_part_def trailer_block_def)
qed

lemma after_own_key: "key \<in> {tx_trailer, hash_trailer} \<Longrightarrow> after_key key (key @ CHR '':'' # u) = Some u"
  by (simp add: after_key_def prefix_ci_def)

lemma trailers_hit:
  "after_key key s = Some u \<Longrightarrow> val u = Some (v, r) \<Longrightarrow> length r < length s \<Longrightarrow>
     trailers val key True s = v # trailers val key False r"
  by (cases s) auto

lemma low_append: "low (s @ t) = low s @ low t"
  by (simp add: low_def)

lemma low_length [simp]: "length (low s) = length s"
  by (simp add: low_def)

lemma other_key: "after_key tx_trailer (hash_trailer @ u) = None" "after_key hash_trailer (tx_trailer @ u) = None"
proof -
  have differ: "low (take (length tx_trailer) hash_trailer) \<noteq> low tx_trailer" and n: "length tx_trailer < length hash_trailer"
    by code_simp+
  show "after_key tx_trailer (hash_trailer @ u) = None"
    using differ n by (simp add: after_key_def prefix_ci_def)
  have "low (take (length hash_trailer) (tx_trailer @ u)) \<noteq> low hash_trailer"
  proof
    assume "low (take (length hash_trailer) (tx_trailer @ u)) = low hash_trailer"
    then have "take (length tx_trailer) (low (take (length hash_trailer) (tx_trailer @ u))) = take (length tx_trailer) (low hash_trailer)"
      by simp
    with n have "low tx_trailer = low (take (length tx_trailer) hash_trailer)" by (simp add: low_def take_map)
    with differ show False by simp
  qed
  then show "after_key hash_trailer (tx_trailer @ u) = None" by (simp add: after_key_def prefix_ci_def)
qed

lemma trailers_of_block:
  assumes "list_all (\<lambda>c. \<not> is_space c) t" "t \<noteq> []" "hash_ok h"
  shows "trailers word_value tx_trailer True (message_part (trailer_block t h)) = [t]"
    and "trailers digest_value hash_trailer True (message_part (trailer_block t h)) = [h]"
proof -
  let ?second = "hash_trailer @ CHR '':'' # '' '' @ h @ lf # []"
  have block: "message_part (trailer_block t h) = tx_trailer @ CHR '':'' # '' '' @ t @ lf # ?second"
    using block_text [OF assms(3)] by simp
  have clean: "lf \<notin> set t" "lf \<notin> set h"
    using lf_not_token assms(1) tokens_no_space(2) [OF assms(3)] by (auto simp: list_all_iff)
  have keys: "lf \<notin> set tx_trailer" "lf \<notin> set hash_trailer" using keys_low low_lf by blast+
  have no_lf: "lf \<notin> set (hash_trailer @ CHR '':'' # '' '' @ h)" "lf \<notin> set (tx_trailer @ CHR '':'' # '' '' @ t)"
    using clean keys by (auto simp: lf_def)
  have "trailers word_value tx_trailer True ((hash_trailer @ CHR '':'' # '' '' @ h) @ lf # []) = trailers word_value tx_trailer True []"
    by (rule trailers_no_key [OF _ no_lf(1)]) (simp add: other_key)
  then have "trailers word_value tx_trailer True ?second = []" by simp
  moreover have "trailers word_value tx_trailer True (message_part (trailer_block t h))
      = t # trailers word_value tx_trailer False (lf # ?second)"
    unfolding block
  proof (rule trailers_hit)
    show "after_key tx_trailer (tx_trailer @ CHR '':'' # '' '' @ t @ lf # ?second) = Some ('' '' @ t @ lf # ?second)"
      by (rule after_own_key) simp
  qed (rule word_value_token [OF assms(1,2)], simp)
  ultimately show "trailers word_value tx_trailer True (message_part (trailer_block t h)) = [t]" by simp
  have "trailers digest_value hash_trailer True ((tx_trailer @ CHR '':'' # '' '' @ t) @ lf # ?second)
      = trailers digest_value hash_trailer True ?second"
    by (rule trailers_no_key [OF _ no_lf(2)]) (simp add: other_key)
  moreover have "trailers digest_value hash_trailer True ?second = h # trailers digest_value hash_trailer False (lf # [])"
  proof (rule trailers_hit)
    show "after_key hash_trailer ?second = Some ('' '' @ h @ lf # [])" by (rule after_own_key) simp
  qed (rule digest_value_token [OF assms(3)], simp)
  ultimately show "trailers digest_value hash_trailer True (message_part (trailer_block t h)) = [h]"
    unfolding block by simp
qed

lemma trailers_of_text:
  assumes "\<not> reserved_trailer m" "key \<in> {tx_trailer, hash_trailer}"
  shows "trailers val key True (commit_text m t h) = trailers val key True (message_part (trailer_block t h))"
proof -
  have m: "\<not> at_lines names_trailer True m" using assms(1) by (simp add: reserved_trailer_def)
  have blank: "trailers val key True ([] @ lf # s) = trailers val key True s" for s
    using after_key_line [of "[]" key] assms(2) by (intro trailers_no_key) (auto simp: names_trailer_def prefix_ci_def low_def tx_trailer_def hash_trailer_def)
  show ?thesis
    using trailers_skip [OF m assms(2), of val] blank by (simp add: commit_text_def message_part_def [of m])
qed

lemma identity_of_commit:
  assumes "\<not> reserved_trailer m" "name_ok 119 t" "hash_ok h"
  shows "identity_of (commit_text m t h) = Some (t, h)"
  using trailers_of_block [of t h] tokens_no_space(1) [OF assms(2)] assms
  by (simp add: identity_of_def trailers_of_text validate_transaction_id_def)

lemma default_message_unreserved:
  assumes "name_ok 119 t"
  shows "\<not> reserved_trailer (''Apply bridge transaction '' @ t)"
proof -
  have no_line: "lf \<notin> set s \<Longrightarrow> at_lines P False s = False" for s P
    by (induction s) (auto simp: lf_iff)
  have "\<not> names_trailer (''Apply bridge transaction '' @ t)"
    by (simp add: names_trailer_def prefix_ci_def low_def tx_trailer_def hash_trailer_def is_space_def is_upper_def code_def)
  moreover have "lf \<notin> set t" using assms tokens_no_space(1) lf_not_token by blast
  then have "at_lines names_trailer False (tl (''Apply bridge transaction '' @ t)) = False"
    by (intro no_line) (simp add: lf_def)
  ultimately show ?thesis by (simp add: reserved_trailer_def lf_iff lf_def)
qed

lemma identity_of_own_commit:
  assumes "case tx_message t of None \<Rightarrow> True | Some m \<Rightarrow> \<not> reserved_trailer m" "name_ok 119 (tx_id t)" "hash_ok digest"
  shows "identity_of (commit_text (commit_message t) (tx_id t) digest) = Some (tx_id t, digest)"
proof (rule identity_of_commit)
  show "\<not> reserved_trailer (commit_message t)"
    unfolding commit_message_def using assms(1) default_message_unreserved [OF assms(2)] by (cases "tx_message t") (simp_all del: append_Cons)
qed (rule assms)+


end
