(* ===== verification/Transactions.thy ===== *)
theory Transactions
  imports Commits
begin

text \<open>
  \<open>process_transaction\<close> of the file bridge (\<open>llm_git_bridge/core.py\<close>) and the steps it uses, as programs over
  events: the calls of Git, the files written and removed, and the configured commands. What they answer is
  the environment. A call of Git that cannot be started or times out, or fails where its success is required,
  is a \<open>BridgeError\<close>; any other exception is \<open>Died\<close>. Timings are not modelled.
\<close>

datatype tx_event =
    TGit str "str list"
  | TWrite str str
  | TRemove str
  | TCopy str "path list"
  | TRun "str list"

record command_result =
  cm_rc :: int
  cm_stdout :: str
  cm_stderr :: str
  cm_timed_out :: bool
  cm_cancelled :: bool

record tenv =
  te_git :: "tx_event list \<Rightarrow> str \<Rightarrow> str list \<Rightarrow> (int \<times> str) option"
  te_write :: "tx_event list \<Rightarrow> str \<Rightarrow> bool"
  te_command :: "tx_event list \<Rightarrow> str list \<Rightarrow> command_result option"
  te_exists :: "tx_event list \<Rightarrow> str \<Rightarrow> bool"
  te_is_link :: "tx_event list \<Rightarrow> str \<Rightarrow> bool"
  te_files :: "tx_event list \<Rightarrow> path \<Rightarrow> tracked"
  te_sha :: "str \<Rightarrow> str"
  te_fr :: "real \<Rightarrow> str"
  te_parse :: "str \<Rightarrow> json option"
  te_expanduser :: "path \<Rightarrow> path"
  te_resolve :: "path \<Rightarrow> path option"

record tx_policy =
  tp_state :: str
  tp_prefix :: str
  tp_commands :: "str \<Rightarrow> str list option"
  tp_commit :: bool
  tp_push :: bool
  tp_current :: bool

type_synonym 'a tx = "(tx_event, 'a) prog"

definition lift :: "str + 'a \<Rightarrow> 'a tx" where
  "lift r = (case r of Inl m \<Rightarrow> refused m | Inr x \<Rightarrow> ret x)"

definition tgit_try :: "tenv \<Rightarrow> str \<Rightarrow> str list \<Rightarrow> (int \<times> str) tx" where
  "tgit_try v dir args =
     logged (TGit dir args) (\<lambda>tr. case te_git v tr dir args of
       None \<Rightarrow> Inl (Refused ''command timed out or could not be started'') | Some r \<Rightarrow> Inr r)"

definition tgit :: "tenv \<Rightarrow> str \<Rightarrow> str list \<Rightarrow> str tx" where
  "tgit v dir args =
     bindC (tgit_try v dir args) (\<lambda>(rc, out).
       if rc \<noteq> 0 then refused (''command failed with exit code '' @ int_str rc) else ret out)"

definition write_text :: "tenv \<Rightarrow> str \<Rightarrow> str \<Rightarrow> unit tx" where
  "write_text v p text = logged (TWrite p text) (\<lambda>tr. if te_write v tr p then Inr () else Inl Died)"

definition remove_tree :: "str \<Rightarrow> unit tx" where
  "remove_tree p = logged (TRemove p) (\<lambda>_. Inr ())"

definition below :: "str \<Rightarrow> str \<Rightarrow> str" where
  "below dir name = dir @ ''/'' @ name"

subsection \<open>Commits, references and claims\<close>

definition read_commit :: "tenv \<Rightarrow> str \<Rightarrow> str \<Rightarrow> commit_record tx" where
  "read_commit v repo commit =
     (let c = low (py_strip commit) in
      if \<not> oid_ok c then ret no_commit
      else bindC (tgit v repo [''cat-file'', ''commit'', c]) (\<lambda>raw. ret (parse_commit c raw)))"

definition commit_matches :: "tenv \<Rightarrow> str \<Rightarrow> str \<Rightarrow> str \<Rightarrow> str \<Rightarrow> str \<Rightarrow> str \<Rightarrow> bool tx" where
  "commit_matches v repo commit txid digest base tree =
     bindC (read_commit v repo commit) (\<lambda>r. ret (matches_request commit r txid digest base (Some tree)))"

definition refs_args :: "str list \<Rightarrow> str list" where
  "refs_args refs = [''for-each-ref'', ''--format=%(refname)%00%(objectname)%00%(symref)''] @ refs"

definition read_refs :: "tenv \<Rightarrow> str \<Rightarrow> (str \<times> str) list \<Rightarrow> str option list tx" where
  "read_refs v repo refs = bindC (tgit v repo (refs_args (map fst refs))) (\<lambda>out. lift (exact_refs refs out))"

definition claim_payload :: "tenv \<Rightarrow> str \<Rightarrow> str option \<Rightarrow> str option tx" where
  "claim_payload v repo c =
     (case c of
        None \<Rightarrow> ret None
      | Some blob \<Rightarrow>
          bindC (tgit v repo [''cat-file'', ''blob'', blob]) (\<lambda>out.
            if hash_ok (py_strip out) then ret (Some (py_strip out)) else refused ''transaction identity claim is malformed''))"

definition claim_what :: str where
  "claim_what = ''transaction identity claim ref''"

definition read_claim :: "tenv \<Rightarrow> str \<Rightarrow> str \<Rightarrow> str option tx" where
  "read_claim v repo txid =
     bindC (read_refs v repo [(claim_ref txid, claim_what)]) (\<lambda>refs. claim_payload v repo (hd refs))"

definition claim_path :: "str \<Rightarrow> str \<Rightarrow> str" where
  "claim_path state txid = below (below (below state ''transactions'') txid) ''request-sha256''"

definition claim_args :: "str \<Rightarrow> str \<Rightarrow> str list" where
  "claim_args txid blob = [''update-ref'', ''--no-deref'', claim_ref txid, blob, []]"

definition create_claim :: "tenv \<Rightarrow> str \<Rightarrow> str \<Rightarrow> str \<Rightarrow> str \<Rightarrow> unit tx" where
  "create_claim v repo txid digest state =
     bindC (write_text v (claim_path state txid) (digest @ [lf])) (\<lambda>_.
     bindC (tgit v repo [''hash-object'', ''-w'', ''--no-filters'', claim_path state txid]) (\<lambda>out.
     let blob = low (py_strip out) in
     bindC (need (oid_ok blob) ''could not create transaction identity object'') (\<lambda>_.
     bindC (tgit_try v repo (claim_args txid blob)) (\<lambda>(rc, _).
       if rc = 0 then ret ()
       else bindC (read_claim v repo txid) (\<lambda>existing.
              if existing = Some digest then ret ()
              else if existing \<noteq> None then refused ''transaction_id was already claimed by a different request''
              else refused ''could not create transaction identity claim'')))))"

subsection \<open>Repositories and worktrees\<close>

definition status_args :: "str list" where
  "status_args = [''status'', ''--porcelain=v2'', ''--branch'', ''-z'', ''--untracked-files=no'']"

definition ensure_tracked_clean :: "tenv \<Rightarrow> str \<Rightarrow> str tx" where
  "ensure_tracked_clean v repo = bindC (tgit v repo status_args) (\<lambda>out. lift (clean_head out))"

definition symbolic_head :: "tenv \<Rightarrow> str \<Rightarrow> str option tx" where
  "symbolic_head v repo =
     bindC (tgit_try v repo [''symbolic-ref'', ''--quiet'', ''--short'', ''HEAD'']) (\<lambda>(rc, out).
       ret (if rc = 0 then Some (py_strip out) else None))"

definition retire_worktree :: "tenv \<Rightarrow> str \<Rightarrow> str \<Rightarrow> unit tx" where
  "retire_worktree v repo wt =
     bindC (ask (\<lambda>tr. te_exists v tr wt)) (\<lambda>there.
       if \<not> there then ret ()
       else bindC (tgit_try v repo [''worktree'', ''remove'', ''--force'', wt]) (\<lambda>(rc, _).
            bindC (ask (\<lambda>tr. te_exists v tr wt)) (\<lambda>residual.
            bindC (if residual then remove_tree wt else ret ()) (\<lambda>_.
              if rc \<noteq> 0 \<or> residual then bindC (tgit_try v repo [''worktree'', ''prune'']) (\<lambda>_. ret ()) else ret ()))))"

definition quiet_args :: "str list" where
  "quiet_args = [''-c'', ''core.hooksPath=/dev/null'']"

definition worktree_add_args :: "str list \<Rightarrow> str list" where
  "worktree_add_args args = quiet_args @ [''-c'', ''core.fsmonitor=false'', ''worktree'', ''add''] @ args"

definition add_disposable_worktree :: "tenv \<Rightarrow> str \<Rightarrow> str list \<Rightarrow> unit tx" where
  "add_disposable_worktree v repo args =
     bindC (tgit_try v repo (worktree_add_args args)) (\<lambda>(rc, _).
       if rc = 0 then ret ()
       else bindC (tgit_try v repo [''worktree'', ''prune'']) (\<lambda>_.
            bindC (tgit v repo (worktree_add_args args)) (\<lambda>_. ret ())))"

definition raw_diff_args :: "str list" where
  "raw_diff_args = [''diff'', ''--cached'', ''--raw'', ''-z'', ''--no-renames'', ''--no-abbrev'']"

definition ensure_changed_files :: "tenv \<Rightarrow> str \<Rightarrow> nat tx" where
  "ensure_changed_files v wt =
     bindC (tgit v wt raw_diff_args) (\<lambda>out.
     bindC (ask (\<lambda>tr. staged_changes (\<lambda>p. te_is_link v tr (below wt p)) out)) lift)"

subsection \<open>Configured commands\<close>

record control =
  ct_head :: str
  ct_head_ref :: str
  ct_index :: str
  ct_config :: str
  ct_refs :: str

definition control_rest :: "tenv \<Rightarrow> str \<Rightarrow> str \<Rightarrow> str \<Rightarrow> str \<Rightarrow> control tx" where
  "control_rest v wt head head_ref index =
     bindC (tgit v wt [''config'', ''--local'', ''--null'', ''--list'']) (\<lambda>config.
     bindC (tgit v wt [''for-each-ref'', ''--format=%(refname)%00%(objectname)'', ''refs/heads'', ''refs/tags'', ''refs/remotes'']) (\<lambda>refs.
     ret \<lparr>ct_head = head, ct_head_ref = head_ref, ct_index = index, ct_config = config, ct_refs = refs\<rparr>))"

definition write_tree :: "tenv \<Rightarrow> str \<Rightarrow> str tx" where
  "write_tree v wt = bindC (tgit v wt [''write-tree'']) (\<lambda>out. ret (py_strip out))"

definition control_known :: "tenv \<Rightarrow> str \<Rightarrow> str \<Rightarrow> str \<Rightarrow> str \<Rightarrow> control tx" where
  "control_known v wt head head_ref tree =
     bindC (if tree = [] then write_tree v wt else ret tree) (\<lambda>index. control_rest v wt head head_ref index)"

definition control_now :: "tenv \<Rightarrow> str \<Rightarrow> control tx" where
  "control_now v wt =
     bindC (tgit v wt [''rev-parse'', ''HEAD'', ''--symbolic-full-name'', ''HEAD'']) (\<lambda>out.
       case line_pieces [] out of
         a # b # _ \<Rightarrow>
           bindC (write_tree v wt) (\<lambda>index.
             control_rest v wt (py_strip a) (if py_strip b = ''HEAD'' then [] else py_strip b) index)
       | _ \<Rightarrow> refused ''could not read repository HEAD state'')"

definition assert_command_invariants :: "tenv \<Rightarrow> str \<Rightarrow> control \<Rightarrow> unit tx" where
  "assert_command_invariants v wt prior =
     bindC (control_now v wt) (\<lambda>after.
     bindC (need (after = prior) ''configured command modified Git control state or staged patch'') (\<lambda>_.
     bindC (tgit_try v wt [''diff'', ''--quiet'']) (\<lambda>(rc, _).
     need (rc = 0) ''configured command modified tracked files outside the staged patch'')))"

text \<open>The tracked files that a command may see.\<close>

definition copied_files :: "(str \<Rightarrow> json option) \<Rightarrow> (path \<Rightarrow> tracked) \<Rightarrow> path list \<Rightarrow> path list" where
  "copied_files parse files rels =
     filter (\<lambda>rel. \<not> is_sensitive rel
        \<and> (case files rel of Tracked _ (Inr data) \<Rightarrow> \<not> contains_obvious_secret parse data | _ \<Rightarrow> False)) rels"

definition command_root :: "str \<Rightarrow> str \<Rightarrow> str" where
  "command_root state txid = below (below state ''command-runs'') txid"

definition command_home :: "str \<Rightarrow> str \<Rightarrow> str" where
  "command_home state txid = below (below state ''command-homes'') txid"

definition prepare_command_workspace :: "tenv \<Rightarrow> str \<Rightarrow> str \<Rightarrow> str \<Rightarrow> unit tx" where
  "prepare_command_workspace v wt state txid =
     bindC (remove_tree (command_root state txid)) (\<lambda>_.
     bindC (remove_tree (command_home state txid)) (\<lambda>_.
     bindC (tgit v wt [''ls-files'', ''-c'', ''-z'']) (\<lambda>out.
     bindC (ask (\<lambda>tr. copied_files (te_parse v) (te_files v tr) (list_snapshot_candidates out))) (\<lambda>copies.
     logged (TCopy (command_root state txid) copies) (\<lambda>_. Inr ())))))"

definition two_digits :: "nat \<Rightarrow> str" where
  "two_digits n = (if n < 10 then ''0'' @ nat_str n else nat_str n)"

definition log_path :: "str \<Rightarrow> str \<Rightarrow> nat \<Rightarrow> str" where
  "log_path state txid i = below (below (below state ''command-logs'') txid) (two_digits i @ ''.log'')"

definition log_text :: "str \<Rightarrow> command_result \<Rightarrow> str" where
  "log_text name r =
     ''command: '' @ name @ [lf] @ ''returncode: '' @ int_str (cm_rc r) @ [lf, lf] @ ''stdout:'' @ [lf] @ cm_stdout r @ [lf, lf]
     @ ''stderr:'' @ [lf] @ cm_stderr r @ [lf]"

definition run_command :: "tenv \<Rightarrow> str list \<Rightarrow> command_result tx" where
  "run_command v argv =
     logged (TRun argv) (\<lambda>tr. case te_command v tr argv of
       None \<Rightarrow> Inl (Refused ''configured command could not be started'') | Some r \<Rightarrow> Inr r)"

definition configured :: "tx_policy \<Rightarrow> str \<Rightarrow> str + str list" where
  "configured p name =
     (case tp_commands p name of
        None \<Rightarrow> Inl (''requested command is not configured locally: '' @ name)
      | Some argv \<Rightarrow> if argv = [] \<or> [] \<in> set argv then Inl (''configured command '' @ py_repr name @ '' is invalid'') else Inr argv)"

definition one_command :: "tenv \<Rightarrow> tx_policy \<Rightarrow> str \<Rightarrow> str \<Rightarrow> str \<Rightarrow> control \<Rightarrow> nat \<Rightarrow> str \<Rightarrow> (str \<times> int) tx" where
  "one_command v p repo wt txid prior i name =
     bindC (lift (configured p name)) (\<lambda>argv.
     bindC (run_command v (command_argv (te_expanduser v) (te_resolve v) (parse_path repo)
              (parse_path (command_root (tp_state p) txid)) argv)) (\<lambda>r.
     bindC (write_text v (log_path (tp_state p) txid i) (log_text name r)) (\<lambda>_.
     bindC (need (\<not> cm_cancelled r) (''configured command cancelled: '' @ name)) (\<lambda>_.
     bindC (need (\<not> cm_timed_out r) (''configured command timed out: '' @ name)) (\<lambda>_.
     bindC (need (cm_rc r = 0) (''configured command failed: '' @ name)) (\<lambda>_.
     bindC (assert_command_invariants v wt prior) (\<lambda>_.
     ret (name, cm_rc r))))))))"

fun all_commands :: "tenv \<Rightarrow> tx_policy \<Rightarrow> str \<Rightarrow> str \<Rightarrow> str \<Rightarrow> control \<Rightarrow> nat \<Rightarrow> str list \<Rightarrow> (str \<times> int) list tx" where
  "all_commands v p repo wt txid prior i [] = ret []"
| "all_commands v p repo wt txid prior i (name # names) =
     bindC (one_command v p repo wt txid prior i name) (\<lambda>r.
     bindC (all_commands v p repo wt txid prior (Suc i) names) (\<lambda>rs. ret (r # rs)))"

definition run_commands :: "tenv \<Rightarrow> tx_policy \<Rightarrow> str \<Rightarrow> str \<Rightarrow> transaction \<Rightarrow> str \<Rightarrow> str \<Rightarrow> (str \<times> int) list tx" where
  "run_commands v p repo wt t head_ref tree =
     (if tx_run t = [] then ret []
      else bindC (control_known v wt (low (tx_base t)) head_ref tree) (\<lambda>prior.
           bindC (prepare_command_workspace v wt (tp_state p) (tx_id t)) (\<lambda>_.
           all_commands v p repo wt (tx_id t) prior 1 (tx_run t))))"

subsection \<open>The target of a transaction\<close>

text \<open>What the first part of the function establishes. \<open>pl_recovered\<close> is a bridge commit of this very request that
  an earlier run has already published.\<close>

record tx_plan =
  pl_tx :: transaction
  pl_digest :: str
  pl_direct :: bool
  pl_existing :: bool
  pl_recovered :: "str option"

definition pl_base :: "tx_plan \<Rightarrow> str" where
  "pl_base pl = low (tx_base (pl_tx pl))"

definition default_max_patch :: int where
  "default_max_patch = 5000000"

definition published_before :: "transaction \<Rightarrow> str \<Rightarrow> commit_record \<Rightarrow> bool" where
  "published_before t digest r =
     (cr_identity r = Some (tx_id t, digest) \<and> (case cr_parents r of [q] \<Rightarrow> low q = low (tx_base t) | _ \<Rightarrow> False))"

definition other_request :: "transaction \<Rightarrow> str \<Rightarrow> commit_record \<Rightarrow> bool" where
  "other_request t digest r = (case cr_identity r of None \<Rightarrow> False | Some (i, d) \<Rightarrow> i = tx_id t \<and> d \<noteq> digest)"

definition check_target :: "tenv \<Rightarrow> str \<Rightarrow> transaction \<Rightarrow> str \<Rightarrow> str \<Rightarrow> str option \<Rightarrow> str option tx" where
  "check_target v repo t digest head tip =
     (case tip of
        None \<Rightarrow> bindC (need (head = low (tx_base t)) ''stale repository base'') (\<lambda>_. ret None)
      | Some commit \<Rightarrow>
          if commit = low (tx_base t) then ret None
          else bindC (read_commit v repo commit) (\<lambda>r.
               bindC (need (\<not> other_request t digest r) ''transaction_id was already committed with a different request'') (\<lambda>_.
               bindC (need (published_before t digest r) ''stale branch base'') (\<lambda>_. ret (Some commit)))))"

definition wanted_refs :: "transaction \<Rightarrow> (str \<times> str) list" where
  "wanted_refs t = [(claim_ref (tx_id t), claim_what), (branch_ref (tx_branch t), ''local branch ref'')]"

definition allowed :: "tx_policy \<Rightarrow> transaction \<Rightarrow> str option \<Rightarrow> unit tx" where
  "allowed p t recovered =
     bindC (need (recovered \<noteq> None \<or> tp_commit p) ''commits are disabled locally for this repository'') (\<lambda>_.
     need (recovered \<noteq> None \<or> \<not> tx_push t \<or> tp_push p) ''push requested but is not enabled locally for this repository'')"

definition plan_for :: "tenv \<Rightarrow> tx_policy \<Rightarrow> str \<Rightarrow> str \<Rightarrow> str option \<Rightarrow> str \<Rightarrow> transaction \<Rightarrow> tx_plan tx" where
  "plan_for v p repo head current digest t =
     bindC (read_refs v repo (wanted_refs t)) (\<lambda>refs.
     bindC (claim_payload v repo (hd refs)) (\<lambda>claim.
     bindC (need (claim \<in> {None, Some digest}) ''transaction_id was already claimed by a different request'') (\<lambda>_.
     bindC (check_target v repo t digest head (refs ! 1)) (\<lambda>recovered.
     bindC (allowed p t recovered) (\<lambda>_.
     bindC (if claim = None then create_claim v repo (tx_id t) digest (tp_state p) else ret ()) (\<lambda>_.
     ret \<lparr>pl_tx = t, pl_digest = digest, pl_direct = (current = Some (tx_branch t)), pl_existing = (refs ! 1 \<noteq> None),
           pl_recovered = recovered\<rparr>))))))"

definition begin_transaction :: "tenv \<Rightarrow> tx_policy \<Rightarrow> str \<Rightarrow> json \<Rightarrow> tx_plan tx" where
  "begin_transaction v p repo obj =
     bindC (ensure_tracked_clean v repo) (\<lambda>head.
     bindC (if tp_current p then symbolic_head v repo else ret None) (\<lambda>current.
     bindC (lift (validate_transaction (tp_prefix p) current default_max_patch obj)) (\<lambda>t.
     plan_for v p repo head current (transaction_request_sha256 (te_sha v) (te_fr v) obj) t)))"

definition worktree_path :: "tx_policy \<Rightarrow> transaction \<Rightarrow> str" where
  "worktree_path p t = below (below (tp_state p) ''worktrees'') (tx_id t)"

text \<open>The disposable worktree, and the reference that its HEAD then names.\<close>

definition open_worktree :: "tenv \<Rightarrow> tx_policy \<Rightarrow> str \<Rightarrow> tx_plan \<Rightarrow> str tx" where
  "open_worktree v p repo pl =
     (let wt = worktree_path p (pl_tx pl); branch = tx_branch (pl_tx pl) in
      bindC (retire_worktree v repo wt) (\<lambda>_.
      case pl_recovered pl of
        Some commit \<Rightarrow> bindC (add_disposable_worktree v repo [''--detach'', wt, commit]) (\<lambda>_. ret [])
      | None \<Rightarrow>
          if pl_existing pl \<and> \<not> pl_direct pl
          then bindC (add_disposable_worktree v repo [wt, branch]) (\<lambda>_. ret (branch_ref branch))
          else bindC (add_disposable_worktree v repo [''--detach'', wt, pl_base pl]) (\<lambda>_. ret [])))"

subsection \<open>Building the commit\<close>

definition patch_path :: "tx_policy \<Rightarrow> transaction \<Rightarrow> str" where
  "patch_path p t = below (below (below (tp_state p) ''transactions'') (tx_id t)) ''change.patch''"

definition apply_patch :: "tenv \<Rightarrow> tx_policy \<Rightarrow> transaction \<Rightarrow> unit tx" where
  "apply_patch v p t =
     bindC (write_text v (patch_path p t) (tx_patch t)) (\<lambda>_.
     bindC (tgit_try v (worktree_path p t) [''apply'', ''--index'', patch_path p t]) (\<lambda>(rc, _).
     bindC (need (rc = 0) ''git apply failed'') (\<lambda>_.
     bindC (tgit_try v (worktree_path p t) [''diff'', ''--cached'', ''--check'']) (\<lambda>(rc, _).
     need (rc = 0) ''git diff --check failed''))))"

definition commit_tree_args :: "str \<Rightarrow> str \<Rightarrow> str \<Rightarrow> str \<Rightarrow> str list" where
  "commit_tree_args tree base message trailer = [''commit-tree'', tree, ''-p'', base, ''-m'', message, ''-m'', trailer]"

definition make_commit :: "tenv \<Rightarrow> str \<Rightarrow> str \<Rightarrow> tx_plan \<Rightarrow> str \<Rightarrow> str tx" where
  "make_commit v repo wt pl tree =
     bindC (tgit v wt (commit_tree_args tree (pl_base pl) (commit_message (pl_tx pl)) (trailer_block (tx_id (pl_tx pl)) (pl_digest pl)))) (\<lambda>out.
     let commit = low (py_strip out) in
     bindC (need (oid_ok commit) ''git commit-tree returned an invalid commit object id'') (\<lambda>_.
     bindC (commit_matches v repo commit (tx_id (pl_tx pl)) (pl_digest pl) (pl_base pl) tree) (\<lambda>same.
     bindC (need same ''commit object verification failed'') (\<lambda>_. ret commit))))"

definition build_commit :: "tenv \<Rightarrow> tx_policy \<Rightarrow> str \<Rightarrow> tx_plan \<Rightarrow> str \<Rightarrow> (str \<times> (str \<times> int) list) tx" where
  "build_commit v p repo pl head_ref =
     (let t = pl_tx pl; wt = worktree_path p t in
      bindC (apply_patch v p t) (\<lambda>_.
      bindC (ensure_changed_files v wt) (\<lambda>n.
      bindC (need (0 < n) ''patch produced no changes'') (\<lambda>_.
      bindC (write_tree v wt) (\<lambda>tree.
      bindC (run_commands v p repo wt t head_ref tree) (\<lambda>results.
      bindC (make_commit v repo wt pl tree) (\<lambda>commit.
      ret (commit, results))))))))"

subsection \<open>Publishing the commit\<close>

definition update_args :: "str \<Rightarrow> str \<Rightarrow> str \<Rightarrow> str \<Rightarrow> str list" where
  "update_args reason ref new_oid old_oid = [''update-ref'', ''--no-deref'', ''-m'', reason, ref, new_oid, old_oid]"

definition merge_args :: "str \<Rightarrow> str list" where
  "merge_args commit = quiet_args @ [''merge'', ''--ff-only'', ''--no-edit'', commit]"

definition rescue_any :: "'a tx \<Rightarrow> 'a \<Rightarrow> 'a tx" where
  "rescue_any m x tr = (case m tr of (Inl _, tr') \<Rightarrow> (Inr x, tr') | r \<Rightarrow> r)"

definition changed_during :: str where
  "changed_during = ''current branch changed during commit publication''"

text \<open>The fast-forward has landed on another branch: it is taken back, if nothing else has moved since.\<close>

definition restore_tree :: "tenv \<Rightarrow> str \<Rightarrow> tx_plan \<Rightarrow> str \<Rightarrow> unit tx" where
  "restore_tree v repo pl wrong =
     bindC (symbolic_head v repo) (\<lambda>now.
       if now \<noteq> Some wrong then ret ()
       else bindC (tgit_try v repo [''reset'', ''--hard'', pl_base pl]) (\<lambda>(rc, _).
            need (rc = 0) (changed_during @ ''; manual inspection required'')))"

definition roll_back :: "tenv \<Rightarrow> str \<Rightarrow> tx_plan \<Rightarrow> str \<Rightarrow> str \<Rightarrow> unit tx" where
  "roll_back v repo pl commit wrong =
     bindC (rescue (ensure_tracked_clean v repo) []) (\<lambda>head.
       if head \<noteq> commit then ret ()
       else bindC (tgit_try v repo (update_args (''llm-git-bridge rollback '' @ tx_id (pl_tx pl)) (branch_ref wrong) (pl_base pl) commit)) (\<lambda>(rc, _).
            if rc \<noteq> 0 then ret () else restore_tree v repo pl wrong))"

definition settle_checkout :: "tenv \<Rightarrow> str \<Rightarrow> tx_plan \<Rightarrow> str \<Rightarrow> unit tx" where
  "settle_checkout v repo pl commit =
     bindC (ensure_tracked_clean v repo) (\<lambda>head.
     bindC (need (head = commit) ''current branch did not advance to the bridge commit'') (\<lambda>_.
     bindC (symbolic_head v repo) (\<lambda>now.
       if now = Some (tx_branch (pl_tx pl)) then ret ()
       else bindC (case now of None \<Rightarrow> ret () | Some wrong \<Rightarrow> if wrong = [] then ret () else roll_back v repo pl commit wrong) (\<lambda>_.
            refused changed_during))))"

definition advance_checkout :: "tenv \<Rightarrow> str \<Rightarrow> tx_plan \<Rightarrow> str \<Rightarrow> unit tx" where
  "advance_checkout v repo pl commit =
     bindC (ensure_tracked_clean v repo) (\<lambda>head.
     bindC (symbolic_head v repo) (\<lambda>current.
     bindC (need (current = Some (tx_branch (pl_tx pl)) \<and> head = pl_base pl) ''current branch changed before commit publication'') (\<lambda>_.
     bindC (tgit_try v repo (merge_args commit)) (\<lambda>(rc, _).
     bindC (need (rc = 0) ''current branch changed before commit publication'') (\<lambda>_.
     settle_checkout v repo pl commit)))))"

definition expected_old :: "tx_plan \<Rightarrow> str" where
  "expected_old pl = (if pl_existing pl then pl_base pl else [])"

definition publish_ref :: "tenv \<Rightarrow> str \<Rightarrow> tx_plan \<Rightarrow> str \<Rightarrow> unit tx" where
  "publish_ref v repo pl commit =
     bindC (tgit_try v repo (update_args (''llm-git-bridge transaction '' @ tx_id (pl_tx pl)) (branch_ref (tx_branch (pl_tx pl))) commit
             (expected_old pl))) (\<lambda>(rc, _).
     need (rc = 0) ''target branch changed before commit publication'')"

definition publish :: "tenv \<Rightarrow> str \<Rightarrow> tx_plan \<Rightarrow> str \<Rightarrow> unit tx" where
  "publish v repo pl commit = (if pl_direct pl then advance_checkout v repo pl commit else publish_ref v repo pl commit)"

definition durable_commit :: "tenv \<Rightarrow> tx_policy \<Rightarrow> str \<Rightarrow> tx_plan \<Rightarrow> str \<Rightarrow> (str \<times> (str \<times> int) list) tx" where
  "durable_commit v p repo pl head_ref =
     (case pl_recovered pl of
        Some commit \<Rightarrow> ret (commit, map (\<lambda>name. (name, 0)) (tx_run (pl_tx pl)))
      | None \<Rightarrow>
          bindC (build_commit v p repo pl head_ref) (\<lambda>(commit, results).
          bindC (publish v repo pl commit) (\<lambda>_. ret (commit, results))))"

subsection \<open>Push and snapshot\<close>

datatype push_result = Pushed | PushFailed str

definition push_args :: "str \<Rightarrow> str \<Rightarrow> str list" where
  "push_args commit branch = quiet_args @ [''push'', ''--porcelain'', ''origin'', commit @ '':'' @ branch_ref branch]"

definition push_commit :: "tenv \<Rightarrow> tx_policy \<Rightarrow> tx_plan \<Rightarrow> str \<Rightarrow> push_result option tx" where
  "push_commit v p pl commit =
     (let t = pl_tx pl in
      if \<not> tx_push t then ret None
      else if \<not> tp_push p then ret (Some (PushFailed ''push is no longer enabled locally''))
      else rescue (bindC (tgit_try v (worktree_path p t) (push_args commit (tx_branch t))) (\<lambda>(rc, _).
                     ret (Some (if rc = 0 then Pushed else PushFailed (''git push failed with exit code '' @ int_str rc)))))
             (Some (PushFailed ''git push failed or timed out'')))"

record snapshot =
  sn_head :: str
  sn_branch :: "str option"
  sn_dirty :: bool
  sn_files :: snapshot_state

definition default_limits :: limits_of_snapshot where
  "default_limits = \<lparr>ls_file = 1000000, ls_total = 8000000, ls_files = 4000\<rparr>"

definition state_args :: "str list" where
  "state_args = [''status'', ''--porcelain=v2'', ''--branch'', ''-z'', ''--untracked-files=normal'']"

definition take_snapshot :: "tenv \<Rightarrow> str \<Rightarrow> snapshot tx" where
  "take_snapshot v dir =
     bindC (tgit v dir state_args) (\<lambda>out.
     bindC (lift (repo_state_of out)) (\<lambda>st.
     bindC (tgit v dir [''ls-files'', ''-c'', ''-z'']) (\<lambda>raw.
     bindC (ask (\<lambda>tr. build_snapshot (te_sha v) (te_parse v) default_limits (te_files v tr) raw)) (\<lambda>files.
     ret \<lparr>sn_head = rp_head st, sn_branch = rp_branch st, sn_dirty = rp_tracked_dirty st \<or> rp_untracked st, sn_files = files\<rparr>))))"

text \<open>The snapshot of the outcome, and whether its generation failed. A snapshot that is found inconsistent stays in
  the outcome.\<close>

definition label_snapshot :: "str \<Rightarrow> str \<Rightarrow> snapshot option \<Rightarrow> snapshot option \<times> bool" where
  "label_snapshot branch commit s =
     (case s of
        None \<Rightarrow> (None, True)
      | Some s \<Rightarrow> if sn_head s \<noteq> commit \<or> sn_dirty s then (Some s, True) else (Some (s\<lparr>sn_branch := Some branch\<rparr>), False))"

definition committed_snapshot :: "tenv \<Rightarrow> tx_policy \<Rightarrow> tx_plan \<Rightarrow> str \<Rightarrow> (snapshot option \<times> bool) tx" where
  "committed_snapshot v p pl commit =
     (let wt = worktree_path p (pl_tx pl) in
      if \<not> tx_snapshot (pl_tx pl) then ret (None, False)
      else bindC (rescue_any
             (bindC (if pl_existing pl then ret ()
                     else bindC (tgit_try v wt [''reset'', ''--hard'', commit]) (\<lambda>(rc, _).
                          need (rc = 0) ''could not prepare committed snapshot worktree'')) (\<lambda>_.
              bindC (take_snapshot v wt) (\<lambda>s. ret (Some s)))) None)
             (\<lambda>s. ret (label_snapshot (tx_branch (pl_tx pl)) commit s)))"

subsection \<open>The whole transaction\<close>

record tx_outcome =
  oc_id :: str
  oc_base :: str
  oc_branch :: str
  oc_commit :: str
  oc_commands :: "(str \<times> int) list"
  oc_recovered :: bool
  oc_push :: "push_result option"
  oc_snapshot_deferred :: bool
  oc_snapshot_error :: bool
  oc_snapshot :: "snapshot option"

definition outcome_of :: "tx_plan \<Rightarrow> str \<Rightarrow> (str \<times> int) list \<Rightarrow> push_result option \<Rightarrow> snapshot option \<times> bool \<Rightarrow> tx_outcome" where
  "outcome_of pl commit results pushed snap =
     \<lparr>oc_id = tx_id (pl_tx pl), oc_base = pl_base pl, oc_branch = tx_branch (pl_tx pl), oc_commit = commit, oc_commands = results,
      oc_recovered = (pl_recovered pl \<noteq> None), oc_push = pushed, oc_snapshot_deferred = (\<not> tx_snapshot (pl_tx pl)),
      oc_snapshot_error = snd snap, oc_snapshot = fst snap\<rparr>"

definition carry_out :: "tenv \<Rightarrow> tx_policy \<Rightarrow> str \<Rightarrow> tx_plan \<Rightarrow> str \<Rightarrow> tx_outcome tx" where
  "carry_out v p repo pl head_ref =
     bindC (durable_commit v p repo pl head_ref) (\<lambda>(commit, results).
     bindC (push_commit v p pl commit) (\<lambda>pushed.
     bindC (committed_snapshot v p pl commit) (\<lambda>snap.
     ret (outcome_of pl commit results pushed snap))))"

text \<open>\<open>finally\<close>: the command directories are removed when this run has prepared them.\<close>

definition copied_since :: "nat \<Rightarrow> tx_event list \<Rightarrow> bool" where
  "copied_since n tr = list_ex (\<lambda>e. case e of TCopy _ _ \<Rightarrow> True | _ \<Rightarrow> False) (drop n tr)"

definition clean_up :: "tenv \<Rightarrow> tx_policy \<Rightarrow> str \<Rightarrow> transaction \<Rightarrow> nat \<Rightarrow> unit tx" where
  "clean_up v p repo t n =
     bindC (retire_worktree v repo (worktree_path p t)) (\<lambda>_.
     bindC (ask (copied_since n)) (\<lambda>copied.
       if \<not> copied then ret ()
       else bindC (remove_tree (command_root (tp_state p) (tx_id t))) (\<lambda>_. remove_tree (command_home (tp_state p) (tx_id t)))))"

definition process_transaction :: "tenv \<Rightarrow> tx_policy \<Rightarrow> str \<Rightarrow> json \<Rightarrow> tx_outcome tx" where
  "process_transaction v p repo obj =
     bindC (begin_transaction v p repo obj) (\<lambda>pl.
     bindC (open_worktree v p repo pl) (\<lambda>head_ref.
     bindC (ask length) (\<lambda>n.
     and_then (carry_out v p repo pl head_ref) (clean_up v p repo (pl_tx pl) n))))"

end
