(* ===== verification/TransactionSafety.thy ===== *)
theory TransactionSafety
  imports Transactions
begin

text \<open>
  What a transaction of the file bridge may do to references, the checkout and the remote. Every step that moves
  one of them is accounted for by the answers that were read before it, whatever other processes do meanwhile.
\<close>

subsection \<open>Steps that move something or run a command\<close>

fun subcommand :: "str list \<Rightarrow> str" where
  "subcommand (a # b # args) = (if a = ''-c'' then subcommand args else a)"
| "subcommand [a] = a"
| "subcommand [] = []"

definition movers :: "str list" where
  "movers = [''update-ref'', ''merge'', ''push'', ''reset'']"

definition moves :: "tx_event \<Rightarrow> bool" where
  "moves e = (case e of TGit _ args \<Rightarrow> subcommand args \<in> set movers | TRun _ \<Rightarrow> True | _ \<Rightarrow> False)"

abbreviation quiet :: "(tx_event, 'a) prog \<Rightarrow> bool" where
  "quiet \<equiv> only (\<lambda>e. \<not> moves e)"

lemmas args_defs = movers_def refs_args_def status_args_def state_args_def worktree_add_args_def quiet_args_def raw_diff_args_def
  commit_tree_args_def claim_args_def update_args_def merge_args_def push_args_def

lemma quiet_try: "subcommand args \<notin> set movers \<Longrightarrow> quiet (tgit_try v d args)"
  unfolding tgit_try_def by (rule only_logged) (simp add: moves_def)

lemma quiet_git: "subcommand args \<notin> set movers \<Longrightarrow> quiet (tgit v d args)"
  unfolding tgit_def by (auto intro!: only_rules quiet_try)

lemma only_lift [only_rules]: "only ok (lift r)"
  by (auto simp: lift_def intro: only_rules split: sum.split)

lemma only_rescue_any [only_rules]: "only ok m \<Longrightarrow> only ok (rescue_any m x)"
  unfolding only_def rescue_any_def by (auto split: prod.split sum.split) (metis snd_conv)+

lemma quiet_effects [only_rules]:
  "quiet (write_text v p s)" "quiet (remove_tree p)" "quiet (logged (TCopy r c) f)"
  unfolding write_text_def remove_tree_def by (rule only_logged, simp add: moves_def)+

lemma quiet_reads [only_rules]:
  "quiet (read_commit v repo c)" "quiet (commit_matches v repo c i d b tree)" "quiet (read_refs v repo refs)"
  "quiet (claim_payload v repo c2)" "quiet (read_claim v repo i)" "quiet (ensure_tracked_clean v repo)"
  "quiet (symbolic_head v repo)" "quiet (write_tree v repo)" "quiet (ensure_changed_files v repo)"
  "quiet (control_known v wt h r tree)" "quiet (control_now v wt)"
proof -
  show refs: "quiet (read_refs v repo refs)" for refs
    unfolding read_refs_def by (auto intro!: only_rules quiet_git simp: args_defs)
  show payload: "quiet (claim_payload v repo c2)" for c2
    unfolding claim_payload_def by (auto intro!: only_rules quiet_git simp: args_defs split: option.split)
  show commit: "quiet (read_commit v repo c)"
    unfolding read_commit_def Let_def by (auto intro!: only_rules quiet_git simp: args_defs)
  then show "quiet (commit_matches v repo c i d b tree)" unfolding commit_matches_def by (intro only_rules)
  show "quiet (read_claim v repo i)" unfolding read_claim_def by (intro only_rules refs payload)
  show "quiet (ensure_tracked_clean v repo)" "quiet (ensure_changed_files v repo)" "quiet (symbolic_head v repo)"
    unfolding ensure_tracked_clean_def ensure_changed_files_def symbolic_head_def
    by (auto intro!: only_rules quiet_git quiet_try simp: args_defs)
  show tree: "quiet (write_tree v d)" for d
    unfolding write_tree_def by (auto intro!: only_rules quiet_git simp: args_defs)
  have ctl: "quiet (control_rest v wt a b c)" for a b c
    unfolding control_rest_def by (auto intro!: only_rules quiet_git simp: args_defs)
  show "quiet (control_known v wt h r tree)" "quiet (control_now v wt)"
    unfolding control_known_def control_now_def
    by (auto intro!: only_rules quiet_git tree ctl simp: args_defs split: list.split)
qed

lemma quiet_worktrees [only_rules]:
  "quiet (retire_worktree v repo wt)" "quiet (add_disposable_worktree v repo args)" "quiet (open_worktree v p repo pl)"
  "quiet (clean_up v p repo t n)"
proof -
  show retire: "quiet (retire_worktree v repo wt)" for wt
    unfolding retire_worktree_def by (auto intro!: only_rules quiet_try simp: args_defs)
  show add: "quiet (add_disposable_worktree v repo args)" for args
    unfolding add_disposable_worktree_def by (auto intro!: only_rules quiet_git quiet_try simp: args_defs)
  show "quiet (open_worktree v p repo pl)"
    unfolding open_worktree_def Let_def by (auto intro!: only_rules retire add split: option.split)
  show "quiet (clean_up v p repo t n)" unfolding clean_up_def by (auto intro!: only_rules retire)
qed

lemma quiet_snapshot [only_rules]: "quiet (take_snapshot v d)"
  unfolding take_snapshot_def by (auto intro!: only_rules quiet_git simp: args_defs)

lemma quiet_plan [only_rules]: "quiet (check_target v repo t d h tip)" "quiet (allowed p t r)"
  unfolding check_target_def allowed_def by (auto intro!: only_rules split: option.split)

lemma quiet_logs: "quiet m \<Longrightarrow> logs m"
  by (rule only_logs)

subsection \<open>What the answers show\<close>

definition answered :: "tenv \<Rightarrow> tx_event list \<Rightarrow> tx_event list \<Rightarrow> str \<Rightarrow> str list \<Rightarrow> int \<times> str \<Rightarrow> bool" where
  "answered v t0 us d args r = (\<exists>vs. prefix t0 vs \<and> prefix (vs @ [TGit d args]) us \<and> te_git v vs d args = Some r)"

abbreviation said :: "tenv \<Rightarrow> tx_event list \<Rightarrow> tx_event list \<Rightarrow> str \<Rightarrow> str list \<Rightarrow> str \<Rightarrow> bool" where
  "said v t0 us d args out \<equiv> answered v t0 us d args (0, out)"

definition ran_well :: "tenv \<Rightarrow> tx_event list \<Rightarrow> tx_event list \<Rightarrow> str list \<Rightarrow> bool" where
  "ran_well v t0 us argv =
     (\<exists>vs r. prefix t0 vs \<and> prefix (vs @ [TRun argv]) us \<and> te_command v vs argv = Some r
        \<and> cm_rc r = 0 \<and> \<not> cm_timed_out r \<and> \<not> cm_cancelled r)"

named_theorems yields_rules

lemma yields_try [yields_rules]: "yields (tgit_try v d args) (\<lambda>r t0 us. answered v t0 us d args r)"
  by (rule yieldsI) (auto simp: tgit_try_def logged_Inr answered_def split: option.splits)

lemma yields_git [yields_rules]: "yields (tgit v d args) (\<lambda>out t0 us. said v t0 us d args out)"
  unfolding tgit_def
  by (rule yieldsI) (auto simp: bindC_Inr split: if_splits dest!: yieldsD [OF yields_try])

lemma yields_basic [yields_rules]:
  "yields (ret x) (\<lambda>y _ _. y = x)" "yields (need b m) (\<lambda>_ _ _. b)" "yields (lift r) (\<lambda>y _ _. r = Inr y)"
  "yields (refused m) (\<lambda>_ _ _. False)" "yields (ask f) (\<lambda>x _ _. \<exists>vs. x = f vs)"
  by (auto simp: yields_def lift_def ask_def split: sum.splits)

lemma quiet_step:
  assumes "quiet m" "\<And>us e. \<not> moves e \<Longrightarrow> P us e" "yields m R" "prefix t0 tr"
    and "\<And>x us. (\<And>vs. prefix us vs \<Longrightarrow> R x t0 vs) \<Longrightarrow> prefix t0 us \<Longrightarrow> keeps P (f x) us"
  shows "keeps P (bindC m f) tr"
proof (rule keeps_step [OF assms(1,2) assms(4)])
  fix x us assume "m tr = (Inr x, us)" "prefix tr us" "prefix t0 us"
  then show "keeps P (f x) us" by (intro assms(5)) (auto intro: yieldsD [OF assms(3)] assms(4))
qed

text \<open>What a commit must have behind it before a reference moves to it: a staged difference that passed the checks
  on paths and modes, every requested command with exit code zero, and the commit object read back with the
  transaction's identity, the base as its only parent and the staged tree.\<close>

definition changes_checked :: "tenv \<Rightarrow> str \<Rightarrow> tx_event list \<Rightarrow> tx_event list \<Rightarrow> nat \<Rightarrow> bool" where
  "changes_checked v wt t0 us n =
     (\<exists>out ws. said v t0 us wt raw_diff_args out \<and> staged_changes (\<lambda>p. te_is_link v ws (below wt p)) out = Inr n)"

definition commands_passed :: "tenv \<Rightarrow> tx_policy \<Rightarrow> str \<Rightarrow> str \<Rightarrow> str list \<Rightarrow> tx_event list \<Rightarrow> tx_event list \<Rightarrow> bool" where
  "commands_passed v p repo txid names t0 us =
     (\<forall>name\<in>set names. \<exists>argv. configured p name = Inr argv
        \<and> ran_well v t0 us (command_argv (te_expanduser v) (te_resolve v) (parse_path repo)
            (parse_path (command_root (tp_state p) txid)) argv))"

definition commit_read :: "tenv \<Rightarrow> str \<Rightarrow> str \<Rightarrow> tx_event list \<Rightarrow> tx_event list \<Rightarrow> commit_record \<Rightarrow> bool" where
  "commit_read v repo commit t0 us r =
     (\<exists>raw. said v t0 us repo [''cat-file'', ''commit'', low (py_strip commit)] raw
        \<and> r = parse_commit (low (py_strip commit)) raw)"

definition vetted :: "tenv \<Rightarrow> tx_policy \<Rightarrow> str \<Rightarrow> transaction \<Rightarrow> str \<Rightarrow> tx_event list \<Rightarrow> tx_event list \<Rightarrow> str \<Rightarrow> bool" where
  "vetted v p repo t digest t0 us commit =
     (\<exists>n out r. changes_checked v (worktree_path p t) t0 us (Suc n) \<and> said v t0 us (worktree_path p t) [''write-tree''] out
        \<and> commands_passed v p repo (tx_id t) (tx_run t) t0 us \<and> commit_read v repo commit t0 us r
        \<and> matches_request commit r (tx_id t) digest (low (tx_base t)) (Some (py_strip out)))"

definition refs_read :: "tenv \<Rightarrow> str \<Rightarrow> (str \<times> str) list \<Rightarrow> tx_event list \<Rightarrow> tx_event list \<Rightarrow> str option list \<Rightarrow> bool" where
  "refs_read v repo refs t0 us ids =
     (\<exists>out. said v t0 us repo (refs_args (map fst refs)) out \<and> exact_refs refs out = Inr ids)"

definition claim_held :: "tenv \<Rightarrow> str \<Rightarrow> transaction \<Rightarrow> str \<Rightarrow> tx_event list \<Rightarrow> tx_event list \<Rightarrow> bool" where
  "claim_held v repo t digest t0 us =
     ((\<exists>refs blob ids out. refs_read v repo ((claim_ref (tx_id t), claim_what) # refs) t0 us (Some blob # ids)
         \<and> said v t0 us repo [''cat-file'', ''blob'', blob] out \<and> py_strip out = digest)
      \<or> (\<exists>blob out. said v t0 us repo (claim_args (tx_id t) blob) out))"

lemma answered_later: "answered v t0 us d a r \<Longrightarrow> prefix us vs \<Longrightarrow> answered v t0 vs d a r"
  unfolding answered_def by (meson prefix_order.trans)

lemma ran_later: "ran_well v t0 us argv \<Longrightarrow> prefix us vs \<Longrightarrow> ran_well v t0 vs argv"
  unfolding ran_well_def by (meson prefix_order.trans)

lemma logs_rules: "logs (tgit_try v d args)" "logs (tgit v d args)"
  "logs (read_commit v repo c)" "logs (read_refs v repo refs)" "logs (claim_payload v repo c2)"
  "logs (symbolic_head v repo)" "logs (ensure_tracked_clean v repo)" "logs (run_command v argv)"
proof -
  show "logs (run_command v argv)" unfolding run_command_def by (rule only_logged) simp
  show t: "logs (tgit_try v d args)" unfolding tgit_try_def by (rule only_logged) simp
  show "logs (tgit v d args)" unfolding tgit_def by (auto intro!: only_rules t)
qed (rule quiet_logs, rule only_rules)+

lemma yields_write_tree [yields_rules]:
  "yields (write_tree v wt) (\<lambda>tree t0 us. \<exists>out. said v t0 us wt [''write-tree''] out \<and> tree = py_strip out)"
  unfolding write_tree_def
  apply (rule yields_mono)
   apply (rule yields_bind yields_rules logs_rules only_rules only_flow)+
  apply blast
  done

lemma yields_changed [yields_rules]: "yields (ensure_changed_files v wt) (\<lambda>n t0 us. changes_checked v wt t0 us n)"
  unfolding ensure_changed_files_def
  apply (rule yields_mono)
   apply (rule yields_bind yields_rules logs_rules only_rules only_flow)+
  unfolding changes_checked_def apply metis
  done

lemma yields_read_commit [yields_rules]:
  "yields (read_commit v repo commit) (\<lambda>r t0 us. r = no_commit \<or> commit_read v repo commit t0 us r)"
  unfolding read_commit_def Let_def
  apply (rule yields_mono)
   apply (rule yields_if yields_bind yields_rules logs_rules only_rules only_flow)+
  apply (auto simp: commit_read_def split: if_splits)
  done

lemma yields_matches [yields_rules]:
  "yields (commit_matches v repo commit i d b tree)
     (\<lambda>ok t0 us. if ok then \<exists>r. commit_read v repo commit t0 us r \<and> matches_request commit r i d b (Some tree) else True)"
  unfolding commit_matches_def
  apply (rule yields_mono)
   apply (rule yields_bind yields_rules logs_rules only_rules only_flow)+
  apply (auto simp: matches_request_def no_commit_def)
  done

lemma yields_refs [yields_rules]: "yields (read_refs v repo refs) (\<lambda>ids t0 us. refs_read v repo refs t0 us ids)"
  unfolding read_refs_def
  apply (rule yields_mono)
   apply (rule yields_bind yields_rules logs_rules only_rules only_flow)+
  apply (auto simp: refs_read_def)
  done

lemma yields_payload [yields_rules]:
  "yields (claim_payload v repo c) (\<lambda>d t0 us. case c of None \<Rightarrow> d = None
     | Some blob \<Rightarrow> \<exists>out. said v t0 us repo [''cat-file'', ''blob'', blob] out \<and> d = Some (py_strip out))"
  unfolding claim_payload_def
  apply (rule yields_mono)
   apply (rule yields_option yields_if yields_bind yields_rules logs_rules only_rules only_flow)+
  apply (auto split: option.splits if_splits)
  done

lemma yields_symbolic [yields_rules]:
  "yields (symbolic_head v repo) (\<lambda>b t0 us. case b of None \<Rightarrow> True
     | Some b \<Rightarrow> \<exists>out. said v t0 us repo [''symbolic-ref'', ''--quiet'', ''--short'', ''HEAD''] out \<and> b = py_strip out)"
  unfolding symbolic_head_def
  apply (rule yields_mono)
   apply (rule yields_bind yields_pair yields_rules logs_rules only_rules only_flow)+
  apply (auto split: if_splits)
  done

lemma yields_clean [yields_rules]:
  "yields (ensure_tracked_clean v repo) (\<lambda>h t0 us. \<exists>out. said v t0 us repo status_args out \<and> clean_head out = Inr h)"
  unfolding ensure_tracked_clean_def
  apply (rule yields_mono)
   apply (rule yields_bind yields_rules logs_rules only_rules only_flow)+
  apply blast
  done

lemma lift_Inr: "lift r tr = (Inr x, us) \<longleftrightarrow> r = Inr x \<and> us = tr"
  by (auto simp: lift_def split: sum.splits)

lemma quiet_invariants: "quiet (assert_command_invariants v wt c)"
  unfolding assert_command_invariants_def by (auto intro!: only_rules quiet_try simp: args_defs)

lemma yields_command: "yields (one_command v p repo wt txid c i name) (\<lambda>_ t0 us. commands_passed v p repo txid [name] t0 us)"
proof (rule yields_stable)
  fix tr r us assume "one_command v p repo wt txid c i name tr = (Inr r, us)"
  then obtain argv r vs where c: "configured p name = Inr argv"
    and r: "run_command v (command_argv (te_expanduser v) (te_resolve v) (parse_path repo)
        (parse_path (command_root (tp_state p) txid)) argv) tr = (Inr r, vs)"
      "\<not> cm_cancelled r" "\<not> cm_timed_out r" "cm_rc r = 0" and "prefix vs us"
    unfolding one_command_def
    by (auto simp: bindC_Inr lift_Inr dest!: only_prefix [OF quiet_effects(1)] only_prefix [OF quiet_invariants]
        intro: prefix_order.trans)
  then show "commands_passed v p repo txid [name] tr us"
    by (auto simp: commands_passed_def ran_well_def run_command_def logged_Inr split: option.splits)
next
  fix r tr us t0 vs assume "commands_passed v p repo txid [name] tr us" "prefix t0 tr" "prefix us vs"
  then show "commands_passed v p repo txid [name] t0 vs"
    unfolding commands_passed_def ran_well_def by simp (meson prefix_order.trans)
qed

lemma quiet_steps [only_rules]:
  "quiet (prepare_command_workspace v wt s txid)" "quiet (apply_patch v p t)" "quiet (make_commit v repo wt pl tree)"
  unfolding prepare_command_workspace_def apply_patch_def make_commit_def Let_def
  by (auto intro!: only_rules quiet_git quiet_try simp: args_defs)

lemma more_logs: "logs (one_command v p repo wt txid c i name)" "logs (all_commands v p repo wt txid c i names)"
  "logs (prepare_command_workspace v wt s txid)" "logs (control_known v wt h r tree)" "logs (write_tree v wt)"
  "logs (ensure_changed_files v wt)" "logs (commit_matches v repo m txid d b tr)" "logs (write_text v q x)"
  "logs (run_commands v p repo wt t h tree)" "logs (apply_patch v p t)" "logs (make_commit v repo wt pl tree)"
proof -
  show one: "logs (one_command v p repo wt txid c i name)" for i name c txid
    unfolding one_command_def
    by (auto intro!: only_rules only_logs [OF quiet_effects(1)] only_logs [OF quiet_invariants] logs_rules)
  show all: "logs (all_commands v p repo wt txid c i names)" for i names c txid
    by (induction names arbitrary: i) (auto intro!: only_rules one)
  show "logs (run_commands v p repo wt t h tree)"
    unfolding run_commands_def
    by (auto intro!: only_rules all only_logs [OF quiet_steps(1)] only_logs [OF quiet_reads(10)])
qed (rule quiet_logs, rule only_rules)+

lemma passed_Cons:
  "commands_passed v p repo txid [name] t0 us \<Longrightarrow> commands_passed v p repo txid names t0 us
     \<Longrightarrow> commands_passed v p repo txid (name # names) t0 us"
  unfolding commands_passed_def by simp

lemma yields_all_commands:
  "yields (all_commands v p repo wt txid c i names) (\<lambda>_ t0 us. commands_passed v p repo txid names t0 us)"
proof (induction names arbitrary: i)
  case Nil
  show ?case by (auto simp: yields_def commands_passed_def)
next
  case (Cons name names)
  show ?case
    unfolding all_commands.simps
    by (rule yields_mono, (rule yields_bind yields_command Cons.IH yields_any more_logs only_rules)+) (blast intro: passed_Cons)
qed

lemma yields_run_commands [yields_rules]:
  "yields (run_commands v p repo wt t h tree) (\<lambda>_ t0 us. commands_passed v p repo (tx_id t) (tx_run t) t0 us)"
  unfolding run_commands_def
  apply (rule yields_mono)
   apply (rule yields_if yields_bind yields_all_commands yields_any more_logs only_rules only_flow)+
  apply (auto simp: commands_passed_def split: if_splits)
  done

lemma yields_make_commit [yields_rules]:
  "yields (make_commit v repo wt pl tree) (\<lambda>commit t0 us. \<exists>r. commit_read v repo commit t0 us r
     \<and> matches_request commit r (tx_id (pl_tx pl)) (pl_digest pl) (pl_base pl) (Some tree))"
  unfolding make_commit_def Let_def
  apply (rule yields_mono)
   apply (rule yields_bind yields_rules yields_any logs_rules more_logs only_rules only_flow)+
  apply auto
  done

lemma yields_build [yields_rules]:
  "yields (build_commit v p repo pl h) (\<lambda>c t0 us. vetted v p repo (pl_tx pl) (pl_digest pl) t0 us (fst c))"
  unfolding build_commit_def Let_def
  apply (rule yields_mono)
   apply (rule yields_bind yields_rules yields_any logs_rules more_logs only_rules only_flow)+
  unfolding vetted_def pl_base_def
  apply (clarsimp simp: gr0_conv_Suc)
  apply metis
  done

subsection \<open>What the plan rests on\<close>

definition tip_read :: "tenv \<Rightarrow> str \<Rightarrow> transaction \<Rightarrow> tx_event list \<Rightarrow> tx_event list \<Rightarrow> str option \<Rightarrow> bool" where
  "tip_read v repo t t0 us tip = (\<exists>claim ids. refs_read v repo (wanted_refs t) t0 us (claim # tip # ids))"

definition recovered_ok :: "tenv \<Rightarrow> str \<Rightarrow> transaction \<Rightarrow> str \<Rightarrow> tx_event list \<Rightarrow> tx_event list \<Rightarrow> str \<Rightarrow> bool" where
  "recovered_ok v repo t digest t0 us commit =
     (tip_read v repo t t0 us (Some commit) \<and> (\<exists>r. commit_read v repo commit t0 us r \<and> published_before t digest r))"

definition plan_ok :: "tenv \<Rightarrow> tx_policy \<Rightarrow> str \<Rightarrow> transaction \<Rightarrow> str \<Rightarrow> str option \<Rightarrow> tx_plan \<Rightarrow> tx_event list \<Rightarrow> tx_event list \<Rightarrow> bool" where
  "plan_ok v p repo t digest current pl t0 us =
     (pl_tx pl = t \<and> pl_digest pl = digest \<and> pl_direct pl = (current = Some (tx_branch t)) \<and> claim_held v repo t digest t0 us
      \<and> (case pl_recovered pl of
            Some commit \<Rightarrow> recovered_ok v repo t digest t0 us commit
          | None \<Rightarrow> tp_commit p \<and> (tx_push t \<longrightarrow> tp_push p)
                    \<and> tip_read v repo t t0 us (if pl_existing pl then Some (low (tx_base t)) else None)))"

lemma resolve_refs_shape: "resolve_refs rows refs = Inr ids \<Longrightarrow> length ids = length refs"
  by (induction rows refs arbitrary: ids rule: resolve_refs.induct) (auto simp: bindE_def split: sum.splits)

lemma refs_read_length: "refs_read v repo refs t0 us ids \<Longrightarrow> length ids = length refs"
  unfolding refs_read_def exact_refs_def by (auto split: option.splits dest: resolve_refs_shape)

lemma refs_read_one: "refs_read v repo [x] t0 us ids \<Longrightarrow> \<exists>c. ids = [c]"
  by (auto dest!: refs_read_length simp: length_Suc_conv)

lemma refs_read_two: "refs_read v repo (wanted_refs t) t0 us ids \<Longrightarrow> \<exists>claim tip. ids = [claim, tip]"
  by (auto dest!: refs_read_length simp: wanted_refs_def length_Suc_conv)

lemma yields_target [yields_rules]:
  "yields (check_target v repo t digest head tip) (\<lambda>r t0 us. case r of
     None \<Rightarrow> tip = None \<or> tip = Some (low (tx_base t))
   | Some commit \<Rightarrow> tip = Some commit \<and> (\<exists>r. commit_read v repo commit t0 us r \<and> published_before t digest r))"
  unfolding check_target_def
  apply (rule yields_mono)
   apply (rule yields_option yields_if yields_bind yields_rules yields_any logs_rules more_logs only_rules only_flow)+
  apply (auto simp: published_before_def no_commit_def split: option.splits if_splits)
  done

lemma logs_create: "logs (create_claim v repo i d s)"
  unfolding create_claim_def Let_def
  by (auto intro!: only_rules logs_rules more_logs only_logs [OF quiet_reads(5)] split: prod.split)

lemma yields_read_claim [yields_rules]:
  "yields (read_claim v repo i) (\<lambda>d t0 us. case d of None \<Rightarrow> True | Some d \<Rightarrow> \<exists>blob ids out.
     refs_read v repo [(claim_ref i, claim_what)] t0 us (Some blob # ids)
     \<and> said v t0 us repo [''cat-file'', ''blob'', blob] out \<and> py_strip out = d)"
  unfolding read_claim_def
  apply (rule yields_mono)
   apply (rule yields_bind yields_rules logs_rules only_rules)+
  subgoal for d t0 us
    apply (elim exE conjE)
    apply (frule refs_read_one)
    apply (fastforce split: option.splits)
    done
  done

lemma yields_create [yields_rules]:
  "yields (create_claim v repo (tx_id t) digest s) (\<lambda>_ t0 us. claim_held v repo t digest t0 us)"
  unfolding create_claim_def Let_def
  apply (rule yields_mono)
   apply (rule yields_bind yields_if yields_pair yields_rules yields_any logs_rules more_logs only_rules only_flow
       only_logs [OF quiet_reads(5)])+
  unfolding claim_held_def
  apply (auto split: if_splits)
  done

lemma yields_allowed [yields_rules]:
  "yields (allowed p t r) (\<lambda>_ _ _. r = None \<longrightarrow> tp_commit p \<and> (tx_push t \<longrightarrow> tp_push p))"
  unfolding allowed_def
  apply (rule yields_mono)
   apply (rule yields_bind yields_rules only_rules)+
  apply auto
  done

lemma claim_held_read:
  assumes "refs_read v repo (wanted_refs t) t0 us [Some blob, tip]"
    and "said v t0 us repo [''cat-file'', ''blob'', blob] out" "py_strip out = digest"
  shows "claim_held v repo t digest t0 us"
  using assms unfolding claim_held_def wanted_refs_def by blast

lemma tip_readI: "refs_read v repo (wanted_refs t) t0 us [claim, tip] \<Longrightarrow> tip_read v repo t t0 us tip"
  unfolding tip_read_def by blast

lemma yields_plan:
  "yields (plan_for v p repo head current digest t) (\<lambda>pl t0 us. plan_ok v p repo t digest current pl t0 us)"
  unfolding plan_for_def
  apply (rule yields_mono)
   apply (rule yields_bind yields_if yields_rules logs_rules logs_create only_rules only_flow
       only_logs [OF quiet_plan(1)] only_logs [OF quiet_plan(2)])+
  subgoal for pl t0 us
    apply (elim exE conjE)
    apply (frule refs_read_two)
    apply (elim exE)
    apply hypsubst
    apply (frule tip_readI)
    apply (auto simp: plan_ok_def recovered_ok_def intro: claim_held_read split: option.splits if_splits)
    done
  done

subsection \<open>Every step that moves something\<close>

definition ready :: "tenv \<Rightarrow> tx_policy \<Rightarrow> str \<Rightarrow> transaction \<Rightarrow> str \<Rightarrow> tx_event list \<Rightarrow> tx_event list \<Rightarrow> str \<Rightarrow> bool" where
  "ready v p repo t digest t0 us commit =
     (tp_commit p \<and> claim_held v repo t digest t0 us \<and> vetted v p repo t digest t0 us commit)"

definition checkout_at :: "tenv \<Rightarrow> str \<Rightarrow> str \<Rightarrow> tx_event list \<Rightarrow> tx_event list \<Rightarrow> bool" where
  "checkout_at v repo commit t0 us = (\<exists>out. said v t0 us repo status_args out \<and> clean_head out = Inr commit)"

definition head_names :: "tenv \<Rightarrow> str \<Rightarrow> str \<Rightarrow> tx_event list \<Rightarrow> tx_event list \<Rightarrow> bool" where
  "head_names v repo branch t0 us =
     (\<exists>out. said v t0 us repo [''symbolic-ref'', ''--quiet'', ''--short'', ''HEAD''] out \<and> py_strip out = branch)"

definition publish_args :: "transaction \<Rightarrow> str \<Rightarrow> str \<Rightarrow> str list" where
  "publish_args t commit old = update_args (''llm-git-bridge transaction '' @ tx_id t) (branch_ref (tx_branch t)) commit old"

definition rollback_args :: "transaction \<Rightarrow> str \<Rightarrow> str \<Rightarrow> str list" where
  "rollback_args t wrong commit = update_args (''llm-git-bridge rollback '' @ tx_id t) (branch_ref wrong) (low (tx_base t)) commit"

definition durable :: "tenv \<Rightarrow> tx_policy \<Rightarrow> str \<Rightarrow> transaction \<Rightarrow> str \<Rightarrow> tx_event list \<Rightarrow> tx_event list \<Rightarrow> str \<Rightarrow> bool" where
  "durable v p repo t digest t0 us commit =
     (recovered_ok v repo t digest t0 us commit
      \<or> (ready v p repo t digest t0 us commit
         \<and> ((\<exists>old out. said v t0 us repo (publish_args t commit old) out) \<or> (\<exists>out. said v t0 us repo (merge_args commit) out))))"

inductive accounted :: "tenv \<Rightarrow> tx_policy \<Rightarrow> str \<Rightarrow> transaction \<Rightarrow> str \<Rightarrow> tx_event list \<Rightarrow> tx_event list \<Rightarrow> tx_event \<Rightarrow> bool"
  for v p repo t digest t0 us where
  claims: "accounted v p repo t digest t0 us (TGit repo (claim_args (tx_id t) blob))"
| creates: "ready v p repo t digest t0 us commit \<Longrightarrow> tip_read v repo t t0 us None
    \<Longrightarrow> accounted v p repo t digest t0 us (TGit repo (publish_args t commit []))"
| advances: "ready v p repo t digest t0 us commit \<Longrightarrow> tip_read v repo t t0 us (Some (low (tx_base t)))
    \<Longrightarrow> accounted v p repo t digest t0 us (TGit repo (publish_args t commit (low (tx_base t))))"
| fast_forwards: "tp_current p \<Longrightarrow> ready v p repo t digest t0 vs commit \<Longrightarrow> checkout_at v repo (low (tx_base t)) vs us
    \<Longrightarrow> head_names v repo (tx_branch t) vs us \<Longrightarrow> accounted v p repo t digest t0 us (TGit repo (merge_args commit))"
| takes_back: "said v t0 vs repo (merge_args commit) out \<Longrightarrow> checkout_at v repo commit vs us \<Longrightarrow> head_names v repo wrong vs us
    \<Longrightarrow> wrong \<noteq> tx_branch t \<Longrightarrow> accounted v p repo t digest t0 us (TGit repo (rollback_args t wrong commit))"
| restores: "said v t0 us repo (rollback_args t wrong commit) out
    \<Longrightarrow> accounted v p repo t digest t0 us (TGit repo [''reset'', ''--hard'', low (tx_base t)])"
| pushes: "tp_push p \<Longrightarrow> tx_push t \<Longrightarrow> durable v p repo t digest t0 us commit
    \<Longrightarrow> accounted v p repo t digest t0 us (TGit (worktree_path p t) (push_args commit (tx_branch t)))"
| runs: "name \<in> set (tx_run t) \<Longrightarrow> configured p name = Inr argv \<Longrightarrow> tp_commit p \<Longrightarrow> claim_held v repo t digest t0 us
    \<Longrightarrow> tip_read v repo t t0 us tip \<Longrightarrow> tip \<in> {None, Some (low (tx_base t))}
    \<Longrightarrow> changes_checked v (worktree_path p t) t0 us (Suc n)
    \<Longrightarrow> accounted v p repo t digest t0 us (TRun (command_argv (te_expanduser v) (te_resolve v) (parse_path repo)
          (parse_path (command_root (tp_state p) (tx_id t))) argv))"
| prepares: "tx_snapshot t \<Longrightarrow> durable v p repo t digest t0 us commit
    \<Longrightarrow> accounted v p repo t digest t0 us (TGit (worktree_path p t) [''reset'', ''--hard'', commit])"

definition accountable :: "tenv \<Rightarrow> tx_policy \<Rightarrow> str \<Rightarrow> json \<Rightarrow> tx_event list \<Rightarrow> tx_event list \<Rightarrow> tx_event \<Rightarrow> bool" where
  "accountable v p repo obj t0 us e =
     (if moves e
      then \<exists>current t. (if tp_current p then True else current = None)
             \<and> validate_transaction (tp_prefix p) current default_max_patch obj = Inr t
             \<and> accounted v p repo t (transaction_request_sha256 (te_sha v) (te_fr v) obj) t0 us e
      else True)"

text \<open>What the validation has established, for the rest of the run.\<close>

definition admitted :: "tenv \<Rightarrow> tx_policy \<Rightarrow> json \<Rightarrow> str option \<Rightarrow> transaction \<Rightarrow> str \<Rightarrow> bool" where
  "admitted v p obj current t digest =
     ((if tp_current p then True else current = None) \<and> validate_transaction (tp_prefix p) current default_max_patch obj = Inr t
      \<and> digest = transaction_request_sha256 (te_sha v) (te_fr v) obj)"

lemma accountable_quiet: "\<not> moves e \<Longrightarrow> accountable v p repo obj t0 us e"
  by (simp add: accountable_def)

lemma accountableI:
  "admitted v p obj current t digest \<Longrightarrow> accounted v p repo t digest t0 us e \<Longrightarrow> accountable v p repo obj t0 us e"
  unfolding accountable_def admitted_def by auto

lemma keeps_quiet: "quiet m \<Longrightarrow> keeps (accountable v p repo obj t0) m tr"
  by (rule keeps_only, assumption) (rule accountable_quiet)

lemma keeps_try: "P tr (TGit d args) \<Longrightarrow> keeps P (tgit_try v d args) tr"
  unfolding tgit_try_def by (rule keeps_logged)

lemma changes_later: "changes_checked v wt t0 us n \<Longrightarrow> prefix us vs \<Longrightarrow> changes_checked v wt t0 vs n"
  unfolding changes_checked_def by (blast intro: answered_later)

lemma passed_later: "commands_passed v p repo i names t0 us \<Longrightarrow> prefix us vs \<Longrightarrow> commands_passed v p repo i names t0 vs"
  unfolding commands_passed_def by (blast intro: ran_later)

lemma commit_later: "commit_read v repo c t0 us r \<Longrightarrow> prefix us vs \<Longrightarrow> commit_read v repo c t0 vs r"
  unfolding commit_read_def by (blast intro: answered_later)

lemma refs_later: "refs_read v repo refs t0 us ids \<Longrightarrow> prefix us vs \<Longrightarrow> refs_read v repo refs t0 vs ids"
  unfolding refs_read_def by (blast intro: answered_later)

lemma vetted_later: "vetted v p repo t d t0 us c \<Longrightarrow> prefix us vs \<Longrightarrow> vetted v p repo t d t0 vs c"
  unfolding vetted_def by (blast intro: answered_later changes_later passed_later commit_later)

lemma claim_later: "claim_held v repo t d t0 us \<Longrightarrow> prefix us vs \<Longrightarrow> claim_held v repo t d t0 vs"
  unfolding claim_held_def by (blast intro: answered_later refs_later)

lemma tip_later: "tip_read v repo t t0 us tip \<Longrightarrow> prefix us vs \<Longrightarrow> tip_read v repo t t0 vs tip"
  unfolding tip_read_def by (blast intro: refs_later)

lemma ready_later: "ready v p repo t d t0 us c \<Longrightarrow> prefix us vs \<Longrightarrow> ready v p repo t d t0 vs c"
  unfolding ready_def by (blast intro: vetted_later claim_later)

lemma durable_later: "durable v p repo t d t0 us c \<Longrightarrow> prefix us vs \<Longrightarrow> durable v p repo t d t0 vs c"
  unfolding durable_def recovered_ok_def by (blast intro: answered_later commit_later tip_later ready_later)

subsection \<open>The parts of a transaction\<close>

lemma keeps_create_claim:
  assumes "admitted v p obj current t digest"
  shows "keeps (accountable v p repo obj t0) (create_claim v repo (tx_id t) d s) tr"
  unfolding create_claim_def Let_def
  by (intro keeps_bind keeps_quiet only_rules keeps_try accountableI [OF assms] accounted.claims)
    (auto intro!: keeps_quiet only_rules quiet_git simp: args_defs split: prod.split)

lemma keeps_plan_for:
  assumes "admitted v p obj current t digest"
  shows "keeps (accountable v p repo obj t0) (plan_for v p repo head current digest t) tr"
proof -
  have claim: "keeps (accountable v p repo obj t0) (if claim = None then create_claim v repo (tx_id t) digest (tp_state p) else ret ()) us"
    for claim :: "str option" and us
    using keeps_create_claim [OF assms] by (simp add: keeps_leaf)
  show ?thesis
    unfolding plan_for_def
    by (rule keeps_bind, (rule keeps_quiet, rule only_rules | rule claim))+ (rule keeps_leaf)
qed

lemma yields_checkout: "yields (ensure_tracked_clean v repo) (\<lambda>h t0 us. checkout_at v repo h t0 us)"
  using yields_clean unfolding checkout_at_def .

lemma yields_head: "yields (symbolic_head v repo) (\<lambda>b t0 us. case b of None \<Rightarrow> True | Some b \<Rightarrow> head_names v repo b t0 us)"
  by (rule yields_mono [OF yields_symbolic]) (auto simp: head_names_def split: option.splits)

lemma head_later: "head_names v repo b t0 us \<Longrightarrow> prefix us vs \<Longrightarrow> head_names v repo b t0 vs"
  unfolding head_names_def by (blast intro: answered_later)

lemma checkout_later: "checkout_at v repo c t0 us \<Longrightarrow> prefix us vs \<Longrightarrow> checkout_at v repo c t0 vs"
  unfolding checkout_at_def by (blast intro: answered_later)

lemma rollback_of: "pl_tx pl = t \<Longrightarrow>
  update_args (''llm-git-bridge rollback '' @ tx_id (pl_tx pl)) (branch_ref wrong) (pl_base pl) commit = rollback_args t wrong commit"
  by (simp add: rollback_args_def pl_base_def)

lemma keeps_restore:
  assumes "admitted v p obj current t digest" "pl_tx pl = t" "said v t0 tr repo (rollback_args t w c) out"
  shows "keeps (accountable v p repo obj t0) (restore_tree v repo pl wrong) tr"
  unfolding restore_tree_def
proof (rule known_step [OF keeps_quiet _ yields_any prefix_order.refl])
  fix now us assume "prefix tr us"
  then have "said v t0 us repo (rollback_args t w c) out" using assms(3) answered_later by blast
  then have "keeps (accountable v p repo obj t0) (tgit_try v repo [''reset'', ''--hard'', pl_base pl]) us"
    unfolding pl_base_def assms(2) by (intro keeps_try accountableI [OF assms(1)] accounted.restores)
  then show "keeps (accountable v p repo obj t0) (if now \<noteq> Some wrong then ret ()
      else bindC (tgit_try v repo [''reset'', ''--hard'', pl_base pl]) (\<lambda>(rc, _).
        need (rc = 0) (changed_during @ ''; manual inspection required''))) us"
    by (intro keeps_if keeps_leaf keeps_bind keeps_pair) (assumption | rule keeps_quiet, rule only_rules)+
qed (auto intro: only_rules logs_rules)

lemma keeps_roll_back:
  assumes adm: "admitted v p obj current t digest" and t: "pl_tx pl = t" and pre: "prefix t0 vs0" "prefix vs0 tr"
    and merged: "said v t0 vs0 repo (merge_args commit) out" and "commit \<noteq> []"
    and head: "head_names v repo wrong vs0 tr" and "wrong \<noteq> tx_branch t"
  shows "keeps (accountable v p repo obj t0) (roll_back v repo pl commit wrong) tr"
  unfolding roll_back_def rollback_of [OF t]
proof (rule known_step [OF keeps_quiet _ yields_rescue [OF yields_checkout] pre(2)])
  fix h us assume h: "\<And>vs. prefix us vs \<Longrightarrow> h = [] \<or> checkout_at v repo h vs0 vs" and us: "prefix tr us"
  have t0: "prefix t0 us" using pre us by (meson prefix_order.trans)
  have undo: "keeps (accountable v p repo obj t0) (tgit_try v repo (rollback_args t wrong commit)) us" if "h = commit"
    using that assms(6,8) h [of us] head_later [OF head us]
    by (intro keeps_try accountableI [OF adm] accounted.takes_back [OF merged]) auto
  have "keeps (accountable v p repo obj t0) (bindC (tgit_try v repo (rollback_args t wrong commit)) (\<lambda>(rc, _).
      if rc \<noteq> 0 then ret () else restore_tree v repo pl wrong)) us" if "h = commit"
  proof (rule known_step [OF undo [OF that] logs_rules(1) yields_try t0], intro keeps_pair keeps_if keeps_leaf)
    fix r ws rc out' assume "\<And>vs. prefix ws vs \<Longrightarrow> answered v t0 vs repo (rollback_args t wrong commit) r" "r = (rc, out')" "\<not> rc \<noteq> 0"
    then show "keeps (accountable v p repo obj t0) (restore_tree v repo pl wrong) ws"
      by (intro keeps_restore [OF adm t]) auto
  qed
  then show "keeps (accountable v p repo obj t0)
      (if h \<noteq> commit then ret ()
       else bindC (tgit_try v repo (rollback_args t wrong commit)) (\<lambda>(rc, _).
         if rc \<noteq> 0 then ret () else restore_tree v repo pl wrong)) us"
    by (auto intro: keeps_leaf)
qed (auto intro!: only_rules logs_rules)

lemma clean_head_ok: "clean_head out = Inr h \<Longrightarrow> h \<noteq> []"
  by (auto simp: clean_head_def oid_ok_def bindE_def split: sum.splits if_splits)

lemma keeps_settled_checkout:
  assumes adm: "admitted v p obj current t digest" and t: "pl_tx pl = t" and pre: "prefix t0 tr"
    and merged: "said v t0 tr repo (merge_args commit) out"
  shows "keeps (accountable v p repo obj t0) (settle_checkout v repo pl commit) tr"
  unfolding settle_checkout_def
proof (rule known_step [OF keeps_quiet _ yields_checkout prefix_order.refl], goal_cases)
  case (3 h us)
  have "h \<noteq> []" using 3(1) [OF prefix_order.refl] by (auto simp: checkout_at_def dest: clean_head_ok)
  show ?case
  proof (rule keeps_need, rule known_step [OF keeps_quiet _ yields_head 3(2)], goal_cases)
    case (3 now ws)
    have "keeps (accountable v p repo obj t0)
        (case now of None \<Rightarrow> ret () | Some wrong \<Rightarrow> if wrong = [] then ret () else roll_back v repo pl commit wrong) ws"
      if "now \<noteq> Some (tx_branch (pl_tx pl))"
    proof (cases now)
      case (Some wrong)
      then have "head_names v repo wrong tr ws" using 3(2) [OF prefix_order.refl] by simp
      moreover have "prefix tr ws" using 3(4) .
      ultimately show ?thesis
        using Some that t \<open>h \<noteq> []\<close> 3(1)
        by (auto intro!: keeps_leaf keeps_roll_back [OF adm t pre _ merged])
    qed (simp add: keeps_leaf)
    then show ?case by (auto intro!: keeps_leaf keeps_bind)
  qed (auto intro: only_rules logs_rules)
qed (auto intro: only_rules logs_rules)

lemma keeps_advance:
  assumes adm: "admitted v p obj current t digest" and t: "pl_tx pl = t" and pre: "prefix t0 tr"
    and ready: "ready v p repo t digest t0 tr commit" and "tp_current p"
  shows "keeps (accountable v p repo obj t0) (advance_checkout v repo pl commit) tr"
  unfolding advance_checkout_def
proof (rule known_step [OF keeps_quiet _ yields_checkout prefix_order.refl], goal_cases)
  case (3 h us)
  note h = 3
  show ?case
  proof (rule known_step [OF keeps_quiet _ yields_head h(2)], goal_cases)
    case (3 now ws)
    show ?case
    proof (rule keeps_need)
      assume now: "now = Some (tx_branch (pl_tx pl)) \<and> h = pl_base pl"
      have "checkout_at v repo (low (tx_base t)) tr ws" "head_names v repo (tx_branch t) tr ws"
        using now h(1) [OF 3(2)] 3(1) [OF prefix_order.refl] t by (auto simp: pl_base_def)
      then have merge: "keeps (accountable v p repo obj t0) (tgit_try v repo (merge_args commit)) ws"
        by (intro keeps_try accountableI [OF adm] accounted.fast_forwards [OF assms(5) ready])
      have "prefix t0 ws" using pre 3(3) by (rule prefix_order.trans)
      then show "keeps (accountable v p repo obj t0) (bindC (tgit_try v repo (merge_args commit)) (\<lambda>(rc, _).
          bindC (need (rc = 0) ''current branch changed before commit publication'') (\<lambda>_. settle_checkout v repo pl commit))) ws"
      proof (rule known_step [OF merge logs_rules(1) yields_try], intro keeps_pair keeps_need)
        fix r us' rc out' assume "\<And>vs. prefix us' vs \<Longrightarrow> answered v t0 vs repo (merge_args commit) r" "prefix t0 us'" "r = (rc, out')" "rc = 0"
        then show "keeps (accountable v p repo obj t0) (settle_checkout v repo pl commit) us'"
          by (intro keeps_settled_checkout [OF adm t]) auto
      qed
    qed
  qed (auto intro: only_rules logs_rules)
qed (auto intro: only_rules logs_rules)

lemma publish_of: "pl_tx pl = t \<Longrightarrow>
  update_args (''llm-git-bridge transaction '' @ tx_id (pl_tx pl)) (branch_ref (tx_branch (pl_tx pl))) commit old = publish_args t commit old"
  by (simp add: publish_args_def)

lemma keeps_publish_ref:
  assumes adm: "admitted v p obj current t digest" and t: "pl_tx pl = t"
    and ready: "ready v p repo t digest t0 tr commit"
    and tip: "tip_read v repo t t0 tr (if pl_existing pl then Some (low (tx_base t)) else None)"
  shows "keeps (accountable v p repo obj t0) (publish_ref v repo pl commit) tr"
proof -
  have "accounted v p repo t digest t0 tr (TGit repo (publish_args t commit (expected_old pl)))"
    using accounted.creates [OF ready] accounted.advances [OF ready] tip t
    by (cases "pl_existing pl") (simp_all add: expected_old_def pl_base_def)
  then have publish: "keeps (accountable v p repo obj t0) (tgit_try v repo (publish_args t commit (expected_old pl))) tr"
    by (intro keeps_try accountableI [OF adm])
  show ?thesis
    unfolding publish_ref_def publish_of [OF t]
    by (intro keeps_bind keeps_pair publish keeps_quiet only_rules)
qed

lemma keeps_publication:
  assumes "admitted v p obj current t digest" "pl_tx pl = t" "pl_direct pl = (current = Some (tx_branch t))" "prefix t0 tr"
    and "ready v p repo t digest t0 tr commit"
    and "tip_read v repo t t0 tr (if pl_existing pl then Some (low (tx_base t)) else None)"
  shows "keeps (accountable v p repo obj t0) (publish v repo pl commit) tr"
proof -
  have "pl_direct pl \<Longrightarrow> tp_current p" using assms(1,3) by (auto simp: admitted_def split: if_splits)
  then show ?thesis
    unfolding publish_def
    using keeps_advance [OF assms(1,2,4,5)] keeps_publish_ref [OF assms(1,2,5,6)] by simp
qed

lemma try_answer: "tgit_try v d args tr = (Inr r, us) \<Longrightarrow> answered v tr us d args r"
  using yieldsD [OF yields_try, of v d args tr r us tr us] by simp

lemma answered_from: "answered v t1 us d args r \<Longrightarrow> prefix t0 t1 \<Longrightarrow> answered v t0 us d args r"
  unfolding answered_def by (meson prefix_order.trans)

lemma logs_checkout: "logs (roll_back v repo pl c w)" "logs (settle_checkout v repo pl c)"
proof -
  show r: "logs (roll_back v repo pl c w)" for w
    unfolding roll_back_def restore_tree_def by (auto intro!: only_rules logs_rules split: prod.split)
  show "logs (settle_checkout v repo pl c)"
    unfolding settle_checkout_def by (auto intro!: only_rules logs_rules r split: option.split)
qed

lemma logs_publish: "logs (publish v repo pl commit)"
  unfolding publish_def advance_checkout_def publish_ref_def
  by (auto intro!: only_rules logs_rules logs_checkout split: prod.split)

lemma published_said:
  assumes "pl_tx pl = t"
  shows "yields (publish v repo pl commit)
    (\<lambda>_ t0 us. (\<exists>old out. said v t0 us repo (publish_args t commit old) out) \<or> (\<exists>out. said v t0 us repo (merge_args commit) out))"
  unfolding publish_def advance_checkout_def publish_ref_def publish_of [OF assms]
  apply (rule yields_mono)
   apply (rule yields_if yields_bind yields_pair yields_rules yields_any logs_rules logs_checkout only_rules only_flow)+
  apply (auto split: if_splits)
  done

lemma logs_build: "logs (build_commit v p repo pl h)"
  unfolding build_commit_def Let_def by (auto intro!: only_rules more_logs)

definition runnable :: "tenv \<Rightarrow> tx_policy \<Rightarrow> str \<Rightarrow> transaction \<Rightarrow> str \<Rightarrow> tx_event list \<Rightarrow> tx_event list \<Rightarrow> bool" where
  "runnable v p repo t digest t0 us =
     (claim_held v repo t digest t0 us \<and> (\<exists>tip\<in>{None, Some (low (tx_base t))}. tip_read v repo t t0 us tip)
      \<and> (\<exists>n. changes_checked v (worktree_path p t) t0 us (Suc n)))"

lemma runnable_later: "runnable v p repo t d t0 us \<Longrightarrow> prefix us vs \<Longrightarrow> runnable v p repo t d t0 vs"
  unfolding runnable_def by (blast intro: claim_later tip_later changes_later)

lemma configured_Inr: "lift (configured p name) tr = (Inr argv, us) \<Longrightarrow> configured p name = Inr argv \<and> us = tr"
  by (simp add: lift_Inr)

lemma keeps_one_command:
  assumes "admitted v p obj current t digest" "runnable v p repo t digest t0 tr" "tp_commit p" "name \<in> set (tx_run t)"
  shows "keeps (accountable v p repo obj t0) (one_command v p repo wt (tx_id t) c i name) tr"
  unfolding one_command_def
proof (rule keeps_bind [OF keeps_quiet], rule only_rules, drule configured_Inr, elim conjE, hypsubst)
  fix argv assume argv: "configured p name = Inr argv"
  from assms(2) obtain tip n where r: "claim_held v repo t digest t0 tr" "tip_read v repo t t0 tr tip"
      "tip \<in> {None, Some (low (tx_base t))}" "changes_checked v (worktree_path p t) t0 tr (Suc n)"
    unfolding runnable_def by blast
  show "keeps (accountable v p repo obj t0)
      (bindC (run_command v (command_argv (te_expanduser v) (te_resolve v) (parse_path repo)
          (parse_path (command_root (tp_state p) (tx_id t))) argv)) (\<lambda>r.
        bindC (write_text v (log_path (tp_state p) (tx_id t) i) (log_text name r)) (\<lambda>_.
        bindC (need (\<not> cm_cancelled r) (''configured command cancelled: '' @ name)) (\<lambda>_.
        bindC (need (\<not> cm_timed_out r) (''configured command timed out: '' @ name)) (\<lambda>_.
        bindC (need (cm_rc r = 0) (''configured command failed: '' @ name)) (\<lambda>_.
        bindC (assert_command_invariants v wt c) (\<lambda>_. ret (name, cm_rc r)))))))) tr"
    unfolding run_command_def
    by (rule keeps_bind, rule keeps_logged, rule accountableI [OF assms(1)], rule accounted.runs [OF assms(4) argv assms(3) r])
      (auto intro!: keeps_quiet only_rules quiet_invariants)
qed

lemma keeps_all_commands:
  assumes adm: "admitted v p obj current t digest" and "tp_commit p"
  shows "runnable v p repo t digest t0 tr \<Longrightarrow> set names \<subseteq> set (tx_run t) \<Longrightarrow>
    keeps (accountable v p repo obj t0) (all_commands v p repo wt (tx_id t) c i names) tr"
proof (induction names arbitrary: i tr)
  case (Cons name names)
  have one: "keeps (accountable v p repo obj t0) (one_command v p repo wt (tx_id t) c i name) tr"
    using Cons.prems by (intro keeps_one_command [OF adm _ assms(2)]) auto
  show ?case
    unfolding all_commands.simps
  proof (rule keeps_bind [OF one])
    fix r us assume "one_command v p repo wt (tx_id t) c i name tr = (Inr r, us)"
    then have "runnable v p repo t digest t0 us"
      using runnable_later [OF Cons.prems(1)] only_prefix [OF more_logs(1)] by blast
    then show "keeps (accountable v p repo obj t0)
        (bindC (all_commands v p repo wt (tx_id t) c (Suc i) names) (\<lambda>rs. ret (r # rs))) us"
      using Cons.prems(2) by (intro keeps_bind keeps_leaf Cons.IH) auto
  qed
qed (simp add: keeps_leaf)

lemma keeps_run_commands:
  assumes "admitted v p obj current t digest" "tp_commit p" "runnable v p repo t digest t0 tr"
  shows "keeps (accountable v p repo obj t0) (run_commands v p repo wt t h tree) tr"
  unfolding run_commands_def
proof (rule keeps_if [OF keeps_leaf(1)], rule known_step [OF keeps_quiet _ yields_any prefix_order.refl], goal_cases)
  case (3 c us)
  show ?case
  proof (rule known_step [OF keeps_quiet _ yields_any 3(4)], goal_cases)
    case (3 u ws)
    then show ?case
      using runnable_later [OF assms(3)] by (intro keeps_all_commands [OF assms(1,2)]) auto
  qed (auto intro: only_rules more_logs)
qed (auto intro: only_rules more_logs)

lemma keeps_build:
  assumes adm: "admitted v p obj current t digest" and "tp_commit p" and t: "pl_tx pl = t" and pre: "prefix t0 tr"
    and claim: "claim_held v repo t digest t0 tr" and tip: "tip_read v repo t t0 tr tip" "tip \<in> {None, Some (low (tx_base t))}"
  shows "keeps (accountable v p repo obj t0) (build_commit v p repo pl h) tr"
  unfolding build_commit_def Let_def t
proof (rule known_step [OF keeps_quiet _ yields_any prefix_order.refl], goal_cases)
  case (3 u us)
  have us: "prefix t0 us" using pre 3(3) by (rule prefix_order.trans)
  show ?case
  proof (rule known_step [OF keeps_quiet _ yields_changed us], goal_cases)
    case (3 n ws)
    note n = 3(1) and ws = \<open>prefix tr us\<close> 3(2)
    show ?case
    proof (rule keeps_need, rule known_step [OF keeps_quiet _ yields_any 3(2)], goal_cases)
      case (3 tree xs)
      obtain m where "n = Suc m" using 3(1) by (cases n) auto
      then have "runnable v p repo t digest t0 xs"
        using n [OF 3(3)] claim_later [OF claim] tip_later [OF tip(1)] tip(2) ws 3(3)
        unfolding runnable_def by (meson prefix_order.trans)
      then have "keeps (accountable v p repo obj t0) (run_commands v p repo (worktree_path p t) t h tree) xs"
        by (rule keeps_run_commands [OF adm assms(2)])
      then show ?case by (intro keeps_bind keeps_leaf keeps_quiet [OF quiet_steps(3)])
    qed (auto intro: only_rules more_logs)
  qed (auto intro: only_rules more_logs)
qed (auto intro: only_rules more_logs)

lemma keeps_durable:
  assumes "admitted v p obj current t digest" "prefix t0 tr" "plan_ok v p repo t digest current pl t0 tr"
  shows "keeps (accountable v p repo obj t0) (durable_commit v p repo pl h) tr"
proof (cases "pl_recovered pl")
  case None
  have t: "pl_tx pl = t" "pl_digest pl = digest" "pl_direct pl = (current = Some (tx_branch t))"
    using assms(3) by (simp_all add: plan_ok_def)
  have plan: "tp_commit p" "claim_held v repo t digest t0 us"
      "tip_read v repo t t0 us (if pl_existing pl then Some (low (tx_base t)) else None)" if "prefix tr us" for us
    using assms(3) None that by (auto simp: plan_ok_def intro: claim_later tip_later)
  have build: "keeps (accountable v p repo obj t0) (build_commit v p repo pl h) tr"
    using plan [OF prefix_order.refl] by (intro keeps_build [OF assms(1) _ t(1) assms(2)]) auto
  show ?thesis
    unfolding durable_commit_def None option.case
  proof (rule known_step [OF build logs_build yields_build assms(2)], rule keeps_pair)
    fix x us commit results
    assume x: "\<And>vs. prefix us vs \<Longrightarrow> vetted v p repo (pl_tx pl) (pl_digest pl) t0 vs (fst x)" "x = (commit, results)"
      and us: "prefix tr us" "prefix t0 us"
    have "ready v p repo t digest t0 us commit"
      using x(1) [OF prefix_order.refl] x(2) plan [OF us(1)] t by (simp add: ready_def)
    then show "keeps (accountable v p repo obj t0) (bindC (publish v repo pl commit) (\<lambda>_. ret (commit, results))) us"
      by (intro keeps_bind keeps_leaf keeps_publication [OF assms(1) t(1,3) us(2) _ plan(3) [OF us(1)]])
  qed
qed (simp add: durable_commit_def keeps_leaf)

lemma yields_durable:
  assumes "prefix t0 tr" "plan_ok v p repo t digest current pl t0 tr" "durable_commit v p repo pl h tr = (Inr (commit, results), us)"
    and "prefix tr us"
  shows "durable v p repo t digest t0 us commit"
proof (cases "pl_recovered pl")
  case None
  have t: "pl_tx pl = t" "pl_digest pl = digest" "tp_commit p" "claim_held v repo t digest t0 tr"
    using assms(2) None by (auto simp: plan_ok_def)
  from assms(3) None obtain ws where b: "build_commit v p repo pl h tr = (Inr (commit, results), ws)"
    and p: "publish v repo pl commit ws = (Inr (), us)"
    by (auto simp: durable_commit_def bindC_Inr)
  have ws: "prefix tr ws" "prefix ws us"
    using only_prefix [OF logs_build b] only_prefix [OF logs_publish p] by auto
  have "vetted v p repo t digest t0 us commit"
    using yieldsD [OF yields_build b assms(1) ws(2)] t by simp
  moreover have "(\<exists>old out. said v t0 us repo (publish_args t commit old) out) \<or> (\<exists>out. said v t0 us repo (merge_args commit) out)"
    using yieldsD [OF published_said [OF t(1)] p] assms(1) ws by (meson prefix_order.refl prefix_order.trans)
  ultimately show ?thesis
    using t claim_later [OF t(4) assms(4)] by (simp add: durable_def ready_def)
next
  case (Some c)
  then have "recovered_ok v repo t digest t0 tr commit" "us = tr"
    using assms(2,3) by (auto simp: plan_ok_def durable_commit_def)
  then show ?thesis by (simp add: durable_def)
qed

lemma keeps_push:
  assumes "admitted v p obj current t digest" "pl_tx pl = t" "durable v p repo t digest t0 tr commit"
  shows "keeps (accountable v p repo obj t0) (push_commit v p pl commit) tr"
proof -
  have "keeps (accountable v p repo obj t0) (tgit_try v (worktree_path p t) (push_args commit (tx_branch t))) tr"
    if "tx_push t" "tp_push p"
    using that by (intro keeps_try accountableI [OF assms(1)] accounted.pushes assms(3))
  then show ?thesis
    unfolding push_commit_def Let_def assms(2)
    by (auto intro!: keeps_leaf keeps_rescue keeps_bind keeps_pair)
qed

lemma logs_push: "logs (push_commit v p pl commit)"
  unfolding push_commit_def Let_def by (auto intro!: only_rules logs_rules split: prod.split)

lemma keeps_rescue_any: "keeps P m tr \<Longrightarrow> keeps P (rescue_any m x) tr"
  unfolding keeps_def rescue_any_def by (auto split: prod.split sum.split)

lemma keeps_snapshot:
  assumes "admitted v p obj current t digest" "pl_tx pl = t" "durable v p repo t digest t0 tr commit"
  shows "keeps (accountable v p repo obj t0) (committed_snapshot v p pl commit) tr"
proof (cases "tx_snapshot t")
  case True
  then have "keeps (accountable v p repo obj t0) (tgit_try v (worktree_path p t) [''reset'', ''--hard'', commit]) tr"
    by (intro keeps_try accountableI [OF assms(1)] accounted.prepares assms(3))
  then show ?thesis
    unfolding committed_snapshot_def Let_def assms(2)
    by (intro keeps_if keeps_leaf keeps_bind keeps_rescue_any keeps_pair) (assumption | rule keeps_quiet, rule only_rules)+
qed (simp add: committed_snapshot_def assms keeps_leaf)

lemma keeps_carry_out:
  assumes adm: "admitted v p obj current t digest" and pre: "prefix t0 tr" and plan: "plan_ok v p repo t digest current pl t0 tr"
  shows "keeps (accountable v p repo obj t0) (carry_out v p repo pl h) tr"
  unfolding carry_out_def
proof (rule keeps_bind [OF keeps_durable [OF adm pre plan]], rule keeps_pair)
  fix x us commit results assume x: "durable_commit v p repo pl h tr = (Inr x, us)" "x = (commit, results)"
  have t: "pl_tx pl = t" using plan by (simp add: plan_ok_def)
  have us: "prefix tr us" using keeps_prefix [OF keeps_durable [OF adm pre plan] x(1)] .
  then have d: "durable v p repo t digest t0 us commit"
    using yields_durable [OF pre plan] x by blast
  show "keeps (accountable v p repo obj t0)
      (bindC (push_commit v p pl commit) (\<lambda>pushed. bindC (committed_snapshot v p pl commit) (\<lambda>snap.
        ret (outcome_of pl commit results pushed snap)))) us"
  proof (rule keeps_bind [OF keeps_push [OF adm t d]])
    fix pushed ws assume "push_commit v p pl commit us = (Inr pushed, ws)"
    then have "prefix us ws" by (rule only_prefix [OF logs_push])
    then show "keeps (accountable v p repo obj t0) (bindC (committed_snapshot v p pl commit) (\<lambda>snap.
        ret (outcome_of pl commit results pushed snap))) ws"
      by (intro keeps_bind keeps_leaf keeps_snapshot [OF adm t] durable_later [OF d])
  qed
qed

lemma logs_plan_for: "logs (plan_for v p repo head current digest t)"
  unfolding plan_for_def
  by (auto intro!: only_rules logs_rules logs_create only_logs [OF quiet_plan(1)] only_logs [OF quiet_plan(2)])

lemma keeps_opened:
  assumes "admitted v p obj current t digest" "\<And>vs. prefix us vs \<Longrightarrow> plan_ok v p repo t digest current pl tr vs" "prefix tr us"
  shows "keeps (accountable v p repo obj tr)
    (bindC (open_worktree v p repo pl) (\<lambda>h. bindC (ask length) (\<lambda>n.
       and_then (carry_out v p repo pl h) (clean_up v p repo (pl_tx pl) n)))) us"
proof (rule known_step [OF keeps_quiet _ yields_any assms(3)], goal_cases)
  case (3 h ws)
  have "keeps (accountable v p repo obj tr) (carry_out v p repo pl h) ws"
    using 3(2) by (intro keeps_carry_out [OF assms(1) 3(3)] assms(2))
  then show ?case
    by (intro keeps_bind keeps_leaf keeps_and_then keeps_quiet [OF quiet_worktrees(4)]) (simp add: ask_def)
qed (auto intro: only_rules quiet_logs)

lemma keeps_planned:
  assumes "admitted v p obj current t digest" "prefix tr us"
  shows "keeps (accountable v p repo obj tr)
    (bindC (plan_for v p repo head current digest t) (\<lambda>pl. bindC (open_worktree v p repo pl) (\<lambda>h. bindC (ask length) (\<lambda>n.
       and_then (carry_out v p repo pl h) (clean_up v p repo (pl_tx pl) n))))) us"
  by (rule known_step [OF keeps_plan_for [OF assms(1)] logs_plan_for yields_plan assms(2)]) (rule keeps_opened [OF assms(1)])

lemma keeps_transaction: "keeps (accountable v p repo obj tr) (process_transaction v p repo obj) tr"
  unfolding process_transaction_def begin_transaction_def bindC_assoc
proof (rule known_step [OF keeps_quiet _ yields_any prefix_order.refl], goal_cases)
  case (3 head us)
  note us = 3(3)
  show ?case
  proof (rule known_step [OF keeps_quiet _ yields_if [OF yields_any yields_basic(1)] us], goal_cases)
    case (3 current ws)
    note current = 3(1) [OF prefix_order.refl]
    show ?case
    proof (rule known_step [OF keeps_quiet _ yields_basic(3) 3(3)], goal_cases)
      case (3 t xs)
      have "admitted v p obj current t (transaction_request_sha256 (te_sha v) (te_fr v) obj)"
        using current 3(1) [OF prefix_order.refl] by (simp add: admitted_def)
      then show ?case by (rule keeps_planned [OF _ 3(3)])
    qed (auto intro: only_rules)
  qed (auto intro: only_rules logs_rules)
qed (auto intro: only_rules logs_rules)


end
