(* ===== verification/TransactionRuns.thy ===== *)
theory TransactionRuns
  imports TransactionSafety
begin

text \<open>
  Runs of the whole transaction of the file bridge on concrete answers: a write to the checked-out branch with a
  command, a push and a snapshot; the recovery of a commit that an earlier run has published.
\<close>

subsection \<open>A request that was already published\<close>

text \<open>A command that runs, or a step that publishes.\<close>

definition repeats :: "tx_event \<Rightarrow> bool" where
  "repeats e =
     (case e of
        TRun _ \<Rightarrow> True
      | TGit _ args \<Rightarrow> subcommand args = ''merge'' \<or> (subcommand args = ''update-ref'' \<and> length args \<noteq> 5)
      | _ \<Rightarrow> False)"

abbreviation inert :: "(tx_event, 'a) prog \<Rightarrow> bool" where
  "inert \<equiv> only (\<lambda>e. \<not> repeats e)"

lemma quiet_inert: "quiet m \<Longrightarrow> inert m"
  by (erule only_mono) (auto simp: moves_def repeats_def movers_def split: tx_event.splits)

lemma inert_try: "subcommand args \<notin> {''merge'', ''update-ref''} \<or> length args = 5 \<and> subcommand args \<noteq> ''merge'' \<Longrightarrow> inert (tgit_try v d args)"
  unfolding tgit_try_def by (rule only_logged) (auto simp: repeats_def)

lemma inert_parts:
  "inert (begin_transaction v p repo obj)" "inert (open_worktree v p repo pl)" "inert (push_commit v p pl c)"
  "inert (committed_snapshot v p pl c)" "inert (clean_up v p repo t n)"
proof -
  have claim: "inert (create_claim v repo i d s)" for i d s
    unfolding create_claim_def Let_def
    by (auto intro!: only_rules quiet_inert [OF quiet_effects(1)] quiet_inert [OF quiet_git] quiet_inert [OF quiet_reads(5)] inert_try
        simp: args_defs split: prod.split)
  have plan: "inert (plan_for v p repo h cur d t)" for h cur d t
    unfolding plan_for_def
    by (auto intro!: only_rules claim quiet_inert [OF quiet_reads(3)] quiet_inert [OF quiet_reads(4)] quiet_inert [OF quiet_plan(1)]
        quiet_inert [OF quiet_plan(2)])
  show "inert (begin_transaction v p repo obj)"
    unfolding begin_transaction_def
    by (auto intro!: only_rules plan quiet_inert [OF quiet_reads(6)] quiet_inert [OF quiet_reads(7)])
  show "inert (push_commit v p pl c)"
    unfolding push_commit_def Let_def by (auto intro!: only_rules inert_try simp: args_defs split: prod.split)
  show "inert (committed_snapshot v p pl c)"
    unfolding committed_snapshot_def Let_def
    by (auto intro!: only_rules inert_try quiet_inert [OF quiet_snapshot] split: prod.split)
qed (rule quiet_inert, rule only_rules)+

lemma inert_adds: "inert m \<Longrightarrow> m tr = (r, us) \<Longrightarrow> adds (\<lambda>e. \<not> repeats e) tr us"
  unfolding only_def by (metis snd_conv)

lemma carry_out_recovered:
  assumes "carry_out v p repo pl h tr = (Inr oc, us)"
  shows "oc_recovered oc = (pl_recovered pl \<noteq> None)" "oc_recovered oc \<Longrightarrow> adds (\<lambda>e. \<not> repeats e) tr us"
proof -
  from assms obtain commit results ws where d: "durable_commit v p repo pl h tr = (Inr (commit, results), ws)"
    and r: "(bindC (push_commit v p pl commit) (\<lambda>pushed. bindC (committed_snapshot v p pl commit) (\<lambda>snap.
      ret (outcome_of pl commit results pushed snap)))) ws = (Inr oc, us)"
    by (auto simp: carry_out_def bindC_Inr)
  from r show rec: "oc_recovered oc = (pl_recovered pl \<noteq> None)" by (auto simp: bindC_Inr outcome_of_def)
  assume "oc_recovered oc"
  then have "ws = tr" using d rec by (auto simp: durable_commit_def)
  moreover have "inert (bindC (push_commit v p pl commit) (\<lambda>pushed. bindC (committed_snapshot v p pl commit) (\<lambda>snap.
      ret (outcome_of pl commit results pushed snap))))"
    by (intro only_rules inert_parts)
  ultimately show "adds (\<lambda>e. \<not> repeats e) tr us" using inert_adds r by blast
qed


subsection \<open>Runs\<close>

definition oid_of :: "char \<Rightarrow> str" where
  "oid_of c = replicate 40 c"

definition sample_digest :: str where
  "sample_digest = replicate 64 (CHR ''0'')"

definition sample_tx :: json where
  "sample_tx = JObj [(''protocol'', JInt 2), (''kind'', JStr ''transaction''), (''transaction_id'', JStr ''tx-1''),
     (''repo'', JStr ''demo''), (''base_sha'', JStr (oid_of (CHR ''a''))), (''branch'', JStr ''main''), (''patch'', JStr ''diff''),
     (''run'', JList [JStr ''test'']), (''push'', JBool True), (''publish_snapshot'', JBool True)]"

definition status_of :: "str \<Rightarrow> str \<Rightarrow> str" where
  "status_of oid rest_of = oid_mark @ oid @ [CHR 0x00] @ head_mark @ ''main'' @ [CHR 0x00] @ rest_of"

definition has_args :: "str list \<Rightarrow> tx_event list \<Rightarrow> bool" where
  "has_args cs tr = list_ex (\<lambda>e. case e of TGit _ args \<Rightarrow> subcommand args \<in> set cs | _ \<Rightarrow> False) tr"

text \<open>Git with the repository at \<open>/r\<close>, whose checked-out branch stands at \<open>tip\<close> until it is fast-forwarded.\<close>

definition sample_git :: "str \<Rightarrow> tx_event list \<Rightarrow> str \<Rightarrow> str list \<Rightarrow> (int \<times> str) option" where
  "sample_git tip tr dir args =
     (let c = subcommand args; here = (if has_args [''merge''] tr then oid_of (CHR ''c'') else tip) in
      Some (0, if c = ''status'' then (if dir = ''/r'' then status_of here [] else status_of (oid_of (CHR ''a'')) ''1 M. README'')
        else if c = ''symbolic-ref'' then ''main''
        else if c = ''for-each-ref'' then ''refs/heads/main'' @ [CHR 0x00] @ here @ [CHR 0x00]
        else if c = ''hash-object'' then oid_of (CHR ''d'')
        else if c = ''diff'' then '':100644 100644 1 2 M'' @ [CHR 0x00] @ ''README'' @ [CHR 0x00]
        else if c = ''write-tree'' then oid_of (CHR ''b'')
        else if c = ''rev-parse'' then oid_of (CHR ''a'') @ [lf] @ ''HEAD''
        else if c = ''commit-tree'' then oid_of (CHR ''c'')
        else if c = ''cat-file'' then ''tree '' @ oid_of (CHR ''b'') @ [lf] @ ''parent '' @ oid_of (CHR ''a'') @ [lf, lf]
               @ commit_text ''m'' ''tx-1'' sample_digest
        else []))"

definition sample_tenv :: "str \<Rightarrow> tenv" where
  "sample_tenv tip = \<lparr>te_git = sample_git tip, te_write = \<lambda>_ _. True,
     te_command = \<lambda>_ _. Some \<lparr>cm_rc = 0, cm_stdout = [], cm_stderr = [], cm_timed_out = False, cm_cancelled = False\<rparr>,
     te_exists = \<lambda>_ _. False, te_is_link = \<lambda>_ _. False, te_files = \<lambda>_ _. Unreadable ''x'', te_sha = \<lambda>_. sample_digest,
     te_fr = \<lambda>_. [], te_parse = \<lambda>_. None, te_expanduser = \<lambda>p. p, te_resolve = \<lambda>p. Some p\<rparr>"

definition sample_policy :: tx_policy where
  "sample_policy = \<lparr>tp_state = ''/s'', tp_prefix = ''ai/'', tp_commands = \<lambda>_. Some [''true''], tp_commit = True, tp_push = True,
     tp_current = True\<rparr>"

definition sample_run :: "str \<Rightarrow> (werror + tx_outcome) \<times> tx_event list" where
  "sample_run tip = process_transaction (sample_tenv tip) sample_policy ''/r'' sample_tx []"


text \<open>The fast-forward of the checkout, the push, and the snapshot that is asked for. The snapshot is taken in the
  detached worktree, which still stands at the base: it is found inconsistent, and yet it is in the outcome.\<close>

lemma direct_write:
  "case sample_run (oid_of (CHR ''a'')) of
     (Inl _, _) \<Rightarrow> False
   | (Inr oc, evs) \<Rightarrow>
       oc_commit oc = oid_of (CHR ''c'') \<and> oc_commands oc = [(''test'', 0)] \<and> oc_push oc = Some Pushed \<and> \<not> oc_recovered oc
       \<and> has_args [''merge''] evs
       \<and> oc_snapshot_error oc
       \<and> (case oc_snapshot oc of None \<Rightarrow> False | Some s \<Rightarrow> sn_head s = oid_of (CHR ''a'') \<and> sn_dirty s)"
  by code_simp

text \<open>The branch already stands at a commit of this very request.\<close>

lemma recovered_run:
  "case sample_run (oid_of (CHR ''c'')) of
     (Inl _, _) \<Rightarrow> False
   | (Inr oc, evs) \<Rightarrow>
       oc_recovered oc \<and> oc_commit oc = oid_of (CHR ''c'') \<and> oc_push oc = Some Pushed
       \<and> \<not> has_args [''commit-tree'', ''merge''] evs"
  by code_simp

end
