(* ===== verification/Registry.thy ===== *)
theory Registry
  imports Commits "HOL-Library.AList"
begin

text \<open>
  The registry of repositories of the file bridge (\<open>llm_git_bridge/core.py\<close>): discovery below the approved
  roots, and the two ways to carry the identifiers of a previous registry over to what is found now. Commands
  and push rights are bound to identifiers, so an identifier must not pass to another history. A registry is
  the list of its entries in the order of the dictionary; entries that are not objects are skipped by the code
  everywhere and left out here. The file system and Git during one scan are the environment: \<open>se_resolve\<close> is
  \<open>expanduser().resolve()\<close>, \<open>se_identity\<close> and \<open>se_is_repo\<close> are None where they raise.
\<close>

fun foldE :: "('a \<Rightarrow> 's \<Rightarrow> str + 's) \<Rightarrow> 'a list \<Rightarrow> 's \<Rightarrow> str + 's" where
  "foldE f [] s = Inr s"
| "foldE f (x # xs) s = bindE (f x s) (foldE f xs)"

subsection \<open>Discovery\<close>

text \<open>What \<open>os.walk\<close> sees: whether \<open>.git\<close> exists, and the directories it would enter (no symbolic links).\<close>

datatype dir_tree = Dir bool "(str \<times> dir_tree) list"

definition walk_skips :: "str \<Rightarrow> bool" where
  "walk_skips name = (name \<in> set skip_parts \<or> prefix ''.'' name)"

fun walk_markers :: "path \<Rightarrow> dir_tree \<Rightarrow> path list" where
  "walk_markers p (Dir has_git ds) =
     (if has_git then [p] else concat (map (\<lambda>(n, t). if walk_skips n then [] else walk_markers (child p n) t) ds))"

definition by_lowered_path :: "path list \<Rightarrow> path list" where
  "by_lowered_path ps = sort_key (\<lambda>p. low (path_str p)) (remdups ps)"

definition discover_repo_markers :: "(path \<Rightarrow> dir_tree option) \<Rightarrow> path list \<Rightarrow> path list" where
  "discover_repo_markers tree roots =
     by_lowered_path (concat (map (\<lambda>r. case tree r of None \<Rightarrow> [] | Some t \<Rightarrow> walk_markers r t) roots))"

fun walk_repos :: "(path \<Rightarrow> bool option) \<Rightarrow> path \<Rightarrow> dir_tree \<Rightarrow> path list option" where
  "walk_repos is_repo p (Dir has_git ds) =
     Option.bind (if has_git then is_repo p else Some False) (\<lambda>here.
       if here then Some [p]
       else map_option concat (those (map (\<lambda>(n, t). if walk_skips n then Some [] else walk_repos is_repo (child p n) t) ds)))"

text \<open>None when a call of Git raises, which stops the scan.\<close>

definition discover_repos :: "(path \<Rightarrow> bool option) \<Rightarrow> (path \<Rightarrow> dir_tree option) \<Rightarrow> path list \<Rightarrow> path list option" where
  "discover_repos is_repo tree roots =
     map_option (\<lambda>found. by_lowered_path (concat found)) (those (map (\<lambda>r. case tree r of None \<Rightarrow> Some []
       | Some t \<Rightarrow> Option.bind (is_repo r) (\<lambda>here. if here then Some [r] else walk_repos is_repo r t)) roots))"

subsection \<open>Entries\<close>

record reg_entry =
  en_name :: "str option"
  en_path :: "str option"
  en_marker :: "str option"
  en_identity :: "str option"
  en_status :: "repo_status option"

type_synonym registry = "(str \<times> reg_entry) list"

record scan_env =
  se_roots :: "path list"
  se_tree :: "path \<Rightarrow> dir_tree option"
  se_resolve :: "str \<Rightarrow> path"
  se_marker :: "path \<Rightarrow> str option"
  se_is_repo :: "path \<Rightarrow> bool option"
  se_identity :: "path \<Rightarrow> str option"
  se_state :: "path \<Rightarrow> str + repo_status"
  se_sha :: "str \<Rightarrow> str"

text \<open>\<open>repo_identity\<close> from the output of \<open>rev-list --max-parents=0 HEAD\<close>\<close>

definition repo_identity :: "(str \<Rightarrow> str) \<Rightarrow> str \<Rightarrow> str + str" where
  "repo_identity sha out =
     (let roots = sort (filter (\<lambda>l. l \<noteq> []) (map py_strip (line_pieces [] out))) in
      if roots = [] then Inl ''repository has no stable history identity'' else Inr (sha (join [lf] roots)))"

definition given :: "str option \<Rightarrow> str option" where
  "given x = (if x = Some [] then None else x)"

definition old_path :: "scan_env \<Rightarrow> reg_entry \<Rightarrow> path option" where
  "old_path v e = map_option (se_resolve v) (en_path e)"

definition available_roots :: "scan_env \<Rightarrow> path list" where
  "available_roots v = filter (\<lambda>r. se_tree v r \<noteq> None) (se_roots v)"

definition below_any :: "path list \<Rightarrow> path \<Rightarrow> bool" where
  "below_any roots p = list_ex (relative_to p) roots"

definition prior_by_path :: "scan_env \<Rightarrow> registry \<Rightarrow> path \<Rightarrow> (str \<times> reg_entry) option" where
  "prior_by_path v prev p = find (\<lambda>(i, e). old_path v e = Some p) (rev prev)"

definition prior_by_marker :: "registry \<Rightarrow> str \<Rightarrow> (str \<times> reg_entry) option" where
  "prior_by_marker prev m = find (\<lambda>(i, e). given (en_marker e) = Some m) prev"

definition prior_by_identity :: "registry \<Rightarrow> str \<Rightarrow> registry" where
  "prior_by_identity prev ident = filter (\<lambda>(i, e). given (en_identity e) = Some ident) prev"

subsection \<open>New identifiers\<close>

definition counted :: "str \<Rightarrow> nat \<Rightarrow> str" where
  "counted base n = base @ ''-'' @ nat_str n"

lemma counted_inj: "counted base m = counted base n \<longleftrightarrow> m = n"
proof
  assume "counted base m = counted base n"
  then have "digits_value 0 (nat_str m) = digits_value 0 (nat_str n)" by (simp add: counted_def)
  then show "m = n" by (simp add: digits_value_nat_str)
qed simp

lemma finite_counted: "finite {m. n \<le> m \<and> counted base m \<in> set taken}"
proof (rule finite_imageD)
  show "finite (counted base ` {m. n \<le> m \<and> counted base m \<in> set taken})"
    by (rule finite_subset [of _ "set taken"]) auto
qed (simp add: inj_on_def counted_inj)

function first_free :: "str list \<Rightarrow> str \<Rightarrow> nat \<Rightarrow> str" where
  "first_free taken base n = (if counted base n \<in> set taken then first_free taken base (Suc n) else counted base n)"
  by auto

termination
proof (relation "measure (\<lambda>(taken, base, n). card {m. n \<le> m \<and> counted base m \<in> set taken})")
  fix taken base n assume "counted base n \<in> set taken"
  then have "n \<in> {m. n \<le> m \<and> counted base m \<in> set taken}" "n \<notin> {m. Suc n \<le> m \<and> counted base m \<in> set taken}" by simp_all
  moreover have "{m. Suc n \<le> m \<and> counted base m \<in> set taken} \<subseteq> {m. n \<le> m \<and> counted base m \<in> set taken}" by auto
  ultimately have "{m. Suc n \<le> m \<and> counted base m \<in> set taken} \<subset> {m. n \<le> m \<and> counted base m \<in> set taken}" by blast
  then show "((taken, base, Suc n), (taken, base, n)) \<in> measure (\<lambda>(taken, base, n). card {m. n \<le> m \<and> counted base m \<in> set taken})"
    using psubset_card_mono [OF finite_counted] by simp
qed simp

declare first_free.simps [simp del]

definition new_id :: "(str \<Rightarrow> str) \<Rightarrow> str list \<Rightarrow> path \<Rightarrow> str" where
  "new_id sha taken p =
     (let base = slugify (path_name p);
          wanted = (if base \<in> set taken then base @ ''-'' @ path_fingerprint sha (path_str p) else base) in
      if wanted \<in> set taken then first_free taken wanted 2 else wanted)"

lemma first_free_fresh: "first_free taken base n \<notin> set taken"
  by (induction taken base n rule: first_free.induct) (subst first_free.simps, simp)

lemma new_id_fresh: "new_id sha taken p \<notin> set taken"
  by (simp add: new_id_def Let_def first_free_fresh)

subsection \<open>Claims on the identifiers of the previous registry\<close>

record claims =
  cl_matched :: "(path \<times> (str \<times> reg_entry \<times> str)) list"
  cl_ids :: "str list"
  cl_updated :: "str list"
  cl_known :: "(path \<times> str) list"
  cl_invalid :: "path list"
  cl_open :: "(path \<times> str option) list"

definition no_claims :: claims where
  "no_claims = \<lparr>cl_matched = [], cl_ids = [], cl_updated = [], cl_known = [], cl_invalid = [], cl_open = []\<rparr>"

definition claim :: "scan_env \<Rightarrow> path \<Rightarrow> str \<times> reg_entry \<Rightarrow> str \<Rightarrow> claims \<Rightarrow> claims" where
  "claim v p m ident st =
     (case m of (i, e) \<Rightarrow>
        if i \<in> set (cl_ids st) then st
        else st\<lparr>cl_ids := i # cl_ids st, cl_matched := (p, (i, e, ident)) # cl_matched st,
                cl_updated := (if old_path v e \<noteq> Some p \<or> en_name e \<noteq> Some (path_name p) then i # cl_updated st else cl_updated st)\<rparr>)"

definition read_identity :: "scan_env \<Rightarrow> path \<Rightarrow> claims \<Rightarrow> str + str \<times> claims" where
  "read_identity v p st =
     (case se_identity v p of
        None \<Rightarrow> Inl ''repository has no stable history identity''
      | Some ident \<Rightarrow> Inr (ident, st\<lparr>cl_known := (p, ident) # cl_known st\<rparr>))"

text \<open>The identity of a previous entry, read only when the entry has none.\<close>

definition entry_identity :: "scan_env \<Rightarrow> path \<Rightarrow> reg_entry \<Rightarrow> claims \<Rightarrow> str + str \<times> claims" where
  "entry_identity v p e st = (case given (en_identity e) of Some ident \<Rightarrow> Inr (ident, st) | None \<Rightarrow> read_identity v p st)"

definition path_match :: "scan_env \<Rightarrow> registry \<Rightarrow> path \<Rightarrow> str option \<Rightarrow> claims \<Rightarrow> str + ((str \<times> reg_entry) \<times> str) option \<times> claims" where
  "path_match v prev p marker st =
     (case prior_by_path v prev p of
        None \<Rightarrow> Inr (None, st)
      | Some (i, e) \<Rightarrow>
          if given (en_marker e) = None \<or> given (en_marker e) = marker
          then bindE (entry_identity v p e st) (\<lambda>(ident, st). Inr (Some ((i, e), ident), st))
          else bindE (read_identity v p st) (\<lambda>(ident, st).
                 Inr (if given (en_identity e) \<in> {None, Some ident} then Some ((i, e), ident) else None, st)))"

definition marker_match :: "scan_env \<Rightarrow> registry \<Rightarrow> path \<Rightarrow> str option \<Rightarrow> claims \<Rightarrow> str + ((str \<times> reg_entry) \<times> str) option \<times> claims" where
  "marker_match v prev p marker st =
     (case Option.bind (given marker) (prior_by_marker prev) of
        None \<Rightarrow> Inr (None, st)
      | Some (i, e) \<Rightarrow>
          if i \<in> set (cl_ids st) then Inr (None, st)
          else bindE (entry_identity v p e st) (\<lambda>(ident, st). Inr (Some ((i, e), ident), st)))"

definition settle_match :: "scan_env \<Rightarrow> path \<Rightarrow> str option \<Rightarrow> ((str \<times> reg_entry) \<times> str) option \<Rightarrow> claims \<Rightarrow> claims" where
  "settle_match v p marker m st =
     (case m of
        Some (old, ident) \<Rightarrow>
          if fst old \<in> set (cl_ids st) then st\<lparr>cl_open := cl_open st @ [(p, marker)]\<rparr> else claim v p old ident st
      | None \<Rightarrow> st\<lparr>cl_open := cl_open st @ [(p, marker)]\<rparr>)"

definition match_candidate :: "scan_env \<Rightarrow> registry \<Rightarrow> path \<Rightarrow> claims \<Rightarrow> str + claims" where
  "match_candidate v prev p st =
     (let marker = se_marker v p in
      bindE (path_match v prev p marker st) (\<lambda>(m, st).
      bindE (case m of Some x \<Rightarrow> Inr (Some x, st) | None \<Rightarrow> marker_match v prev p marker st) (\<lambda>(m, st).
      Inr (settle_match v p marker m st))))"

definition known_before :: "scan_env \<Rightarrow> registry \<Rightarrow> path \<Rightarrow> str option \<Rightarrow> bool" where
  "known_before v prev p marker =
     (prior_by_path v prev p \<noteq> None \<or> Option.bind (given marker) (prior_by_marker prev) \<noteq> None)"

text \<open>The verified identity of a candidate that nothing matched; None when it is not admissible yet.\<close>

definition verify_candidate :: "scan_env \<Rightarrow> registry \<Rightarrow> path \<Rightarrow> str option \<Rightarrow> claims \<Rightarrow> str + str option \<times> claims" where
  "verify_candidate v prev p marker st =
     (let give_up = (\<lambda>raised. if raised \<and> known_before v prev p marker then Inl ''repository has no stable history identity''
                              else Inr (None, st\<lparr>cl_invalid := p # cl_invalid st\<rparr>)) in
      case map_of (cl_known st) p of
        Some ident \<Rightarrow> Inr (Some ident, st)
      | None \<Rightarrow>
          (case se_is_repo v p of
             None \<Rightarrow> give_up True
           | Some False \<Rightarrow> give_up False
           | Some True \<Rightarrow>
               (case read_identity v p st of Inl _ \<Rightarrow> give_up True | Inr (ident, st) \<Rightarrow> Inr (Some ident, st))))"

definition movable :: "scan_env \<Rightarrow> registry \<Rightarrow> str \<Rightarrow> str list \<Rightarrow> registry" where
  "movable v prev ident taken =
     filter (\<lambda>(i, e). i \<notin> set taken
        \<and> (case old_path v e of None \<Rightarrow> False | Some q \<Rightarrow> below_any (available_roots v) q)) (prior_by_identity prev ident)"

definition match_moved :: "scan_env \<Rightarrow> registry \<Rightarrow> path \<times> str option \<Rightarrow> claims \<Rightarrow> str + claims" where
  "match_moved v prev c st =
     (case c of (p, marker) \<Rightarrow>
        if map_of (cl_matched st) p \<noteq> None then Inr st
        else bindE (verify_candidate v prev p marker st) (\<lambda>(r, st). Inr (
               case r of
                 None \<Rightarrow> st
               | Some ident \<Rightarrow> (case movable v prev ident (cl_ids st) of [old] \<Rightarrow> claim v p old ident st | _ \<Rightarrow> st))))"


subsection \<open>The registry after a scan of the members\<close>

definition is_left :: "claims \<Rightarrow> str \<times> reg_entry \<Rightarrow> bool" where
  "is_left st old = (fst old \<notin> set (cl_ids st))"

definition is_gone :: "scan_env \<Rightarrow> reg_entry \<Rightarrow> bool" where
  "is_gone v e = (case old_path v e of None \<Rightarrow> True | Some q \<Rightarrow> below_any (available_roots v) q)"

definition preserve :: "scan_env \<Rightarrow> reg_entry \<Rightarrow> reg_entry" where
  "preserve v e = e\<lparr>en_path := map_option path_str (old_path v e)\<rparr>"

definition carried :: "scan_env \<Rightarrow> path \<Rightarrow> str option \<Rightarrow> reg_entry \<Rightarrow> str \<Rightarrow> reg_entry" where
  "carried v p marker e ident =
     e\<lparr>en_name := Some (path_name p), en_path := Some (path_str p), en_marker := marker, en_identity := Some ident\<rparr>"

definition fresh_entry :: "path \<Rightarrow> str option \<Rightarrow> str \<Rightarrow> repo_status \<Rightarrow> reg_entry" where
  "fresh_entry p marker ident st =
     \<lparr>en_name = Some (path_name p), en_path = Some (path_str p), en_marker = marker, en_identity = Some ident, en_status = Some st\<rparr>"

fun carry_all :: "scan_env \<Rightarrow> claims \<Rightarrow> path list \<Rightarrow> registry \<Rightarrow> registry" where
  "carry_all v st [] entries = entries"
| "carry_all v st (p # ps) entries =
     carry_all v st ps
       (case map_of (cl_matched st) p of
          None \<Rightarrow> entries
        | Some (i, e, ident) \<Rightarrow> AList.update i (carried v p (se_marker v p) e ident) entries)"

text \<open>A candidate without an old identifier gets a new one.\<close>

definition admit_candidate :: "scan_env \<Rightarrow> str list \<Rightarrow> claims \<Rightarrow> path \<Rightarrow> registry \<Rightarrow> str + registry" where
  "admit_candidate v reserved st p entries =
     (if map_of (cl_matched st) p \<noteq> None \<or> p \<in> set (cl_invalid st) then Inr entries
      else
        let add = (\<lambda>ident. let i = new_id (se_sha v) (map fst entries @ reserved) p in
              bindE (se_state v p) (\<lambda>state. Inr (AList.update i (fresh_entry p (se_marker v p) ident state) entries))) in
        (case map_of (cl_known st) p of
           Some ident \<Rightarrow> add ident
         | None \<Rightarrow>
             (case se_is_repo v p of
                None \<Rightarrow> Inl ''command timed out''
              | Some False \<Rightarrow> Inr entries
              | Some True \<Rightarrow> (case se_identity v p of None \<Rightarrow> Inl ''repository has no stable history identity'' | Some ident \<Rightarrow> add ident))))"

record scanned =
  sc_entries :: registry
  sc_retired :: "str list"
  sc_added :: "str list"
  sc_removed :: "str list"
  sc_updated :: "str list"

definition claims_of_scan :: "scan_env \<Rightarrow> registry \<Rightarrow> path list \<Rightarrow> str + claims" where
  "claims_of_scan v prev cands =
     bindE (foldE (match_candidate v prev) cands no_claims) (\<lambda>st. foldE (match_moved v prev) (cl_open st) st)"

definition still_retired :: "registry \<Rightarrow> str list \<Rightarrow> str list" where
  "still_retired entries retired = sort (remdups (filter (\<lambda>i. i \<notin> set (map fst entries)) retired))"

definition reconcile_registry_membership :: "scan_env \<Rightarrow> registry \<Rightarrow> str list \<Rightarrow> str list \<Rightarrow> str + scanned" where
  "reconcile_registry_membership v prev retired reserved =
     (let cands = discover_repo_markers (se_tree v) (available_roots v) in
      bindE (claims_of_scan v prev cands) (\<lambda>st.
      let left = filter (is_left st) prev;
          removed = map fst (filter (\<lambda>(i, e). is_gone v e) left);
          kept = map (\<lambda>(i, e). (i, preserve v e)) (filter (\<lambda>(i, e). \<not> is_gone v e) left);
          carried = carry_all v st cands kept in
      bindE (foldE (admit_candidate v (retired @ removed @ reserved) st) cands carried) (\<lambda>entries.
      Inr \<lparr>sc_entries = entries, sc_retired = still_retired entries (retired @ removed),
            sc_added = sort (filter (\<lambda>i. i \<notin> set (map fst carried)) (map fst entries)), sc_removed = sort removed,
            sc_updated = sort (cl_updated st)\<rparr>)))"

subsection \<open>The registry after a full scan\<close>

text \<open>Here the identity of every repository is read. The records are the repositories with a history.\<close>

definition scan_record :: "scan_env \<Rightarrow> registry \<Rightarrow> path \<Rightarrow> (path \<times> str) list \<Rightarrow> str + (path \<times> str) list" where
  "scan_record v prev p rs =
     (case se_identity v p of
        Some ident \<Rightarrow> Inr (rs @ [(p, ident)])
      | None \<Rightarrow> if known_before v prev p (se_marker v p) then Inl ''repository has no stable history identity'' else Inr rs)"

definition same_history :: "str \<Rightarrow> str \<times> reg_entry \<Rightarrow> bool" where
  "same_history ident old = (given (en_identity (snd old)) \<in> {None, Some ident})"

definition match_record :: "scan_env \<Rightarrow> registry \<Rightarrow> path \<times> str \<Rightarrow> claims \<Rightarrow> claims" where
  "match_record v prev r st =
     (case r of (p, ident) \<Rightarrow>
        let there = (case prior_by_path v prev p of Some old \<Rightarrow> if same_history ident old then Some old else None | None \<Rightarrow> None);
            old = (case there of
                     Some x \<Rightarrow> Some x
                   | None \<Rightarrow>
                       (case Option.bind (given (se_marker v p)) (prior_by_marker prev) of
                          Some m \<Rightarrow> if fst m \<notin> set (cl_ids st) \<and> same_history ident m then Some m else None
                        | None \<Rightarrow> None)) in
        (case old of None \<Rightarrow> st | Some x \<Rightarrow> claim v p x ident st))"

definition match_moved_record :: "scan_env \<Rightarrow> registry \<Rightarrow> path \<times> str \<Rightarrow> claims \<Rightarrow> claims" where
  "match_moved_record v prev r st =
     (case r of (p, ident) \<Rightarrow>
        if map_of (cl_matched st) p \<noteq> None then st
        else (case movable v prev ident (cl_ids st) of [old] \<Rightarrow> claim v p old ident st | _ \<Rightarrow> st))"

definition keeps_offline :: "scan_env \<Rightarrow> reg_entry \<Rightarrow> bool" where
  "keeps_offline v e =
     (case old_path v e of None \<Rightarrow> False | Some q \<Rightarrow> below_any (se_roots v) q \<and> \<not> below_any (available_roots v) q)"

definition enter_record :: "scan_env \<Rightarrow> str list \<Rightarrow> claims \<Rightarrow> path \<times> str \<Rightarrow> registry \<Rightarrow> str + registry" where
  "enter_record v taken st r entries =
     (case r of (p, ident) \<Rightarrow>
        let i = (case map_of (cl_matched st) p of Some (i, _) \<Rightarrow> i | None \<Rightarrow> new_id (se_sha v) (map fst entries @ taken) p) in
        bindE (se_state v p) (\<lambda>state. Inr (AList.update i (fresh_entry p (se_marker v p) ident state) entries)))"

definition build_registry :: "scan_env \<Rightarrow> registry \<Rightarrow> str list \<Rightarrow> str list \<Rightarrow> str + registry \<times> str list" where
  "build_registry v prev retired reserved =
     (case discover_repos (se_is_repo v) (se_tree v) (available_roots v) of
        None \<Rightarrow> Inl ''command timed out''
      | Some repos \<Rightarrow>
      bindE (foldE (scan_record v prev) repos []) (\<lambda>records.
      let st = fold (match_moved_record v prev) records (fold (match_record v prev) records no_claims);
          left = filter (is_left st) prev;
          kept = map (\<lambda>(i, e). (i, preserve v e)) (filter (\<lambda>(i, e). keeps_offline v e) left);
          retired = retired @ map fst (filter (\<lambda>(i, e). \<not> keeps_offline v e) left) in
      bindE (foldE (enter_record v (cl_ids st @ retired @ reserved) st) records kept) (\<lambda>entries.
      Inr (entries, still_retired entries retired))))"

subsection \<open>Capabilities and references\<close>

definition capability_names :: "str list" where
  "capability_names = [''read'', ''edit'', ''push'', ''write_current_branch'', ''self_update'']"

definition capabilities_ok :: "json option \<Rightarrow> bool" where
  "capabilities_ok c =
     (case c of
        Some (JObj kvs) \<Rightarrow>
          list_all (\<lambda>k. k \<in> set (map fst kvs)) [''read'', ''edit'', ''push'']
          \<and> list_all (\<lambda>(k, x). k \<in> set capability_names \<and> (case x of JBool _ \<Rightarrow> True | _ \<Rightarrow> False)) kvs
      | _ \<Rightarrow> False)"

definition public_entry :: "(str \<Rightarrow> json option) \<Rightarrow> str \<times> reg_entry \<Rightarrow> str + str \<times> str option \<times> json \<times> repo_status option" where
  "public_entry capabilities e =
     (if capabilities_ok (capabilities (fst e))
      then Inr (fst e, en_name (snd e), the (capabilities (fst e)), en_status (snd e))
      else Inl (''missing or invalid public capabilities for repository: '' @ fst e))"

definition public_registry :: "registry \<Rightarrow> (str \<Rightarrow> json option) \<Rightarrow> str + (str \<times> str option \<times> json \<times> repo_status option) list" where
  "public_registry entries capabilities =
     foldE (\<lambda>e out. bindE (public_entry capabilities e) (\<lambda>x. Inr (out @ [x]))) (sort_key fst entries) []"

datatype lookup_error = Unknown str | Ambiguous str

definition resolve_repo :: "registry \<Rightarrow> str \<Rightarrow> lookup_error + str \<times> reg_entry" where
  "resolve_repo entries ref =
     (case map_of entries ref of
        Some e \<Rightarrow> Inr (ref, e)
      | None \<Rightarrow>
          (case filter (\<lambda>(i, e). en_name e = Some ref) entries of
             [x] \<Rightarrow> Inr x
           | [] \<Rightarrow> Inl (Unknown (''unknown repository: '' @ ref))
           | _ \<Rightarrow> Inl (Ambiguous (''repository name is ambiguous: '' @ ref))))"

subsection \<open>Identifiers stay with their history\<close>

definition ids_sound :: "registry \<Rightarrow> str list \<Rightarrow> str list \<Rightarrow> registry \<Rightarrow> str list \<Rightarrow> bool" where
  "ids_sound prev retired reserved entries retired' =
     (distinct (map fst entries)
      \<and> list_all (\<lambda>(i, e). case map_of prev i of
            Some old \<Rightarrow> given (en_identity old) = None \<or> en_identity e = en_identity old
          | None \<Rightarrow> i \<notin> set retired \<and> i \<notin> set reserved) entries
      \<and> list_all (\<lambda>i. i \<in> set (map fst entries) \<or> i \<in> set retired') (map fst prev @ retired)
      \<and> list_all (\<lambda>i. i \<notin> set (map fst entries)) retired')"

lemma foldE_prefix:
  assumes step: "\<And>ys x zs s s'. xs = ys @ x # zs \<Longrightarrow> P ys s \<Longrightarrow> f x s = Inr s' \<Longrightarrow> P (ys @ [x]) s'"
    and "P [] s" "foldE f xs s = Inr s'"
  shows "P xs s'"
proof -
  have "xs = ys @ zs \<Longrightarrow> P ys s \<Longrightarrow> foldE f zs s = Inr s' \<Longrightarrow> P xs s'" for ys zs s
  proof (induction zs arbitrary: ys s)
    case (Cons z zs)
    from Cons.prems(3) obtain u where u: "f z s = Inr u" "foldE f zs u = Inr s'"
      by (simp add: bindE_eq_Inr) blast
    then have "P (ys @ [z]) u" using step Cons.prems(1,2) by blast
    then show ?case using Cons.IH [of "ys @ [z]" u] Cons.prems(1) u(2) by simp
  qed simp
  from this [of "[]" xs s] show ?thesis using assms(2,3) by simp
qed

lemma foldE_inv:
  assumes "\<And>x s s'. x \<in> set xs \<Longrightarrow> P s \<Longrightarrow> f x s = Inr s' \<Longrightarrow> P s'" "P s" "foldE f xs s = Inr s'"
  shows "P s'"
  by (rule foldE_prefix [where P = "\<lambda>_. P" and f = f and s = s and xs = xs]) (use assms in auto)

text \<open>Every claim is one candidate with one identifier, whose history it has.\<close>

definition claims_ok :: "registry \<Rightarrow> path set \<Rightarrow> claims \<Rightarrow> bool" where
  "claims_ok prev ps st =
     (cl_ids st = map (\<lambda>(p, i, e, ident). i) (cl_matched st) \<and> distinct (cl_ids st) \<and> distinct (map fst (cl_matched st))
      \<and> fst ` set (cl_matched st) \<subseteq> ps
      \<and> (\<forall>(p, i, e, ident)\<in>set (cl_matched st). (i, e) \<in> set prev \<and> same_history ident (i, e)))"

definition same_claims :: "claims \<Rightarrow> claims \<Rightarrow> bool" where
  "same_claims st st' = (cl_matched st' = cl_matched st \<and> cl_ids st' = cl_ids st \<and> cl_open st' = cl_open st)"

definition fits :: "registry \<Rightarrow> ((str \<times> reg_entry) \<times> str) option \<Rightarrow> bool" where
  "fits prev m = (case m of None \<Rightarrow> True | Some (old, ident) \<Rightarrow> old \<in> set prev \<and> same_history ident old)"

lemma claims_ok_none: "claims_ok prev ps no_claims"
  by (simp add: claims_ok_def no_claims_def)

lemma claims_ok_cong:
  "cl_matched st' = cl_matched st \<Longrightarrow> cl_ids st' = cl_ids st \<Longrightarrow> claims_ok prev ps st' = claims_ok prev ps st"
  unfolding claims_ok_def by (simp only:)

lemma claims_ok_same: "same_claims st st' \<Longrightarrow> claims_ok prev ps st' = claims_ok prev ps st"
  unfolding same_claims_def by (intro claims_ok_cong) simp_all

lemma claims_ok_mono: "claims_ok prev ps st \<Longrightarrow> ps \<subseteq> qs \<Longrightarrow> claims_ok prev qs st"
  by (auto simp: claims_ok_def)

lemma same_claims_refl [simp]: "same_claims st st"
  by (simp add: same_claims_def)

lemma same_claims_trans: "same_claims st su \<Longrightarrow> same_claims su sv \<Longrightarrow> same_claims st sv"
  by (simp add: same_claims_def)

lemma claim_ok:
  assumes "claims_ok prev ps st" "p \<in> ps" "p \<notin> fst ` set (cl_matched st)" "old \<in> set prev" "same_history ident old"
  shows "claims_ok prev ps (claim v p old ident st)"
  using assms by (cases old) (auto simp: claims_ok_def claim_def)

lemma read_identity_Inr: "read_identity v p st = Inr (ident, st') \<Longrightarrow> same_claims st st'"
  by (auto simp: read_identity_def same_claims_def split: option.splits)

lemma entry_identity_Inr:
  "entry_identity v p e st = Inr (ident, st') \<Longrightarrow> same_history ident (i, e) \<and> same_claims st st'"
  by (auto simp: entry_identity_def same_history_def split: option.splits dest: read_identity_Inr)

lemma prior_path_in: "prior_by_path v prev p = Some old \<Longrightarrow> old \<in> set prev"
  unfolding prior_by_path_def find_Some_iff by (metis length_rev nth_mem set_rev)

lemma prior_marker_in: "prior_by_marker prev m = Some old \<Longrightarrow> old \<in> set prev"
  unfolding prior_by_marker_def find_Some_iff by (metis nth_mem)

lemma path_match_Inr:
  assumes "path_match v prev p marker st = Inr (m, st')"
  shows "same_claims st st' \<and> fits prev m"
proof (cases "prior_by_path v prev p")
  case (Some old)
  obtain i e where old: "old = (i, e)" by (cases old)
  have "(i, e) \<in> set prev" using prior_path_in Some old by blast
  then show ?thesis
    using assms Some old entry_identity_Inr [of v p e st]
    by (auto simp: path_match_def bindE_eq_Inr fits_def same_history_def dest: read_identity_Inr split: if_splits)
qed (use assms in \<open>simp add: path_match_def fits_def\<close>)

lemma marker_match_Inr:
  assumes "marker_match v prev p marker st = Inr (m, st')"
  shows "same_claims st st' \<and> fits prev m"
proof (cases "Option.bind (given marker) (prior_by_marker prev)")
  case (Some old)
  obtain i e where old: "old = (i, e)" by (cases old)
  have "(i, e) \<in> set prev" using Some old prior_marker_in by (cases "given marker") auto
  then show ?thesis
    using assms Some old entry_identity_Inr [of v p e st]
    by (auto simp: marker_match_def bindE_eq_Inr fits_def split: if_splits)
qed (use assms in \<open>simp add: marker_match_def fits_def\<close>)

lemma movable_in: "old \<in> set (movable v prev ident taken) \<Longrightarrow> old \<in> set prev \<and> same_history ident old"
  by (auto simp: movable_def prior_by_identity_def same_history_def)

lemma match_candidate_Inr:
  assumes "match_candidate v prev p st = Inr st'"
  obtains m su where "same_claims st su" "fits prev m" "st' = settle_match v p (se_marker v p) m su"
proof -
  let ?k = "se_marker v p"
  from assms obtain x y where x: "path_match v prev p ?k st = Inr x"
    and y: "(case fst x of Some z \<Rightarrow> Inr (Some z, snd x) | None \<Rightarrow> marker_match v prev p ?k (snd x)) = Inr y"
    and st': "st' = settle_match v p ?k (fst y) (snd y)"
    unfolding match_candidate_def Let_def by (simp only: bindE_eq_Inr split_beta sum.inject) blast
  have m: "same_claims st (snd x) \<and> fits prev (fst x)"
    using path_match_Inr [of v prev p ?k st "fst x" "snd x"] x by simp
  have yy: "same_claims (snd x) (snd y) \<and> fits prev (fst y)"
  proof (cases "fst x")
    case None
    then show ?thesis using marker_match_Inr [of v prev p ?k "snd x" "fst y" "snd y"] y by simp
  next
    case (Some z)
    then have "y = (Some z, snd x)" using y by simp
    then show ?thesis using m Some by simp
  qed
  show ?thesis
  proof (rule that)
    show "same_claims st (snd y)" using m yy by (auto simp: same_claims_def)
  qed (use yy st' in auto)
qed

lemma match_candidate_ok:
  assumes "claims_ok prev ps st" "p \<notin> ps" "match_candidate v prev p st = Inr st'"
  shows "claims_ok prev (insert p ps) st'"
proof -
  from assms(3) obtain m su where su: "same_claims st su" "fits prev m" and st': "st' = settle_match v p (se_marker v p) m su"
    by (rule match_candidate_Inr)
  have ok: "claims_ok prev (insert p ps) su" using assms(1) su(1) claims_ok_same claims_ok_mono by blast
  have new: "p \<notin> fst ` set (cl_matched su)" using assms(1,2) su(1) by (auto simp: claims_ok_def same_claims_def)
  have opened: "claims_ok prev (insert p ps) (su\<lparr>cl_open := x\<rparr>)" for x using ok by (subst claims_ok_cong) simp_all
  show ?thesis
  proof (cases m)
    case (Some om)
    obtain old ident where om: "om = (old, ident)" by (cases om)
    have "claims_ok prev (insert p ps) (claim v p old ident su)"
      using su(2) Some om by (intro claim_ok ok new) (simp_all add: fits_def)
    then show ?thesis using Some om opened by (simp add: st' settle_match_def)
  qed (simp add: st' settle_match_def opened)
qed

lemma open_are_candidates:
  assumes "match_candidate v prev p st = Inr st'" "fst ` set (cl_open st) \<subseteq> ps"
  shows "fst ` set (cl_open st') \<subseteq> insert p ps"
proof -
  from assms(1) obtain m su where "same_claims st su" and st': "st' = settle_match v p (se_marker v p) m su"
    by (rule match_candidate_Inr)
  then have "cl_open su = cl_open st" by (simp add: same_claims_def)
  moreover have "cl_open (claim v p old ident su) = cl_open su" for old ident by (cases old) (simp add: claim_def)
  ultimately show ?thesis using assms(2) by (cases m) (auto simp: st' settle_match_def split: prod.splits)
qed

lemma verify_candidate_Inr:
  "verify_candidate v prev p marker st = Inr (r, st') \<Longrightarrow> cl_matched st' = cl_matched st \<and> cl_ids st' = cl_ids st"
  unfolding verify_candidate_def Let_def
  by (auto simp: same_claims_def split: option.splits if_splits bool.splits sum.splits dest!: read_identity_Inr)

lemma match_moved_ok:
  assumes "claims_ok prev ps st" "fst c \<in> ps" "match_moved v prev c st = Inr st'"
  shows "claims_ok prev ps st'"
proof (cases "map_of (cl_matched st) (fst c)")
  case None
  obtain p marker where c: "c = (p, marker)" by (cases c)
  from assms(3) None c obtain r s where r: "verify_candidate v prev p marker st = Inr (r, s)"
    and st': "st' = (case r of None \<Rightarrow> s
      | Some ident \<Rightarrow> (case movable v prev ident (cl_ids s) of [old] \<Rightarrow> claim v p old ident s | _ \<Rightarrow> s))"
    by (auto simp: match_moved_def bindE_eq_Inr)
  have s: "cl_matched s = cl_matched st" "cl_ids s = cl_ids st" using verify_candidate_Inr [OF r] by auto
  have ok: "claims_ok prev ps s" using assms(1) claims_ok_cong [OF s] by simp
  have new: "p \<in> ps" "p \<notin> fst ` set (cl_matched s)"
    using assms(2) c s None by (simp_all add: map_of_eq_None_iff)
  have "claims_ok prev ps (claim v p old ident s)" if "movable v prev ident (cl_ids s) = [old]" for ident old
    using movable_in [of old v prev ident "cl_ids s"] that by (intro claim_ok ok new) simp_all
  then show ?thesis unfolding st' using ok by (auto split: option.splits list.splits)
next
  case (Some x)
  then show ?thesis using assms by (cases c; cases x) (simp add: match_moved_def)
qed

lemma claims_of_scan_ok:
  assumes "distinct cands" "claims_of_scan v prev cands = Inr st"
  shows "claims_ok prev (set cands) st"
proof -
  from assms(2) obtain s where s: "foldE (match_candidate v prev) cands no_claims = Inr s"
    and st: "foldE (match_moved v prev) (cl_open s) s = Inr st"
    by (auto simp: claims_of_scan_def bindE_eq_Inr)
  have s_ok: "claims_ok prev (set cands) s \<and> fst ` set (cl_open s) \<subseteq> set cands"
  proof (rule foldE_prefix [OF _ _ s, where P = "\<lambda>ys s. claims_ok prev (set ys) s \<and> fst ` set (cl_open s) \<subseteq> set ys"])
    fix ys x zs u u' assume x: "cands = ys @ x # zs" "claims_ok prev (set ys) u \<and> fst ` set (cl_open u) \<subseteq> set ys"
      "match_candidate v prev x u = Inr u'"
    have "x \<notin> set ys" using assms(1) x(1) by simp
    then show "claims_ok prev (set (ys @ [x])) u' \<and> fst ` set (cl_open u') \<subseteq> set (ys @ [x])"
      using match_candidate_ok [OF _ _ x(3)] open_are_candidates [OF x(3)] x(2) by simp
  next
    show "claims_ok prev (set []) no_claims \<and> fst ` set (cl_open no_claims) \<subseteq> set []"
      by (simp add: claims_ok_none) (simp add: no_claims_def)
  qed
  show ?thesis
  proof (rule foldE_inv [OF _ _ st])
    fix c u u' assume "c \<in> set (cl_open s)" "claims_ok prev (set cands) u" "match_moved v prev c u = Inr u'"
    then show "claims_ok prev (set cands) u'" using s_ok match_moved_ok by blast
  qed (use s_ok in blast)
qed

subsection \<open>Entries\<close>

lemma update_members: "(k', v') \<in> set (AList.update k v al) \<Longrightarrow> (k', v') = (k, v) \<or> (k', v') \<in> set al"
  by (induction al) (auto split: if_splits)

lemma update_keys: "fst ` set (AList.update k v al) = insert k (fst ` set al)"
  by (induction al) auto

lemma carry_all_distinct: "distinct (map fst entries) \<Longrightarrow> distinct (map fst (carry_all v st ps entries))"
  by (induction ps arbitrary: entries) (auto simp: distinct_update split: option.split)

lemma carry_all_keys:
  "fst ` set (carry_all v st ps entries)
     = fst ` set entries \<union> {i. \<exists>p\<in>set ps. \<exists>e ident. map_of (cl_matched st) p = Some (i, e, ident)}"
proof (induction ps arbitrary: entries)
  case (Cons p ps)
  show ?case
  proof (cases "map_of (cl_matched st) p")
    case (Some x)
    obtain i e ident where x: "x = (i, e, ident)" by (cases x)
    have "fst ` set (carry_all v st (p # ps) entries)
        = insert i (fst ` set entries) \<union> {i. \<exists>p\<in>set ps. \<exists>e ident. map_of (cl_matched st) p = Some (i, e, ident)}"
      unfolding carry_all.simps Some x option.case prod.case Cons.IH update_keys ..
    then show ?thesis using Some x by auto
  qed (auto simp: Cons.IH)
qed simp

lemma carry_all_members:
  "(i, e') \<in> set (carry_all v st ps entries) \<Longrightarrow> (i, e') \<in> set entries
     \<or> (\<exists>p e ident. map_of (cl_matched st) p = Some (i, e, ident) \<and> e' = carried v p (se_marker v p) e ident)"
proof (induction ps arbitrary: entries)
  case (Cons p ps)
  show ?case
    using Cons.prems Cons.IH by (cases "map_of (cl_matched st) p") (auto split: prod.splits dest!: update_members Cons.IH)
qed simp

lemma matched_ids:
  assumes "claims_ok prev (set ps) st"
  shows "{i. \<exists>p\<in>set ps. \<exists>e ident. map_of (cl_matched st) p = Some (i, e, ident)} = set (cl_ids st)"
proof -
  have d: "distinct (map fst (cl_matched st))" and c: "cl_ids st = map (\<lambda>(p, i, e, ident). i) (cl_matched st)"
    and s: "fst ` set (cl_matched st) \<subseteq> set ps" using assms by (auto simp: claims_ok_def)
  have "i \<in> set (cl_ids st) \<longleftrightarrow> (\<exists>p e ident. (p, i, e, ident) \<in> set (cl_matched st))" for i
    unfolding c by force
  moreover have "(p, x) \<in> set (cl_matched st) \<longleftrightarrow> p \<in> set ps \<and> map_of (cl_matched st) p = Some x" for p x
    using d s by (auto simp: map_of_eq_Some_iff)
  ultimately show ?thesis by blast
qed

text \<open>The entries that a scan may hold: their identifiers are distinct, and an identifier of the previous registry
  stands for the same history.\<close>

definition entry_ok :: "registry \<Rightarrow> str list \<Rightarrow> str list \<Rightarrow> str \<times> reg_entry \<Rightarrow> bool" where
  "entry_ok prev retired reserved x =
     (case map_of prev (fst x) of
        Some old \<Rightarrow> given (en_identity old) = None \<or> en_identity (snd x) = en_identity old
      | None \<Rightarrow> fst x \<notin> set retired \<and> fst x \<notin> set reserved)"

definition entries_ok :: "registry \<Rightarrow> str list \<Rightarrow> str list \<Rightarrow> str set \<Rightarrow> registry \<Rightarrow> bool" where
  "entries_ok prev retired reserved held entries =
     (distinct (map fst entries) \<and> held \<subseteq> fst ` set entries \<and> (\<forall>x\<in>set entries. entry_ok prev retired reserved x))"

lemma entries_ok_update:
  assumes "entries_ok prev retired reserved held entries" "entry_ok prev retired reserved (i, e)"
  shows "entries_ok prev retired reserved held (AList.update i e entries)"
  using assms unfolding entries_ok_def
  by (auto simp: distinct_update update_keys dest!: update_members)

lemma entry_ok_same:
  assumes "distinct (map fst prev)" "(i, old) \<in> set prev" "same_history ident (i, old)" "en_identity e = Some ident"
  shows "entry_ok prev retired reserved (i, e)"
proof -
  have "map_of prev i = Some old" using assms(1,2) by simp
  then show ?thesis using assms(3,4) by (auto simp: entry_ok_def same_history_def given_def split: if_splits)
qed

lemma entry_ok_preserved:
  assumes "distinct (map fst prev)" "(i, old) \<in> set prev"
  shows "entry_ok prev retired reserved (i, preserve v old)"
proof -
  have "map_of prev i = Some old" using assms by simp
  then show ?thesis by (simp add: entry_ok_def preserve_def)
qed

lemma entry_ok_new: "i \<notin> fst ` set prev \<Longrightarrow> i \<notin> set retired \<Longrightarrow> i \<notin> set reserved \<Longrightarrow> entry_ok prev retired reserved (i, e)"
  using map_of_eq_None_iff [of prev i] by (simp add: entry_ok_def)

lemma entry_ok_admitted:
  assumes "fst ` set prev \<union> set retired \<union> set reserved \<subseteq> set taken"
  shows "entry_ok prev retired reserved (new_id sha taken p, e)"
  by (rule entry_ok_new) (use assms new_id_fresh [of sha taken p] in auto)

lemma ids_soundI:
  assumes "entries_ok prev retired reserved held entries" "fst ` set prev \<subseteq> held \<union> set removed"
  shows "ids_sound prev retired reserved entries (still_retired entries (retired @ removed))"
proof -
  have "set (still_retired entries (retired @ removed)) = (set retired \<union> set removed) - fst ` set entries"
    by (auto simp: still_retired_def)
  moreover have "held \<subseteq> fst ` set entries" using assms(1) by (simp add: entries_ok_def)
  ultimately show ?thesis
    using assms unfolding ids_sound_def entries_ok_def entry_ok_def
    by (auto simp: list_all_iff split: option.splits prod.splits)
qed

lemma admit_candidate_ok:
  assumes "entries_ok prev retired reserved held entries" "fst ` set prev \<subseteq> held \<union> set removed"
    and "admit_candidate v (retired @ removed @ reserved) st p entries = Inr entries'"
  shows "entries_ok prev retired reserved held entries'"
proof -
  let ?i = "new_id (se_sha v) (map fst entries @ retired @ removed @ reserved) p"
  have new: "entry_ok prev retired reserved (?i, e)" for e
    using assms(1,2) by (intro entry_ok_admitted) (auto simp: entries_ok_def)
  from assms(3) have "entries' = entries \<or> (\<exists>e. entries' = AList.update ?i e entries)"
    unfolding admit_candidate_def Let_def
    by (auto simp: bindE_eq_Inr split: if_splits option.splits bool.splits)
  then show ?thesis using assms(1) entries_ok_update [OF assms(1) new] by blast
qed

lemma distinct_candidates: "distinct (by_lowered_path ps)"
  by (simp add: by_lowered_path_def)

text \<open>The entries that are kept and carried over hold every identifier that is not removed.\<close>

lemma carried_entries_ok:
  assumes "claims_ok prev (set ps) st" "distinct (map fst prev)"
  shows "entries_ok prev retired reserved (set (cl_ids st) \<union> fst ` set (filter (\<lambda>(i, e). keep e) (filter (is_left st) prev)))
     (carry_all v st ps (map (\<lambda>(i, e). (i, preserve v e)) (filter (\<lambda>(i, e). keep e) (filter (is_left st) prev))))"
    (is "entries_ok _ _ _ ?held (carry_all v st ps ?kept)")
proof -
  have fst_kept: "map fst ?kept = map fst (filter (\<lambda>(i, e). keep e) (filter (is_left st) prev))"
    by (simp add: case_prod_beta comp_def)
  have "distinct (map fst (filter (\<lambda>(i, e). keep e) (filter (is_left st) prev)))"
    using assms(2) by (simp add: distinct_map_filter)
  then have "distinct (map fst (carry_all v st ps ?kept))" by (intro carry_all_distinct) (simp only: fst_kept)
  moreover have "fst ` set ?kept = fst ` set (filter (\<lambda>(i, e). keep e) (filter (is_left st) prev))"
    using fst_kept by (metis set_map)
  then have "?held \<subseteq> fst ` set (carry_all v st ps ?kept)"
    unfolding carry_all_keys matched_ids [OF assms(1)] by blast
  moreover have "entry_ok prev retired reserved x" if "x \<in> set (carry_all v st ps ?kept)" for x
  proof -
    obtain i e' where x: "x = (i, e')" by (cases x)
    from carry_all_members [of i e' v st ps ?kept] that x
    consider "(i, e') \<in> set ?kept"
      | p e ident where "map_of (cl_matched st) p = Some (i, e, ident)" "e' = carried v p (se_marker v p) e ident" by blast
    then show ?thesis
    proof cases
      case 1
      then obtain old where "(i, old) \<in> set prev" "e' = preserve v old" by auto
      then show ?thesis unfolding x using entry_ok_preserved [OF assms(2)] by blast
    next
      case 2
      have "(p, i, e, ident) \<in> set (cl_matched st)" by (rule map_of_SomeD [OF 2(1)])
      then have "(i, e) \<in> set prev" "same_history ident (i, e)" using assms(1) by (auto simp: claims_ok_def)
      then show ?thesis unfolding x using 2(2) by (intro entry_ok_same [OF assms(2)]) (simp_all add: carried_def)
    qed
  qed
  ultimately show ?thesis unfolding entries_ok_def by blast
qed

text \<open>C11: An identifier of a repository stays with its history. Whatever a membership scan finds, every entry of the new
  registry that has an identifier of the previous one has the same recorded history, unless none was recorded;
  an identifier that is new was never in use, retired or reserved; no identifier is given twice; and an
  identifier that is no longer in use is retired, so that the policy bound to it can never be inherited.\<close>

theorem membership_scan_keeps_identity:
  assumes "distinct (map fst prev)"
  shows "case reconcile_registry_membership v prev retired reserved of
     Inl _ \<Rightarrow> True | Inr s \<Rightarrow> ids_sound prev retired reserved (sc_entries s) (sc_retired s)"
proof (cases "reconcile_registry_membership v prev retired reserved")
  case (Inr s)
  let ?cands = "discover_repo_markers (se_tree v) (available_roots v)"
  from Inr obtain st entries where st: "claims_of_scan v prev ?cands = Inr st"
    and e: "foldE (admit_candidate v (retired @ map fst (filter (\<lambda>(i, e). is_gone v e) (filter (is_left st) prev)) @ reserved) st) ?cands
        (carry_all v st ?cands (map (\<lambda>(i, e). (i, preserve v e)) (filter (\<lambda>(i, e). \<not> is_gone v e) (filter (is_left st) prev))))
        = Inr entries"
    and s: "sc_entries s = entries"
      "sc_retired s = still_retired entries (retired @ map fst (filter (\<lambda>(i, e). is_gone v e) (filter (is_left st) prev)))"
    unfolding reconcile_registry_membership_def Let_def by (auto simp: bindE_eq_Inr)
  note True = assms
  show ?thesis
  proof -
    let ?removed = "map fst (filter (\<lambda>(i, e). is_gone v e) (filter (is_left st) prev))"
    let ?held = "set (cl_ids st) \<union> fst ` set (filter (\<lambda>(i, e). \<not> is_gone v e) (filter (is_left st) prev))"
    have "claims_ok prev (set ?cands) st"
      by (rule claims_of_scan_ok [OF _ st]) (simp add: discover_repo_markers_def distinct_candidates)
    note start = carried_entries_ok [OF this True, of retired reserved "\<lambda>e. \<not> is_gone v e" v]
    have cover: "fst ` set prev \<subseteq> ?held \<union> set ?removed" by (force simp: is_left_def)
    have "entries_ok prev retired reserved ?held entries"
      by (rule foldE_inv [where P = "entries_ok prev retired reserved ?held", OF _ start e]) (rule admit_candidate_ok [OF _ cover])
    then show ?thesis using Inr s ids_soundI [OF _ cover] by simp
  qed
qed simp

subsection \<open>The full scan\<close>

lemma scan_record_shape:
  assumes "foldE (scan_record v prev) repos [] = Inr records" "distinct repos"
  shows "distinct (map fst records)"
proof -
  have "distinct (map fst records) \<and> fst ` set records \<subseteq> set repos"
  proof (rule foldE_prefix [OF _ _ assms(1), where P = "\<lambda>ys rs. distinct (map fst rs) \<and> fst ` set rs \<subseteq> set ys"])
    fix ys x zs rs rs' assume "repos = ys @ x # zs" "distinct (map fst rs) \<and> fst ` set rs \<subseteq> set ys" "scan_record v prev x rs = Inr rs'"
    then show "distinct (map fst rs') \<and> fst ` set rs' \<subseteq> set (ys @ [x])"
      using assms(2) by (auto simp: scan_record_def image_subset_iff split: option.splits if_splits)
  qed simp
  then show ?thesis ..
qed

text \<open>Claims of records: moreover the identity that is claimed is the one of the record.\<close>

definition records_ok :: "registry \<Rightarrow> (path \<times> str) list \<Rightarrow> path set \<Rightarrow> claims \<Rightarrow> bool" where
  "records_ok prev records ps st =
     (claims_ok prev ps st \<and> (\<forall>(p, i, e, ident)\<in>set (cl_matched st). (p, ident) \<in> set records))"

lemma records_claim:
  assumes "records_ok prev records ps st" "(p, ident) \<in> set records" "p \<in> ps" "p \<notin> fst ` set (cl_matched st)"
    "old \<in> set prev" "same_history ident old"
  shows "records_ok prev records ps (claim v p old ident st)"
proof -
  have "claims_ok prev ps (claim v p old ident st)"
    using assms(1) by (intro claim_ok assms(3-6)) (simp add: records_ok_def)
  then show ?thesis using assms(1,2) by (cases old) (auto simp: records_ok_def claim_def)
qed

lemma records_mono: "records_ok prev records ps st \<Longrightarrow> ps \<subseteq> qs \<Longrightarrow> records_ok prev records qs st"
  unfolding records_ok_def by (blast intro: claims_ok_mono)

lemma match_record_ok:
  assumes "records_ok prev records ps st" "(p, ident) \<in> set records" "p \<notin> ps"
  shows "records_ok prev records (insert p ps) (match_record v prev (p, ident) st)"
proof -
  have ok: "records_ok prev records (insert p ps) st" using assms(1) by (rule records_mono) blast
  have "p \<notin> fst ` set (cl_matched st)" using assms(1,3) by (auto simp: records_ok_def claims_ok_def)
  then have "records_ok prev records (insert p ps) (claim v p old ident st)" if "old \<in> set prev" "same_history ident old" for old
    using that by (intro records_claim [OF ok assms(2)]) auto
  moreover have "old \<in> set prev" if "Option.bind (given m) (prior_by_marker prev) = Some old" for m old
    using that prior_marker_in by (cases "given m") auto
  ultimately show ?thesis
    unfolding match_record_def Let_def using ok prior_path_in [of v prev p]
    by (auto split: option.split)
qed

lemma match_moved_record_ok:
  assumes "records_ok prev records ps st" "(p, ident) \<in> set records" "p \<in> ps"
  shows "records_ok prev records ps (match_moved_record v prev (p, ident) st)"
proof (cases "map_of (cl_matched st) p")
  case None
  have "records_ok prev records ps (claim v p old ident st)" if "movable v prev ident (cl_ids st) = [old]" for old
    using movable_in [of old v prev ident "cl_ids st"] that None
    by (intro records_claim assms) (simp_all add: map_of_eq_None_iff)
  then show ?thesis using assms(1) None by (auto simp: match_moved_record_def split: list.split)
next
  case (Some x)
  then show ?thesis using assms(1) by (cases x) (simp add: match_moved_record_def)
qed

lemma claims_of_records:
  assumes "distinct (map fst records)"
  shows "records_ok prev records (fst ` set records)
    (fold (match_moved_record v prev) records (fold (match_record v prev) records no_claims))"
proof -
  have direct: "records = xs @ ys \<Longrightarrow> records_ok prev records (fst ` set xs) st \<Longrightarrow>
      records_ok prev records (fst ` set records) (fold (match_record v prev) ys st)" for xs ys st
  proof (induction ys arbitrary: xs st)
    case (Cons y ys)
    have "fst y \<notin> fst ` set xs" "y \<in> set records" using assms Cons.prems(1) by auto
    then have "records_ok prev records (fst ` set (xs @ [y])) (match_record v prev y st)"
      using match_record_ok [OF Cons.prems(2), of "fst y" "snd y" v] by simp
    then show ?case using Cons.IH [of "xs @ [y]"] Cons.prems(1) by simp
  qed simp
  have moved: "set ys \<subseteq> set records \<Longrightarrow> records_ok prev records (fst ` set records) st \<Longrightarrow>
      records_ok prev records (fst ` set records) (fold (match_moved_record v prev) ys st)" for ys st
  proof (induction ys arbitrary: st)
    case (Cons y ys)
    then show ?case using match_moved_record_ok [of prev records "fst ` set records" st "fst y" "snd y" v] by force
  qed simp
  have "records_ok prev records (fst ` set []) no_claims"
    by (simp add: records_ok_def claims_ok_none) (simp add: no_claims_def)
  then show ?thesis using direct [of "[]" records] moved [of records] by simp
qed

lemma enter_record_ok:
  assumes "entries_ok prev retired reserved held entries" "records_ok prev records ps st" "distinct (map fst prev)"
    and "(p, ident) \<in> set records" "distinct (map fst records)"
    and "fst ` set prev \<union> set retired \<union> set reserved \<subseteq> fst ` set entries \<union> set taken"
    and "enter_record v taken st (p, ident) entries = Inr entries'"
  shows "entries_ok prev retired reserved (held \<union> {i. \<exists>e d. map_of (cl_matched st) p = Some (i, e, d)}) entries'"
proof (cases "map_of (cl_matched st) p")
  case None
  with assms(7) obtain state where "entries' = AList.update (new_id (se_sha v) (map fst entries @ taken) p)
      (fresh_entry p (se_marker v p) ident state) entries"
    by (auto simp: enter_record_def bindE_eq_Inr)
  moreover have "entry_ok prev retired reserved (new_id (se_sha v) (map fst entries @ taken) p, e)" for e
    by (rule entry_ok_admitted) (use assms(6) in auto)
  ultimately show ?thesis using entries_ok_update [OF assms(1)] None by simp
next
  case (Some x)
  obtain i e d where x: "x = (i, e, d)" by (cases x)
  with assms(7) Some obtain state where e': "entries' = AList.update i (fresh_entry p (se_marker v p) ident state) entries"
    by (auto simp: enter_record_def bindE_eq_Inr)
  have m: "(p, i, e, d) \<in> set (cl_matched st)" using map_of_SomeD [OF Some] x by simp
  then have "(p, d) \<in> set records" "(i, e) \<in> set prev" "same_history d (i, e)"
    using assms(2) by (auto simp: records_ok_def claims_ok_def)
  then have "d = ident" using assms(4,5) eq_key_imp_eq_value by metis
  then have "entry_ok prev retired reserved (i, fresh_entry p (se_marker v p) ident state)"
    using \<open>same_history d (i, e)\<close> \<open>(i, e) \<in> set prev\<close>
    by (intro entry_ok_same [OF assms(3)]) (simp_all add: fresh_entry_def)
  from entries_ok_update [OF assms(1) this] show ?thesis
    unfolding e' Some x by (auto simp: entries_ok_def update_keys)
qed

lemma enter_all_ok:
  assumes "records_ok prev records (fst ` set records) st" "distinct (map fst prev)" "distinct (map fst records)"
    and start: "entries_ok prev retired reserved held kept"
    and cover: "fst ` set prev \<union> set retired \<union> set reserved \<subseteq> held \<union> set taken"
    and run: "foldE (enter_record v taken st) records kept = Inr entries"
  shows "entries_ok prev retired reserved (held \<union> set (cl_ids st)) entries"
proof -
  let ?ids = "\<lambda>ys. {i. \<exists>p\<in>fst ` set ys. \<exists>e d. map_of (cl_matched st) p = Some (i, e, d)}"
  have "entries_ok prev retired reserved (held \<union> ?ids records) entries"
  proof (rule foldE_prefix [OF _ _ run, where P = "\<lambda>ys es. entries_ok prev retired reserved (held \<union> ?ids ys) es"])
    fix ys x zs es es' assume x: "records = ys @ x # zs" "entries_ok prev retired reserved (held \<union> ?ids ys) es"
      "enter_record v taken st x es = Inr es'"
    have "held \<subseteq> fst ` set es" using x(2) by (simp add: entries_ok_def)
    then have "fst ` set prev \<union> set retired \<union> set reserved \<subseteq> fst ` set es \<union> set taken" using cover by blast
    then have "entries_ok prev retired reserved (held \<union> ?ids ys \<union> {i. \<exists>e d. map_of (cl_matched st) (fst x) = Some (i, e, d)}) es'"
      using x by (intro enter_record_ok [OF x(2) assms(1,2) _ assms(3), of "fst x" "snd x" taken v]) auto
    moreover have "held \<union> ?ids ys \<union> {i. \<exists>e d. map_of (cl_matched st) (fst x) = Some (i, e, d)} = held \<union> ?ids (ys @ [x])"
      by auto
    ultimately show "entries_ok prev retired reserved (held \<union> ?ids (ys @ [x])) es'" by simp
  qed (use start in simp)
  moreover have "?ids records = set (cl_ids st)"
    using matched_ids [of prev "map fst records" st] assms(1) by (simp add: records_ok_def)
  ultimately show ?thesis by simp
qed

lemma kept_entries_ok:
  assumes "distinct (map fst prev)"
  shows "entries_ok prev retired reserved (fst ` set (filter (\<lambda>(i, e). keep e) (filter (is_left st) prev)))
    (map (\<lambda>(i, e). (i, preserve v e)) (filter (\<lambda>(i, e). keep e) (filter (is_left st) prev)))"
proof -
  have fst_map: "map fst (map (\<lambda>(i, e). (i, preserve v e)) xs) = map fst xs" for xs
    by (induction xs) auto
  then have fst_set: "fst ` set (map (\<lambda>(i, e). (i, preserve v e)) xs) = fst ` set xs" for xs by (metis set_map)
  have "distinct (map fst (filter (\<lambda>(i, e). keep e) (filter (is_left st) prev)))"
    using assms by (simp add: distinct_map_filter)
  then show ?thesis
    unfolding entries_ok_def fst_map fst_set using entry_ok_preserved [OF assms] by (intro conjI subset_refl) auto
qed

text \<open>A full scan has the same guarantee. Here the history of every repository that is found has been read in
  this scan, so that an identifier of the previous registry is given to a repository only when the history
  that was recorded for it is the one that was read.\<close>

theorem full_scan_keeps_identity:
  assumes "distinct (map fst prev)"
  shows "case build_registry v prev retired reserved of
     Inl _ \<Rightarrow> True | Inr (entries, retired') \<Rightarrow> ids_sound prev retired reserved entries retired'"
proof (cases "build_registry v prev retired reserved")
  case (Inr r)
  from Inr obtain repos records entries st where repos: "discover_repos (se_is_repo v) (se_tree v) (available_roots v) = Some repos"
    and rec: "foldE (scan_record v prev) repos [] = Inr records"
    and st: "st = fold (match_moved_record v prev) records (fold (match_record v prev) records no_claims)"
    and e: "foldE (enter_record v (cl_ids st @ (retired @ map fst (filter (\<lambda>(i, e). \<not> keeps_offline v e) (filter (is_left st) prev))) @ reserved) st)
        records (map (\<lambda>(i, e). (i, preserve v e)) (filter (\<lambda>(i, e). keeps_offline v e) (filter (is_left st) prev))) = Inr entries"
    and r: "r = (entries, still_retired entries (retired @ map fst (filter (\<lambda>(i, e). \<not> keeps_offline v e) (filter (is_left st) prev))))"
    unfolding build_registry_def Let_def by (auto simp: bindE_eq_Inr split: option.splits)
  note True = assms
  show ?thesis
  proof -
    let ?removed = "map fst (filter (\<lambda>(i, e). \<not> keeps_offline v e) (filter (is_left st) prev))"
    let ?held = "fst ` set (filter (\<lambda>(i, e). keeps_offline v e) (filter (is_left st) prev))"
    have d: "distinct (map fst records)"
      by (rule scan_record_shape [OF rec]) (use repos in \<open>auto simp: discover_repos_def distinct_candidates\<close>)
    have cover: "fst ` set prev \<subseteq> ?held \<union> set (cl_ids st) \<union> set ?removed" by (force simp: is_left_def)
    have "entries_ok prev retired reserved (?held \<union> set (cl_ids st)) entries"
      by (rule enter_all_ok [OF _ True d kept_entries_ok [OF True] _ e])
        (use claims_of_records [OF d, of prev v] cover in \<open>auto simp: st\<close>)
    then show ?thesis using Inr r ids_soundI [OF _ cover] by simp
  qed
qed simp

subsection \<open>Scans\<close>

definition sample_entry :: "str \<Rightarrow> str \<Rightarrow> str \<Rightarrow> str \<Rightarrow> reg_entry" where
  "sample_entry name p marker ident =
     \<lparr>en_name = Some name, en_path = Some p, en_marker = Some marker, en_identity = Some ident, en_status = None\<rparr>"

definition sample_scan :: "(path \<Rightarrow> str option) \<Rightarrow> (path \<Rightarrow> str option) \<Rightarrow> (str \<times> dir_tree) list \<Rightarrow> scan_env" where
  "sample_scan marker ident ds =
     \<lparr>se_roots = [parse_path ''/w''], se_tree = \<lambda>p. if p = parse_path ''/w'' then Some (Dir False ds) else None, se_resolve = parse_path,
       se_marker = marker, se_is_repo = \<lambda>p. Some (p_parts p \<noteq> [''w'']), se_identity = ident,
       se_state = \<lambda>_. Inr \<lparr>rp_head = ''h'', rp_branch = None, rp_tracked_dirty = False, rp_untracked = False\<rparr>, se_sha = \<lambda>_. ''ffffffff''\<rparr>"

text \<open>The repository \<open>/w/a\<close> is moved to \<open>/w/b\<close> and another history takes its place: the identifier follows the
  history, and the newcomer gets another one.\<close>

lemma identifier_follows_history:
  "case reconcile_registry_membership
      (sample_scan (\<lambda>p. Some (if path_name p = ''b'' then ''m2'' else ''m3'')) (\<lambda>p. Some (if path_name p = ''b'' then ''x'' else ''y''))
        [(''a'', Dir True []), (''b'', Dir True [])])
      [(''a'', sample_entry ''a'' ''/w/a'' ''m1'' ''x'')] [] [] of
     Inl _ \<Rightarrow> False
   | Inr s \<Rightarrow> map (\<lambda>(i, e). (i, en_path e)) (sc_entries s) = [(''a'', Some ''/w/b''), (''a-ffffffff'', Some ''/w/a'')] \<and> sc_retired s = []"
  by code_simp

text \<open>An entry below no configured root at all is preserved by the membership scan and retired by the full one.\<close>

lemma outside_entry_preserved:
  "(case reconcile_registry_membership (sample_scan (\<lambda>_. None) (\<lambda>_. None) []) [(''o'', sample_entry ''o'' ''/else/o'' ''m'' ''x'')] [] [] of
      Inl _ \<Rightarrow> False | Inr s \<Rightarrow> map fst (sc_entries s) = [''o''])
   \<and> build_registry (sample_scan (\<lambda>_. None) (\<lambda>_. None) []) [(''o'', sample_entry ''o'' ''/else/o'' ''m'' ''x'')] [] [] = Inr ([], [''o''])"
  by code_simp

text \<open>The same move under both scans, with the guarantee.\<close>

definition moved_scan :: scan_env where
  "moved_scan = sample_scan (\<lambda>p. Some (if path_name p = ''b'' then ''m2'' else ''m3''))
     (\<lambda>p. Some (if path_name p = ''b'' then ''x'' else ''y'')) [(''a'', Dir True []), (''b'', Dir True [])]"

definition moved_before :: registry where
  "moved_before = [(''a'', sample_entry ''a'' ''/w/a'' ''m1'' ''x'')]"

theorem membership_scan_keeps_identity_witness:
  "case reconcile_registry_membership moved_scan moved_before [''z''] [] of
     Inl _ \<Rightarrow> False
   | Inr s \<Rightarrow> map fst (sc_entries s) = [''a'', ''a-ffffffff''] \<and> ids_sound moved_before [''z''] [] (sc_entries s) (sc_retired s)"
proof -
  have "case reconcile_registry_membership moved_scan moved_before [''z''] [] of
     Inl _ \<Rightarrow> False | Inr s \<Rightarrow> map fst (sc_entries s) = [''a'', ''a-ffffffff'']" by code_simp
  moreover have "distinct (map fst moved_before)" by code_simp
  then have "case reconcile_registry_membership moved_scan moved_before [''z''] [] of Inl _ \<Rightarrow> True | Inr s \<Rightarrow> ids_sound moved_before [''z''] [] (sc_entries s) (sc_retired s)"
    by (rule membership_scan_keeps_identity)
  ultimately show ?thesis by (auto split: sum.splits)
qed

theorem full_scan_keeps_identity_witness:
  "case build_registry moved_scan moved_before [''z''] [] of
     Inl _ \<Rightarrow> False
   | Inr (entries, retired) \<Rightarrow> map fst entries = [''a-ffffffff'', ''a''] \<and> ids_sound moved_before [''z''] [] entries retired"
proof -
  have "case build_registry moved_scan moved_before [''z''] [] of
     Inl _ \<Rightarrow> False | Inr (entries, retired) \<Rightarrow> map fst entries = [''a-ffffffff'', ''a'']" by code_simp
  moreover have "distinct (map fst moved_before)" by code_simp
  then have "case build_registry moved_scan moved_before [''z''] [] of Inl _ \<Rightarrow> True | Inr (entries, retired) \<Rightarrow> ids_sound moved_before [''z''] [] entries retired"
    by (rule full_scan_keeps_identity)
  ultimately show ?thesis by (auto split: sum.splits)
qed

end
