(* ===== verification/SelfUpdate.thy ===== *)
theory SelfUpdate
  imports Commits "HOL-Library.AList"
begin

text \<open>
  The self-update of the file bridge (\<open>llm_git_bridge/self_update.py\<close>). A qualified commit is handed over in a file; the
  supervisor installs it as a runtime, promotes it on the remote and on the local main branch, switches the
  pointer of the active runtime, restarts the daemon and takes the pointer back when the new runtime does not
  report its health. The steps are programs over a log of events; Git, the files, \<open>launchctl\<close>, the archive and
  the clock are the environment. The owner and mode of files and the creation of directories are left out.
\<close>

type_synonym fields = "(str \<times> json) list"

datatype su_event =
    SGit str "str list"
  | SLoad str
  | SSave str fields
  | SUnlink str
  | SLaunch "str list"
  | SSleep
  | SArchive str str str
  | SPlace str str
  | SDiscard str

text \<open>What a call answers: \<open>sv_git\<close> and \<open>sv_launch\<close> are None when the command times out or cannot be started,
  \<open>sv_archive\<close> when reading the archive raises; \<open>sv_load\<close> is the object of a JSON file, or what \<open>load_json\<close>
  raises. The clock is in milliseconds.\<close>

record su_env =
  sv_home :: str
  sv_uid :: str
  sv_git :: "su_event list \<Rightarrow> str \<Rightarrow> str list \<Rightarrow> (int \<times> str) option"
  sv_exists :: "su_event list \<Rightarrow> str \<Rightarrow> bool"
  sv_load :: "su_event list \<Rightarrow> str \<Rightarrow> werror + fields"
  sv_save :: "su_event list \<Rightarrow> str \<Rightarrow> bool"
  sv_unlink :: "su_event list \<Rightarrow> str \<Rightarrow> bool"
  sv_launch :: "su_event list \<Rightarrow> str list \<Rightarrow> int option"
  sv_archive :: "su_event list \<Rightarrow> str \<Rightarrow> str \<Rightarrow> int option"
  sv_place :: "su_event list \<Rightarrow> str \<Rightarrow> bool"
  sv_tmp :: "su_event list \<Rightarrow> str"
  sv_locked :: "su_event list \<Rightarrow> bool"
  sv_clock :: "su_event list \<Rightarrow> int"
  sv_now :: "su_event list \<Rightarrow> str"
  sv_resolve :: "str \<Rightarrow> str"
  sv_repr :: "json \<Rightarrow> str"

type_synonym 'a su = "(su_event, 'a) prog"

subsection \<open>Files\<close>

definition state_dir :: "su_env \<Rightarrow> str" where
  "state_dir v = sv_home v @ ''/.local/state/llm-git-bridge''"

definition install_root :: "su_env \<Rightarrow> str" where
  "install_root v = sv_home v @ ''/.local/share/llm-git-bridge''"

definition active_runtime_path :: "su_env \<Rightarrow> str" where
  "active_runtime_path v = install_root v @ ''/active-runtime.json''"

definition runtimes_dir :: "su_env \<Rightarrow> str" where
  "runtimes_dir v = install_root v @ ''/runtimes''"

definition handoff_file :: "su_env \<Rightarrow> str" where
  "handoff_file v = state_dir v @ ''/self-update/handoff.json''"

definition journal_file :: "su_env \<Rightarrow> str" where
  "journal_file v = state_dir v @ ''/self-update/journal.json''"

definition health_file :: "su_env \<Rightarrow> str" where
  "health_file v = state_dir v @ ''/runtime-health.json''"

definition daemon_label :: str where
  "daemon_label = ''io.llm-git-bridge.daemon''"

definition plist_file :: "su_env \<Rightarrow> str" where
  "plist_file v = sv_home v @ ''/Library/LaunchAgents/'' @ daemon_label @ ''.plist''"

definition load_file :: "su_env \<Rightarrow> str \<Rightarrow> fields su" where
  "load_file v p = logged (SLoad p) (\<lambda>tr. sv_load v tr p)"

definition save_file :: "su_env \<Rightarrow> str \<Rightarrow> fields \<Rightarrow> unit su" where
  "save_file v p kvs = logged (SSave p kvs) (\<lambda>tr. if sv_save v tr p then Inr () else Inl Died)"

definition unlink_file :: "su_env \<Rightarrow> str \<Rightarrow> unit su" where
  "unlink_file v p = logged (SUnlink p) (\<lambda>tr. if sv_unlink v tr p then Inr () else Inl Died)"

text \<open>\<open>except Exception\<close> with a clean-up that raises nothing, raised again.\<close>

definition undoing :: "'a su \<Rightarrow> su_event \<Rightarrow> 'a su" where
  "undoing m e tr = (case m tr of (Inl x, us) \<Rightarrow> (Inl x, us @ [e]) | r \<Rightarrow> r)"

text \<open>\<open>_sha\<close>\<close>

definition full_sha :: "json \<Rightarrow> str option" where
  "full_sha x = (case x of JStr s \<Rightarrow> if length s \<in> {40, 64} \<and> list_all is_hex s then Some s else None | _ \<Rightarrow> None)"

definition sha_of :: "json \<Rightarrow> str su" where
  "sha_of x = (case full_sha x of Some s \<Rightarrow> ret s | None \<Rightarrow> refused ''self-update target_sha must be a full lowercase Git object ID'')"

subsection \<open>Qualification and handoff\<close>

definition qualification_path :: "su_env \<Rightarrow> str \<Rightarrow> str su" where
  "qualification_path v sha = bindC (sha_of (JStr sha)) (\<lambda>s. ret (state_dir v @ ''/qualifications/'' @ s @ ''.json''))"

definition record_qualification :: "su_env \<Rightarrow> json \<Rightarrow> str \<Rightarrow> json \<Rightarrow> str \<Rightarrow> unit su" where
  "record_qualification v sha transaction_id request_sha256 branch =
     bindC (sha_of sha) (\<lambda>s. bindC (qualification_path v s) (\<lambda>p. bindC (ask (sv_now v)) (\<lambda>now.
       save_file v p [(''version'', JInt 1), (''commit'', JStr s), (''transaction_id'', JStr transaction_id),
         (''request_sha256'', request_sha256), (''branch'', JStr branch), (''qualified_at'', JStr now)])))"

definition qualifies :: "str \<Rightarrow> fields \<Rightarrow> bool" where
  "qualifies sha q =
     (py_eq_int (obj_get (JObj q) ''version'') 1 \<and> obj_get (JObj q) ''commit'' = JStr sha
      \<and> is_JStr (obj_get (JObj q) ''transaction_id''))"

definition require_qualification :: "su_env \<Rightarrow> str \<Rightarrow> fields su" where
  "require_qualification v sha =
     bindC (qualification_path v sha) (\<lambda>p.
     bindC (ask (\<lambda>tr. sv_exists v tr p)) (\<lambda>there.
     bindC (need there ''self-update target has no local full-test qualification receipt'') (\<lambda>_.
     bindC (load_file v p) (\<lambda>q.
     bindC (need (qualifies sha q) ''self-update qualification receipt is invalid'') (\<lambda>_. ret q)))))"

definition write_handoff :: "su_env \<Rightarrow> str \<Rightarrow> json \<Rightarrow> str \<Rightarrow> str \<Rightarrow> fields su" where
  "write_handoff v transaction_id target_sha source_branch source_repo =
     bindC (sha_of target_sha) (\<lambda>s.
     bindC (require_qualification v s) (\<lambda>_.
     bindC (ask (sv_now v)) (\<lambda>now.
     let handoff = [(''version'', JInt 1), (''transaction_id'', JStr transaction_id), (''target_sha'', JStr s),
       (''source_branch'', JStr source_branch), (''source_repo'', JStr (sv_resolve v source_repo)), (''created_at'', JStr now)] in
     bindC (save_file v (handoff_file v) handoff) (\<lambda>_. ret handoff))))"

definition active_runtime :: "su_env \<Rightarrow> (str \<times> str) su" where
  "active_runtime v =
     bindC (ask (\<lambda>tr. sv_exists v tr (active_runtime_path v))) (\<lambda>there.
     bindC (need there ''self-update runtime pointer is not installed'') (\<lambda>_.
     bindC (load_file v (active_runtime_path v)) (\<lambda>kvs.
     bindC (sha_of (obj_get (JObj kvs) ''sha'')) (\<lambda>s.
       case obj_get (JObj kvs) ''path'' of
         JStr p \<Rightarrow> if p = [] then refused ''self-update runtime pointer is invalid'' else ret (s, p)
       | _ \<Rightarrow> refused ''self-update runtime pointer is invalid''))))"

definition pointer :: "str \<Rightarrow> str \<Rightarrow> fields" where
  "pointer sha p = [(''version'', JInt 1), (''sha'', JStr sha), (''path'', JStr p)]"

definition write_active :: "su_env \<Rightarrow> str \<Rightarrow> str \<Rightarrow> unit su" where
  "write_active v sha p = bindC (sha_of (JStr sha)) (\<lambda>s. save_file v (active_runtime_path v) (pointer s p))"

subsection \<open>Git\<close>

definition sgit_try :: "su_env \<Rightarrow> str \<Rightarrow> str list \<Rightarrow> (int \<times> str) su" where
  "sgit_try v repo args =
     logged (SGit repo args) (\<lambda>tr. case sv_git v tr repo args of
       None \<Rightarrow> Inl (Refused ''command timed out or could not be started'') | Some r \<Rightarrow> Inr r)"

definition sgit :: "su_env \<Rightarrow> str \<Rightarrow> str list \<Rightarrow> str su" where
  "sgit v repo args =
     bindC (sgit_try v repo args) (\<lambda>(rc, out).
       if rc \<noteq> 0 then refused (''command failed with exit code '' @ int_str rc) else ret out)"

definition clean_args :: "str list" where
  "clean_args = [''status'', ''--porcelain'', ''--untracked-files=no'']"

definition tracked_clean :: "su_env \<Rightarrow> str \<Rightarrow> bool su" where
  "tracked_clean v repo = bindC (sgit_try v repo clean_args) (\<lambda>(rc, out). ret (rc = 0 \<and> py_strip out = []))"

definition branch_args :: "str list" where
  "branch_args = [''symbolic-ref'', ''--quiet'', ''--short'', ''HEAD'']"

definition checked_out :: "su_env \<Rightarrow> str \<Rightarrow> str su" where
  "checked_out v repo =
     bindC (sgit_try v repo branch_args) (\<lambda>(rc, out).
       if rc \<noteq> 0 \<or> py_strip out = [] then refused ''self-update source repository must have a checked-out branch''
       else ret (py_strip out))"

definition head_of :: "su_env \<Rightarrow> str \<Rightarrow> str su" where
  "head_of v repo = bindC (sgit v repo [''rev-parse'', ''HEAD'']) (\<lambda>out. ret (py_strip out))"

definition commit_args :: "str \<Rightarrow> str list" where
  "commit_args sha = [''cat-file'', ''-e'', sha @ ''^{commit}'']"

definition ensure_commit :: "su_env \<Rightarrow> str \<Rightarrow> str \<Rightarrow> unit su" where
  "ensure_commit v repo sha =
     bindC (sgit_try v repo (commit_args sha)) (\<lambda>(rc, _).
       need (rc = 0) ''self-update target commit is not present in the authoritative repository'')"

subsection \<open>Runtimes and the daemon\<close>

definition install_runtime :: "su_env \<Rightarrow> str \<Rightarrow> str \<Rightarrow> str su" where
  "install_runtime v repo sha =
     (let final = runtimes_dir v @ ''/'' @ sha in
      bindC (ask (\<lambda>tr. sv_exists v tr final)) (\<lambda>there.
        if there then ret final
        else bindC (ask (sv_tmp v)) (\<lambda>tmp.
          undoing
            (bindC (logged (SArchive repo sha tmp) (\<lambda>tr. case sv_archive v tr repo sha of None \<Rightarrow> Inl Died | Some rc \<Rightarrow> Inr rc)) (\<lambda>rc.
             bindC (need (rc = 0) ''self-update could not materialise the qualified runtime'') (\<lambda>_.
             bindC (logged (SPlace tmp final) (\<lambda>tr. if sv_place v tr final then Inr () else Inl Died)) (\<lambda>_.
             ret final))))
            (SDiscard tmp))))"

definition launchctl :: "su_env \<Rightarrow> str list \<Rightarrow> int su" where
  "launchctl v args =
     logged (SLaunch args) (\<lambda>tr. case sv_launch v tr args of
       None \<Rightarrow> Inl (Refused ''command timed out or could not be started'') | Some rc \<Rightarrow> Inr rc)"

definition restart_daemon :: "su_env \<Rightarrow> unit su" where
  "restart_daemon v =
     bindC (ask (\<lambda>tr. sv_exists v tr (plist_file v))) (\<lambda>there.
     bindC (need there ''self-update requires the installed macOS LaunchAgent'') (\<lambda>_.
     let domain = ''gui/'' @ sv_uid v; service = domain @ ''/'' @ daemon_label in
     bindC (launchctl v [''kill'', ''SIGTERM'', service]) (\<lambda>rc.
       if rc = 0 then ret ()
       else bindC (launchctl v [''kickstart'', service]) (\<lambda>rc.
         if rc = 0 then ret ()
         else bindC (launchctl v [''bootstrap'', domain, plist_file v]) (\<lambda>rc.
           need (rc = 0) ''launchctl operation failed during self-update'')))))"

definition reports :: "str \<Rightarrow> fields \<Rightarrow> bool" where
  "reports sha kvs = (obj_get (JObj kvs) ''runtime_sha'' = JStr sha \<and> is_JStr (obj_get (JObj kvs) ''watcher_started_at''))"

definition healthy :: "su_env \<Rightarrow> str \<Rightarrow> bool su" where
  "healthy v sha =
     bindC (ask (\<lambda>tr. sv_exists v tr (health_file v))) (\<lambda>there.
       if there then rescue (bindC (load_file v (health_file v)) (\<lambda>kvs. ret (reports sha kvs))) False else ret False)"

text \<open>The poll of the health file every 250 ms until the deadline. A sleep takes at least its time, so that the
  deadline of 30 s has passed after 120 of them.\<close>

fun poll_health :: "su_env \<Rightarrow> str \<Rightarrow> int \<Rightarrow> nat \<Rightarrow> bool su" where
  "poll_health v sha deadline 0 = ret False"
| "poll_health v sha deadline (Suc n) =
     bindC (ask (sv_clock v)) (\<lambda>now.
       if now \<ge> deadline then ret False
       else bindC (healthy v sha) (\<lambda>ok.
         if ok then ret True else bindC (logged SSleep (\<lambda>_. Inr ())) (\<lambda>_. poll_health v sha deadline n)))"

definition wait_health :: "su_env \<Rightarrow> str \<Rightarrow> bool su" where
  "wait_health v sha = bindC (ask (sv_clock v)) (\<lambda>now. poll_health v sha (now + 30000) 120)"

definition journal :: "su_env \<Rightarrow> fields \<Rightarrow> unit su" where
  "journal v entries =
     bindC (ask (\<lambda>tr. sv_exists v tr (journal_file v))) (\<lambda>there.
     bindC (if there then rescue (load_file v (journal_file v)) [] else ret []) (\<lambda>current.
     bindC (ask (sv_now v)) (\<lambda>now.
       save_file v (journal_file v) (fold (\<lambda>(k, x). AList.update k x) (entries @ [(''updated_at'', JStr now)]) current))))"

subsection \<open>Promotion of the local branch\<close>

definition promote_args :: "str \<Rightarrow> str list" where
  "promote_args target = [''-c'', ''core.hooksPath=/dev/null'', ''merge'', ''--ff-only'', ''--no-edit'', target]"

definition reflog_args :: "str \<Rightarrow> str list" where
  "reflog_args b = [''reflog'', ''show'', ''--format=%H'', ''-2'', ''refs/heads/'' @ b]"

definition take_back_args :: "str \<Rightarrow> str \<Rightarrow> str \<Rightarrow> str \<Rightarrow> str list" where
  "take_back_args txid b prev target =
     [''update-ref'', ''--no-deref'', ''-m'', ''llm-git-bridge rollback '' @ txid, ''refs/heads/'' @ b, prev, target]"

definition lines_of :: "str \<Rightarrow> str list" where
  "lines_of out = filter (\<lambda>l. l \<noteq> []) (map py_strip (line_pieces [] out))"

definition reset_branch :: "su_env \<Rightarrow> str \<Rightarrow> str \<Rightarrow> str \<Rightarrow> unit su" where
  "reset_branch v repo b prev =
     bindC (checked_out v repo) (\<lambda>now.
       if now \<noteq> b then ret ()
       else bindC (sgit_try v repo [''reset'', ''--hard'', prev]) (\<lambda>(rc, _).
         need (rc = 0) ''self-update branch-switch rollback requires manual inspection''))"

definition retract :: "su_env \<Rightarrow> str \<Rightarrow> str \<Rightarrow> str \<Rightarrow> str \<Rightarrow> str \<Rightarrow> unit su" where
  "retract v repo target txid b prev =
     bindC (sgit_try v repo (take_back_args txid b prev target)) (\<lambda>(rc, _).
       if rc \<noteq> 0 then ret () else reset_branch v repo b prev)"

definition take_back :: "su_env \<Rightarrow> str \<Rightarrow> str \<Rightarrow> str \<Rightarrow> str \<Rightarrow> unit su" where
  "take_back v repo target txid b =
     bindC (sgit_try v repo (reflog_args b)) (\<lambda>(rc, out).
       case lines_of out of
         tip # prev # _ \<Rightarrow> if rc \<noteq> 0 \<or> tip \<noteq> target then ret () else retract v repo target txid b prev
       | _ \<Rightarrow> ret ())"

definition at_main :: "su_env \<Rightarrow> str \<Rightarrow> str \<Rightarrow> bool su" where
  "at_main v repo sha =
     andalso (bindC (checked_out v repo) (\<lambda>b. ret (b = ''main'')))
       (andalso (bindC (head_of v repo) (\<lambda>h. ret (h = sha))) (tracked_clean v repo))"

text \<open>After the merge: either main is where it should be, or another branch that was moved is taken back.\<close>

definition gone_astray :: "su_env \<Rightarrow> str \<Rightarrow> str \<Rightarrow> str \<Rightarrow> str \<Rightarrow> str \<Rightarrow> unit su" where
  "gone_astray v repo target txid b h =
     bindC (if b \<noteq> ''main'' \<and> h = target then tracked_clean v repo else ret False) (\<lambda>astray.
     bindC (if astray then take_back v repo target txid b else ret ()) (\<lambda>_.
     refused ''self-update current branch changed during local promotion''))"

definition settle_main :: "su_env \<Rightarrow> str \<Rightarrow> str \<Rightarrow> str \<Rightarrow> unit su" where
  "settle_main v repo target txid =
     bindC (checked_out v repo) (\<lambda>b.
     bindC (head_of v repo) (\<lambda>h.
     bindC (if b = ''main'' \<and> h = target then tracked_clean v repo else ret False) (\<lambda>there.
       if there then ret () else gone_astray v repo target txid b h)))"

definition promote_local_main :: "su_env \<Rightarrow> str \<Rightarrow> str \<Rightarrow> str \<Rightarrow> str \<Rightarrow> unit su" where
  "promote_local_main v repo target expected txid =
     bindC (at_main v repo expected) (\<lambda>ok.
     bindC (need ok ''self-update source repository changed before local promotion'') (\<lambda>_.
     bindC (sgit_try v repo (promote_args target)) (\<lambda>(rc, _).
     bindC (need (rc = 0) ''self-update could not fast-forward local main'') (\<lambda>_.
     settle_main v repo target txid))))"

subsection \<open>The supervisor\<close>

record su_order =
  so_target :: str
  so_repo :: str
  so_transaction :: json
  so_previous :: "str \<times> str"
  so_head :: str

definition order_of :: "fields \<Rightarrow> (str \<times> str \<times> str) su" where
  "order_of h =
     bindC (need (py_eq_int (obj_get (JObj h) ''version'') 1) ''self-update handoff is invalid'') (\<lambda>_.
     bindC (sha_of (obj_get (JObj h) ''target_sha'')) (\<lambda>target.
       case obj_get (JObj h) ''source_branch'' of
         JStr b \<Rightarrow>
           bindC (need (prefix ''ai/'' b) ''self-update source branch must be a safe branch'') (\<lambda>_.
             case obj_get (JObj h) ''source_repo'' of
               JStr r \<Rightarrow> bindC (need (r \<noteq> []) ''self-update source repository is invalid'') (\<lambda>_. ret (target, b, r))
             | _ \<Rightarrow> refused ''self-update source repository is invalid'')
       | _ \<Rightarrow> refused ''self-update source branch must be a safe branch''))"

definition ancestor_args :: "str \<Rightarrow> str \<Rightarrow> str list" where
  "ancestor_args a b = [''merge-base'', ''--is-ancestor'', a, b]"

definition read_order :: "su_env \<Rightarrow> str \<Rightarrow> su_order su" where
  "read_order v handoff =
     bindC (load_file v handoff) (\<lambda>h.
     bindC (order_of h) (\<lambda>(target, b, r).
     let repo = sv_resolve v r in
     bindC (require_qualification v target) (\<lambda>_.
     bindC (active_runtime v) (\<lambda>previous.
     bindC (ensure_commit v repo target) (\<lambda>_.
     bindC (tracked_clean v repo) (\<lambda>clean.
     bindC (need clean ''self-update source repository has tracked local modifications'') (\<lambda>_.
     bindC (checked_out v repo) (\<lambda>current.
     bindC (need (current = ''main'') ''self-update source repository must remain on main'') (\<lambda>_.
     bindC (head_of v repo) (\<lambda>head.
     bindC (sgit_try v repo (ancestor_args head target)) (\<lambda>(rc, _).
     bindC (need (rc = 0) ''self-update target is not a fast-forward descendant of current main'') (\<lambda>_.
     bindC (sgit v repo [''rev-parse'', ''refs/heads/'' @ b]) (\<lambda>tip.
     bindC (need (py_strip tip = target) ''self-update safe branch no longer points at the qualified target'') (\<lambda>_.
     ret \<lparr>so_target = target, so_repo = repo, so_transaction = obj_get (JObj h) ''transaction_id'',
       so_previous = previous, so_head = head\<rparr>))))))))))))))"

definition remote_args :: "str list" where
  "remote_args = [''ls-remote'', ''--heads'', ''origin'', ''refs/heads/main'']"

definition main_push_args :: "str \<Rightarrow> str list" where
  "main_push_args target = [''push'', ''origin'', target @ '':refs/heads/main'']"

definition promote_remote :: "su_env \<Rightarrow> su_order \<Rightarrow> unit su" where
  "promote_remote v od =
     bindC (sgit v (so_repo od) remote_args) (\<lambda>out.
       if (case words_of out of w # _ \<Rightarrow> w = so_target od | [] \<Rightarrow> False) then ret ()
       else bindC (sgit_try v (so_repo od) (main_push_args (so_target od))) (\<lambda>(rc, _).
         need (rc = 0) ''self-update could not fast-forward origin/main''))"

definition transaction_text :: "su_env \<Rightarrow> json \<Rightarrow> str" where
  "transaction_text v x =
     (case x of
        JStr s \<Rightarrow> if s = [] then ''self-update'' else s
      | _ \<Rightarrow> if x \<in> {JNull, JBool False, JList [], JObj []} \<or> py_eq_int x 0 then ''self-update'' else sv_repr v x)"

definition promote_local :: "su_env \<Rightarrow> su_order \<Rightarrow> unit su" where
  "promote_local v od =
     bindC (head_of v (so_repo od)) (\<lambda>h.
       if h = so_target od then ret ()
       else promote_local_main v (so_repo od) (so_target od) (so_head od) (transaction_text v (so_transaction od)))"

definition restart_with :: "su_env \<Rightarrow> str \<Rightarrow> unit su" where
  "restart_with v mark =
     bindC (unlink_file v (health_file v)) (\<lambda>_. bindC (journal v [(mark, JBool True)]) (\<lambda>_. restart_daemon v))"

definition switch_to :: "su_env \<Rightarrow> str \<times> str \<Rightarrow> str \<Rightarrow> unit su" where
  "switch_to v r mark = bindC (write_active v (fst r) (snd r)) (\<lambda>_. restart_with v mark)"

definition fall_back :: "su_env \<Rightarrow> str \<times> str \<Rightarrow> unit su" where
  "fall_back v previous =
     bindC (switch_to v previous ''rollback_started'') (\<lambda>_.
     bindC (wait_health v (fst previous)) (\<lambda>ok.
       if ok then bindC (journal v [(''status'', JStr ''rolled-back'')]) (\<lambda>_.
         refused ''self-update target failed health check; previous runtime restored'')
       else bindC (journal v [(''status'', JStr ''rollback-health-failed'')]) (\<lambda>_.
         refused ''self-update target failed health check and rollback health check failed'')))"

definition finish_update :: "su_env \<Rightarrow> str \<Rightarrow> int su" where
  "finish_update v handoff =
     bindC (journal v [(''status'', JStr ''success''), (''health_verified'', JBool True)]) (\<lambda>_.
     bindC (unlink_file v handoff) (\<lambda>_. ret 0))"

definition activate :: "su_env \<Rightarrow> str \<Rightarrow> su_order \<Rightarrow> str \<Rightarrow> int su" where
  "activate v handoff od runtime =
     bindC (switch_to v (so_target od, runtime) ''active_runtime_switched'') (\<lambda>_.
     bindC (wait_health v (so_target od)) (\<lambda>ok.
     bindC (if ok then ret () else fall_back v (so_previous od)) (\<lambda>_. finish_update v handoff)))"

definition promote_all :: "su_env \<Rightarrow> su_order \<Rightarrow> str su" where
  "promote_all v od =
     bindC (install_runtime v (so_repo od) (so_target od)) (\<lambda>runtime.
     bindC (journal v [(''transaction_id'', so_transaction od), (''target_sha'', JStr (so_target od)),
       (''previous_sha'', JStr (fst (so_previous od))), (''runtime_installed'', JBool True)]) (\<lambda>_.
     bindC (promote_remote v od) (\<lambda>_.
     bindC (journal v [(''remote_promoted'', JBool True)]) (\<lambda>_.
     bindC (promote_local v od) (\<lambda>_.
     bindC (journal v [(''local_promoted'', JBool True)]) (\<lambda>_.
     ret runtime))))))"

definition carry_out_order :: "su_env \<Rightarrow> str \<Rightarrow> su_order \<Rightarrow> int su" where
  "carry_out_order v handoff od = bindC (promote_all v od) (activate v handoff od)"

text \<open>The lock is released by closing its file, which is not an event.\<close>

definition run_supervisor :: "su_env \<Rightarrow> str option \<Rightarrow> int su" where
  "run_supervisor v path =
     (let handoff = (case path of Some p \<Rightarrow> p | None \<Rightarrow> handoff_file v) in
      bindC (ask (sv_locked v)) (\<lambda>busy.
        if busy then ret 0 else bindC (read_order v handoff) (carry_out_order v handoff)))"

subsection \<open>Steps that promote a commit\<close>

definition writes_pointer :: "su_env \<Rightarrow> su_event \<Rightarrow> bool" where
  "writes_pointer v e = (case e of SSave p _ \<Rightarrow> p = active_runtime_path v | _ \<Rightarrow> False)"

definition promotes :: "su_env \<Rightarrow> su_event \<Rightarrow> bool" where
  "promotes v e =
     (writes_pointer v e \<or> (case e of SGit _ args \<Rightarrow> take 1 args \<in> {[''push''], [''-c''], [''update-ref''], [''reset'']} | _ \<Rightarrow> False))"

abbreviation still :: "su_env \<Rightarrow> 'a su \<Rightarrow> bool" where
  "still v \<equiv> only (\<lambda>e. \<not> promotes v e)"

lemmas su_args = clean_args_def branch_args_def commit_args_def promote_args_def reflog_args_def take_back_args_def
  ancestor_args_def remote_args_def main_push_args_def

lemma still_try: "take 1 args \<notin> {[''push''], [''-c''], [''update-ref''], [''reset'']} \<Longrightarrow> still v (sgit_try v repo args)"
  unfolding sgit_try_def by (rule only_logged) (simp add: promotes_def writes_pointer_def)

lemma still_git: "take 1 args \<notin> {[''push''], [''-c''], [''update-ref''], [''reset'']} \<Longrightarrow> still v (sgit v repo args)"
  unfolding sgit_def by (auto intro!: only_rules still_try)

lemma still_effects [only_rules]:
  "still v (load_file v p)" "still v (unlink_file v p)" "still v (launchctl v args)" "still v (logged SSleep f)"
  "still v (save_file v (journal_file v) kvs)" "still v (sha_of x)"
  by (auto intro!: only_rules simp: load_file_def unlink_file_def launchctl_def save_file_def sha_of_def promotes_def writes_pointer_def
      journal_file_def active_runtime_path_def state_dir_def install_root_def split: option.split)

lemma only_undoing [only_rules]: "only ok m \<Longrightarrow> ok e \<Longrightarrow> only ok (undoing m e)"
  unfolding only_def undoing_def by (auto split: prod.split sum.split) (metis adds_snoc adds_trans snd_conv)+

lemma still_reads [only_rules]:
  "still v (tracked_clean v repo)" "still v (checked_out v repo)" "still v (head_of v repo)" "still v (ensure_commit v repo sha)"
  "still v (require_qualification v sha)" "still v (active_runtime v)" "still v (order_of h)" "still v (at_main v repo sha)"
  "still v (restart_daemon v)" "still v (journal v entries)" "still v (install_runtime v repo sha)"
proof -
  show reads: "still v (tracked_clean v repo)" "still v (checked_out v repo)" "still v (head_of v repo)"
    "still v (ensure_commit v repo sha)" for repo sha
    unfolding tracked_clean_def checked_out_def head_of_def ensure_commit_def
    by (auto intro!: only_rules still_git still_try simp: su_args)
  show "still v (require_qualification v sha)" "still v (active_runtime v)" "still v (order_of h)"
    unfolding require_qualification_def qualification_path_def active_runtime_def order_of_def
    by (auto intro!: only_rules split: json.split)
  show "still v (at_main v repo sha)" unfolding at_main_def by (intro only_rules reads)
  show "still v (restart_daemon v)" "still v (journal v entries)"
    unfolding restart_daemon_def journal_def Let_def by (auto intro!: only_rules)
  show "still v (install_runtime v repo sha)"
    unfolding install_runtime_def Let_def by (auto intro!: only_rules simp: promotes_def writes_pointer_def)
qed

lemma still_healthy [only_rules]: "still v (healthy v sha)"
  unfolding healthy_def by (auto intro!: only_rules)

lemma still_poll [only_rules]: "still v (poll_health v sha d n)"
  by (induction n) (auto intro!: only_rules)

lemma still_wait [only_rules]: "still v (wait_health v sha)"
  unfolding wait_health_def by (intro only_rules)

lemma still_phases [only_rules]: "still v (restart_with v mark)" "still v (finish_update v handoff)"
  unfolding restart_with_def finish_update_def by (intro only_rules)+

lemma still_read_order [only_rules]: "still v (read_order v h)"
  unfolding read_order_def Let_def by (auto intro!: only_rules still_try still_git simp: su_args)

lemma still_logs: "still v m \<Longrightarrow> logs m"
  by (rule only_logs)

lemma su_logs:
  "logs (sgit_try v repo args)" "logs (sgit v repo args)" "logs (load_file v p)" "logs (sha_of x)"
  "logs (tracked_clean v repo)" "logs (checked_out v repo)" "logs (head_of v repo)" "logs (ensure_commit v repo sha)"
  "logs (require_qualification v sha)" "logs (active_runtime v)" "logs (order_of h)" "logs (at_main v repo sha)"
  "logs (journal v entries)" "logs (install_runtime v repo sha)" "logs (healthy v sha)" "logs (wait_health v sha)"
  "logs (restart_daemon v)" "logs (read_order v hp)"
proof -
  show tried: "logs (sgit_try v repo args)" for repo args unfolding sgit_try_def by (rule only_logged) simp
  show "logs (sgit v repo args)" unfolding sgit_def by (auto intro!: only_rules tried)
qed (rule still_logs, rule only_rules)+

subsection \<open>What the answers show\<close>

definition git_answered :: "su_env \<Rightarrow> su_event list \<Rightarrow> su_event list \<Rightarrow> str \<Rightarrow> str list \<Rightarrow> int \<times> str \<Rightarrow> bool" where
  "git_answered v t0 us repo args r = (\<exists>vs. prefix t0 vs \<and> prefix (vs @ [SGit repo args]) us \<and> sv_git v vs repo args = Some r)"

definition was_loaded :: "su_env \<Rightarrow> su_event list \<Rightarrow> su_event list \<Rightarrow> str \<Rightarrow> fields \<Rightarrow> bool" where
  "was_loaded v t0 us p kvs = (\<exists>vs. prefix t0 vs \<and> prefix (vs @ [SLoad p]) us \<and> sv_load v vs p = Inr kvs)"

named_theorems shown

lemma shown_plain [shown]:
  "yields (ret x) (\<lambda>y _ _. y = x)" "yields (need b m) (\<lambda>_ _ _. b)" "yields (refused m) (\<lambda>_ _ _. False)"
  "yields (ask f) (\<lambda>x t0 us. \<exists>vs. prefix t0 vs \<and> prefix vs us \<and> x = f vs)"
  by (auto simp: yields_def ask_def)

lemma shown_try [shown]: "yields (sgit_try v repo args) (\<lambda>r t0 us. git_answered v t0 us repo args r)"
  by (rule yieldsI) (auto simp: sgit_try_def logged_Inr git_answered_def split: option.splits)

lemma shown_git [shown]: "yields (sgit v repo args) (\<lambda>out t0 us. git_answered v t0 us repo args (0, out))"
  unfolding sgit_def
  by (rule yieldsI) (auto simp: bindC_Inr split: if_splits dest!: yieldsD [OF shown_try])

lemma shown_load [shown]: "yields (load_file v p) (\<lambda>kvs t0 us. was_loaded v t0 us p kvs)"
  by (rule yieldsI) (auto simp: load_file_def logged_Inr was_loaded_def)

lemma shown_sha [shown]: "yields (sha_of x) (\<lambda>s _ _. full_sha x = Some s)"
  by (auto simp: yields_def sha_of_def split: option.splits)

lemma full_sha_same: "full_sha x = Some s \<Longrightarrow> full_sha (JStr s) = Some s"
  by (auto simp: full_sha_def split: json.splits if_splits)

definition clean_seen :: "su_env \<Rightarrow> str \<Rightarrow> su_event list \<Rightarrow> su_event list \<Rightarrow> bool" where
  "clean_seen v repo t0 us = (\<exists>out. git_answered v t0 us repo clean_args (0, out) \<and> py_strip out = [])"

definition branch_seen :: "su_env \<Rightarrow> str \<Rightarrow> str \<Rightarrow> su_event list \<Rightarrow> su_event list \<Rightarrow> bool" where
  "branch_seen v repo b t0 us = (\<exists>out. git_answered v t0 us repo branch_args (0, out) \<and> py_strip out = b)"

definition head_seen :: "su_env \<Rightarrow> str \<Rightarrow> str \<Rightarrow> su_event list \<Rightarrow> su_event list \<Rightarrow> bool" where
  "head_seen v repo h t0 us = (\<exists>out. git_answered v t0 us repo [''rev-parse'', ''HEAD''] (0, out) \<and> py_strip out = h)"

definition main_seen :: "su_env \<Rightarrow> str \<Rightarrow> str \<Rightarrow> su_event list \<Rightarrow> su_event list \<Rightarrow> bool" where
  "main_seen v repo h t0 us = (branch_seen v repo ''main'' t0 us \<and> head_seen v repo h t0 us \<and> clean_seen v repo t0 us)"

lemma shown_clean [shown]: "yields (tracked_clean v repo) (\<lambda>ok t0 us. if ok then clean_seen v repo t0 us else True)"
  unfolding tracked_clean_def
  apply (rule yields_mono)
   apply (rule yields_bind yields_pair shown su_logs only_rules only_flow)+
  apply (auto simp: clean_seen_def)
  done

lemma shown_branch [shown]: "yields (checked_out v repo) (\<lambda>b t0 us. branch_seen v repo b t0 us)"
  unfolding checked_out_def
  apply (rule yields_mono)
   apply (rule yields_bind yields_pair yields_if shown su_logs only_rules only_flow)+
  apply (auto simp: branch_seen_def split: if_splits)
  done

lemma shown_head [shown]: "yields (head_of v repo) (\<lambda>h t0 us. head_seen v repo h t0 us)"
  unfolding head_of_def
  apply (rule yields_mono)
   apply (rule yields_bind shown su_logs only_rules only_flow)+
  apply (auto simp: head_seen_def)
  done

lemma shown_at_main [shown]: "yields (at_main v repo sha) (\<lambda>ok t0 us. if ok then main_seen v repo sha t0 us else True)"
  unfolding at_main_def
  apply (rule yields_mono)
   apply (rule yields_andalso yields_bind shown su_logs only_rules only_flow)+
  apply (auto simp: main_seen_def split: if_splits)
  done

text \<open>An order that the supervisor accepted: the handoff names a commit and a safe branch, the commit has its
  receipt and is present, the pointer of the active runtime was read, the repository is on a clean main branch
  whose head is an ancestor of the commit, and the safe branch points at the commit.\<close>

definition receipt_seen :: "su_env \<Rightarrow> str \<Rightarrow> su_event list \<Rightarrow> su_event list \<Rightarrow> bool" where
  "receipt_seen v sha t0 us = (\<exists>q. was_loaded v t0 us (state_dir v @ ''/qualifications/'' @ sha @ ''.json'') q \<and> qualifies sha q)"

definition names_runtime :: "fields \<Rightarrow> str \<times> str \<Rightarrow> bool" where
  "names_runtime kvs r = (full_sha (obj_get (JObj kvs) ''sha'') = Some (fst r) \<and> obj_get (JObj kvs) ''path'' = JStr (snd r))"

definition pointer_seen :: "su_env \<Rightarrow> str \<times> str \<Rightarrow> su_event list \<Rightarrow> su_event list \<Rightarrow> bool" where
  "pointer_seen v r t0 us = (\<exists>kvs. was_loaded v t0 us (active_runtime_path v) kvs \<and> names_runtime kvs r)"

definition orders :: "fields \<Rightarrow> str \<Rightarrow> str \<Rightarrow> str \<Rightarrow> bool" where
  "orders h target b r =
     (py_eq_int (obj_get (JObj h) ''version'') 1 \<and> full_sha (obj_get (JObj h) ''target_sha'') = Some target
      \<and> obj_get (JObj h) ''source_branch'' = JStr b \<and> prefix ''ai/'' b \<and> obj_get (JObj h) ''source_repo'' = JStr r \<and> r \<noteq> [])"

definition approved :: "su_env \<Rightarrow> str \<Rightarrow> su_order \<Rightarrow> su_event list \<Rightarrow> su_event list \<Rightarrow> bool" where
  "approved v hp od t0 us =
     (\<exists>h b r out tip. was_loaded v t0 us hp h \<and> orders h (so_target od) b r \<and> so_repo od = sv_resolve v r
        \<and> receipt_seen v (so_target od) t0 us \<and> pointer_seen v (so_previous od) t0 us
        \<and> git_answered v t0 us (so_repo od) (commit_args (so_target od)) (0, out)
        \<and> main_seen v (so_repo od) (so_head od) t0 us
        \<and> (\<exists>out. git_answered v t0 us (so_repo od) (ancestor_args (so_head od) (so_target od)) (0, out))
        \<and> git_answered v t0 us (so_repo od) [''rev-parse'', ''refs/heads/'' @ b] (0, tip) \<and> py_strip tip = so_target od)"

lemma shown_receipt [shown]: "yields (require_qualification v sha) (\<lambda>_ t0 us. receipt_seen v sha t0 us \<and> full_sha (JStr sha) = Some sha)"
  unfolding require_qualification_def qualification_path_def bindC_assoc
  apply (rule yields_mono)
   apply (rule yields_bind shown su_logs only_rules only_flow)+
  apply (auto simp: receipt_seen_def full_sha_def split: json.splits if_splits)
  done

lemma active_runtime_Inr:
  assumes "active_runtime v tr = (Inr r, us)"
  shows "\<exists>kvs. load_file v (active_runtime_path v) tr = (Inr kvs, us) \<and> names_runtime kvs r"
proof -
  from assms obtain kvs vs where l: "load_file v (active_runtime_path v) tr = (Inr kvs, vs)"
    and r: "bindC (sha_of (obj_get (JObj kvs) ''sha'')) (\<lambda>s.
       case obj_get (JObj kvs) ''path'' of
         JStr p \<Rightarrow> if p = [] then refused ''self-update runtime pointer is invalid'' else ret (s, p)
       | _ \<Rightarrow> refused ''self-update runtime pointer is invalid'') vs = (Inr r, us)"
    unfolding active_runtime_def by (simp only: bindC_Inr need_Inr ask_def prod.inject sum.inject) blast
  from r have "names_runtime kvs r \<and> vs = us"
    by (cases "obj_get (JObj kvs) ''path''")
      (auto simp: bindC_Inr sha_of_def names_runtime_def simp del: obj_get_JObj split: option.splits if_splits)
  with l show ?thesis by blast
qed

lemma shown_pointer [shown]: "yields (active_runtime v) (\<lambda>r t0 us. pointer_seen v r t0 us)"
  unfolding pointer_seen_def by (rule yieldsI) (meson active_runtime_Inr yieldsD [OF shown_load])

lemma order_of_Inr: "order_of h tr = (Inr x, us) \<Longrightarrow> orders h (fst x) (fst (snd x)) (snd (snd x)) \<and> us = tr"
  unfolding order_of_def
  by (cases "obj_get (JObj h) ''source_branch''"; cases "obj_get (JObj h) ''source_repo''")
    (auto simp: bindC_Inr sha_of_def orders_def simp del: obj_get_JObj split: option.splits)

lemma shown_order [shown]: "yields (order_of h) (\<lambda>x _ _. orders h (fst x) (fst (snd x)) (snd (snd x)))"
  by (rule yieldsI) (blast dest: order_of_Inr)

lemma shown_commit [shown]:
  "yields (ensure_commit v repo sha) (\<lambda>_ t0 us. \<exists>out. git_answered v t0 us repo (commit_args sha) (0, out))"
  unfolding ensure_commit_def
  apply (rule yields_mono)
   apply (rule yields_bind yields_pair shown su_logs only_rules only_flow)+
  apply auto
  done

lemma shown_read_order [shown]: "yields (read_order v hp) (\<lambda>od t0 us. approved v hp od t0 us)"
  unfolding read_order_def Let_def
  apply (rule yields_mono)
   apply (rule yields_bind yields_pair shown su_logs only_rules only_flow)+
  apply (clarsimp simp: approved_def main_seen_def)
  apply blast
  done

lemma shown_install [shown]:
  "yields (install_runtime v repo sha) (\<lambda>p _ _. p = runtimes_dir v @ ''/'' @ sha)"
  by (rule yieldsI) (auto simp: install_runtime_def Let_def bindC_Inr ask_def undoing_def split: if_splits prod.splits sum.splits)

subsection \<open>Every promotion is accounted for\<close>

definition remote_done :: "su_env \<Rightarrow> su_order \<Rightarrow> su_event list \<Rightarrow> su_event list \<Rightarrow> bool" where
  "remote_done v od t0 us =
     ((\<exists>out ws. git_answered v t0 us (so_repo od) remote_args (0, out) \<and> words_of out = so_target od # ws)
      \<or> (\<exists>out. git_answered v t0 us (so_repo od) (main_push_args (so_target od)) (0, out)))"

definition new_pointer :: "su_env \<Rightarrow> su_order \<Rightarrow> fields" where
  "new_pointer v od = pointer (so_target od) (runtimes_dir v @ ''/'' @ so_target od)"

inductive promotion :: "su_env \<Rightarrow> str \<Rightarrow> su_event list \<Rightarrow> su_event list \<Rightarrow> su_event \<Rightarrow> bool" for v hp t0 us where
  pushes: "approved v hp od t0 us \<Longrightarrow> promotion v hp t0 us (SGit (so_repo od) (main_push_args (so_target od)))"
| merges: "approved v hp od t0 us \<Longrightarrow> remote_done v od t0 vs \<Longrightarrow> main_seen v (so_repo od) (so_head od) vs us
    \<Longrightarrow> promotion v hp t0 us (SGit (so_repo od) (promote_args (so_target od)))"
| takes_back: "git_answered v t0 vs repo (promote_args target) (0, out) \<Longrightarrow> branch_seen v repo b vs us \<Longrightarrow> b \<noteq> ''main''
    \<Longrightarrow> head_seen v repo target vs us \<Longrightarrow> clean_seen v repo vs us
    \<Longrightarrow> git_answered v vs us repo (reflog_args b) (0, answer) \<Longrightarrow> lines_of answer = target # prev # older
    \<Longrightarrow> promotion v hp t0 us (SGit repo (take_back_args txid b prev target))"
| resets: "git_answered v t0 us repo (take_back_args txid b prev target) (0, out)
    \<Longrightarrow> promotion v hp t0 us (SGit repo [''reset'', ''--hard'', prev])"
| switches: "approved v hp od t0 us \<Longrightarrow> remote_done v od t0 vs \<Longrightarrow> head_seen v (so_repo od) (so_target od) vs us
    \<Longrightarrow> promotion v hp t0 us (SSave (active_runtime_path v) (new_pointer v od))"
| restores: "approved v hp od t0 us \<Longrightarrow> prefix t0 vs \<Longrightarrow> prefix (vs @ [SSave (active_runtime_path v) (new_pointer v od)]) us
    \<Longrightarrow> promotion v hp t0 us (SSave (active_runtime_path v) (pointer (fst (so_previous od)) (snd (so_previous od))))"

definition supervised :: "su_env \<Rightarrow> str \<Rightarrow> su_event list \<Rightarrow> su_event list \<Rightarrow> su_event \<Rightarrow> bool" where
  "supervised v hp t0 us e = (if promotes v e then promotion v hp t0 us e else True)"

lemma supervisedI: "promotion v hp t0 us e \<Longrightarrow> supervised v hp t0 us e"
  by (simp add: supervised_def)

lemma keeps_still: "still v m \<Longrightarrow> keeps (supervised v hp t0) m tr"
  by (rule keeps_only, assumption) (simp add: supervised_def)

lemma keeps_sgit: "promotion v hp t0 tr (SGit repo args) \<Longrightarrow> keeps (supervised v hp t0) (sgit_try v repo args) tr"
  unfolding sgit_try_def by (rule keeps_logged) (rule supervisedI)

lemma git_later: "git_answered v t0 us repo args r \<Longrightarrow> prefix us vs \<Longrightarrow> git_answered v t0 vs repo args r"
  unfolding git_answered_def by (meson prefix_order.trans)

lemma loaded_later: "was_loaded v t0 us p kvs \<Longrightarrow> prefix us vs \<Longrightarrow> was_loaded v t0 vs p kvs"
  unfolding was_loaded_def by (meson prefix_order.trans)

lemma seen_later:
  "branch_seen v repo b t0 us \<Longrightarrow> prefix us vs \<Longrightarrow> branch_seen v repo b t0 vs"
  "head_seen v repo b t0 us \<Longrightarrow> prefix us vs \<Longrightarrow> head_seen v repo b t0 vs"
  "clean_seen v repo t0 us \<Longrightarrow> prefix us vs \<Longrightarrow> clean_seen v repo t0 vs"
  unfolding branch_seen_def head_seen_def clean_seen_def by (blast intro: git_later)+

lemma main_later: "main_seen v repo h t0 us \<Longrightarrow> prefix us vs \<Longrightarrow> main_seen v repo h t0 vs"
  unfolding main_seen_def by (blast intro: seen_later)

lemma approved_later: "approved v hp od t0 us \<Longrightarrow> prefix us vs \<Longrightarrow> approved v hp od t0 vs"
  unfolding approved_def receipt_seen_def pointer_seen_def by (blast intro: git_later loaded_later main_later)

lemma remote_later: "remote_done v od t0 us \<Longrightarrow> prefix us vs \<Longrightarrow> remote_done v od t0 vs"
  unfolding remote_done_def by (blast intro: git_later)

lemma keeps_retract:
  assumes "promotion v hp t0 tr (SGit repo (take_back_args txid b prev target))" "prefix t0 tr"
  shows "keeps (supervised v hp t0) (retract v repo target txid b prev) tr"
  unfolding retract_def
proof (rule known_step [OF keeps_sgit [OF assms(1)] su_logs(1) shown_try assms(2)], intro keeps_pair keeps_if keeps_leaf)
  fix r us rc out
  assume r: "\<And>vs. prefix us vs \<Longrightarrow> git_answered v t0 vs repo (take_back_args txid b prev target) r" "r = (rc, out)" "\<not> rc \<noteq> 0"
    and us: "prefix t0 us"
  show "keeps (supervised v hp t0) (reset_branch v repo b prev) us"
    unfolding reset_branch_def
  proof (rule known_step [OF keeps_still su_logs(6) yields_any us], rule only_rules)
    fix now xs assume "prefix us xs"
    then have "promotion v hp t0 xs (SGit repo [''reset'', ''--hard'', prev])" using r by (intro promotion.resets) auto
    then show "keeps (supervised v hp t0) (if now \<noteq> b then ret ()
        else bindC (sgit_try v repo [''reset'', ''--hard'', prev]) (\<lambda>(rc, _).
          need (rc = 0) ''self-update branch-switch rollback requires manual inspection'')) xs"
      by (intro keeps_if keeps_leaf keeps_bind keeps_pair keeps_sgit) (auto intro: keeps_still only_rules)
  qed
qed

lemma keeps_take_back:
  assumes pre: "prefix t0 vs0" "prefix vs0 tr" and merged: "git_answered v t0 vs0 repo (promote_args target) (0, out)"
    and seen: "branch_seen v repo b vs0 tr" "b \<noteq> ''main''" "head_seen v repo target vs0 tr" "clean_seen v repo vs0 tr"
  shows "keeps (supervised v hp t0) (take_back v repo target txid b) tr"
  unfolding take_back_def
proof (rule known_step [OF keeps_still su_logs(1) shown_try pre(2)])
  fix r us assume log: "\<And>vs. prefix us vs \<Longrightarrow> git_answered v vs0 vs repo (reflog_args b) r" and us: "prefix tr us"
  have t0: "prefix t0 us" using pre us by (meson prefix_order.trans)
  obtain rc answer where r: "r = (rc, answer)" by (cases r)
  have "keeps (supervised v hp t0) (retract v repo target txid b prev) us"
    if "rc = 0" "lines_of answer = target # prev # older" for prev older
    using log [of us] r that us seen
    by (intro keeps_retract promotion.takes_back [OF merged _ seen(2)] t0) (auto intro: seen_later)
  then show "keeps (supervised v hp t0) (case r of (rc, out) \<Rightarrow>
      (case lines_of out of
         tip # prev # _ \<Rightarrow> if rc \<noteq> 0 \<or> tip \<noteq> target then ret () else retract v repo target txid b prev
       | _ \<Rightarrow> ret ())) us"
    unfolding r by (auto intro: keeps_leaf split: list.split)
qed (auto intro: still_try simp: su_args)

lemma keeps_gone_astray:
  assumes pre: "prefix t0 vs0" "prefix vs0 tr" and merged: "git_answered v t0 vs0 repo (promote_args target) (0, out)"
    and seen: "branch_seen v repo b vs0 tr" "head_seen v repo h vs0 tr"
  shows "keeps (supervised v hp t0) (gone_astray v repo target txid b h) tr"
  unfolding gone_astray_def
proof (rule known_step [OF keeps_still _ yields_if [OF shown_clean shown_plain(1)] pre(2)])
  fix astray us
  assume a: "\<And>vs. prefix us vs \<Longrightarrow> if b \<noteq> ''main'' \<and> h = target then if astray then clean_seen v repo vs0 vs else True
      else astray = False" and us: "prefix tr us" "prefix vs0 us"
  have "keeps (supervised v hp t0) (take_back v repo target txid b) us" if astray
    using a [OF prefix_order.refl] that seen us
    by (intro keeps_take_back [OF pre(1) us(2) merged]) (auto intro: seen_later split: if_splits)
  then show "keeps (supervised v hp t0) (bindC (if astray then take_back v repo target txid b else ret ()) (\<lambda>_.
      refused ''self-update current branch changed during local promotion'')) us"
    by (intro keeps_bind keeps_leaf keeps_if)
qed (auto intro: only_rules su_logs)

lemma keeps_settle_main:
  assumes pre: "prefix t0 tr" and merged: "git_answered v t0 tr repo (promote_args target) (0, out)"
  shows "keeps (supervised v hp t0) (settle_main v repo target txid) tr"
  unfolding settle_main_def
proof (rule known_step [OF keeps_still su_logs(6) shown_branch prefix_order.refl], rule only_rules)
  fix b us assume b: "\<And>vs. prefix us vs \<Longrightarrow> branch_seen v repo b tr vs" and us: "prefix tr us"
  show "keeps (supervised v hp t0) (bindC (head_of v repo) (\<lambda>h.
     bindC (if b = ''main'' \<and> h = target then tracked_clean v repo else ret False) (\<lambda>there.
       if there then ret () else gone_astray v repo target txid b h))) us"
  proof (rule known_step [OF keeps_still su_logs(7) shown_head us], rule only_rules)
    fix h ws assume h: "\<And>vs. prefix ws vs \<Longrightarrow> head_seen v repo h tr vs" and ws: "prefix us ws" "prefix tr ws"
    show "keeps (supervised v hp t0)
        (bindC (if b = ''main'' \<and> h = target then tracked_clean v repo else ret False) (\<lambda>there.
          if there then ret () else gone_astray v repo target txid b h)) ws"
    proof (rule known_step [OF keeps_still _ yields_any ws(2)], rule only_flow)
      fix there xs assume xs: "prefix ws xs" "prefix tr xs"
      then have "prefix us xs" using ws by (meson prefix_order.trans)
      then show "keeps (supervised v hp t0) (if there then ret () else gone_astray v repo target txid b h) xs"
        by (intro keeps_if keeps_leaf keeps_gone_astray [OF pre xs(2) merged] b h xs(1))
    qed (auto intro: only_rules su_logs)
  qed
qed

lemma keeps_promote_local_main:
  assumes approved: "approved v hp od t0 vs0" and pre: "prefix t0 vs0" "prefix vs0 tr"
    and remote: "remote_done v od t0 vs0"
  shows "keeps (supervised v hp t0) (promote_local_main v (so_repo od) (so_target od) (so_head od) txid) tr"
  unfolding promote_local_main_def
proof (rule known_step [OF keeps_still su_logs(12) shown_at_main pre(2)], rule only_rules, rule keeps_need)
  fix ok us assume main: "\<And>vs. prefix us vs \<Longrightarrow> if ok then main_seen v (so_repo od) (so_head od) vs0 vs else True"
    and us: "prefix tr us" "prefix vs0 us" and ok: "ok"
  have t0: "prefix t0 us" using pre us by (meson prefix_order.trans)
  have merge: "promotion v hp t0 us (SGit (so_repo od) (promote_args (so_target od)))"
    using main [of us] ok by (intro promotion.merges [OF _ remote] approved_later [OF approved us(2)]) simp
  show "keeps (supervised v hp t0) (bindC (sgit_try v (so_repo od) (promote_args (so_target od))) (\<lambda>(rc, _).
     bindC (need (rc = 0) ''self-update could not fast-forward local main'') (\<lambda>_.
     settle_main v (so_repo od) (so_target od) txid))) us"
    by (rule known_step [OF keeps_sgit [OF merge] su_logs(1) shown_try t0], intro keeps_pair keeps_need)
      (auto intro: keeps_settle_main)
qed

lemma logs_take_back: "logs (take_back v repo target txid b)"
  unfolding take_back_def retract_def reset_branch_def
  by (auto intro!: only_rules su_logs split: list.split)

lemma logs_settle: "logs (gone_astray v repo target txid b h)" "logs (settle_main v repo target txid)"
  unfolding settle_main_def gone_astray_def by (auto intro!: only_rules su_logs logs_take_back)

lemma logs_promotions: "logs (promote_local_main v repo target h txid)" "logs (promote_remote v od)" "logs (promote_local v od)"
  unfolding promote_remote_def promote_local_def promote_local_main_def
  by (auto intro!: only_rules su_logs logs_settle)

lemma shown_gone_astray: "yields (gone_astray v repo target txid b h) (\<lambda>_ _ _. False)"
  by (rule yieldsI) (auto simp: gone_astray_def bindC_Inr)

lemma shown_settle_main: "yields (settle_main v repo target txid) (\<lambda>_ t0 us. head_seen v repo target t0 us)"
  unfolding settle_main_def
  apply (rule yields_mono)
   apply (rule yields_bind yields_if shown shown_gone_astray su_logs logs_settle only_rules only_flow)+
  apply (auto split: if_splits)
  done

lemma shown_promote_local_main: "yields (promote_local_main v repo target h txid) (\<lambda>_ t0 us. head_seen v repo target t0 us)"
  unfolding promote_local_main_def
  apply (rule yields_mono)
   apply (rule yields_bind yields_pair shown shown_settle_main su_logs logs_settle only_rules only_flow)+
  apply auto
  done

lemma shown_promote_local: "yields (promote_local v od) (\<lambda>_ t0 us. head_seen v (so_repo od) (so_target od) t0 us)"
  unfolding promote_local_def
  apply (rule yields_mono)
   apply (rule yields_bind)
      apply (rule su_logs)
     apply (intro only_flow only_rules logs_promotions)
    apply (rule shown)
   apply (rule yields_if)
    apply (rule shown shown_promote_local_main)+
  apply (auto split: if_splits)
  done

lemma shown_promote_remote: "yields (promote_remote v od) (\<lambda>_ t0 us. remote_done v od t0 us)"
  unfolding promote_remote_def
  apply (rule yields_mono)
   apply (rule yields_bind yields_pair yields_if shown su_logs only_rules only_flow)+
  apply (auto simp: remote_done_def split: if_splits list.splits)
  done

lemma keeps_promote_remote:
  assumes "approved v hp od t0 tr" "prefix t0 tr"
  shows "keeps (supervised v hp t0) (promote_remote v od) tr"
  unfolding promote_remote_def
proof (rule known_step [OF keeps_still su_logs(2) yields_any prefix_order.refl])
  fix out us assume "prefix tr us"
  then have "promotion v hp t0 us (SGit (so_repo od) (main_push_args (so_target od)))"
    by (intro promotion.pushes approved_later [OF assms(1)])
  then show "keeps (supervised v hp t0) (if (case words_of out of w # _ \<Rightarrow> w = so_target od | [] \<Rightarrow> False) then ret ()
      else bindC (sgit_try v (so_repo od) (main_push_args (so_target od))) (\<lambda>(rc, _).
         need (rc = 0) ''self-update could not fast-forward origin/main'')) us"
    by (intro keeps_if keeps_leaf keeps_bind keeps_pair keeps_sgit) (auto intro: keeps_still only_rules)
qed (auto intro: still_git simp: su_args)

lemma keeps_promote_local:
  assumes "approved v hp od t0 vs" "prefix t0 vs" "prefix vs tr" "remote_done v od t0 vs"
  shows "keeps (supervised v hp t0) (promote_local v od) tr"
  unfolding promote_local_def
proof (rule known_step [OF keeps_still su_logs(7) yields_any assms(3)], rule only_rules, rule keeps_if, rule keeps_leaf)
  fix us assume "prefix vs us"
  then show "keeps (supervised v hp t0) (promote_local_main v (so_repo od) (so_target od) (so_head od)
      (transaction_text v (so_transaction od))) us"
    by (rule keeps_promote_local_main [OF assms(1,2) _ assms(4)])
qed

lemma keeps_switch:
  assumes "promotion v hp t0 tr (SSave (active_runtime_path v) (pointer (fst r) (snd r)))"
  shows "keeps (supervised v hp t0) (switch_to v r mark) tr"
proof -
  have "keeps (supervised v hp t0) (write_active v (fst r) (snd r)) tr"
    unfolding write_active_def save_file_def
  proof (rule keeps_bind [OF keeps_still], rule only_rules)
    fix s us assume "sha_of (JStr (fst r)) tr = (Inr s, us)"
    then have "s = fst r" "us = tr" by (auto simp: sha_of_def full_sha_def split: if_splits)
    with assms show "keeps (supervised v hp t0) (logged (SSave (active_runtime_path v) (pointer s (snd r)))
        (\<lambda>tr. if sv_save v tr (active_runtime_path v) then Inr () else Inl Died)) us"
      by (intro keeps_logged supervisedI) simp
  qed
  then show ?thesis unfolding switch_to_def by (rule keeps_bind) (rule keeps_still, rule only_rules)
qed

lemma switched_pointer:
  assumes "switch_to v r mark tr = (Inr u, us)"
  shows "prefix (tr @ [SSave (active_runtime_path v) (pointer (fst r) (snd r))]) us"
proof -
  from assms obtain vs where w: "write_active v (fst r) (snd r) tr = (Inr (), vs)" and rest: "restart_with v mark vs = (Inr u, us)"
    by (auto simp: switch_to_def bindC_Inr)
  have "vs = tr @ [SSave (active_runtime_path v) (pointer (fst r) (snd r))]"
    using w by (auto simp: write_active_def bindC_Inr sha_of_def full_sha_def save_file_def logged_Inr split: if_splits)
  with only_prefix [OF still_phases(1) rest] show ?thesis by simp
qed

lemma still_after_fall [only_rules]: "still v (bindC (wait_health v sha) (\<lambda>ok. if ok then bindC (journal v a) (\<lambda>_. refused m)
    else bindC (journal v b) (\<lambda>_. refused n)))"
  by (intro only_rules only_flow)

lemma keeps_fall_back:
  assumes "approved v hp od t0 tr" "prefix t0 vs" "prefix (vs @ [SSave (active_runtime_path v) (new_pointer v od)]) tr"
  shows "keeps (supervised v hp t0) (fall_back v (so_previous od)) tr"
  unfolding fall_back_def
  by (rule keeps_bind [OF keeps_switch [OF promotion.restores [OF assms]] keeps_still]) (rule still_after_fall)

lemma keeps_activate:
  assumes approved: "approved v hp od t0 vs" and pre: "prefix t0 vs" "prefix vs tr"
    and remote: "remote_done v od t0 vs" and head: "head_seen v (so_repo od) (so_target od) vs tr"
  shows "keeps (supervised v hp t0) (activate v hp od (runtimes_dir v @ ''/'' @ so_target od)) tr"
  unfolding activate_def
proof (rule keeps_bind [OF keeps_switch])
  let ?new = "SSave (active_runtime_path v) (new_pointer v od)"
  have t0: "prefix t0 tr" using pre by (meson prefix_order.trans)
  have here: "approved v hp od t0 tr" by (rule approved_later [OF approved pre(2)])
  show "promotion v hp t0 tr (SSave (active_runtime_path v)
      (pointer (fst (so_target od, runtimes_dir v @ ''/'' @ so_target od)) (snd (so_target od, runtimes_dir v @ ''/'' @ so_target od))))"
    using promotion.switches [OF here remote head] by (simp add: new_pointer_def)
  fix u us assume "switch_to v (so_target od, runtimes_dir v @ ''/'' @ so_target od) ''active_runtime_switched'' tr = (Inr u, us)"
  then have us: "prefix (tr @ [?new]) us" using switched_pointer by (fastforce simp: new_pointer_def)
  then have "prefix tr us" by (meson append_prefixD)
  show "keeps (supervised v hp t0) (bindC (wait_health v (so_target od)) (\<lambda>ok.
     bindC (if ok then ret () else fall_back v (so_previous od)) (\<lambda>_. finish_update v hp))) us"
  proof (rule known_step [OF keeps_still su_logs(16) yields_any prefix_order.refl], rule only_rules)
    fix ok ws assume ws: "prefix us ws"
    have "keeps (supervised v hp t0) (fall_back v (so_previous od)) ws"
      using us ws \<open>prefix tr us\<close> by (intro keeps_fall_back [OF approved_later [OF here] t0]) (meson prefix_order.trans)+
    then show "keeps (supervised v hp t0) (bindC (if ok then ret () else fall_back v (so_previous od)) (\<lambda>_. finish_update v hp)) ws"
      by (intro keeps_bind [OF _ keeps_still [OF still_phases(2)]] keeps_if keeps_leaf)
  qed
qed

lemma ret_bind: "bindC (ret x) f = f x"
  by (simp add: bindC_def ret_def fun_eq_iff)

lemma keeps_carry_out_order:
  assumes "approved v hp od t0 tr" "prefix t0 tr"
  shows "keeps (supervised v hp t0) (carry_out_order v hp od) tr"
  unfolding carry_out_order_def promote_all_def bindC_assoc ret_bind
proof (rule known_step [OF keeps_still su_logs(14) shown_install prefix_order.refl], rule only_rules)
  fix runtime us assume r: "\<And>vs. prefix us vs \<Longrightarrow> runtime = runtimes_dir v @ ''/'' @ so_target od" and us: "prefix tr us"
  have a: "approved v hp od t0 us" by (rule approved_later [OF assms(1) us])
  have t0: "prefix t0 us" using assms(2) us by (meson prefix_order.trans)
  have runtime: "runtime = runtimes_dir v @ ''/'' @ so_target od" by (rule r [OF prefix_order.refl])
  show "keeps (supervised v hp t0) (bindC (journal v [(''transaction_id'', so_transaction od), (''target_sha'', JStr (so_target od)),
       (''previous_sha'', JStr (fst (so_previous od))), (''runtime_installed'', JBool True)]) (\<lambda>_.
     bindC (promote_remote v od) (\<lambda>_.
     bindC (journal v [(''remote_promoted'', JBool True)]) (\<lambda>_.
     bindC (promote_local v od) (\<lambda>_.
     bindC (journal v [(''local_promoted'', JBool True)]) (\<lambda>_.
     activate v hp od runtime)))))) us"
  proof (rule known_step [OF keeps_still su_logs(13) yields_any t0], rule only_rules, goal_cases)
    case (1 _ ws)
    have a: "approved v hp od t0 ws" by (rule approved_later [OF a 1(2)])
    show ?case
    proof (rule known_step [OF keeps_promote_remote [OF a 1(3)] logs_promotions(2) shown_promote_remote 1(3)], goal_cases)
      case (1 _ xs)
      note remote = 1(1) and a = approved_later [OF a 1(2)] and t0 = 1(3)
      show ?case
      proof (rule known_step [OF keeps_still su_logs(13) yields_any prefix_order.refl], rule only_rules, goal_cases)
        case (1 _ ys)
        have a: "approved v hp od t0 ys" and t0: "prefix t0 ys" and remote: "remote_done v od t0 ys"
          using a t0 1(2) remote by (auto intro: approved_later prefix_order.trans)
        show ?case
        proof (rule known_step [OF keeps_promote_local [OF a t0 prefix_order.refl remote] logs_promotions(3)
            shown_promote_local prefix_order.refl], goal_cases)
          case (1 _ zs)
          note head = 1(1) and zs = 1(3)
          show ?case
            unfolding runtime
            by (rule known_step [OF keeps_still su_logs(13) yields_any zs], rule only_rules,
              rule keeps_activate [OF a t0 _ remote head])
        qed
      qed
    qed
  qed
qed


subsection \<open>The pointer after a run\<close>

definition pointer_writes :: "su_env \<Rightarrow> su_event list \<Rightarrow> su_event list" where
  "pointer_writes v es = filter (writes_pointer v) es"

abbreviation steady :: "su_env \<Rightarrow> 'a su \<Rightarrow> bool" where
  "steady v \<equiv> only (\<lambda>e. \<not> writes_pointer v e)"

lemma still_steady: "still v m \<Longrightarrow> steady v m"
  by (erule only_mono) (simp add: promotes_def)

lemma steady_writes: "steady v m \<Longrightarrow> m tr = (r, us) \<Longrightarrow> pointer_writes v us = pointer_writes v tr"
  unfolding only_def adds_def pointer_writes_def by (metis (mono_tags, lifting) append_Nil2 filter_False filter_append list_all_iff snd_conv)

lemma steady_git [only_rules]: "steady v (sgit_try v repo args)" "steady v (sgit v repo args)"
proof -
  show tried: "steady v (sgit_try v repo args)" for repo args
    unfolding sgit_try_def by (rule only_logged) (simp add: writes_pointer_def)
  show "steady v (sgit v repo args)" unfolding sgit_def by (auto intro!: only_rules tried)
qed

lemma steady_reads [only_rules]:
  "steady v (tracked_clean v repo)" "steady v (checked_out v repo)" "steady v (head_of v repo)" "steady v (at_main v repo sha)"
  by (rule still_steady, rule only_rules)+

lemma steady_take_back [only_rules]: "steady v (take_back v repo target txid b)"
  unfolding take_back_def retract_def reset_branch_def by (auto intro!: only_rules split: list.split)

lemma steady_promotions: "steady v (promote_remote v od)" "steady v (promote_local v od)"
  unfolding promote_remote_def promote_local_def promote_local_main_def settle_main_def gone_astray_def
  by (auto intro!: only_rules)

text \<open>Steps that raise nothing of the program's own class.\<close>

definition no_refusal :: "'a su \<Rightarrow> bool" where
  "no_refusal m = (\<forall>tr e us. m tr \<noteq> (Inl (Refused e), us))"

lemma no_refusal_bind: "no_refusal m \<Longrightarrow> (\<And>x. no_refusal (f x)) \<Longrightarrow> no_refusal (bindC m f)"
  unfolding no_refusal_def bindC_def by (auto split: prod.split sum.split)

lemma no_refusal_leaf: "no_refusal (ret x)" "no_refusal (ask f)" "no_refusal (rescue m x)" "no_refusal (logged SSleep (\<lambda>_. Inr u))"
  "no_refusal (save_file v p kvs)" "no_refusal (unlink_file v p)"
  unfolding no_refusal_def by (auto simp: ret_def ask_def logged_def rescue_def save_file_def unlink_file_def
      split: prod.splits sum.splits werror.splits if_splits)

lemma no_refusal_journal: "no_refusal (journal v entries)"
  unfolding journal_def by (auto intro!: no_refusal_bind no_refusal_leaf)

lemma no_refusal_poll: "no_refusal (poll_health v sha d n)"
  by (induction n) (auto intro!: no_refusal_bind no_refusal_leaf simp: healthy_def)

lemma no_refusal_wait: "no_refusal (wait_health v sha)"
  unfolding wait_health_def by (intro no_refusal_bind no_refusal_leaf no_refusal_poll)

lemma no_refusal_finish: "no_refusal (finish_update v hp)"
  unfolding finish_update_def by (intro no_refusal_bind no_refusal_leaf no_refusal_journal)

lemma refusedE:
  assumes "bindC m f tr = (Inl (Refused e), us)"
  obtains "m tr = (Inl (Refused e), us)" | x vs where "m tr = (Inr x, vs)" "f x vs = (Inl (Refused e), us)"
  using assms by (auto simp: bindC_def split: prod.splits sum.splits)

definition restart_failures :: "str list" where
  "restart_failures = [''self-update requires the installed macOS LaunchAgent'', ''command timed out or could not be started'',
     ''launchctl operation failed during self-update'']"

lemma restart_refused:
  assumes "restart_with v mark tr = (Inl (Refused e), us)"
  shows "e \<in> set restart_failures"
  using assms no_refusal_leaf(6) [of v "health_file v"] no_refusal_journal [of v]
  unfolding restart_with_def restart_daemon_def Let_def no_refusal_def
  by (auto elim!: refusedE simp: ask_def need_def refused_def ret_def launchctl_def logged_def restart_failures_def
      split: if_splits option.splits)

lemma switch_outcome:
  assumes "switch_to v r mark tr = (res, us)" "full_sha (JStr (fst r)) = Some (fst r)" "res \<noteq> Inl Died"
  shows "pointer_writes v us = pointer_writes v tr @ [SSave (active_runtime_path v) (pointer (fst r) (snd r))]
    \<and> (case res of Inl (Refused e) \<Rightarrow> e \<in> set restart_failures | _ \<Rightarrow> True)"
proof -
  let ?e = "SSave (active_runtime_path v) (pointer (fst r) (snd r))"
  have w: "write_active v (fst r) (snd r) tr = (if sv_save v tr (active_runtime_path v) then Inr () else Inl Died, tr @ [?e])"
    using assms(2) by (simp add: write_active_def bindC_def sha_of_def ret_def save_file_def logged_def)
  with assms(1,3) have rest: "restart_with v mark (tr @ [?e]) = (res, us)"
    by (auto simp: switch_to_def bindC_def split: if_splits)
  have "pointer_writes v us = pointer_writes v (tr @ [?e])"
    using steady_writes [OF still_steady [OF still_phases(1)] rest] .
  then show ?thesis
    using rest restart_refused [of v mark "tr @ [?e]"]
    by (auto simp: pointer_writes_def writes_pointer_def split: sum.split werror.split)
qed

lemma fall_back_outcome:
  assumes "fall_back v r tr = (res, us)" "full_sha (JStr (fst r)) = Some (fst r)" "res \<noteq> Inl Died"
  shows "pointer_writes v us = pointer_writes v tr @ [SSave (active_runtime_path v) (pointer (fst r) (snd r))]
    \<and> (case res of Inr _ \<Rightarrow> False | _ \<Rightarrow> True)"
proof -
  obtain sr vs where s: "switch_to v r ''rollback_started'' tr = (sr, vs)" by (cases "switch_to v r ''rollback_started'' tr")
  show ?thesis
  proof (cases sr)
    case (Inl e)
    with s assms(1) have "res = Inl e" "us = vs" by (simp_all add: fall_back_def bindC_def)
    then show ?thesis using switch_outcome [OF s assms(2)] assms(3) Inl by simp
  next
    case (Inr u)
    let ?rest = "bindC (wait_health v (fst r)) (\<lambda>ok.
       if ok then bindC (journal v [(''status'', JStr ''rolled-back'')]) (\<lambda>_.
         refused ''self-update target failed health check; previous runtime restored'')
       else bindC (journal v [(''status'', JStr ''rollback-health-failed'')]) (\<lambda>_.
         refused ''self-update target failed health check and rollback health check failed''))"
    from s assms(1) Inr have rest: "?rest vs = (res, us)" by (simp add: fall_back_def bindC_def)
    have "(case res of Inr _ \<Rightarrow> False | _ \<Rightarrow> True)"
      using rest by (cases res) (auto simp: bindC_Inr split: if_splits)
    then show ?thesis
      using switch_outcome [OF s assms(2)] Inr steady_writes [OF still_steady [OF still_after_fall] rest] by simp
  qed
qed

text \<open>The report that was read after the switch.\<close>

definition health_seen :: "su_env \<Rightarrow> su_order \<Rightarrow> su_event list \<Rightarrow> su_event list \<Rightarrow> bool" where
  "health_seen v od t0 us =
     (\<exists>vs kvs. prefix t0 vs \<and> was_loaded v (vs @ [SSave (active_runtime_path v) (new_pointer v od)]) us (health_file v) kvs
        \<and> reports (so_target od) kvs)"

lemma shown_healthy: "yields (healthy v sha) (\<lambda>ok t0 us. if ok then \<exists>kvs. was_loaded v t0 us (health_file v) kvs \<and> reports sha kvs else True)"
  unfolding healthy_def
  apply (rule yields_mono)
   apply (rule yields_bind yields_if yields_rescue shown su_logs only_rules only_flow)+
  apply (auto split: if_splits)
  done

lemma shown_poll: "yields (poll_health v sha d n) (\<lambda>ok t0 us. if ok then \<exists>kvs. was_loaded v t0 us (health_file v) kvs \<and> reports sha kvs else True)"
proof (induction n)
  case (Suc n)
  have l: "logs (poll_health v sha d n)" by (rule still_logs, rule only_rules)
  show ?case
    unfolding poll_health.simps
    apply (rule yields_mono)
     apply (rule yields_bind yields_if shown_healthy Suc.IH shown l su_logs only_rules only_flow TrueI)+
      apply (rule Suc.IH yields_any)+
    apply (auto split: if_splits)
    done
qed (simp add: yields_def)

lemma shown_wait: "yields (wait_health v sha) (\<lambda>ok t0 us. if ok then \<exists>kvs. was_loaded v t0 us (health_file v) kvs \<and> reports sha kvs else True)"
  unfolding wait_health_def
  apply (rule yields_mono)
   apply (rule yields_bind shown_poll shown still_logs only_rules)+
  apply auto
  done

definition switched :: "su_env \<Rightarrow> su_order \<Rightarrow> su_event" where
  "switched v od = SSave (active_runtime_path v) (new_pointer v od)"

definition switched_back :: "su_env \<Rightarrow> su_order \<Rightarrow> su_event" where
  "switched_back v od = SSave (active_runtime_path v) (pointer (fst (so_previous od)) (snd (so_previous od)))"

lemma approved_shas: "approved v hp od t0 us \<Longrightarrow> full_sha (JStr (so_target od)) = Some (so_target od)
    \<and> full_sha (JStr (fst (so_previous od))) = Some (fst (so_previous od))"
  unfolding approved_def orders_def pointer_seen_def names_runtime_def by (blast dest: full_sha_same)

lemma activate_outcome:
  assumes run: "activate v hp od (runtimes_dir v @ ''/'' @ so_target od) tr = (res, us)"
    and ok: "full_sha (JStr (so_target od)) = Some (so_target od)" "full_sha (JStr (fst (so_previous od))) = Some (fst (so_previous od))"
    and died: "res \<noteq> Inl Died" and t0: "prefix t0 tr"
  shows "case res of
      Inr _ \<Rightarrow> pointer_writes v us = pointer_writes v tr @ [switched v od] \<and> health_seen v od t0 us
    | Inl e \<Rightarrow> pointer_writes v us = pointer_writes v tr @ [switched v od, switched_back v od]
        \<or> (pointer_writes v us = pointer_writes v tr @ [switched v od] \<and> e \<in> Refused ` set restart_failures)"
proof -
  let ?r = "(so_target od, runtimes_dir v @ ''/'' @ so_target od)"
  obtain sr vs where s: "switch_to v ?r ''active_runtime_switched'' tr = (sr, vs)" by (cases "switch_to v ?r ''active_runtime_switched'' tr")
  note out = switch_outcome [OF s, unfolded fst_conv snd_conv, folded new_pointer_def switched_def, OF ok(1)]
  show ?thesis
  proof (cases sr)
    case (Inl e)
    with s run have "res = Inl e" "us = vs" by (simp_all add: activate_def bindC_def)
    with out Inl died show ?thesis by (cases e) auto
  next
    case (Inr u)
    then have pv: "pointer_writes v vs = pointer_writes v tr @ [switched v od]" using out by simp
    obtain wr ws where w: "wait_health v (so_target od) vs = (wr, ws)" by (cases "wait_health v (so_target od) vs")
    have pw: "pointer_writes v ws = pointer_writes v vs" by (rule steady_writes [OF still_steady [OF still_wait] w])
    show ?thesis
    proof (cases wr)
      case (Inl e)
      with s w run \<open>sr = _\<close> have "res = Inl e" by (simp add: activate_def bindC_def)
      with Inl w died no_refusal_wait [of v "so_target od"] show ?thesis by (cases e) (auto simp: no_refusal_def)
    next
      case (Inr healthy)
      with s w run \<open>sr = _\<close> have rest: "bindC (if healthy then ret () else fall_back v (so_previous od)) (\<lambda>_. finish_update v hp) ws = (res, us)"
        by (simp add: activate_def bindC_def)
      show ?thesis
      proof (cases healthy)
        case True
        with rest have f: "finish_update v hp ws = (res, us)" by (simp add: bindC_def ret_def)
        have us: "pointer_writes v us = pointer_writes v tr @ [switched v od]"
          using steady_writes [OF still_steady [OF still_phases(2)] f] pw pv by simp
        obtain n where res: "res = Inr n" using f died no_refusal_finish [of v hp] unfolding no_refusal_def
          by (metis sum.exhaust werror.exhaust)
        have "prefix (tr @ [switched v od]) vs" 
          using switched_pointer [OF s [unfolded \<open>sr = _\<close>], unfolded fst_conv snd_conv, folded new_pointer_def switched_def] .
        moreover have "prefix ws us" by (rule only_prefix [OF still_phases(2) f])
        ultimately obtain kvs where "was_loaded v (tr @ [switched v od]) us (health_file v) kvs" "reports (so_target od) kvs"
          using yieldsD [OF shown_wait w [unfolded Inr]] True by auto
        then have "health_seen v od t0 us" unfolding health_seen_def switched_def using t0 by blast
        then show ?thesis using us res by simp
      next
        case False
        then obtain fr xs where f: "fall_back v (so_previous od) ws = (fr, xs)" by (cases "fall_back v (so_previous od) ws")
        have "fr \<noteq> Inl Died" using rest f died False by (auto simp: bindC_def)
        then have o: "pointer_writes v xs = pointer_writes v ws @ [switched_back v od]" "case fr of Inr _ \<Rightarrow> False | _ \<Rightarrow> True"
          using fall_back_outcome [OF f ok(2)] by (simp_all add: switched_back_def)
        then obtain e where "fr = Inl e" by (cases fr) auto
        then have "res = Inl e" "us = xs" using rest f False by (simp_all add: bindC_def)
        then show ?thesis using o(1) pw pv by simp
      qed
    qed
  qed
qed

lemma steady_promote_all: "steady v (promote_all v od)"
  unfolding promote_all_def by (intro only_rules steady_promotions still_steady still_reads)

lemma promoted_runtime: "promote_all v od tr = (Inr p, us) \<Longrightarrow> p = runtimes_dir v @ ''/'' @ so_target od"
  by (auto simp: promote_all_def bindC_Inr dest: yieldsD [OF shown_install])

lemma logs_activate: "logs (activate v hp od p)"
  unfolding activate_def fall_back_def switch_to_def write_active_def save_file_def
  by (auto intro!: only_rules su_logs still_logs [OF still_phases(1)] still_logs [OF still_phases(2)])

text \<open>How a run ends, unless with an exception of another kind.\<close>

definition ended :: "su_env \<Rightarrow> str \<Rightarrow> su_event list \<Rightarrow> werror + int \<Rightarrow> su_event list \<Rightarrow> bool" where
  "ended v hp tr res us =
     (case res of
        Inl e \<Rightarrow> pointer_writes v us = pointer_writes v tr
          \<or> (\<exists>od. approved v hp od tr us
               \<and> (pointer_writes v us = pointer_writes v tr @ [switched v od, switched_back v od]
                  \<or> (pointer_writes v us = pointer_writes v tr @ [switched v od] \<and> e \<in> Refused ` set restart_failures)))
      | Inr _ \<Rightarrow> us = tr
          \<or> (\<exists>od. approved v hp od tr us \<and> pointer_writes v us = pointer_writes v tr @ [switched v od] \<and> health_seen v od tr us))"

lemma order_ended:
  assumes read: "read_order v hp tr = (Inr od, vs)" and run: "carry_out_order v hp od vs = (res, us)" and "res \<noteq> Inl Died"
  shows "ended v hp tr res us"
proof -
  obtain q ws where q: "promote_all v od vs = (q, ws)" by (cases "promote_all v od vs")
  have pw: "pointer_writes v ws = pointer_writes v tr"
    using steady_writes [OF steady_promote_all q] steady_writes [OF still_steady [OF still_read_order] read] by simp
  show ?thesis
  proof (cases q)
    case (Inl e)
    then show ?thesis using run q pw by (auto simp: carry_out_order_def bindC_def ended_def)
  next
    case (Inr p)
    then have a: "activate v hp od (runtimes_dir v @ ''/'' @ so_target od) ws = (res, us)"
      using run q promoted_runtime [OF q [unfolded Inr]] by (simp add: carry_out_order_def bindC_def)
    have pre: "prefix tr vs" "prefix vs ws" "prefix ws us"
      by (rule only_prefix [OF still_read_order read] only_prefix [OF steady_promote_all q] only_prefix [OF logs_activate a])+
    have od: "approved v hp od tr us"
      by (rule yieldsD [OF shown_read_order read]) (use pre in \<open>auto intro: prefix_order.trans\<close>)
    note shas = approved_shas [OF od]
    have "prefix tr ws" using pre by (meson prefix_order.trans)
    from activate_outcome [OF a conjunct1 [OF shas] conjunct2 [OF shas] assms(3) this] show ?thesis
      using od pw unfolding ended_def by (auto split: sum.splits)
  qed
qed

lemma run_ended:
  assumes "run_supervisor v path tr = (res, us)" "res \<noteq> Inl Died"
  shows "ended v (case path of Some p \<Rightarrow> p | None \<Rightarrow> handoff_file v) tr res us"
proof -
  define hp where hp: "hp = (case path of Some p \<Rightarrow> p | None \<Rightarrow> handoff_file v)"
  have "ended v hp tr res us" if all: "bindC (read_order v hp) (carry_out_order v hp) tr = (res, us)"
  proof (cases "read_order v hp tr")
    case (Pair r vs)
    then show ?thesis
      using all order_ended [of v hp tr _ vs res us] assms(2) steady_writes [OF still_steady [OF still_read_order] Pair]
      by (cases r) (auto simp: bindC_def ended_def)
  qed
  moreover have "ended v hp tr (Inr n) tr" for n by (simp add: ended_def)
  ultimately show ?thesis
    using assms(1) unfolding run_supervisor_def Let_def hp [symmetric] by (auto simp: bindC_def ask_def ret_def split: if_splits)
qed

text \<open>C13: The runtime that is active after a run has proved itself or was active before. When the supervisor ends without
  an error it either found another supervisor at work and did nothing, or it switched the pointer exactly once,
  to the approved commit, and read the report of the new runtime after that. When it ends with an error of its own,
  the pointer was not touched, or it was switched and switched back to what it named before; the only other case
  is that the restart of the daemon itself failed, which the code does not roll back.\<close>

theorem active_runtime_is_proven:
  "let hp = (case path of Some p \<Rightarrow> p | None \<Rightarrow> handoff_file v) in
   case run_supervisor v path tr of
     (Inl Died, _) \<Rightarrow> True
   | (Inl (Refused e), us) \<Rightarrow>
       pointer_writes v us = pointer_writes v tr
       \<or> (\<exists>od. approved v hp od tr us
            \<and> (pointer_writes v us = pointer_writes v tr @ [switched v od, switched_back v od]
               \<or> (pointer_writes v us = pointer_writes v tr @ [switched v od] \<and> e \<in> set restart_failures)))
   | (Inr _, us) \<Rightarrow>
       us = tr
       \<or> (\<exists>od. approved v hp od tr us \<and> pointer_writes v us = pointer_writes v tr @ [switched v od] \<and> health_seen v od tr us)"
proof (cases "run_supervisor v path tr")
  case (Pair res us)
  have "res = Inl Died \<or> ended v (case path of Some p \<Rightarrow> p | None \<Rightarrow> handoff_file v) tr res us"
    using run_ended [OF Pair] by blast
  then show ?thesis
    unfolding Let_def Pair ended_def by (auto split: sum.splits werror.splits)
qed

subsection \<open>The number of polls\<close>

text \<open>A clock that never goes back and advances with every sleep makes more than 120 polls the same as 120.\<close>

lemma polls_enough:
  assumes sleep: "\<And>us. sv_clock v us + 250 \<le> sv_clock v (us @ [SSleep])"
    and onward: "\<And>us ws. prefix us ws \<Longrightarrow> sv_clock v us \<le> sv_clock v ws"
  shows "deadline \<le> sv_clock v tr + 250 * int n \<Longrightarrow> poll_health v sha deadline (n + k) tr = poll_health v sha deadline n tr"
proof (induction n arbitrary: tr)
  case 0
  then show ?case by (cases k) (simp_all add: bindC_def ask_def)
next
  case (Suc n)
  obtain r us where h: "healthy v sha tr = (r, us)" by (cases "healthy v sha tr")
  have "prefix tr us" by (rule only_prefix [OF still_healthy h])
  then have "deadline \<le> sv_clock v (us @ [SSleep]) + 250 * int n"
    using sleep [of us] onward [of tr us] Suc.prems by simp
  note next_poll = Suc.IH [OF this]
  show ?case
    by (cases r) (simp_all add: bindC_def ask_def h logged_def next_poll split: prod.split sum.split)
qed

lemma wait_is_complete:
  assumes "\<And>us. sv_clock v us + 250 \<le> sv_clock v (us @ [SSleep])" "\<And>us ws. prefix us ws \<Longrightarrow> sv_clock v us \<le> sv_clock v ws"
  shows "wait_health v sha tr = poll_health v sha (sv_clock v tr + 30000) (120 + k) tr"
  using polls_enough [OF assms, of "sv_clock v tr + 30000" tr 120 sha k] by (simp add: wait_health_def bindC_def ask_def)

subsection \<open>Runs\<close>

definition sample_sha :: "char \<Rightarrow> str" where
  "sample_sha c = replicate 40 c"

definition sample_git :: "su_event list \<Rightarrow> str \<Rightarrow> str list \<Rightarrow> (int \<times> str) option" where
  "sample_git tr repo args =
     (if args = branch_args then Some (0, ''main'')
      else if args = [''rev-parse'', ''HEAD'']
        then Some (0, sample_sha (if SGit repo (promote_args (sample_sha CHR ''b'')) \<in> set tr then CHR ''b'' else CHR ''a''))
      else if args = [''rev-parse'', ''refs/heads/ai/x''] then Some (0, sample_sha CHR ''b'')
      else Some (0, []))"

definition sample_update :: "bool \<Rightarrow> (nat \<Rightarrow> str) \<Rightarrow> su_env" where
  "sample_update plist running =
     (let v = \<lparr>sv_home = ''/h'', sv_uid = ''5'', sv_git = sample_git, sv_exists = \<lambda>_ _. False, sv_load = \<lambda>_ _. Inl Died, sv_save = \<lambda>_ _. True,
        sv_unlink = \<lambda>_ _. True, sv_launch = \<lambda>_ _. Some 0, sv_archive = \<lambda>_ _ _. Some 0, sv_place = \<lambda>_ _. True, sv_tmp = \<lambda>_. ''/t'',
        sv_locked = \<lambda>_. False, sv_clock = \<lambda>tr. 30000 * int (count_list tr SSleep), sv_now = \<lambda>_. ''now'', sv_resolve = \<lambda>p. p, sv_repr = \<lambda>_. []\<rparr> in
      v\<lparr>sv_exists := \<lambda>_ p. if p = plist_file v then plist else p \<noteq> journal_file v \<and> p \<noteq> runtimes_dir v @ ''/'' @ sample_sha CHR ''b'',
        sv_load := \<lambda>tr p.
          if p = handoff_file v then Inr [(''version'', JInt 1), (''target_sha'', JStr (sample_sha CHR ''b'')),
            (''source_branch'', JStr ''ai/x''), (''source_repo'', JStr ''/r'')]
          else if p = active_runtime_path v then Inr (pointer (sample_sha CHR ''a'') ''/old'')
          else if p = health_file v then Inr [(''runtime_sha'', JStr (running (length (pointer_writes v tr)))), (''watcher_started_at'', JStr ''then'')]
          else Inr [(''version'', JInt 1), (''commit'', JStr (sample_sha CHR ''b'')), (''transaction_id'', JStr ''t'')]\<rparr>)"

definition sample_pointers :: "su_env \<Rightarrow> (werror + int) \<times> str list" where
  "sample_pointers v =
     (case run_supervisor v None [] of (r, us) \<Rightarrow>
        (r, map (\<lambda>e. case e of SSave _ ((_, _) # (_, JStr s) # _) \<Rightarrow> take 1 s | _ \<Rightarrow> []) (pointer_writes v us)))"

text \<open>An update that succeeds, one that is rolled back, and one whose restart fails because the launch agent is not
  installed: the pointer stays at a runtime that was never started.\<close>

lemma update_succeeds: "sample_pointers (sample_update True (\<lambda>_. sample_sha CHR ''b'')) = (Inr 0, [''b''])"
  by code_simp

lemma update_rolled_back:
  "sample_pointers (sample_update True (\<lambda>_. sample_sha CHR ''a''))
   = (Inl (Refused ''self-update target failed health check; previous runtime restored''), [''b'', ''a''])"
  by code_simp

lemma update_left_unverified:
  "sample_pointers (sample_update False (\<lambda>_. sample_sha CHR ''b''))
   = (Inl (Refused ''self-update requires the installed macOS LaunchAgent''), [''b''])"
  by code_simp

end
