(* ===== verification/BridgeConfig.thy ===== *)
theory BridgeConfig
  imports BridgeRules "HOL-Library.Product_Lexorder" "HOL-Library.AList"
begin

text \<open>
  The configuration of the file bridge (\<open>llm_git_bridge/app.py\<close>): approved roots with their push policy, overrides per
  repository, the migration of the first version, and the validation. A configuration is a JSON object.
  \<open>resolve\<close> stands for \<open>Path(...).expanduser().resolve()\<close> and is a parameter.
\<close>

type_synonym config = "(str \<times> json) list"

definition default_config :: config where
  "default_config =
     [(''version'', JInt 2),
      (''transport'', JObj [(''type'', JStr ''rclone''), (''remote'', JNull), (''rc_enabled'', JBool True)]),
      (''roots'', JList []), (''repo_overrides'', JObj []), (''safe_branch_prefix'', JStr ''ai/''),
      (''allow_commit'', JBool True), (''allow_current_branch_write'', JBool False), (''allow_self_update'', JBool False),
      (''poll_interval'', JFloat 1), (''registry_scan_interval'', JFloat 30), (''max_workers'', JInt 1),
      (''max_pending_jobs'', JInt 8), (''commands'', JObj [])]"

fun is_JBool :: "json \<Rightarrow> bool" where
  "is_JBool (JBool _) = True"
| "is_JBool _ = False"

abbreviation field :: "config \<Rightarrow> str \<Rightarrow> json" where
  "field cfg k \<equiv> obj_get (JObj cfg) k"

definition set_field :: "str \<Rightarrow> json \<Rightarrow> config \<Rightarrow> config" where
  "set_field k x cfg = AList.update k x cfg"

text \<open>A finite number between two bounds. JSON has no other numbers here: \<open>strict_json_loads\<close> refuses the constants.\<close>

definition number_within :: "real \<Rightarrow> real \<Rightarrow> str \<Rightarrow> json \<Rightarrow> str + real" where
  "number_within lo hi m value =
     (case value of
        JInt i \<Rightarrow> if lo \<le> of_int i \<and> of_int i \<le> hi then Inr (of_int i) else Inl m
      | JFloat r \<Rightarrow> if lo \<le> r \<and> r \<le> hi then Inr r else Inl m
      | _ \<Rightarrow> Inl m)"

definition validate_poll_interval :: "json \<Rightarrow> str + real" where
  "validate_poll_interval = number_within (1 / 2) 3600 ''poll interval must be a finite number from 0.5 to 3600 seconds''"

definition validate_registry_scan_interval :: "json \<Rightarrow> str + real" where
  "validate_registry_scan_interval = number_within 5 3600 ''registry scan interval must be a finite number from 5 to 3600 seconds''"

subsection \<open>Roots and push policy\<close>

record root_policy =
  rp_path :: str
  rp_push :: bool

definition root_keys :: "str list" where
  "root_keys = [''path'', ''push'']"

definition normalise_root :: "json \<Rightarrow> str + root_policy" where
  "normalise_root x =
     (case x of
        JStr s \<Rightarrow> if py_strip s \<noteq> [] then Inr \<lparr>rp_path = s, rp_push = False\<rparr> else Inl ''config roots must contain root policy objects''
      | JObj kvs \<Rightarrow>
          (case obj_get x ''path'' of
             JStr p \<Rightarrow>
               if py_strip p = [] then Inl ''config root path must be a non-empty string''
               else
                 let extra = filter (\<lambda>k. k \<notin> set root_keys) (map fst kvs) in
                 if extra \<noteq> [] then Inl (''config root policy has unknown fields: '' @ join '', '' (sort extra))
                 else (case obj_get_default x ''push'' (JBool False) of
                         JBool b \<Rightarrow> Inr \<lparr>rp_path = p, rp_push = b\<rparr>
                       | _ \<Rightarrow> Inl ''config root push policy must be a boolean'')
           | _ \<Rightarrow> Inl ''config root path must be a non-empty string'')
      | _ \<Rightarrow> Inl ''config roots must contain root policy objects'')"

fun traverse :: "('a \<Rightarrow> str + 'b) \<Rightarrow> 'a list \<Rightarrow> str + 'b list" where
  "traverse f [] = Inr []"
| "traverse f (x # xs) = bindE (f x) (\<lambda>y. bindE (traverse f xs) (\<lambda>ys. Inr (y # ys)))"

definition configured_roots :: "config \<Rightarrow> str + root_policy list" where
  "configured_roots cfg =
     (case obj_get_default (JObj cfg) ''roots'' (JList []) of
        JList xs \<Rightarrow> traverse normalise_root xs
      | _ \<Rightarrow> Inl ''config roots must be a list'')"

definition depth :: "path \<Rightarrow> nat" where
  "depth p = (if p_root p = [] then 0 else 1) + length (p_parts p)"

definition root_key :: "(str \<Rightarrow> path) \<Rightarrow> root_policy \<Rightarrow> nat \<times> str \<times> bool" where
  "root_key resolve r = (depth (resolve (rp_path r)), path_str (resolve (rp_path r)), rp_push r)"

definition covers :: "(str \<Rightarrow> path) \<Rightarrow> path \<Rightarrow> root_policy \<Rightarrow> bool" where
  "covers resolve p r = relative_to p (resolve (rp_path r))"

text \<open>The policy of the most specific root above a repository.\<close>

definition inherited_root_push :: "(str \<Rightarrow> path) \<Rightarrow> root_policy list \<Rightarrow> path \<Rightarrow> bool option" where
  "inherited_root_push resolve roots p =
     (let matches = map (root_key resolve) (filter (covers resolve p) roots) in
      if matches = [] then None else Some (snd (snd (Max (set matches)))))"

definition canonical_roots :: "(str \<Rightarrow> path) \<Rightarrow> root_policy list \<Rightarrow> (str \<times> bool) list" where
  "canonical_roots resolve roots = fold (\<lambda>r. AList.update (path_str (resolve (rp_path r))) (rp_push r)) roots []"

definition root_order :: "root_policy \<Rightarrow> nat \<times> str" where
  "root_order r = (depth (parse_path (rp_path r)), low (rp_path r))"

definition keep_root :: "(str \<Rightarrow> path) \<Rightarrow> root_policy \<Rightarrow> root_policy list \<Rightarrow> root_policy list" where
  "keep_root resolve r kept =
     (if inherited_root_push resolve kept (resolve (rp_path r)) = Some (rp_push r) then kept else kept @ [r])"

definition prune_redundant_roots :: "(str \<Rightarrow> path) \<Rightarrow> root_policy list \<Rightarrow> root_policy list" where
  "prune_redundant_roots resolve roots =
     fold (keep_root resolve)
       (sort_key root_order (map (\<lambda>(p, b). \<lparr>rp_path = p, rp_push = b\<rparr>) (canonical_roots resolve roots))) []"

definition override_of :: "config \<Rightarrow> str \<Rightarrow> bool option" where
  "override_of cfg repo_id =
     (case obj_get (obj_get_default (JObj cfg) ''repo_overrides'' (JObj [])) repo_id of
        JObj policy \<Rightarrow> (case obj_get (JObj policy) ''push'' of JBool b \<Rightarrow> Some b | _ \<Rightarrow> None)
      | _ \<Rightarrow> None)"

definition legacy_enabled :: "config \<Rightarrow> str \<Rightarrow> bool" where
  "legacy_enabled cfg repo_id =
     (\<not> py_eq_int (field cfg ''version'') 2
      \<and> (case obj_get_default (JObj cfg) ''push_enabled_repos'' (JList []) of JList xs \<Rightarrow> JStr repo_id \<in> set xs | _ \<Rightarrow> False))"

definition repo_push_allowed :: "(str \<Rightarrow> path) \<Rightarrow> config \<Rightarrow> str \<Rightarrow> path \<Rightarrow> str + bool" where
  "repo_push_allowed resolve cfg repo_id p =
     (case override_of cfg repo_id of
        Some b \<Rightarrow> Inr b
      | None \<Rightarrow>
          if legacy_enabled cfg repo_id then Inr True
          else bindE (configured_roots cfg) (\<lambda>roots. Inr (inherited_root_push resolve roots p = Some True)))"

subsection \<open>Migration\<close>

definition texts :: "(str \<Rightarrow> bool) \<Rightarrow> json \<Rightarrow> str list option" where
  "texts ok x =
     (case x of
        JList xs \<Rightarrow> those (map (\<lambda>y. case y of JStr s \<Rightarrow> if ok s then Some s else None | _ \<Rightarrow> None) xs)
      | _ \<Rightarrow> None)"

definition root_json :: "root_policy \<Rightarrow> json" where
  "root_json r = JObj [(''path'', JStr (rp_path r)), (''push'', JBool (rp_push r))]"

definition migrated_fields :: "(str \<Rightarrow> path) \<Rightarrow> str list \<Rightarrow> str list \<Rightarrow> config \<Rightarrow> config" where
  "migrated_fields resolve roots enabled raw =
     filter (\<lambda>(k, _). k \<noteq> ''push_enabled_repos'')
       (set_field ''repo_overrides'' (JObj (map (\<lambda>i. (i, JObj [(''push'', JBool True)])) (sort (remdups enabled))))
       (set_field ''roots'' (JList (map root_json (prune_redundant_roots resolve (map (\<lambda>p. \<lparr>rp_path = p, rp_push = False\<rparr>) roots))))
       (set_field ''version'' (JInt 2) raw)))"

definition migrate_config :: "(str \<Rightarrow> path) \<Rightarrow> config \<Rightarrow> str + config" where
  "migrate_config resolve raw =
     (case obj_get_default (JObj raw) ''version'' (JInt 1) of
        JInt n \<Rightarrow>
          if n = 2 then Inr raw
          else if n \<noteq> 1 then Inl ''unsupported config version''
          else
            (case texts (\<lambda>s. py_strip s \<noteq> []) (obj_get_default (JObj raw) ''roots'' (JList [])) of
               None \<Rightarrow> Inl ''config roots must be a list of non-empty paths''
             | Some roots \<Rightarrow>
                 (case texts (\<lambda>s. s \<noteq> []) (obj_get_default (JObj raw) ''push_enabled_repos'' (JList [])) of
                    None \<Rightarrow> Inl ''config push_enabled_repos must be a list of repository IDs''
                  | Some enabled \<Rightarrow> Inr (migrated_fields resolve roots enabled raw)))
      | _ \<Rightarrow> Inl ''unsupported config version'')"

subsection \<open>Validation\<close>

definition unknown_fields :: "str \<Rightarrow> str list \<Rightarrow> (str \<times> json) list \<Rightarrow> str + unit" where
  "unknown_fields what known kvs =
     (let extra = filter (\<lambda>k. k \<notin> set known) (map fst kvs) in
      if extra = [] then Inr () else Inl (what @ '' has unknown fields: '' @ join '', '' (sort extra)))"

definition validate_transport :: "json \<Rightarrow> str + unit" where
  "validate_transport x =
     (case x of
        JObj kvs \<Rightarrow>
          bindE (unknown_fields ''config transport'' [''type'', ''remote'', ''rc_enabled''] kvs) (\<lambda>_.
          bindE (guardE (obj_get x ''type'' = JStr ''rclone'') (''config transport type must be '' @ py_repr ''rclone'')) (\<lambda>_.
          bindE (guardE (case obj_get x ''remote'' of JNull \<Rightarrow> True | JStr s \<Rightarrow> py_strip s \<noteq> [] | _ \<Rightarrow> False)
            ''config transport remote must be a non-empty string or null'') (\<lambda>_.
          guardE (is_JBool (obj_get x ''rc_enabled'')) ''config transport rc_enabled must be a boolean'')))
      | _ \<Rightarrow> Inl ''config transport must be an object'')"

fun validate_roots :: "(str \<Rightarrow> path) \<Rightarrow> str list \<Rightarrow> json list \<Rightarrow> str + unit" where
  "validate_roots resolve seen [] = Inr ()"
| "validate_roots resolve seen (x # xs) =
     bindE (guardE (is_JObj x) ''config roots must contain root policy objects'') (\<lambda>_.
     bindE (normalise_root x) (\<lambda>r.
     let canonical = path_str (resolve (rp_path r)) in
     bindE (guardE (canonical \<notin> set seen) ''config roots must not contain duplicate canonical paths'') (\<lambda>_.
     validate_roots resolve (canonical # seen) xs)))"

definition branch_prefix_ok :: "str \<Rightarrow> bool" where
  "branch_prefix_ok p =
     (\<not> prefix ''-'' p \<and> \<not> has_text ''..'' p \<and> \<not> has_text ''//'' p \<and> \<not> has_text ''/.'' p
      \<and> list_all (\<lambda>part. part \<noteq> [] \<and> \<not> prefix ''.'' part \<and> \<not> ends_with ''.'' part \<and> \<not> ends_with ''.lock'' part)
          (split_slash [] (butlast p)))"

definition validate_branch_prefix :: "json \<Rightarrow> str + unit" where
  "validate_branch_prefix x =
     (case x of
        JStr p \<Rightarrow>
          bindE (guardE (ends_with ''/'' p \<and> length p \<le> 100 \<and> 2 \<le> length p \<and> list_all branch_char p)
            (''safe_branch_prefix must be a safe branch namespace ending in '' @ py_repr ''/'')) (\<lambda>_.
          guardE (branch_prefix_ok p) ''safe_branch_prefix contains an unsafe Git ref component'')
      | _ \<Rightarrow> Inl (''safe_branch_prefix must be a safe branch namespace ending in '' @ py_repr ''/''))"

definition validate_override :: "str \<times> json \<Rightarrow> str + unit" where
  "validate_override e =
     bindE (guardE (fst e \<noteq> []) ''config override repository IDs must be non-empty strings'') (\<lambda>_.
     guardE (case snd e of JObj kvs \<Rightarrow> set (map fst kvs) = {''push''} \<and> is_JBool (obj_get (snd e) ''push'') | _ \<Rightarrow> False)
       ''config repository overrides must contain exactly one boolean push field'')"

definition int_within :: "int \<Rightarrow> int \<Rightarrow> str \<Rightarrow> json \<Rightarrow> str + int" where
  "int_within lo hi m x = (case x of JInt i \<Rightarrow> if lo \<le> i \<and> i \<le> hi then Inr i else Inl m | _ \<Rightarrow> Inl m)"

definition argv_ok :: "json \<Rightarrow> bool" where
  "argv_ok x = (case texts (\<lambda>s. s \<noteq> []) x of None \<Rightarrow> False | Some argv \<Rightarrow> argv \<noteq> [])"

definition validate_command :: "str \<times> json \<Rightarrow> str + unit" where
  "validate_command e =
     bindE (guardE (command_name_ok (fst e)) ''config command name is invalid'') (\<lambda>_.
     guardE (argv_ok (snd e)) (''configured command '' @ py_repr (fst e) @ '' must be a non-empty argv list''))"

definition validate_repo_commands :: "str \<times> json \<Rightarrow> str + unit" where
  "validate_repo_commands e =
     bindE (guardE (fst e \<noteq> []) ''config command repository IDs must be non-empty strings'') (\<lambda>_.
     case snd e of
       JObj cmds \<Rightarrow> bindE (traverse validate_command cmds) (\<lambda>_. Inr ())
     | _ \<Rightarrow> Inl ''config commands must be nested by repository ID'')"

definition all_fields :: "(str \<times> json \<Rightarrow> str + unit) \<Rightarrow> str \<Rightarrow> json \<Rightarrow> str + unit" where
  "all_fields f m x = (case x of JObj kvs \<Rightarrow> bindE (traverse f kvs) (\<lambda>_. Inr ()) | _ \<Rightarrow> Inl m)"

definition failing_as :: "str \<Rightarrow> str + 'a \<Rightarrow> str + unit" where
  "failing_as m r = (case r of Inl _ \<Rightarrow> Inl m | Inr _ \<Rightarrow> Inr ())"

definition validate_config :: "(str \<Rightarrow> path) \<Rightarrow> config \<Rightarrow> str + config" where
  "validate_config resolve cfg =
     bindE (guardE (''push_enabled_repos'' \<notin> set (map fst cfg)) ''config v2 must not contain legacy push_enabled_repos; migrate it first'') (\<lambda>_.
     bindE (unknown_fields ''config'' (map fst default_config) cfg) (\<lambda>_.
     bindE (guardE (field cfg ''version'' = JInt 2) ''unsupported config version'') (\<lambda>_.
     bindE (validate_transport (field cfg ''transport'')) (\<lambda>_.
     bindE (case field cfg ''roots'' of
              JList xs \<Rightarrow> validate_roots resolve [] xs
            | _ \<Rightarrow> Inl ''config roots must be a list of root policy objects'') (\<lambda>_.
     bindE (validate_branch_prefix (field cfg ''safe_branch_prefix'')) (\<lambda>_.
     bindE (guardE (is_JBool (field cfg ''allow_commit'')) ''config allow_commit must be a boolean'') (\<lambda>_.
     bindE (guardE (is_JBool (field cfg ''allow_current_branch_write'')) ''config allow_current_branch_write must be a boolean'') (\<lambda>_.
     bindE (guardE (is_JBool (field cfg ''allow_self_update'')) ''config allow_self_update must be a boolean'') (\<lambda>_.
     bindE (all_fields validate_override ''config repo_overrides must be an object keyed by repository ID'' (field cfg ''repo_overrides'')) (\<lambda>_.
     bindE (failing_as ''config poll_interval must be a finite number from 0.5 to 3600 seconds''
       (validate_poll_interval (field cfg ''poll_interval''))) (\<lambda>_.
     bindE (failing_as ''config registry_scan_interval must be a finite number from 5 to 3600 seconds''
       (validate_registry_scan_interval (field cfg ''registry_scan_interval''))) (\<lambda>_.
     bindE (int_within 1 8 ''config max_workers must be an integer from 1 to 8'' (field cfg ''max_workers'')) (\<lambda>workers.
     bindE (int_within 1 32 ''config max_pending_jobs must be an integer from 1 to 32'' (field cfg ''max_pending_jobs'')) (\<lambda>pending.
     bindE (guardE (workers \<le> pending) ''config max_pending_jobs must be at least max_workers'') (\<lambda>_.
     bindE (all_fields validate_repo_commands ''config commands must be an object keyed by repository ID'' (field cfg ''commands'')) (\<lambda>_.
     Inr cfg))))))))))))))))"

definition merge_fields :: "config \<Rightarrow> config \<Rightarrow> config" where
  "merge_fields base new = fold (\<lambda>(k, x). set_field k x) new base"

definition load_config :: "(str \<Rightarrow> path) \<Rightarrow> config option \<Rightarrow> str + config" where
  "load_config resolve file =
     (case file of
        None \<Rightarrow> Inr default_config
      | Some obj \<Rightarrow>
          bindE (migrate_config resolve obj) (\<lambda>raw.
          let rest = filter (\<lambda>(k, _). k \<noteq> ''transport'') raw;
              base = merge_fields default_config rest in
          (case obj_get (JObj raw) ''transport'' of
             JNull \<Rightarrow> validate_config resolve base
           | JObj t \<Rightarrow>
               (case field base ''transport'' of
                  JObj d \<Rightarrow> validate_config resolve (set_field ''transport'' (JObj (merge_fields d t)) base)
                | _ \<Rightarrow> Inl ''config transport must be an object'')
           | _ \<Rightarrow> Inl ''config transport must be an object'')))"

text \<open>The capabilities that are published for a repository, for a configuration that passed the validation.\<close>

definition flag :: "config \<Rightarrow> str \<Rightarrow> bool \<Rightarrow> bool" where
  "flag cfg k d = (obj_get_default (JObj cfg) k (JBool d) = JBool True)"

definition capabilities_of :: "(str \<Rightarrow> path) \<Rightarrow> config \<Rightarrow> str \<Rightarrow> str \<Rightarrow> str + (str \<times> json) list" where
  "capabilities_of resolve cfg repo_id p =
     bindE (repo_push_allowed resolve cfg repo_id (resolve p)) (\<lambda>push.
     Inr ([(''read'', JBool True), (''edit'', JBool (flag cfg ''allow_commit'' True)), (''push'', JBool push)]
       @ (if flag cfg ''allow_current_branch_write'' False
          then [(''write_current_branch'', JBool (flag cfg ''allow_commit'' True))] else [])
       @ (if flag cfg ''allow_self_update'' False \<and> path_name (parse_path p) = ''llm-git-bridge''
          then [(''self_update'', JBool True)] else [])))"

definition public_capabilities :: "(str \<Rightarrow> path) \<Rightarrow> config \<Rightarrow> (str \<times> str) list \<Rightarrow> str + (str \<times> (str \<times> json) list) list" where
  "public_capabilities resolve cfg entries =
     traverse (\<lambda>(i, p). bindE (capabilities_of resolve cfg i p) (\<lambda>c. Inr (i, c))) entries"

subsection \<open>Pruning keeps the policy\<close>

lemma inherited_cong:
  "set (map (root_key resolve) (filter (covers resolve p) xs)) = set (map (root_key resolve) (filter (covers resolve q) ys))
   \<Longrightarrow> inherited_root_push resolve xs p = inherited_root_push resolve ys q"
  unfolding inherited_root_push_def Let_def by (metis set_empty)

lemma covers_same_depth:
  "covers resolve p q \<Longrightarrow> covers resolve p r \<Longrightarrow> depth (resolve (rp_path q)) \<le> depth (resolve (rp_path r)) \<Longrightarrow>
   covers resolve (resolve (rp_path r)) q"
  unfolding covers_def relative_to_def depth_def by (auto intro: prefix_length_prefix split: if_splits)

lemma covers_trans: "covers resolve (resolve (rp_path r)) q \<Longrightarrow> covers resolve p r \<Longrightarrow> covers resolve p q"
  unfolding covers_def by (rule relative_to_trans)

lemma same_place:
  assumes "covers resolve p q" "covers resolve p r" "depth (resolve (rp_path q)) = depth (resolve (rp_path r))"
  shows "resolve (rp_path q) = resolve (rp_path r)"
proof -
  have "covers resolve (resolve (rp_path r)) q" "covers resolve (resolve (rp_path q)) r"
    using assms by (auto intro: covers_same_depth)
  then show ?thesis unfolding covers_def relative_to_def by (auto intro: prefix_order.antisym)
qed

text \<open>A root below all others decides for everything below it.\<close>

lemma inherited_snoc:
  assumes deepest: "\<And>q. q \<in> set xs \<Longrightarrow> depth (resolve (rp_path q)) \<le> depth (resolve (rp_path r))"
    and new: "resolve (rp_path r) \<notin> (\<lambda>q. resolve (rp_path q)) ` set xs"
  shows "inherited_root_push resolve (xs @ [r]) p = (if covers resolve p r then Some (rp_push r) else inherited_root_push resolve xs p)"
proof (cases "covers resolve p r")
  case True
  let ?keys = "set (map (root_key resolve) (filter (covers resolve p) (xs @ [r])))"
  have "Max ?keys = root_key resolve r"
  proof (rule Max_eqI)
    fix k assume "k \<in> ?keys"
    then obtain q where q: "q \<in> set xs \<union> {r}" "covers resolve p q" "k = root_key resolve q" by (auto split: if_splits)
    show "k \<le> root_key resolve r"
    proof (cases "q = r")
      case False
      then have "depth (resolve (rp_path q)) \<noteq> depth (resolve (rp_path r))"
        using q(1,2) True new same_place [of resolve p q r] by (metis (no_types, lifting) Un_iff imageI singletonD)
      then show ?thesis using deepest [of q] False q(1) unfolding q(3) root_key_def by (auto simp: less_eq_prod_def)
    qed (simp add: q(3))
  qed (use True in auto)
  then show ?thesis using True by (simp add: inherited_root_push_def Let_def root_key_def)
qed (simp add: inherited_root_push_def)

lemma inherited_below:
  assumes "\<And>q. q \<in> set xs \<Longrightarrow> depth (resolve (rp_path q)) \<le> depth (resolve (rp_path r))" "covers resolve p r"
  shows "inherited_root_push resolve xs p = inherited_root_push resolve xs (resolve (rp_path r))"
proof (rule inherited_cong)
  have "covers resolve p q \<longleftrightarrow> covers resolve (resolve (rp_path r)) q" if "q \<in> set xs" for q
    using covers_same_depth [OF _ assms(2) assms(1) [OF that]] covers_trans [OF _ assms(2)] by blast
  then show "set (map (root_key resolve) (filter (covers resolve p) xs))
      = set (map (root_key resolve) (filter (covers resolve (resolve (rp_path r))) xs))" by auto
qed

lemma keep_roots_policy:
  assumes "sorted (map (\<lambda>q. depth (resolve (rp_path q))) xs)" "distinct (map (\<lambda>q. resolve (rp_path q)) xs)"
  shows "set (fold (keep_root resolve) xs []) \<subseteq> set xs
    \<and> (\<forall>p. inherited_root_push resolve (fold (keep_root resolve) xs []) p = inherited_root_push resolve xs p)"
  using assms
proof (induction xs rule: rev_induct)
  case (snoc r xs)
  let ?kept = "fold (keep_root resolve) xs []"
  have IH: "set ?kept \<subseteq> set xs" "\<And>p. inherited_root_push resolve ?kept p = inherited_root_push resolve xs p"
    using snoc by (auto simp: sorted_append)
  have deep: "depth (resolve (rp_path q)) \<le> depth (resolve (rp_path r))" if "q \<in> set xs" for q
    using snoc.prems(1) that by (auto simp: sorted_append)
  have new: "resolve (rp_path r) \<notin> (\<lambda>q. resolve (rp_path q)) ` set xs" using snoc.prems(2) by auto
  have "inherited_root_push resolve (keep_root resolve r ?kept) p = inherited_root_push resolve (xs @ [r]) p" for p
  proof (cases "inherited_root_push resolve ?kept (resolve (rp_path r)) = Some (rp_push r)")
    case True
    then show ?thesis
      using IH(2) inherited_snoc [OF deep new, of p] inherited_below [of xs resolve r p] deep by (auto simp: keep_root_def)
  next
    case False
    have "inherited_root_push resolve (?kept @ [r]) p = (if covers resolve p r then Some (rp_push r) else inherited_root_push resolve ?kept p)"
      by (rule inherited_snoc) (use IH(1) deep new in auto)
    then show ?thesis using False IH(2) inherited_snoc [OF deep new, of p] by (simp add: keep_root_def)
  qed
  moreover have "set (keep_root resolve r ?kept) \<subseteq> set (xs @ [r])" using IH(1) by (auto simp: keep_root_def)
  ultimately show ?case by simp
qed simp

lemma update_new: "k \<notin> fst ` set al \<Longrightarrow> AList.update k v al = al @ [(k, v)]"
  by (induction al) auto

lemma update_all_new:
  "distinct (map f xs) \<Longrightarrow> fst ` set al \<inter> f ` set xs = {} \<Longrightarrow>
   fold (\<lambda>r. AList.update (f r) (g r)) xs al = al @ map (\<lambda>r. (f r, g r)) xs"
  by (induction xs arbitrary: al) (auto simp: update_new)

text \<open>Roots with different canonical paths, as the validation requires, under a \<open>resolve\<close> that changes nothing when
  it is applied to what it returned.\<close>

definition canonical_ok :: "(str \<Rightarrow> path) \<Rightarrow> root_policy list \<Rightarrow> bool" where
  "canonical_ok resolve roots =
     (distinct (map (\<lambda>r. path_str (resolve (rp_path r))) roots)
      \<and> list_all (\<lambda>r. let p = resolve (rp_path r) in resolve (path_str p) = p \<and> parse_path (path_str p) = p) roots)"



subsection \<open>The migration\<close>

lemma inherited_from: "inherited_root_push resolve roots p = Some b \<Longrightarrow> \<exists>r\<in>set roots. rp_push r = b"
proof -
  let ?keys = "set (map (root_key resolve) (filter (covers resolve p) roots))"
  assume i: "inherited_root_push resolve roots p = Some b"
  then have "map (root_key resolve) (filter (covers resolve p) roots) \<noteq> []" and b: "b = snd (snd (Max ?keys))"
    by (auto simp: inherited_root_push_def Let_def simp del: set_map split: if_splits)
  then have "?keys \<noteq> {}" by (metis set_empty)
  then have "Max ?keys \<in> ?keys" by (intro Max_in) auto
  then show ?thesis unfolding b by (auto simp: root_key_def)
qed

lemma normalise_root_json: "normalise_root (root_json r) = Inr r' \<Longrightarrow> rp_push r' = rp_push r"
  by (auto simp: normalise_root_def root_json_def obj_get_default_def Let_def split: if_splits)

lemma traverse_Inr: "traverse f xs = Inr ys \<Longrightarrow> list_all2 (\<lambda>x y. f x = Inr y) xs ys"
  by (induction xs arbitrary: ys) (auto simp: bindE_eq_Inr)

lemma kept_subset: "set (fold (keep_root resolve) xs kept) \<subseteq> set kept \<union> set xs"
proof (induction xs arbitrary: kept)
  case (Cons x xs)
  have "set (keep_root resolve x kept) \<subseteq> insert x (set kept)" by (auto simp: keep_root_def)
  with Cons.IH [of "keep_root resolve x kept"] show ?case by auto
qed simp

lemma canonical_from: "(k, b) \<in> set (canonical_roots resolve roots) \<Longrightarrow> b \<in> rp_push ` set roots"
proof -
  have "(k, b) \<in> set (fold (\<lambda>r. AList.update (path_str (resolve (rp_path r))) (rp_push r)) roots al) \<Longrightarrow>
      b \<in> rp_push ` set roots \<union> snd ` set al" for al
  proof (induction roots arbitrary: al)
    case (Cons r roots)
    have "snd ` set (AList.update x (rp_push r) al) \<subseteq> insert (rp_push r) (snd ` set al)" for x
      by (induction al) auto
    then show ?case using Cons.IH Cons.prems by (simp add: subset_iff) blast
  qed force
  then show "(k, b) \<in> set (canonical_roots resolve roots) \<Longrightarrow> b \<in> rp_push ` set roots"
    unfolding canonical_roots_def by fastforce
qed

lemma pruned_from: "r \<in> set (prune_redundant_roots resolve roots) \<Longrightarrow> rp_push r \<in> rp_push ` set roots"
  using kept_subset unfolding prune_redundant_roots_def by (fastforce dest: canonical_from)

lemma lookup_set: "map_of (set_field k x cfg) k' = (if k' = k then Some x else map_of cfg k')"
  by (simp add: set_field_def update_conv')

lemma lookup_without: "k' \<noteq> k \<Longrightarrow> map_of (filter (\<lambda>(l, _). l \<noteq> k) cfg) k' = map_of cfg k'"
  by (induction cfg) auto

lemma migrated_lookup:
  assumes "cfg = migrated_fields resolve roots enabled raw"
  shows "map_of cfg ''version'' = Some (JInt 2)"
    "map_of cfg ''roots'' = Some (JList (map root_json (prune_redundant_roots resolve (map (\<lambda>p. \<lparr>rp_path = p, rp_push = False\<rparr>) roots))))"
    "map_of cfg ''repo_overrides'' = Some (JObj (map (\<lambda>i. (i, JObj [(''push'', JBool True)])) (sort (remdups enabled))))"
  unfolding assms migrated_fields_def by (simp_all add: lookup_without lookup_set)

lemma all2_second: "list_all2 P xs ys \<Longrightarrow> y \<in> set ys \<Longrightarrow> \<exists>x\<in>set xs. P x y"
  by (induction rule: list_all2_induct) auto

lemma migrated_roots_do_not_push:
  assumes "cfg = migrated_fields resolve roots enabled raw" "configured_roots cfg = Inr rs" "r \<in> set rs"
  shows "\<not> rp_push r"
proof -
  let ?pruned = "prune_redundant_roots resolve (map (\<lambda>p. \<lparr>rp_path = p, rp_push = False\<rparr>) roots)"
  have "traverse normalise_root (map root_json ?pruned) = Inr rs"
    using assms(2) migrated_lookup(2) [OF assms(1)] by (simp add: configured_roots_def obj_get_default_def)
  from traverse_Inr [OF this] have "list_all2 (\<lambda>q r. normalise_root (root_json q) = Inr r) ?pruned rs"
    unfolding list_all2_map1 .
  from all2_second [OF this assms(3)] obtain q where q: "q \<in> set ?pruned" "normalise_root (root_json q) = Inr r" by blast
  then show ?thesis using normalise_root_json [OF q(2)] pruned_from [OF q(1)] by auto
qed

lemma texts_members: "texts ok x = Some ss \<Longrightarrow> x = JList (map JStr ss)"
proof (cases x)
  case (JList xs)
  have "those (map (\<lambda>y. case y of JStr s \<Rightarrow> if ok s then Some s else None | _ \<Rightarrow> None) ys) = Some ss \<Longrightarrow> ys = map JStr ss" for ys
  proof (induction ys arbitrary: ss)
    case (Cons y ys)
    then show ?case by (cases y) (auto split: if_splits)
  qed simp
  then show "texts ok x = Some ss \<Longrightarrow> x = JList (map JStr ss)" using JList by (simp add: texts_def)
qed (simp_all add: texts_def)

text \<open>The migration of a configuration of the first version grants nothing and takes nothing away: afterwards a
  push is allowed for exactly the repositories that the old configuration listed, whatever the roots are.\<close>

theorem migration_keeps_push:
  assumes "migrate_config resolve raw = Inr cfg" "obj_get_default (JObj raw) ''version'' (JInt 1) = JInt 1"
  shows "(repo_push_allowed resolve cfg repo_id p = Inr True) = legacy_enabled raw repo_id"
proof -
  from assms obtain roots enabled where e: "texts (\<lambda>s. s \<noteq> []) (obj_get_default (JObj raw) ''push_enabled_repos'' (JList [])) = Some enabled"
    and cfg: "cfg = migrated_fields resolve roots enabled raw"
    by (auto simp: migrate_config_def split: option.splits)
  have "\<not> py_eq_int (field raw ''version'') 2"
    using assms(2) by (auto simp: obj_get_default_def split: option.splits)
  then have old: "legacy_enabled raw repo_id = (repo_id \<in> set enabled)"
    using texts_members [OF e] by (auto simp: legacy_enabled_def)
  have override: "override_of cfg repo_id = (if repo_id \<in> set enabled then Some True else None)"
    using migrated_lookup(3) [OF cfg] by (simp add: override_of_def obj_get_default_def map_of_map_restrict [unfolded comp_def] restrict_map_def)
  have "\<not> legacy_enabled cfg repo_id" using migrated_lookup(1) [OF cfg] by (simp add: legacy_enabled_def)
  moreover have "inherited_root_push resolve rs p \<noteq> Some True" if "configured_roots cfg = Inr rs" for rs
    using inherited_from migrated_roots_do_not_push [OF cfg that] by blast
  ultimately show ?thesis
    unfolding repo_push_allowed_def override old by (auto simp: bindE_eq_Inr)
qed

theorem migration_keeps_push_witness:
  "let raw = [(''roots'', JList [JStr ''/w'', JStr ''/w/a'']), (''push_enabled_repos'', JList [JStr ''a''])] in
   case migrate_config parse_path raw of
     Inl _ \<Rightarrow> False
   | Inr cfg \<Rightarrow> (repo_push_allowed parse_path cfg ''a'' (parse_path ''/w/a'') = Inr True) = legacy_enabled raw ''a'' \<and> legacy_enabled raw ''a''"
proof -
  let ?raw = "[(''roots'', JList [JStr ''/w'', JStr ''/w/a'']), (''push_enabled_repos'', JList [JStr ''a''])]"
  have v: "obj_get_default (JObj ?raw) ''version'' (JInt 1) = JInt 1" and l: "legacy_enabled ?raw ''a''" by code_simp+
  have "case migrate_config parse_path ?raw of Inl _ \<Rightarrow> False | Inr _ \<Rightarrow> True" by code_simp
  then obtain cfg where "migrate_config parse_path ?raw = Inr cfg" by (auto split: sum.splits)
  then show ?thesis unfolding Let_def using migration_keeps_push [OF _ v] l by simp
qed

subsection \<open>Accepted configurations\<close>

text \<open>What an accepted configuration guarantees to the programs that read it.\<close>

definition sound_command :: "str \<times> json \<Rightarrow> bool" where
  "sound_command e = (command_name_ok (fst e) \<and> argv_ok (snd e))"

definition sound_config :: "(str \<Rightarrow> path) \<Rightarrow> config \<Rightarrow> bool" where
  "sound_config resolve cfg =
     (set (map fst cfg) \<subseteq> set (map fst default_config)
      \<and> (case configured_roots cfg of Inl _ \<Rightarrow> False | Inr rs \<Rightarrow> distinct (map (\<lambda>r. path_str (resolve (rp_path r))) rs))
      \<and> (case field cfg ''safe_branch_prefix'' of JStr p \<Rightarrow> branch_prefix_ok p \<and> ends_with ''/'' p \<and> list_all branch_char p | _ \<Rightarrow> False)
      \<and> (\<exists>w n. field cfg ''max_workers'' = JInt w \<and> field cfg ''max_pending_jobs'' = JInt n \<and> 1 \<le> w \<and> w \<le> 8 \<and> w \<le> n \<and> n \<le> 32)
      \<and> (\<exists>r. validate_poll_interval (field cfg ''poll_interval'') = Inr r \<and> 1 / 2 \<le> r \<and> r \<le> 3600)
      \<and> (case field cfg ''commands'' of
           JObj repos \<Rightarrow> list_all (\<lambda>(i, x). i \<noteq> [] \<and> (case x of JObj cmds \<Rightarrow> list_all sound_command cmds | _ \<Rightarrow> False)) repos
         | _ \<Rightarrow> False))"

lemma guard_Inr: "guardE b m = Inr u \<longleftrightarrow> b"
  by (simp add: guardE_def)

lemma validate_roots_Inr:
  "validate_roots resolve seen xs = Inr u \<Longrightarrow>
   \<exists>rs. traverse normalise_root xs = Inr rs \<and> distinct (map (\<lambda>r. path_str (resolve (rp_path r))) rs)
     \<and> set seen \<inter> set (map (\<lambda>r. path_str (resolve (rp_path r))) rs) = {}"
proof (induction xs arbitrary: seen)
  case (Cons x xs)
  then obtain r where r: "normalise_root x = Inr r" "path_str (resolve (rp_path r)) \<notin> set seen"
    and rest: "validate_roots resolve (path_str (resolve (rp_path r)) # seen) xs = Inr u"
    by (simp add: bindE_eq_Inr guard_Inr Let_def) blast
  from Cons.IH [OF rest] r show ?case by (auto simp: bindE_eq_Inr)
qed simp

lemma traverse_all: "traverse f xs = Inr ys \<Longrightarrow> x \<in> set xs \<Longrightarrow> \<exists>y. f x = Inr y"
  by (induction xs arbitrary: ys) (auto simp: bindE_eq_Inr)

lemma commands_sound:
  assumes "all_fields validate_repo_commands m x = Inr u"
  shows "case x of JObj repos \<Rightarrow> list_all (\<lambda>(i, y). i \<noteq> [] \<and> (case y of JObj cmds \<Rightarrow> list_all sound_command cmds | _ \<Rightarrow> False)) repos | _ \<Rightarrow> False"
proof (cases x)
  case (JObj repos)
  have "fst e \<noteq> [] \<and> (case snd e of JObj cmds \<Rightarrow> list_all sound_command cmds | _ \<Rightarrow> False)" if "e \<in> set repos" for e
  proof -
    from assms JObj that obtain w where v: "validate_repo_commands e = Inr w"
      by (auto simp: all_fields_def bindE_eq_Inr dest: traverse_all)
    show ?thesis
    proof (cases "snd e")
      case c: (JObj cmds)
      with v obtain ws where "traverse validate_command cmds = Inr ws" "fst e \<noteq> []"
        by (auto simp: validate_repo_commands_def bindE_eq_Inr guard_Inr)
      then show ?thesis using c traverse_all [of validate_command cmds ws]
        by (auto simp: list_all_iff sound_command_def validate_command_def bindE_eq_Inr guard_Inr)
    qed (use v in \<open>simp_all add: validate_repo_commands_def bindE_def guardE_def split: if_splits\<close>)
  qed
  then show ?thesis by (simp add: JObj list_all_iff split_beta)
qed (use assms in \<open>simp_all add: all_fields_def\<close>)

lemma prefix_sound:
  "validate_branch_prefix x = Inr u \<Longrightarrow> (case x of JStr p \<Rightarrow> branch_prefix_ok p \<and> ends_with ''/'' p \<and> list_all branch_char p | _ \<Rightarrow> False)"
  by (cases x) (auto simp: validate_branch_prefix_def bindE_eq_Inr guard_Inr)

lemma int_within_Inr: "int_within lo hi m x = Inr i \<Longrightarrow> x = JInt i \<and> lo \<le> i \<and> i \<le> hi"
  by (cases x) (auto simp: int_within_def split: if_splits)

lemma number_within_Inr: "number_within lo hi m x = Inr r \<Longrightarrow> lo \<le> r \<and> r \<le> hi"
  by (cases x) (auto simp: number_within_def split: if_splits)

lemma unknown_Inr: "unknown_fields what known kvs = Inr u \<Longrightarrow> set (map fst kvs) \<subseteq> set known"
  by (auto simp: unknown_fields_def Let_def filter_empty_conv split: if_splits)

text \<open>A configuration that the validation accepts is what the daemon relies on: it has no unknown field, its roots are
  well formed with different canonical paths, the safe branches live in a namespace that is a safe Git reference,
  there are one to eight workers and at most 32 pending jobs, never fewer than workers, the poll interval is
  between half a second and an hour, and every configured command has a safe name and a non-empty argument list.\<close>

theorem accepted_config_is_sound:
  "case validate_config resolve cfg of Inl _ \<Rightarrow> True | Inr accepted \<Rightarrow> accepted = cfg \<and> sound_config resolve cfg"
proof (cases "validate_config resolve cfg")
  case (Inr accepted)
  from Inr obtain u1 u2 u3 u4 u5 w n where un: "unknown_fields ''config'' (map fst default_config) cfg = Inr u1"
    and ro: "(case field cfg ''roots'' of JList xs \<Rightarrow> validate_roots resolve [] xs
            | _ \<Rightarrow> Inl ''config roots must be a list of root policy objects'') = Inr u2"
    and pre: "validate_branch_prefix (field cfg ''safe_branch_prefix'') = Inr u3"
    and po: "failing_as ''config poll_interval must be a finite number from 0.5 to 3600 seconds''
       (validate_poll_interval (field cfg ''poll_interval'')) = Inr u4"
    and wn: "int_within 1 8 ''config max_workers must be an integer from 1 to 8'' (field cfg ''max_workers'') = Inr w"
      "int_within 1 32 ''config max_pending_jobs must be an integer from 1 to 32'' (field cfg ''max_pending_jobs'') = Inr n" "w \<le> n"
    and co: "all_fields validate_repo_commands ''config commands must be an object keyed by repository ID'' (field cfg ''commands'') = Inr u5"
    and acc: "accepted = cfg"
    unfolding validate_config_def by (simp only: bindE_eq_Inr guard_Inr sum.inject) blast
  have "set (map fst cfg) \<subseteq> set (map fst default_config)" by (rule unknown_Inr [OF un])
  moreover have "case configured_roots cfg of Inl _ \<Rightarrow> False | Inr rs \<Rightarrow> distinct (map (\<lambda>r. path_str (resolve (rp_path r))) rs)"
  proof -
    from ro obtain xs where xs: "field cfg ''roots'' = JList xs" "validate_roots resolve [] xs = Inr u2"
      by (cases "field cfg ''roots''") (simp_all del: obj_get_JObj)
    then have "obj_get_default (JObj cfg) ''roots'' (JList []) = JList xs"
      by (auto simp: obj_get_def obj_get_default_def simp del: obj_get_JObj split: option.splits)
    then show ?thesis using validate_roots_Inr [OF xs(2)] by (auto simp: configured_roots_def)
  qed
  moreover have "\<exists>r. validate_poll_interval (field cfg ''poll_interval'') = Inr r \<and> 1 / 2 \<le> r \<and> r \<le> 3600"
    using po number_within_Inr unfolding failing_as_def validate_poll_interval_def by (fastforce split: sum.splits simp del: obj_get_JObj)
  ultimately show ?thesis
    using Inr acc prefix_sound [OF pre] commands_sound [OF co] int_within_Inr [OF wn(1)] int_within_Inr [OF wn(2)] wn(3)
    unfolding sound_config_def by (simp del: obj_get_JObj)
qed simp

lemma default_accepted: "validate_config parse_path default_config = Inr default_config"
  by code_simp

end
