(* ===== verification/RemoteFiles.thy ===== *)
theory RemoteFiles
  imports BridgeRules
begin

text \<open>
  The transport of the file bridge (\<open>RcloneTransport\<close> in \<open>llm_git_bridge/transport.py\<close>): listing, reading, writing and
  deleting files on the remote drive, over the private \<open>rclone\<close> server when its socket is there and a process of
  its own otherwise. Programs over a log of events; the server, the processes and the local disk are the
  environment. An error of the class \<open>TransientTransportError\<close> is recognised by its text, which no other error has.
\<close>

text \<open>The server was not reached, so that nothing was submitted; the request failed, with an unknown outcome; or it
  answered.\<close>

datatype rpc_answer = Unreached | Failed | Answered "(str \<times> json) list"

datatype rf_event = RRpc str "(str \<times> json) list" | RRun "str list" | RWrite str str | RReplace str str | RDrop str

datatype text_answer = Text str | NotText | Unreadable

record rf_env =
  rv_remote :: str
  rv_socket :: "rf_event list \<Rightarrow> bool"
  rv_rpc :: "rf_event list \<Rightarrow> str \<Rightarrow> (str \<times> json) list \<Rightarrow> rpc_answer"
  rv_run :: "rf_event list \<Rightarrow> str list \<Rightarrow> (int \<times> str) option"
  rv_write :: "rf_event list \<Rightarrow> str \<Rightarrow> bool"
  rv_size :: "rf_event list \<Rightarrow> str \<Rightarrow> nat option"
  rv_replace :: "rf_event list \<Rightarrow> str \<Rightarrow> str \<Rightarrow> bool"
  rv_read :: "rf_event list \<Rightarrow> str \<Rightarrow> text_answer"
  rv_parse :: "str \<Rightarrow> json option"

type_synonym 'a rf = "(rf_event, 'a) prog"

definition relative_name :: "str \<Rightarrow> str" where
  "relative_name rel = dropWhile (\<lambda>c. c = CHR ''/'') rel"

definition remote_path :: "rf_env \<Rightarrow> str \<Rightarrow> str" where
  "remote_path v rel = rv_remote v @ '':'' @ relative_name rel"

definition remote_fs :: "rf_env \<Rightarrow> json" where
  "remote_fs v = JStr (rv_remote v @ '':'')"

definition local_dir :: "str \<Rightarrow> str" where
  "local_dir p = path_str (parent (parse_path p))"

definition local_name :: "str \<Rightarrow> str" where
  "local_name p = path_name (parse_path p)"

text \<open>\<open>_rc\<close>: None sends the caller to a process of its own.\<close>

definition rc :: "rf_env \<Rightarrow> str \<Rightarrow> (str \<times> json) list \<Rightarrow> bool \<Rightarrow> (str \<times> json) list option rf" where
  "rc v command payload fallback =
     bindC (ask (rv_socket v)) (\<lambda>up.
       if \<not> up then ret None
       else bindC (logged (RRpc command payload) (\<lambda>tr. Inr (rv_rpc v tr command payload))) (\<lambda>a.
         case a of
           Unreached \<Rightarrow> ret None
         | Failed \<Rightarrow> if fallback then ret None else refused ''rclone rc write outcome is unknown; retry required''
         | Answered obj \<Rightarrow> ret (Some obj)))"

definition process_try :: "rf_env \<Rightarrow> str list \<Rightarrow> (int \<times> str) rf" where
  "process_try v argv =
     logged (RRun argv) (\<lambda>tr. case rv_run v tr argv of
       None \<Rightarrow> Inl (Refused ''command timed out or could not be started'') | Some r \<Rightarrow> Inr r)"

definition process :: "rf_env \<Rightarrow> str list \<Rightarrow> str rf" where
  "process v argv =
     bindC (process_try v argv) (\<lambda>(code, out).
       if code \<noteq> 0 then refused (''command failed with exit code '' @ int_str code) else ret out)"

definition ensure_dir :: "rf_env \<Rightarrow> str \<Rightarrow> unit rf" where
  "ensure_dir v rel =
     bindC (rc v ''operations/mkdir'' [(''fs'', remote_fs v), (''remote'', JStr (relative_name rel))] False) (\<lambda>r.
       if r \<noteq> None then ret () else bindC (process v [''rclone'', ''mkdir'', remote_path v rel]) (\<lambda>_. ret ()))"

subsection \<open>Listing\<close>

record remote_file =
  rm_name :: str
  rm_size :: "int option"

fun counts_as_true :: "json \<Rightarrow> bool" where
  "counts_as_true JNull = False"
| "counts_as_true (JBool b) = b"
| "counts_as_true (JInt i) = (i \<noteq> 0)"
| "counts_as_true (JFloat r) = (r \<noteq> 0)"
| "counts_as_true (JStr s) = (s \<noteq> [])"
| "counts_as_true (JList xs) = (xs \<noteq> [])"
| "counts_as_true (JObj kvs) = (kvs \<noteq> [])"

definition nonempty_text :: "json \<Rightarrow> str option" where
  "nonempty_text x = (case x of JStr s \<Rightarrow> if s = [] then None else Some s | _ \<Rightarrow> None)"

definition entry_from_mapping :: "json \<Rightarrow> remote_file option" where
  "entry_from_mapping item =
     (if counts_as_true (obj_get item ''IsDir'') then None
      else
        let name = (case nonempty_text (obj_get item ''Name'') of
                      Some n \<Rightarrow> n
                    | None \<Rightarrow> (case nonempty_text (obj_get item ''Path'') of Some p \<Rightarrow> local_name p | None \<Rightarrow> []));
            size = (case obj_get item ''Size'' of JInt i \<Rightarrow> if i < 0 then None else Some i | _ \<Rightarrow> None) in
        if name = [] then None else Some \<lparr>rm_name = name, rm_size = size\<rparr>)"

definition validate_entries :: "remote_file list \<Rightarrow> ('e, remote_file list) prog" where
  "validate_entries entries =
     (if distinct (map rm_name entries) then ret (sort_key rm_name entries) else refused ''duplicate filenames in remote directory'')"

definition entries_of :: "json list \<Rightarrow> remote_file list" where
  "entries_of items = concat (map (\<lambda>i. if is_JObj i then (case entry_from_mapping i of Some e \<Rightarrow> [e] | None \<Rightarrow> []) else []) items)"

definition items_of :: "json \<Rightarrow> json list option" where
  "items_of x = (case x of JList items \<Rightarrow> Some items | _ \<Rightarrow> None)"

definition list_entries :: "rf_env \<Rightarrow> str \<Rightarrow> remote_file list rf" where
  "list_entries v rel =
     bindC (rc v ''operations/list''
       [(''fs'', remote_fs v), (''remote'', JStr (relative_name rel)), (''opt'', JObj [(''filesOnly'', JBool True)])] True) (\<lambda>r.
       case r of
         Some obj \<Rightarrow>
           (case items_of (obj_get_default (JObj obj) ''list'' (JList [])) of
              Some items \<Rightarrow> validate_entries (entries_of items)
            | None \<Rightarrow> refused (''rclone rc list failed for '' @ py_repr (relative_name rel) @ '': malformed response''))
       | None \<Rightarrow>
           bindC (process_try v [''rclone'', ''lsjson'', remote_path v rel, ''--files-only'', ''--max-depth'', ''1'']) (\<lambda>(code, out).
           bindC (need (code = 0) (''rclone list failed for '' @ py_repr (relative_name rel))) (\<lambda>_.
             case Option.bind (rv_parse v (if out = [] then ''[]'' else out)) items_of of
               Some items \<Rightarrow> validate_entries (entries_of items)
             | None \<Rightarrow> refused ''rclone list returned malformed JSON'')))"

definition list_files :: "rf_env \<Rightarrow> str \<Rightarrow> str list rf" where
  "list_files v rel = bindC (list_entries v rel) (\<lambda>es. ret (map rm_name es))"

subsection \<open>Reading\<close>

definition download_failed :: str where
  "download_failed = ''transaction download failed; retry required''"

definition transient_messages :: "str list" where
  "transient_messages = [download_failed, ''downloaded request is not yet available; retry required'',
     ''downloaded request cannot be stored safely; retry required'', ''downloaded request cannot be read safely; retry required'']"

text \<open>An error of the own class becomes a transient one.\<close>

definition as_transient :: "'a rf \<Rightarrow> 'a rf" where
  "as_transient m tr = (case m tr of (Inl (Refused _), us) \<Rightarrow> (Inl (Refused download_failed), us) | r \<Rightarrow> r)"

definition drop_file :: "str \<Rightarrow> unit rf" where
  "drop_file p = logged (RDrop p) (\<lambda>_. Inr ())"

definition fetch :: "rf_env \<Rightarrow> str \<Rightarrow> str \<Rightarrow> str \<Rightarrow> str rf" where
  "fetch v rel rc_tmp own_tmp =
     bindC (rc v ''operations/copyfile''
       [(''srcFs'', remote_fs v), (''srcRemote'', JStr (relative_name rel)),
        (''dstFs'', JStr (local_dir rc_tmp)), (''dstRemote'', JStr (local_name rc_tmp))] True) (\<lambda>r.
       if r \<noteq> None then ret rc_tmp
       else bindC (process v [''rclone'', ''copyto'', remote_path v rel, own_tmp]) (\<lambda>_. ret own_tmp))"

definition take_over :: "rf_env \<Rightarrow> str \<Rightarrow> nat option \<Rightarrow> str \<Rightarrow> str rf" where
  "take_over v local max_bytes completed =
     bindC (ask (\<lambda>tr. rv_size v tr completed)) (\<lambda>size.
       case size of
         None \<Rightarrow> refused ''downloaded request is not yet available; retry required''
       | Some n \<Rightarrow>
           bindC (need (case max_bytes of None \<Rightarrow> True | Some m \<Rightarrow> n \<le> m) ''remote request exceeds maximum allowed size'') (\<lambda>_.
           bindC (logged (RReplace completed local) (\<lambda>tr. if rv_replace v tr completed local then Inr ()
             else Inl (Refused ''downloaded request cannot be stored safely; retry required''))) (\<lambda>_.
           bindC (ask (\<lambda>tr. rv_read v tr local)) (\<lambda>a.
             case a of
               Text s \<Rightarrow> ret s
             | NotText \<Rightarrow> refused ''remote request is not valid UTF-8 JSON text''
             | Unreadable \<Rightarrow> refused ''downloaded request cannot be read safely; retry required''))))"

definition download_text :: "rf_env \<Rightarrow> str \<Rightarrow> str \<Rightarrow> nat option \<Rightarrow> str rf" where
  "download_text v rel local max_bytes =
     (let rc_tmp = local @ ''.rc-part''; own_tmp = local @ ''.subprocess-part'' in
      bindC (drop_file local) (\<lambda>_. bindC (drop_file rc_tmp) (\<lambda>_. bindC (drop_file own_tmp) (\<lambda>_.
        and_then
          (bindC (as_transient (fetch v rel rc_tmp own_tmp)) (take_over v local max_bytes))
          (bindC (drop_file rc_tmp) (\<lambda>_. drop_file own_tmp))))))"

subsection \<open>Writing and deleting\<close>

definition upload_text :: "rf_env \<Rightarrow> str \<Rightarrow> str \<Rightarrow> str \<Rightarrow> unit rf" where
  "upload_text v rel text local_tmp =
     bindC (logged (RWrite local_tmp text) (\<lambda>tr. if rv_write v tr local_tmp then Inr () else Inl Died)) (\<lambda>_.
     bindC (rc v ''operations/copyfile''
       [(''srcFs'', JStr (local_dir local_tmp)), (''srcRemote'', JStr (local_name local_tmp)),
        (''dstFs'', remote_fs v), (''dstRemote'', JStr (relative_name rel))] False) (\<lambda>r.
       if r \<noteq> None then ret () else bindC (process v [''rclone'', ''copyto'', local_tmp, remote_path v rel]) (\<lambda>_. ret ())))"

definition delete_file :: "rf_env \<Rightarrow> str \<Rightarrow> bool \<Rightarrow> bool rf" where
  "delete_file v rel allow_fallback =
     bindC (ask (rv_socket v)) (\<lambda>available.
     bindC (rescue (bindC (rc v ''operations/deletefile'' [(''fs'', remote_fs v), (''remote'', JStr (relative_name rel))] False) (\<lambda>r.
       ret (Some r))) None) (\<lambda>r.
       case r of
         None \<Rightarrow> ret False
       | Some (Some _) \<Rightarrow> ret True
       | Some None \<Rightarrow>
           if available \<or> \<not> allow_fallback then ret False
           else bindC (process_try v [''rclone'', ''deletefile'', remote_path v rel]) (\<lambda>(code, _).
             bindC (need (code = 0) (''rclone delete failed for '' @ py_repr (relative_name rel))) (\<lambda>_. ret True))))"

subsection \<open>A listing has every name once, in order\<close>

lemma validate_entries_Inr: "validate_entries xs tr = (Inr es, us) \<Longrightarrow> distinct (map rm_name es) \<and> sorted (map rm_name es)"
proof -
  have "distinct (map rm_name (sort_key rm_name xs))" if "distinct (map rm_name xs)" for xs :: "remote_file list"
    using that by (metis distinct_map distinct_sort set_sort)
  then show "validate_entries xs tr = (Inr es, us) \<Longrightarrow> distinct (map rm_name es) \<and> sorted (map rm_name es)"
    by (auto simp: validate_entries_def split: if_splits)
qed

lemma list_entries_sorted: "list_entries v rel tr = (Inr es, us) \<Longrightarrow> distinct (map rm_name es) \<and> sorted (map rm_name es)"
  unfolding list_entries_def by (auto simp: bindC_Inr dest: validate_entries_Inr split: option.splits)

subsection \<open>A write is submitted at most once\<close>

text \<open>A call that may change the remote drive: a process that was started, or a request that reached the server,
  whatever became of it.\<close>

definition submits :: "rf_env \<Rightarrow> rf_event list \<Rightarrow> rf_event \<Rightarrow> bool" where
  "submits v tr e =
     (case e of
        RRpc command payload \<Rightarrow> rv_rpc v tr command payload \<noteq> Unreached
      | RRun _ \<Rightarrow> True
      | _ \<Rightarrow> False)"

fun submitted :: "rf_env \<Rightarrow> rf_event list \<Rightarrow> rf_event list \<Rightarrow> nat" where
  "submitted v tr [] = 0"
| "submitted v tr (e # es) = (if submits v tr e then 1 else 0) + submitted v (tr @ [e]) es"

text \<open>C16: One attempt to write or delete a remote file, or to make a directory, submits at most one operation that may
  change the drive: when the server was reached and the outcome is unknown, no process repeats the operation, so
  that an upload whose answer was lost cannot create a second file.\<close>

theorem write_submitted_at_most_once:
  "submitted v tr (drop (length tr) (snd (upload_text v rel text tmp tr))) \<le> 1
   \<and> submitted v tr (drop (length tr) (snd (ensure_dir v rel tr))) \<le> 1
   \<and> submitted v tr (drop (length tr) (snd (delete_file v rel fallback tr))) \<le> 1"
proof (intro conjI)
  show "submitted v tr (drop (length tr) (snd (upload_text v rel text tmp tr))) \<le> 1"
    by (auto simp: upload_text_def rc_def process_def process_try_def bindC_def ask_def logged_def ret_def refused_def submits_def
        split: rpc_answer.splits option.splits)
  show "submitted v tr (drop (length tr) (snd (ensure_dir v rel tr))) \<le> 1"
    by (auto simp: ensure_dir_def rc_def process_def process_try_def bindC_def ask_def logged_def ret_def refused_def submits_def
        split: rpc_answer.splits option.splits)
  show "submitted v tr (drop (length tr) (snd (delete_file v rel fallback tr))) \<le> 1"
    by (auto simp: delete_file_def rc_def process_try_def bindC_def ask_def logged_def ret_def refused_def rescue_def need_def submits_def
        split: rpc_answer.splits option.splits)
qed

end
