(* ===== verification/BridgeMailbox.thy ===== *)
theory BridgeMailbox
  imports RemoteFiles "HOL-Library.AList"
begin

text \<open>
  The mailbox of the file bridge (\<open>llm_git_bridge/app.py\<close>): result authentication, the scope that binds the replay
  state to one mailbox, publication markers, recovery of results that are durable but not published, and the
  synchronous cycle that answers requests. Programs over a log of events. The remote drive answers through the
  transport of \<open>RemoteFiles\<close>; planning and execution of a request is one event with any answer, and so are the
  clocks. Metrics, command logs, the modes of files and the byte order mark are left out.
\<close>

type_synonym fields = "(str \<times> json) list"

datatype mb_event =
    MList str
  | MGet str
  | MPut str fields
  | MRemove str
  | MLoad str
  | MSave str fields
  | MUnlink str
  | MMove str str
  | MClean str
  | MLink str str
  | MExecute str fields
  | MRegistry str

datatype fetched = Got str | Later | Broken str

record mb_env =
  mv_home :: str
  mv_list :: "mb_event list \<Rightarrow> str \<Rightarrow> remote_file list option"
  mv_get :: "mb_event list \<Rightarrow> str \<Rightarrow> fetched"
  mv_put :: "mb_event list \<Rightarrow> str \<Rightarrow> bool"
  mv_exists :: "mb_event list \<Rightarrow> str \<Rightarrow> bool"
  mv_load :: "mb_event list \<Rightarrow> str \<Rightarrow> werror + fields"
  mv_save :: "mb_event list \<Rightarrow> str \<Rightarrow> bool"
  mv_unlink :: "mb_event list \<Rightarrow> str \<Rightarrow> bool"
  mv_move :: "mb_event list \<Rightarrow> str \<Rightarrow> bool"
  mv_text :: "mb_event list \<Rightarrow> str \<Rightarrow> str option"
  mv_registry :: "mb_event list \<Rightarrow> str \<Rightarrow> werror + bool"
  mv_strays :: "mb_event list \<Rightarrow> str list"
  mv_staging :: "mb_event list \<Rightarrow> str list"
  mv_link :: "mb_event list \<Rightarrow> str \<Rightarrow> werror + bool"
  mv_random :: "mb_event list \<Rightarrow> str"
  mv_age :: "mb_event list \<Rightarrow> str \<Rightarrow> real option"
  mv_results :: "mb_event list \<Rightarrow> str list option"
  mv_execute :: "mb_event list \<Rightarrow> str \<Rightarrow> fields \<Rightarrow> werror + fields"
  mv_now :: "mb_event list \<Rightarrow> str"
  mv_timings :: "mb_event list \<Rightarrow> json"
  mv_hmac :: "str \<Rightarrow> str \<Rightarrow> str"
  mv_sha :: "str \<Rightarrow> str"
  mv_fr :: "real \<Rightarrow> str"
  mv_parse :: "str \<Rightarrow> json option"

type_synonym 'a mb = "(mb_event, 'a) prog"

definition lift_mb :: "str + 'a \<Rightarrow> 'a mb" where
  "lift_mb r = (case r of Inl m \<Rightarrow> refused m | Inr x \<Rightarrow> ret x)"

text \<open>\<open>except Exception\<close> with a result\<close>

definition attempt :: "'a mb \<Rightarrow> 'a \<Rightarrow> 'a mb" where
  "attempt m x tr = (case m tr of (Inl _, us) \<Rightarrow> (Inr x, us) | r \<Rightarrow> r)"

definition caught :: "('e, 'a) prog \<Rightarrow> ('e, werror + 'a) prog" where
  "caught m tr = (case m tr of (r, us) \<Rightarrow> (Inr r, us))"

definition load_mb :: "mb_env \<Rightarrow> str \<Rightarrow> fields mb" where
  "load_mb v p = logged (MLoad p) (\<lambda>tr. mv_load v tr p)"

text \<open>None for a document that cannot be read, as in \<open>except BridgeError\<close>.\<close>

definition try_load :: "mb_env \<Rightarrow> str \<Rightarrow> fields option mb" where
  "try_load v p = rescue (bindC (load_mb v p) (\<lambda>kvs. ret (Some kvs))) None"

definition save_mb :: "mb_env \<Rightarrow> str \<Rightarrow> fields \<Rightarrow> unit mb" where
  "save_mb v p kvs = logged (MSave p kvs) (\<lambda>tr. if mv_save v tr p then Inr () else Inl Died)"

definition unlink_mb :: "mb_env \<Rightarrow> str \<Rightarrow> unit mb" where
  "unlink_mb v p = logged (MUnlink p) (\<lambda>tr. if mv_unlink v tr p then Inr () else Inl Died)"

definition exists_mb :: "mb_env \<Rightarrow> str \<Rightarrow> bool mb" where
  "exists_mb v p = ask (\<lambda>tr. mv_exists v tr p)"

definition list_mb :: "mb_env \<Rightarrow> str \<Rightarrow> remote_file list mb" where
  "list_mb v rel =
     bindC (logged (MList rel) (\<lambda>tr. case mv_list v tr rel of
       None \<Rightarrow> Inl (Refused (''rclone list failed for '' @ py_repr rel)) | Some es \<Rightarrow> Inr es)) validate_entries"

text \<open>None when the download failed in a way that is worth another try.\<close>

definition get_mb :: "mb_env \<Rightarrow> str \<Rightarrow> str option mb" where
  "get_mb v rel =
     logged (MGet rel) (\<lambda>tr. case mv_get v tr rel of Got s \<Rightarrow> Inr (Some s) | Later \<Rightarrow> Inr None | Broken m \<Rightarrow> Inl (Refused m))"

definition put_mb :: "mb_env \<Rightarrow> str \<Rightarrow> fields \<Rightarrow> unit mb" where
  "put_mb v rel kvs = logged (MPut rel kvs) (\<lambda>tr. if mv_put v tr rel then Inr () else Inl (Refused ''rclone rc write outcome is unknown; retry required''))"

definition config_dir :: "mb_env \<Rightarrow> str" where
  "config_dir v = mv_home v @ ''/.config/llm-git-bridge''"

definition bridge_state :: "mb_env \<Rightarrow> str" where
  "bridge_state v = mv_home v @ ''/.local/state/llm-git-bridge''"

definition result_rel :: "str \<Rightarrow> str" where
  "result_rel f = ''v2/results/'' @ f"

definition request_rel :: "str \<Rightarrow> str" where
  "request_rel f = ''v2/transactions/'' @ f"

definition marker_file :: "mb_env \<Rightarrow> str \<Rightarrow> str" where
  "marker_file v f = bridge_state v @ ''/published-results/'' @ f"

definition local_result :: "mb_env \<Rightarrow> str \<Rightarrow> str" where
  "local_result v f = bridge_state v @ ''/results/'' @ f"

definition inbox_file :: "mb_env \<Rightarrow> str \<Rightarrow> str" where
  "inbox_file v f = bridge_state v @ ''/inbox/'' @ f"

definition scope_file :: "mb_env \<Rightarrow> str" where
  "scope_file v = config_dir v @ ''/mailbox-scope.json''"

definition tx_filename :: "str \<Rightarrow> bool" where
  "tx_filename f = (ends_with ''.json'' f \<and> name_ok 119 (take (length f - 5) f))"

definition sha_text :: "json \<Rightarrow> bool" where
  "sha_text x = (case x of JStr s \<Rightarrow> length s = 64 \<and> list_all is_hex s | _ \<Rightarrow> False)"

subsection \<open>The key\<close>

definition hex_value :: "char \<Rightarrow> nat" where
  "hex_value c = (if is_digit c then code c - 48 else if 97 \<le> code c then code c - 87 else code c - 55)"

fun bytes_fromhex :: "str \<Rightarrow> str option" where
  "bytes_fromhex [] = Some []"
| "bytes_fromhex (a # cs) =
     (if is_space a then bytes_fromhex cs
      else (case cs of
              b # ds \<Rightarrow>
                if is_hex_ci a \<and> is_hex_ci b then map_option (Cons (char_of (16 * hex_value a + hex_value b))) (bytes_fromhex ds) else None
            | [] \<Rightarrow> None))"

definition key_file :: "mb_env \<Rightarrow> str" where
  "key_file v = config_dir v @ ''/result-auth.key''"

definition legacy_key_file :: "mb_env \<Rightarrow> str" where
  "legacy_key_file v = bridge_state v @ ''/result-auth.key''"

definition read_result_auth_key :: "mb_env \<Rightarrow> str \<Rightarrow> str mb" where
  "read_result_auth_key v p =
     bindC (ask (\<lambda>tr. Option.bind (mv_text v tr p) (\<lambda>s. bytes_fromhex (py_strip s)))) (\<lambda>k.
       case k of
         None \<Rightarrow> refused ''result authentication key is unreadable''
       | Some key \<Rightarrow> if length key \<noteq> 32 then refused ''result authentication key has invalid length'' else ret key)"

text \<open>A hard link never replaces the key of another process.\<close>

definition publish_result_auth_key :: "mb_env \<Rightarrow> str \<Rightarrow> str mb" where
  "publish_result_auth_key v key =
     bindC (logged (MLink (key_file v) key) (\<lambda>tr. mv_link v tr (key_file v))) (\<lambda>created.
       if created then ret key else read_result_auth_key v (key_file v))"

definition result_auth_key :: "mb_env \<Rightarrow> str mb" where
  "result_auth_key v =
     bindC (exists_mb v (key_file v)) (\<lambda>there.
       if there then read_result_auth_key v (key_file v)
       else bindC (exists_mb v (legacy_key_file v)) (\<lambda>legacy.
         bindC (if legacy then read_result_auth_key v (legacy_key_file v) else ask (mv_random v)) (publish_result_auth_key v)))"

subsection \<open>The scope of the mailbox\<close>

definition auth_alg :: json where
  "auth_alg = JStr ''hmac-sha256''"

definition scope_tag :: "mb_env \<Rightarrow> str \<Rightarrow> str mb" where
  "scope_tag v scope =
     bindC (result_auth_key v) (\<lambda>key. ret (mv_hmac v key (''llm-git-bridge-mailbox-scope'' @ CHR 0x00 # scope)))"

definition scope_document :: "mb_env \<Rightarrow> str \<Rightarrow> fields mb" where
  "scope_document v scope =
     bindC (scope_tag v scope) (\<lambda>tag.
       ret [(''version'', JInt 1), (''scope'', JStr scope), (''bridge_auth'', JObj [(''alg'', auth_alg), (''tag'', JStr tag)])])"

text \<open>\<open>compare_digest\<close> raises another exception on text that is not ASCII.\<close>

definition comparable :: "json \<Rightarrow> unit mb" where
  "comparable x tr = (case x of JStr s \<Rightarrow> if list_all (\<lambda>c. code c < 128) s then Inr () else Inl Died | _ \<Rightarrow> Inl Died, tr)"

definition validated_scope :: "mb_env \<Rightarrow> json \<Rightarrow> str mb" where
  "validated_scope v obj =
     (case obj of
        JObj kvs \<Rightarrow>
          (case obj_get obj ''scope'' of
             JStr scope \<Rightarrow>
               bindC (need (set (map fst kvs) = {''version'', ''scope'', ''bridge_auth''} \<and> py_eq_int (obj_get obj ''version'') 1
                   \<and> sha_text (JStr scope)) ''mailbox replay scope document is malformed'') (\<lambda>_.
               let auth = obj_get obj ''bridge_auth'' in
               bindC (need (obj_get auth ''alg'' = auth_alg \<and> is_JStr (obj_get auth ''tag'')) ''mailbox replay scope authentication is invalid'') (\<lambda>_.
               bindC (scope_tag v scope) (\<lambda>tag.
               bindC (comparable (obj_get auth ''tag'')) (\<lambda>_.
               bindC (need (obj_get auth ''tag'' = JStr tag) ''mailbox replay scope authentication is invalid'') (\<lambda>_. ret scope)))))
           | _ \<Rightarrow> refused ''mailbox replay scope document is malformed'')
      | _ \<Rightarrow> refused ''mailbox replay scope document is malformed'')"

definition failing_with :: "str \<Rightarrow> 'a mb \<Rightarrow> 'a mb" where
  "failing_with m p tr = (case p tr of (Inl (Refused _), us) \<Rightarrow> (Inl (Refused m), us) | r \<Rightarrow> r)"

definition bound_mailbox_scope :: "mb_env \<Rightarrow> str option mb" where
  "bound_mailbox_scope v =
     bindC (exists_mb v (scope_file v)) (\<lambda>there.
       if \<not> there then ret None
       else bindC (failing_with ''local mailbox replay scope binding is unreadable'' (load_mb v (scope_file v))) (\<lambda>kvs.
         bindC (validated_scope v (JObj kvs)) (\<lambda>s. ret (Some s))))"

definition bind_mailbox_scope :: "mb_env \<Rightarrow> str \<Rightarrow> unit mb" where
  "bind_mailbox_scope v scope = bindC (scope_document v scope) (save_mb v (scope_file v))"

definition scope_rel :: str where
  "scope_rel = ''v2/meta/mailbox-scope.json''"

definition remote_mailbox_scope :: "mb_env \<Rightarrow> str option mb" where
  "remote_mailbox_scope v =
     bindC (list_mb v ''v2/meta'') (\<lambda>es.
       if \<not> list_ex (\<lambda>e. rm_name e = ''mailbox-scope.json'') es then ret None
       else bindC (get_mb v scope_rel) (\<lambda>text.
         case text of
           None \<Rightarrow> refused download_failed
         | Some s \<Rightarrow>
             bindC (and_then (lift_mb (strict_json_loads (mv_parse v) s)) (unlink_mb v (inbox_file v ''mailbox-scope.json''))) (\<lambda>obj.
             bindC (validated_scope v obj) (\<lambda>scope. ret (Some scope)))))"

definition ensure_mailbox_scope :: "mb_env \<Rightarrow> str mb" where
  "ensure_mailbox_scope v =
     bindC (bound_mailbox_scope v) (\<lambda>here.
     bindC (remote_mailbox_scope v) (\<lambda>there.
       case here of
         Some s \<Rightarrow>
           (case there of
              None \<Rightarrow> refused ''configured mailbox does not contain the bound replay scope''
            | Some r \<Rightarrow> if r \<noteq> s then refused ''configured mailbox does not match the bound replay scope'' else ret s)
       | None \<Rightarrow>
           (case there of
              Some r \<Rightarrow> bindC (bind_mailbox_scope v r) (\<lambda>_. ret r)
            | None \<Rightarrow>
                bindC (ask (mv_random v)) (\<lambda>s.
                bindC (scope_document v s) (\<lambda>doc.
                bindC (put_mb v scope_rel doc) (\<lambda>_.
                bindC (bind_mailbox_scope v s) (\<lambda>_. ret s)))))))"

subsection \<open>Publication markers\<close>

definition marker_ok :: "str \<Rightarrow> json \<Rightarrow> bool" where
  "marker_ok f m =
     (obj_get m ''filename'' = JStr f \<and> is_JStr (obj_get m ''published_at'') \<and> is_JStr (obj_get m ''source'')
      \<and> (obj_get m ''request_bytes_sha256'' = JNull \<or> sha_text (obj_get m ''request_bytes_sha256''))
      \<and> (obj_get m ''mailbox_scope'' = JNull \<or> sha_text (obj_get m ''mailbox_scope'')))"

definition quarantine_marker :: "mb_env \<Rightarrow> str \<Rightarrow> unit mb" where
  "quarantine_marker v f =
     bindC (logged (MMove (marker_file v f) (bridge_state v @ ''/corrupt-markers/'' @ f)) (\<lambda>tr. Inr (mv_move v tr (marker_file v f)))) (\<lambda>moved.
       if moved then ret () else unlink_mb v (marker_file v f))"

definition scoped_marker :: "mb_env \<Rightarrow> str \<Rightarrow> fields \<Rightarrow> fields option mb" where
  "scoped_marker v f m =
     bindC (bound_mailbox_scope v) (\<lambda>bound.
       case bound of
         None \<Rightarrow> ret (Some m)
       | Some s \<Rightarrow>
           if obj_get (JObj m) ''mailbox_scope'' = JNull
           then let m' = AList.update ''mailbox_scope'' (JStr s) m in bindC (save_mb v (marker_file v f) m') (\<lambda>_. ret (Some m'))
           else if obj_get (JObj m) ''mailbox_scope'' = JStr s then ret (Some m)
           else bindC (quarantine_marker v f) (\<lambda>_. ret None))"

definition load_published_marker :: "mb_env \<Rightarrow> str \<Rightarrow> fields option mb" where
  "load_published_marker v f =
     bindC (exists_mb v (marker_file v f)) (\<lambda>there.
       if \<not> there then ret None
       else bindC (try_load v (marker_file v f)) (\<lambda>r.
         case r of
           Some m \<Rightarrow> if marker_ok f (JObj m) then scoped_marker v f m else bindC (quarantine_marker v f) (\<lambda>_. ret None)
         | None \<Rightarrow> bindC (quarantine_marker v f) (\<lambda>_. ret None)))"

definition new_marker :: "str \<Rightarrow> str \<Rightarrow> str \<Rightarrow> str option \<Rightarrow> json \<Rightarrow> fields" where
  "new_marker f now source scope digest =
     [(''filename'', JStr f), (''published_at'', JStr now), (''source'', JStr source)]
     @ (case scope of None \<Rightarrow> [] | Some s \<Rightarrow> [(''mailbox_scope'', JStr s)])
     @ (if digest = JNull then [] else [(''request_bytes_sha256'', digest)])"

definition mark_published :: "mb_env \<Rightarrow> str \<Rightarrow> str \<Rightarrow> json \<Rightarrow> unit mb" where
  "mark_published v f source digest =
     bindC (ask (mv_now v)) (\<lambda>now.
     bindC (bound_mailbox_scope v) (\<lambda>scope. save_mb v (marker_file v f) (new_marker f now source scope digest)))"

subsection \<open>Results\<close>

definition result_identity_ok :: "str \<Rightarrow> json \<Rightarrow> bool" where
  "result_identity_ok f r =
     (tx_filename f \<and> (case obj_get r ''transaction_id'' of JStr i \<Rightarrow> i @ ''.json'' = f | _ \<Rightarrow> False)
      \<and> obj_get r ''status'' \<in> {JStr ''success'', JStr ''error''}
      \<and> (obj_get r ''protocol'' = JNull \<or> py_eq_int (obj_get r ''protocol'') 2)
      \<and> obj_get r ''kind'' \<in> {JNull, JStr ''result''}
      \<and> (obj_get r ''request_bytes_sha256'' = JNull \<or> sha_text (obj_get r ''request_bytes_sha256'')))"

definition unsigned :: "fields \<Rightarrow> fields" where
  "unsigned r = filter (\<lambda>(k, _). k \<noteq> ''bridge_auth'') r"

definition result_tag :: "mb_env \<Rightarrow> str \<Rightarrow> str \<Rightarrow> fields \<Rightarrow> str" where
  "result_tag v key f r = mv_hmac v key (f @ CHR 0x00 # canonical False (mv_fr v) (JObj (unsigned r)))"

definition signed_with :: "mb_env \<Rightarrow> str \<Rightarrow> str \<Rightarrow> fields \<Rightarrow> fields" where
  "signed_with v key f r = AList.update ''bridge_auth'' (JObj [(''alg'', auth_alg), (''tag'', JStr (result_tag v key f r))]) r"

definition sign_result :: "mb_env \<Rightarrow> str \<Rightarrow> fields \<Rightarrow> fields mb" where
  "sign_result v f r = bindC (result_auth_key v) (\<lambda>key. ret (signed_with v key f r))"

definition tagged :: "fields \<Rightarrow> bool" where
  "tagged r =
     (let auth = obj_get (JObj r) ''bridge_auth'' in is_JObj auth \<and> obj_get auth ''alg'' = auth_alg \<and> sha_text (obj_get auth ''tag''))"

definition has_tag :: "str \<Rightarrow> fields \<Rightarrow> bool" where
  "has_tag tag r = (obj_get (obj_get (JObj r) ''bridge_auth'') ''tag'' = JStr tag)"

definition verify_result :: "mb_env \<Rightarrow> str \<Rightarrow> fields \<Rightarrow> bool mb" where
  "verify_result v f r =
     (if \<not> result_identity_ok f (JObj r) \<or> \<not> tagged r then ret False
      else bindC (result_auth_key v) (\<lambda>key. ret (has_tag (result_tag v key f r) r)))"

definition reconcile_tmp :: "mb_env \<Rightarrow> str \<Rightarrow> str" where
  "reconcile_tmp v f = bridge_state v @ ''/reconcile/'' @ f"

definition checked_result :: "mb_env \<Rightarrow> str \<Rightarrow> fields option mb" where
  "checked_result v f =
     bindC (get_mb v (result_rel f)) (\<lambda>text.
       case text of
         None \<Rightarrow> refused download_failed
       | Some s \<Rightarrow>
           bindC (lift_mb (strict_json_loads (mv_parse v) s)) (\<lambda>obj.
             case obj of
               JObj r \<Rightarrow> bindC (verify_result v f r) (\<lambda>ok. ret (if ok then Some r else None))
             | _ \<Rightarrow> ret None))"

definition load_authentic_remote_result :: "mb_env \<Rightarrow> str \<Rightarrow> fields option mb" where
  "load_authentic_remote_result v f = and_then (attempt (checked_result v f) None) (unlink_mb v (reconcile_tmp v f))"

definition cleanup_remote_request :: "mb_env \<Rightarrow> str \<Rightarrow> unit mb" where
  "cleanup_remote_request v f = logged (MRemove (request_rel f)) (\<lambda>_. Inr ())"

definition cleanup_local_artifacts :: "mb_env \<Rightarrow> str \<Rightarrow> unit mb" where
  "cleanup_local_artifacts v f = logged (MClean f) (\<lambda>tr. if mv_unlink v tr f then Inr () else Inl Died)"

definition result_retention :: int where
  "result_retention = 200"

text \<open>Acknowledged local results go, the oldest first; results without a marker stay.\<close>

fun prune_oldest :: "mb_env \<Rightarrow> str list \<Rightarrow> int \<Rightarrow> unit mb" where
  "prune_oldest v [] n = ret ()"
| "prune_oldest v (f # fs) n =
     bindC (load_published_marker v f) (\<lambda>m.
       if m = None then prune_oldest v fs n
       else bindC (logged (MUnlink (local_result v f)) (\<lambda>tr. Inr (mv_unlink v tr (local_result v f)))) (\<lambda>ok.
         if \<not> ok \<or> n \<le> 1 then ret () else prune_oldest v fs (n - 1)))"

definition prune_local_results :: "mb_env \<Rightarrow> unit mb" where
  "prune_local_results v =
     bindC (ask (mv_results v)) (\<lambda>names.
       case names of
         None \<Rightarrow> ret ()
       | Some fs \<Rightarrow> let excess = int (length fs) - result_retention in if excess \<le> 0 then ret () else prune_oldest v fs excess)"

definition acknowledge :: "mb_env \<Rightarrow> str \<Rightarrow> unit mb" where
  "acknowledge v f =
     bindC (cleanup_remote_request v f) (\<lambda>_. bindC (cleanup_local_artifacts v f) (\<lambda>_. prune_local_results v))"

definition digest_of :: "fields \<Rightarrow> json" where
  "digest_of r = obj_get (JObj r) ''request_bytes_sha256''"

subsection \<open>Recovery of durable results\<close>

datatype recovery = Published | Waiting | Corrupt

definition quarantine_result :: "mb_env \<Rightarrow> str \<Rightarrow> unit mb" where
  "quarantine_result v f =
     logged (MMove (local_result v f) (bridge_state v @ ''/corrupt-results/'' @ f)) (\<lambda>tr.
       if mv_move v tr (local_result v f) then Inr () else Inl (Refused ''cannot quarantine corrupt local result''))"

definition retry_grace :: real where
  "retry_grace = 15"

definition result_age :: "real option \<Rightarrow> real" where
  "result_age delta =
     (case delta of None \<Rightarrow> retry_grace | Some d \<Rightarrow> if d < - retry_grace then retry_grace else max 0 d)"

definition republish :: "mb_env \<Rightarrow> str \<Rightarrow> fields \<Rightarrow> recovery mb" where
  "republish v f r =
     bindC (put_mb v (result_rel f) r) (\<lambda>_.
     bindC (mark_published v f ''local-result'' (digest_of r)) (\<lambda>_.
     bindC (acknowledge v f) (\<lambda>_. ret Published)))"

definition publish_local_result :: "mb_env \<Rightarrow> str \<Rightarrow> recovery mb" where
  "publish_local_result v f =
     bindC (list_mb v ''v2/results'') (\<lambda>es.
       if f \<in> set (map rm_name es)
       then bindC (load_authentic_remote_result v f) (\<lambda>r.
         case r of
           None \<Rightarrow> refused ''conflicting unauthenticated remote result''
         | Some r \<Rightarrow>
             bindC (mark_published v f ''remote-result-existing'' (digest_of r)) (\<lambda>_.
             bindC (acknowledge v f) (\<lambda>_. ret Published)))
       else bindC (try_load v (local_result v f)) (\<lambda>r.
         case r of
           None \<Rightarrow> bindC (quarantine_result v f) (\<lambda>_. ret Corrupt)
         | Some r \<Rightarrow>
             bindC (verify_result v f r) (\<lambda>ok.
               if \<not> ok then bindC (quarantine_result v f) (\<lambda>_. ret Corrupt)
               else bindC (ask (\<lambda>tr. mv_age v tr (local_result v f))) (\<lambda>delta.
                 if result_age delta < retry_grace then ret Waiting else republish v f r))))"

fun recover_durable_results :: "mb_env \<Rightarrow> str list \<Rightarrow> (nat \<times> str list) mb" where
  "recover_durable_results v [] = ret (0, [])"
| "recover_durable_results v (f # fs) =
     bindC (exists_mb v (local_result v f)) (\<lambda>there.
     bindC (if there then publish_local_result v f else ret Corrupt) (\<lambda>how.
     bindC (recover_durable_results v fs) (\<lambda>(n, left).
       ret (if how = Published then Suc n else n, if how = Corrupt then f # left else left))))"

subsection \<open>Classification of the mailbox\<close>

fun classify_names :: "mb_env \<Rightarrow> str list \<Rightarrow> (str list \<times> str list \<times> str list) mb" where
  "classify_names v [] = ret ([], [], [])"
| "classify_names v (f # fs) =
     bindC (exists_mb v (marker_file v f)) (\<lambda>existed.
     bindC (load_published_marker v f) (\<lambda>m.
     bindC (classify_names v fs) (\<lambda>(candidates, published, invalid).
       ret (if m \<noteq> None then (candidates, f # published, invalid)
            else (f # candidates, published, if existed then f # invalid else invalid)))))"

fun repair_markers :: "mb_env \<Rightarrow> str list \<Rightarrow> str list \<Rightarrow> str list \<times> str list \<Rightarrow> (str list \<times> str list) mb" where
  "repair_markers v remote [] cp = ret cp"
| "repair_markers v remote (f # fs) cp =
     (if f \<notin> set remote then repair_markers v remote fs cp
      else bindC (load_authentic_remote_result v f) (\<lambda>r.
        case r of
          None \<Rightarrow> repair_markers v remote fs cp
        | Some r \<Rightarrow>
            bindC (mark_published v f ''invalid-marker-authenticated-remote-result'' (digest_of r)) (\<lambda>_.
            repair_markers v remote fs (remove1 f (fst cp), snd cp @ [f]))))"

definition classify_mailbox :: "mb_env \<Rightarrow> str list \<Rightarrow> (str list \<times> str list) mb" where
  "classify_mailbox v names =
     bindC (classify_names v names) (\<lambda>(candidates, published, invalid).
       if invalid = [] then ret (candidates, published)
       else bindC (list_mb v ''v2/results'') (\<lambda>es. repair_markers v (map rm_name es) invalid (candidates, published)))"

definition idle_maintenance :: "mb_env \<Rightarrow> str list \<Rightarrow> unit mb" where
  "idle_maintenance v published = (case published of [] \<Rightarrow> ret () | f # _ \<Rightarrow> acknowledge v f)"

subsection \<open>Answering requests\<close>

definition max_request_bytes :: int where
  "max_request_bytes = 12000000"

definition download_request :: "mb_env \<Rightarrow> str \<Rightarrow> int option \<Rightarrow> str option mb" where
  "download_request v f reported =
     bindC (need (case reported of None \<Rightarrow> True | Some n \<Rightarrow> n \<le> max_request_bytes) ''remote request exceeds maximum allowed size'') (\<lambda>_.
     bindC (get_mb v (request_rel f)) (\<lambda>raw.
       if raw = None then bindC (unlink_mb v (inbox_file v f)) (\<lambda>_. ret None) else ret raw))"

definition request_identity_ok :: "json \<Rightarrow> str \<Rightarrow> str + str" where
  "request_identity_ok obj f =
     bindE (guardE (py_eq_int (obj_get obj ''protocol'') 2) ''unsupported protocol'') (\<lambda>_.
     bindE (validate_transaction_id (obj_get obj ''transaction_id'')) (\<lambda>i.
     bindE (guardE (i @ ''.json'' = f) ''transaction_id does not match filename'') (\<lambda>_. Inr i)))"

definition validated_request :: "mb_env \<Rightarrow> str \<Rightarrow> str \<Rightarrow> str + fields" where
  "validated_request v f raw =
     bindE (strict_json_loads (mv_parse v) raw) (\<lambda>obj.
       case obj of
         JObj kvs \<Rightarrow> bindE (request_identity_ok obj f) (\<lambda>_. Inr kvs)
       | _ \<Rightarrow> Inl ''request JSON must be an object'')"

definition run_request :: "mb_env \<Rightarrow> str \<Rightarrow> str \<Rightarrow> fields mb" where
  "run_request v f raw =
     bindC (lift_mb (validated_request v f raw)) (\<lambda>obj. logged (MExecute f obj) (\<lambda>tr. mv_execute v tr f obj))"

fun replace_text :: "str \<Rightarrow> str \<Rightarrow> str \<Rightarrow> str" where
  "replace_text old new [] = []"
| "replace_text old new (c # cs) =
     (if old \<noteq> [] \<and> prefix old (c # cs) then new @ replace_text old new (drop (length old - 1) cs)
      else c # replace_text old new cs)"

definition same_letter :: "char \<Rightarrow> char \<Rightarrow> bool" where
  "same_letter a c = (c = a \<or> (65 \<le> code c \<and> code c \<le> 90 \<and> code c + 32 = code a))"

definition url_scheme :: "str \<Rightarrow> str option" where
  "url_scheme s =
     (if list_all2 same_letter ''https://'' (take 8 s) then Some (take 8 s)
      else if list_all2 same_letter ''http://'' (take 7 s) then Some (take 7 s) else None)"

text \<open>The length of a user name and a password, up to the sign before the host.\<close>

definition login_length :: "str \<Rightarrow> nat option" where
  "login_length t =
     (let run = takeWhile (\<lambda>c. c \<noteq> CHR ''/'' \<and> c \<noteq> CHR ''@'' \<and> \<not> is_space c) t in
      if take 1 (drop (length run) t) = ''@'' \<and> CHR '':'' \<in> set (butlast (tl run)) then Some (length run + 1) else None)"

fun redact_logins :: "str \<Rightarrow> str" where
  "redact_logins [] = []"
| "redact_logins (c # cs) =
     (case url_scheme (c # cs) of
        None \<Rightarrow> c # redact_logins cs
      | Some h \<Rightarrow>
          (case login_length (drop (length h) (c # cs)) of
             None \<Rightarrow> c # redact_logins cs
           | Some n \<Rightarrow> h @ ''<redacted>@'' @ redact_logins (drop (length h + n - 1) cs)))"

definition public_error_message :: "mb_env \<Rightarrow> werror \<Rightarrow> str" where
  "public_error_message v e =
     (case e of
        Died \<Rightarrow> ''internal bridge error''
      | Refused m \<Rightarrow>
          (let s = map (\<lambda>c. if c = CHR 0x0A \<or> c = CHR 0x0D then CHR 0x20 else c) (redact_logins (replace_text (mv_home v) ''<home>'' m)) in
           if s = [] then ''bridge error'' else take 500 s))"

definition error_result :: "mb_env \<Rightarrow> str \<Rightarrow> werror \<Rightarrow> fields mb" where
  "error_result v f e =
     bindC (ask (mv_now v)) (\<lambda>now.
       ret [(''protocol'', JInt 2), (''kind'', JStr ''result''), (''transaction_id'', JStr (take (length f - 5) f)),
            (''status'', JStr ''error''), (''processed_at'', JStr now), (''error'', JStr (public_error_message v e))])"

definition build_signed_result :: "mb_env \<Rightarrow> str \<Rightarrow> fields \<Rightarrow> str option \<Rightarrow> fields mb" where
  "build_signed_result v f r raw =
     bindC (ask (mv_timings v)) (\<lambda>timings.
       let bound = (case raw of None \<Rightarrow> r | Some s \<Rightarrow> AList.update ''request_bytes_sha256'' (JStr (mv_sha v s)) r) in
       sign_result v f (AList.update ''transport_timings'' timings bound))"

text \<open>After the result is durable, a failure of the file system is an error of the own class.\<close>

definition post_durable :: "'a mb \<Rightarrow> 'a mb" where
  "post_durable m tr =
     (case m tr of (Inl Died, us) \<Rightarrow> (Inl (Refused ''post-durable result publication/cleanup failed''), us) | r \<Rightarrow> r)"

definition publish_and_cleanup :: "mb_env \<Rightarrow> str \<Rightarrow> fields \<Rightarrow> unit mb" where
  "publish_and_cleanup v f r =
     post_durable (bindC (put_mb v (result_rel f) r) (\<lambda>_.
       bindC (mark_published v f ''processed'' (digest_of r)) (\<lambda>_. acknowledge v f)))"

definition deliver :: "mb_env \<Rightarrow> str \<Rightarrow> fields \<Rightarrow> str option \<Rightarrow> nat mb" where
  "deliver v f r raw =
     bindC (build_signed_result v f r raw) (\<lambda>signed.
     bindC (save_mb v (local_result v f) signed) (\<lambda>_.
     bindC (publish_and_cleanup v f signed) (\<lambda>_. ret 1)))"

definition answer_request :: "mb_env \<Rightarrow> str \<times> int option \<Rightarrow> nat mb" where
  "answer_request v fs =
     (case fs of (f, reported) \<Rightarrow>
        bindC (caught (download_request v f reported)) (\<lambda>d.
          case d of
            Inl e \<Rightarrow> bindC (error_result v f e) (\<lambda>r. deliver v f r None)
          | Inr None \<Rightarrow> ret 0
          | Inr (Some raw) \<Rightarrow>
              bindC (caught (run_request v f raw)) (\<lambda>x.
              bindC (case x of Inl e \<Rightarrow> error_result v f e | Inr r \<Rightarrow> ret r) (\<lambda>r. deliver v f r (Some raw)))))"

fun answer_all :: "mb_env \<Rightarrow> (str \<times> int option) list \<Rightarrow> nat mb" where
  "answer_all v [] = ret 0"
| "answer_all v (f # fs) = bindC (answer_request v f) (\<lambda>n. bindC (answer_all v fs) (\<lambda>m. ret (n + m)))"

definition size_for :: "remote_file list \<Rightarrow> str \<Rightarrow> int option" where
  "size_for es f = (case find (\<lambda>e. rm_name e = f) es of None \<Rightarrow> None | Some e \<Rightarrow> rm_size e)"

definition registry_mb :: "mb_env \<Rightarrow> str \<Rightarrow> bool mb" where
  "registry_mb v what = logged (MRegistry what) (\<lambda>tr. mv_registry v tr what)"

definition answer_candidates :: "mb_env \<Rightarrow> bool \<Rightarrow> remote_file list \<Rightarrow> str list \<Rightarrow> nat mb" where
  "answer_candidates v known es candidates =
     bindC (recover_durable_results v candidates) (\<lambda>(n, left).
       if left = [] then ret n
       else bindC (if known then ret True else registry_mb v ''dispatch'') (\<lambda>_.
         bindC (answer_all v (map (\<lambda>f. (f, size_for es f)) left)) (\<lambda>m. ret (n + m))))"

definition handle_mailbox :: "mb_env \<Rightarrow> bool \<Rightarrow> remote_file list \<Rightarrow> nat mb" where
  "handle_mailbox v known es =
     bindC (classify_mailbox v (map rm_name es)) (\<lambda>(candidates, published).
       if candidates = [] then bindC (idle_maintenance v published) (\<lambda>_. ret 0)
       else answer_candidates v known es candidates)"

text \<open>\<open>process_pending_once\<close> with one worker. The registry is the business of \<open>Registry\<close>: the retry, the refresh,
  which says whether a registry is at hand, and the load before the first dispatch are events.\<close>

definition mailbox_cycle :: "mb_env \<Rightarrow> nat mb" where
  "mailbox_cycle v =
     bindC (rescue (registry_mb v ''retry'') False) (\<lambda>_.
     bindC (registry_mb v ''refresh'') (\<lambda>known.
     bindC (list_mb v ''v2/transactions'') (\<lambda>es.
     handle_mailbox v known (filter (\<lambda>e. tx_filename (rm_name e)) es))))"

subsection \<open>The start of the watcher\<close>

fun unmarked_requests :: "mb_env \<Rightarrow> str list \<Rightarrow> str list mb" where
  "unmarked_requests v [] = ret []"
| "unmarked_requests v (f # fs) =
     bindC (load_published_marker v f) (\<lambda>m. bindC (unmarked_requests v fs) (\<lambda>others. ret (if m = None then f # others else others)))"

fun adopt_results :: "mb_env \<Rightarrow> str list \<Rightarrow> nat mb" where
  "adopt_results v [] = ret 0"
| "adopt_results v (f # fs) =
     bindC (load_authentic_remote_result v f) (\<lambda>r.
       case r of
         None \<Rightarrow> adopt_results v fs
       | Some r \<Rightarrow>
           bindC (mark_published v f ''startup-authenticated-remote-result'' (digest_of r)) (\<lambda>_.
           bindC (adopt_results v fs) (\<lambda>n. ret (Suc n))))"

definition reconcile_remote_results :: "mb_env \<Rightarrow> nat mb" where
  "reconcile_remote_results v =
     bindC (list_mb v ''v2/transactions'') (\<lambda>es.
     bindC (unmarked_requests v (filter tx_filename (map rm_name es))) (\<lambda>unmarked.
       if unmarked = [] then ret 0
       else bindC (ensure_mailbox_scope v) (\<lambda>_.
         bindC (list_mb v ''v2/results'') (\<lambda>rs.
           adopt_results v (filter (\<lambda>f. f \<in> set unmarked \<and> tx_filename f) (map rm_name rs))))))"

text \<open>Local files that a crash left behind; the staging files go in any case.\<close>

fun clean_acknowledged :: "mb_env \<Rightarrow> str list \<Rightarrow> nat mb" where
  "clean_acknowledged v [] = ret 0"
| "clean_acknowledged v (f # fs) =
     bindC (load_published_marker v f) (\<lambda>m.
       if m = None then clean_acknowledged v fs
       else bindC (cleanup_local_artifacts v f) (\<lambda>_.
         bindC (clean_acknowledged v fs) (\<lambda>n. ret (Suc n))))"

definition staging_file :: "mb_env \<Rightarrow> str \<Rightarrow> str" where
  "staging_file v f = bridge_state v @ ''/outbox/'' @ f"

definition reconcile_local_artifacts :: "mb_env \<Rightarrow> nat mb" where
  "reconcile_local_artifacts v =
     bindC (ask (mv_strays v)) (\<lambda>ids.
     bindC (clean_acknowledged v (filter tx_filename (map (\<lambda>i. i @ ''.json'') (sort_key (\<lambda>i. i) (remdups ids))))) (\<lambda>n.
     bindC (ask (mv_staging v)) (\<lambda>names.
     bindC (each (\<lambda>f. unlink_mb v (staging_file v f)) (filter (\<lambda>f. prefix ''result-'' f \<or> prefix ''snapshot-'' f) names)) (\<lambda>_. ret n))))"

end
