(* ===== verification/MailboxSafety.thy ===== *)
theory MailboxSafety
  imports BridgeMailbox
begin

text \<open>
  What the mailbox of the file bridge guarantees: every event of a cycle, of the start of the watcher and of the local
  clean-up has a reason in what the process did before, a request runs at most once in a cycle, and a signed result
  is accepted again.
\<close>

subsection \<open>What a program logs\<close>

lemma only_wrapped [only_rules]:
  "only ok m \<Longrightarrow> only ok (attempt m x)" "only ok m \<Longrightarrow> only ok (caught m)"
  "only ok m \<Longrightarrow> only ok (failing_with e m)" "only ok m \<Longrightarrow> only ok (post_durable m)"
  unfolding only_def attempt_def caught_def failing_with_def post_durable_def
  by (auto split: prod.splits sum.splits werror.splits) (metis snd_conv)+

lemma only_lift_mb [only_rules]: "only ok (lift_mb r)" "only ok (comparable x)"
  by (auto simp: lift_mb_def only_def comparable_def ret_def refused_def split: sum.split)

fun executes :: "mb_event \<Rightarrow> str list" where
  "executes (MExecute f _) = [f]"
| "executes _ = []"

abbreviation quiet :: "'a mb \<Rightarrow> bool" where
  "quiet \<equiv> only (\<lambda>e. executes e = [])"

lemma quiet_basic [only_rules]:
  "quiet (load_mb v p)" "quiet (save_mb v p kvs)" "quiet (unlink_mb v p)" "quiet (exists_mb v p)" "quiet (get_mb v rel)"
  "quiet (put_mb v rel kvs)" "quiet (registry_mb v w)" "quiet (cleanup_remote_request v f)" "quiet (cleanup_local_artifacts v f)"
  "quiet (quarantine_result v f)"
  unfolding load_mb_def save_mb_def unlink_mb_def exists_mb_def get_mb_def put_mb_def registry_mb_def cleanup_remote_request_def
    cleanup_local_artifacts_def quarantine_result_def
  by (auto intro!: only_rules)

lemma quiet_try_load [only_rules]: "quiet (try_load v p)"
  unfolding try_load_def by (auto intro!: only_rules)

lemma quiet_list [only_rules]: "quiet (list_mb v rel)"
  unfolding list_mb_def validate_entries_def by (auto intro!: only_rules)

lemma quiet_key [only_rules]: "quiet (result_auth_key v)"
  unfolding result_auth_key_def publish_result_auth_key_def read_result_auth_key_def by (auto intro!: only_rules split: option.split)

lemma quiet_scope [only_rules]: "quiet (scope_document v c)" "quiet (bound_mailbox_scope v)" "quiet (ensure_mailbox_scope v)"
proof -
  show doc: "quiet (scope_document v c)" for c unfolding scope_document_def scope_tag_def by (auto intro!: only_rules)
  have valid: "quiet (validated_scope v x)" for x
    unfolding validated_scope_def scope_tag_def Let_def by (auto intro!: only_rules split: json.split)
  show bound: "quiet (bound_mailbox_scope v)" unfolding bound_mailbox_scope_def by (auto intro!: only_rules valid)
  show "quiet (ensure_mailbox_scope v)"
    unfolding ensure_mailbox_scope_def remote_mailbox_scope_def bind_mailbox_scope_def
    by (auto intro!: only_rules valid doc bound split: option.split)
qed

lemma quiet_marker [only_rules]:
  "quiet (quarantine_marker v f)" "quiet (load_published_marker v f)" "quiet (mark_published v f src d)"
proof -
  show q: "quiet (quarantine_marker v f)" unfolding quarantine_marker_def by (auto intro!: only_rules)
  have "quiet (scoped_marker v f m)" for m
    unfolding scoped_marker_def Let_def by (auto intro!: only_rules q split: option.split)
  then show "quiet (load_published_marker v f)"
    unfolding load_published_marker_def by (auto intro!: only_rules q split: option.split)
  show "quiet (mark_published v f src d)" unfolding mark_published_def by (auto intro!: only_rules)
qed

lemma quiet_result [only_rules]:
  "quiet (sign_result v f r)" "quiet (verify_result v f r)" "quiet (load_authentic_remote_result v f)"
proof -
  show "quiet (sign_result v f r)" unfolding sign_result_def by (auto intro!: only_rules)
  show ver: "quiet (verify_result v f r)" for r unfolding verify_result_def by (auto intro!: only_rules)
  show "quiet (load_authentic_remote_result v f)"
    unfolding load_authentic_remote_result_def checked_result_def by (auto intro!: only_rules ver split: option.split json.split)
qed

lemma quiet_prune [only_rules]: "quiet (prune_oldest v fs n)"
  by (induction fs arbitrary: n) (auto intro!: only_rules)

lemma quiet_acknowledge [only_rules]: "quiet (acknowledge v f)"
  unfolding acknowledge_def prune_local_results_def Let_def by (auto intro!: only_rules split: option.split)

lemma quiet_publish_mb [only_rules]: "quiet (publish_local_result v f)"
  unfolding publish_local_result_def republish_def by (auto intro!: only_rules split: option.split)

lemma quiet_recover [only_rules]: "quiet (recover_durable_results v fs)"
  by (induction fs) (auto intro!: only_rules split: prod.split)

lemma quiet_repair [only_rules]: "quiet (repair_markers v remote fs cp)"
  by (induction fs arbitrary: cp) (auto intro!: only_rules split: option.split)

lemma quiet_classify_names [only_rules]: "quiet (classify_names v fs)"
  by (induction fs) (auto intro!: only_rules split: prod.split)

lemma quiet_classify [only_rules]: "quiet (classify_mailbox v fs)" "quiet (idle_maintenance v fs)"
  unfolding classify_mailbox_def idle_maintenance_def by (auto intro!: only_rules split: prod.split list.split)

lemma quiet_unmarked [only_rules]: "quiet (unmarked_requests v fs)" "quiet (adopt_results v fs)" "quiet (clean_acknowledged v fs)"
  by (induction fs) (auto intro!: only_rules split: option.split)

lemma quiet_answer [only_rules]:
  "quiet (download_request v f n)" "quiet (error_result v f e)" "quiet (build_signed_result v f r raw)" "quiet (publish_and_cleanup v f r)"
  "quiet (deliver v f r raw)"
  unfolding download_request_def error_result_def deliver_def build_signed_result_def publish_and_cleanup_def Let_def
  by (auto intro!: only_rules)

subsection \<open>What a program did before\<close>

text \<open>\<open>m\<close> was called after the events \<open>t0\<close>, and its result \<open>x\<close> was there before the events \<open>us\<close> ended.\<close>

definition happened :: "'a mb \<Rightarrow> 'a \<Rightarrow> mb_event list \<Rightarrow> mb_event list \<Rightarrow> bool" where
  "happened m x t0 us = (\<exists>vs ws. prefix t0 vs \<and> m vs = (Inr x, ws) \<and> prefix ws us)"

lemma happened_later: "happened m x t0 us \<Longrightarrow> prefix us vs \<Longrightarrow> happened m x t0 vs"
  unfolding happened_def by (blast intro: prefix_order.trans)

lemma yields_happened: "yields m (\<lambda>x t0 us. happened m x t0 us)"
  by (auto simp: yields_def happened_def)

lemma happens_step:
  assumes "keeps P m tr" "logs m" "prefix t0 tr"
    and "\<And>x us. happened m x t0 us \<Longrightarrow> prefix tr us \<Longrightarrow> prefix t0 us \<Longrightarrow> keeps P (f x) us"
  shows "keeps P (bindC m f) tr"
  by (rule known_step [OF assms(1,2) yields_happened assms(3)]) (auto intro: assms(4))

definition backed :: "mb_env \<Rightarrow> mb_event list \<Rightarrow> mb_event list \<Rightarrow> str \<Rightarrow> json \<Rightarrow> bool" where
  "backed v t0 us f d =
     (\<exists>r. d = digest_of r
        \<and> (happened (load_authentic_remote_result v f) (Some r) t0 us \<or> happened (put_mb v (result_rel f) r) () t0 us))"

definition acknowledged :: "mb_env \<Rightarrow> mb_event list \<Rightarrow> mb_event list \<Rightarrow> str \<Rightarrow> bool" where
  "acknowledged v t0 us f =
     ((\<exists>src d. happened (mark_published v f src d) () t0 us) \<or> (\<exists>m. happened (load_published_marker v f) (Some m) t0 us))"

text \<open>A marker or a local result that the code may put aside\<close>

definition bad_marker :: "mb_env \<Rightarrow> mb_event list \<Rightarrow> mb_event list \<Rightarrow> str \<Rightarrow> bool" where
  "bad_marker v t0 us f =
     (happened (try_load v (marker_file v f)) None t0 us
      \<or> (\<exists>m. happened (try_load v (marker_file v f)) (Some m) t0 us
           \<and> (\<not> marker_ok f (JObj m)
              \<or> (\<exists>s. happened (bound_mailbox_scope v) (Some s) t0 us \<and> obj_get (JObj m) ''mailbox_scope'' \<noteq> JStr s))))"

definition bad_result :: "mb_env \<Rightarrow> mb_event list \<Rightarrow> mb_event list \<Rightarrow> str \<Rightarrow> bool" where
  "bad_result v t0 us f =
     (happened (try_load v (local_result v f)) None t0 us
      \<or> (\<exists>r. happened (try_load v (local_result v f)) (Some r) t0 us \<and> happened (verify_result v f r) False t0 us))"

text \<open>A request that has no marker and no durable result that could be published\<close>

definition unanswered :: "mb_env \<Rightarrow> mb_event list \<Rightarrow> mb_event list \<Rightarrow> str \<Rightarrow> bool" where
  "unanswered v t0 us f =
     (happened (load_published_marker v f) None t0 us
      \<and> (happened (exists_mb v (local_result v f)) False t0 us \<or> happened (publish_local_result v f) Corrupt t0 us))"

text \<open>Why an event may happen\<close>

inductive accounted :: "mb_env \<Rightarrow> mb_event list \<Rightarrow> mb_event list \<Rightarrow> mb_event \<Rightarrow> bool" for v t0 us where
  listing: "accounted v t0 us (MList rel)"
| downloading: "accounted v t0 us (MGet rel)"
| loading: "accounted v t0 us (MLoad p)"
| registry: "accounted v t0 us (MRegistry w)"
| temporary: "p \<in> {reconcile_tmp v f, inbox_file v f, staging_file v f} \<Longrightarrow> accounted v t0 us (MUnlink p)"
| publishes: "backed v t0 us f d \<Longrightarrow> accounted v t0 us (MSave (marker_file v f) (new_marker f now src scope d))"
| adopts: "happened (try_load v (marker_file v f)) (Some m) t0 us \<Longrightarrow> marker_ok f (JObj m)
    \<Longrightarrow> happened (bound_mailbox_scope v) (Some s) t0 us
    \<Longrightarrow> accounted v t0 us (MSave (marker_file v f) (AList.update ''mailbox_scope'' (JStr s) m))"
| stores: "happened (sign_result v f r) s t0 us \<Longrightarrow> accounted v t0 us (MSave (local_result v f) s)"
| binds: "happened (scope_document v c) d t0 us \<Longrightarrow> accounted v t0 us (MSave (scope_file v) d)"
| announces: "happened (scope_document v c) d t0 us \<Longrightarrow> accounted v t0 us (MPut scope_rel d)"
| uploads: "happened (sign_result v f r) s t0 us \<Longrightarrow> happened (save_mb v (local_result v f) s) () t0 us
    \<Longrightarrow> accounted v t0 us (MPut (result_rel f) s)"
| uploads_again: "happened (try_load v (local_result v f)) (Some r) t0 us \<Longrightarrow> happened (verify_result v f r) True t0 us
    \<Longrightarrow> accounted v t0 us (MPut (result_rel f) r)"
| retires: "acknowledged v t0 us f \<Longrightarrow> e \<in> {MRemove (request_rel f), MClean f, MUnlink (local_result v f)} \<Longrightarrow> accounted v t0 us e"
| rejects_marker: "bad_marker v t0 us f \<Longrightarrow> e \<in> {MMove (marker_file v f) p, MUnlink (marker_file v f)} \<Longrightarrow> accounted v t0 us e"
| rejects_result: "bad_result v t0 us f \<Longrightarrow> accounted v t0 us (MMove (local_result v f) p)"
| creates_key: "happened (exists_mb v (key_file v)) False t0 us \<Longrightarrow> accounted v t0 us (MLink (key_file v) k)"
| runs: "unanswered v t0 us f \<Longrightarrow> happened (download_request v f n) (Some raw) t0 us \<Longrightarrow> validated_request v f raw = Inr kvs
    \<Longrightarrow> accounted v t0 us (MExecute f kvs)"

lemma seen_later_mb:
  assumes "prefix us vs"
  shows "backed v t0 us f d \<Longrightarrow> backed v t0 vs f d" "acknowledged v t0 us f \<Longrightarrow> acknowledged v t0 vs f"
    "unanswered v t0 us f \<Longrightarrow> unanswered v t0 vs f"
  unfolding backed_def acknowledged_def unanswered_def by (blast intro: happened_later [OF _ assms])+

subsection \<open>Every event is accounted for\<close>

lemma keeps_wrapped:
  "keeps P m tr \<Longrightarrow> keeps P (attempt m x) tr" "keeps P m tr \<Longrightarrow> keeps P (caught m) tr"
  "keeps P m tr \<Longrightarrow> keeps P (failing_with e m) tr" "keeps P m tr \<Longrightarrow> keeps P (post_durable m) tr"
  unfolding keeps_def attempt_def caught_def failing_with_def post_durable_def
  by (auto split: prod.splits sum.splits werror.splits)

lemma keeps_option:
  "(z = None \<Longrightarrow> keeps P m tr) \<Longrightarrow> (\<And>y. z = Some y \<Longrightarrow> keeps P (n y) tr) \<Longrightarrow> keeps P (case z of None \<Rightarrow> m | Some y \<Rightarrow> n y) tr"
  by (cases z) simp_all

abbreviation harmless :: "mb_env \<Rightarrow> mb_event \<Rightarrow> bool" where
  "harmless v e \<equiv> (case e of
     MList _ \<Rightarrow> True | MGet _ \<Rightarrow> True | MLoad _ \<Rightarrow> True | MRegistry _ \<Rightarrow> True
   | MUnlink p \<Rightarrow> \<exists>f. p \<in> {reconcile_tmp v f, inbox_file v f, staging_file v f}
   | _ \<Rightarrow> False)"

lemma keeps_harmless_mb: "only (harmless v) m \<Longrightarrow> keeps (accounted v t0) m tr"
  by (erule keeps_only) (auto intro: accounted.intros split: mb_event.splits)

lemma harmless_basic_mb [only_rules]:
  "only (harmless v) (load_mb v p)" "only (harmless v) (exists_mb v p)" "only (harmless v) (get_mb v rel)" "only (harmless v) (try_load v p)"
  "only (harmless v) (registry_mb v w)" "only (harmless v) (list_mb v rel)" "only (harmless v) (read_result_auth_key v p)"
  "only (harmless v) (download_request v f n)" "only (harmless v) (error_result v f e)"
proof -
  show load: "only (harmless v) (load_mb v p)" unfolding load_mb_def by (auto intro!: only_rules)
  show "only (harmless v) (exists_mb v p)" unfolding exists_mb_def by (auto intro!: only_rules)
  show get: "only (harmless v) (get_mb v rel)" for rel unfolding get_mb_def by (auto intro!: only_rules)
  show "only (harmless v) (try_load v p)" unfolding try_load_def by (auto intro!: only_rules load)
  show "only (harmless v) (registry_mb v w)" unfolding registry_mb_def by (auto intro!: only_rules)
  show "only (harmless v) (list_mb v rel)" unfolding list_mb_def validate_entries_def by (auto intro!: only_rules)
  show "only (harmless v) (read_result_auth_key v p)" unfolding read_result_auth_key_def by (auto intro!: only_rules split: option.split)
  show "only (harmless v) (download_request v f n)" unfolding download_request_def unlink_mb_def by (auto intro!: only_rules get) blast+
  show "only (harmless v) (error_result v f e)" unfolding error_result_def by (auto intro!: only_rules)
qed

lemma keeps_key: "prefix t0 tr \<Longrightarrow> keeps (accounted v t0) (result_auth_key v) tr"
proof -
  assume t0: "prefix t0 tr"
  have pub: "keeps (accounted v t0) (publish_result_auth_key v k) us" if "happened (exists_mb v (key_file v)) False t0 us" for k us
    unfolding publish_result_auth_key_def
    by (intro keeps_bind keeps_if keeps_leaf keeps_logged accounted.creates_key that) (auto intro!: keeps_harmless_mb only_rules)
  show ?thesis
    unfolding result_auth_key_def
  proof (rule happens_step [OF keeps_harmless_mb _ t0], rule only_rules)
    fix there us assume there: "happened (exists_mb v (key_file v)) there t0 us" and us: "prefix t0 us"
    have "keeps (accounted v t0) (bindC (exists_mb v (legacy_key_file v)) (\<lambda>legacy.
        bindC (if legacy then read_result_auth_key v (legacy_key_file v) else ask (mv_random v)) (publish_result_auth_key v))) us" if "\<not> there"
    proof (rule keeps_bind [OF keeps_harmless_mb], rule only_rules)
      fix legacy vs assume a: "exists_mb v (legacy_key_file v) us = (Inr legacy, vs)"
      let ?m = "if legacy then read_result_auth_key v (legacy_key_file v) else ask (mv_random v)"
      have m: "only (harmless v) ?m" by (auto intro!: only_rules)
      show "keeps (accounted v t0) (bindC ?m (publish_result_auth_key v)) vs"
      proof (rule keeps_bind [OF keeps_harmless_mb [OF m]])
        fix k ws assume b: "?m vs = (Inr k, ws)"
        have "prefix us ws" using only_prefix [OF harmless_basic_mb(2) a] only_prefix [OF m b] by (rule prefix_order.trans)
        with there that show "keeps (accounted v t0) (publish_result_auth_key v k) ws" by (auto intro!: pub elim: happened_later)
      qed
    qed
    then show "keeps (accounted v t0) (if there then read_result_auth_key v (key_file v) else bindC (exists_mb v (legacy_key_file v)) (\<lambda>legacy.
        bindC (if legacy then read_result_auth_key v (legacy_key_file v) else ask (mv_random v)) (publish_result_auth_key v))) us"
      by (auto intro!: keeps_harmless_mb only_rules)
  qed (auto intro: only_logs only_rules)
qed

named_theorems acct

lemma acc_step:
  assumes "keeps (accounted v t0) m tr" "quiet m" "prefix t0 tr"
    and "\<And>x us. happened m x t0 us \<Longrightarrow> prefix tr us \<Longrightarrow> prefix t0 us \<Longrightarrow> keeps (accounted v t0) (f x) us"
  shows "keeps (accounted v t0) (bindC m f) tr"
  by (rule happens_step [OF assms(1) only_logs [OF assms(2)] assms(3)]) (rule assms(4))

lemma keeps_json:
  "(\<And>kvs. x = JObj kvs \<Longrightarrow> keeps P (g kvs) tr) \<Longrightarrow> keeps P m tr \<Longrightarrow> keeps P (case x of JObj kvs \<Rightarrow> g kvs | _ \<Rightarrow> m) tr"
  "(\<And>s. x = JStr s \<Longrightarrow> keeps P (h s) tr) \<Longrightarrow> keeps P m tr \<Longrightarrow> keeps P (case x of JStr s \<Rightarrow> h s | _ \<Rightarrow> m) tr"
  by (cases x; simp)+

lemmas acct_flow = keeps_need acc_step keeps_leaf keeps_option keeps_pair keeps_if keeps_json keeps_wrapped keeps_rescue only_flow

lemmas keeps_calls [acct] = harmless_basic_mb [THEN keeps_harmless_mb]

lemma keeps_unlink: "p \<in> {reconcile_tmp v f, inbox_file v f, staging_file v f} \<Longrightarrow> keeps (accounted v t0) (unlink_mb v p) tr"
  unfolding unlink_mb_def by (intro keeps_logged accounted.temporary)

lemma keeps_lift [acct]: "keeps P (lift_mb r) tr" "keeps P (comparable x) tr"
  by (auto simp: lift_mb_def comparable_def keeps_def ret_def refused_def split: sum.split)

lemma keeps_sign [acct]:
  assumes "prefix t0 tr"
  shows "keeps (accounted v t0) (sign_result v f r) tr" "keeps (accounted v t0) (verify_result v f r) tr"
    "keeps (accounted v t0) (scope_tag v c) tr"
  unfolding sign_result_def verify_result_def scope_tag_def
  by (intro keeps_if keeps_leaf keeps_bind keeps_key assms)+

lemma quiet_tag [only_rules]: "quiet (scope_tag v c)"
  unfolding scope_tag_def by (auto intro!: only_rules)

lemma keeps_document [acct]: "prefix t0 tr \<Longrightarrow> keeps (accounted v t0) (scope_document v c) tr"
  unfolding scope_document_def by (rule only_rules acct_flow acct | assumption)+

lemma quiet_validated [only_rules]: "quiet (validated_scope v x)"
  unfolding validated_scope_def scope_tag_def Let_def by (auto intro!: only_rules split: json.split)

lemma keeps_validated [acct]: "prefix t0 tr \<Longrightarrow> keeps (accounted v t0) (validated_scope v x) tr"
  unfolding validated_scope_def Let_def by (rule only_rules acct_flow acct | assumption)+

lemma keeps_bound [acct]: "prefix t0 tr \<Longrightarrow> keeps (accounted v t0) (bound_mailbox_scope v) tr"
  unfolding bound_mailbox_scope_def by (rule only_rules acct_flow acct | assumption)+

lemma keeps_remote_result [acct]:
  assumes "prefix t0 tr"
  shows "keeps (accounted v t0) (load_authentic_remote_result v f) tr"
proof -
  have "keeps (accounted v t0) (checked_result v f) tr"
    unfolding checked_result_def using assms by - (rule only_rules acct_flow acct | assumption)+
  then show ?thesis
    unfolding load_authentic_remote_result_def by (intro keeps_and_then keeps_wrapped keeps_unlink [of _ v f]) auto
qed

lemma keeps_quarantine:
  assumes "bad_marker v t0 tr f"
  shows "keeps (accounted v t0) (quarantine_marker v f) tr"
proof -
  have "bad_marker v t0 us f" if "prefix tr us" for us
    using assms unfolding bad_marker_def by (blast intro: happened_later [OF _ that])
  then show ?thesis
    unfolding quarantine_marker_def unlink_mb_def
    by (intro keeps_bind keeps_if keeps_leaf keeps_logged accounted.rejects_marker)
      (auto simp: logged_Inr)
qed

lemma keeps_scoped:
  assumes "happened (try_load v (marker_file v f)) (Some m) t0 tr" "marker_ok f (JObj m)" "prefix t0 tr"
  shows "keeps (accounted v t0) (scoped_marker v f m) tr"
  unfolding scoped_marker_def Let_def
proof (rule acc_step [OF keeps_bound [OF assms(3)] _ assms(3)], goal_cases)
  case (2 b us)
  note m = happened_later [OF assms(1) 2(2)]
  have a: "keeps (accounted v t0) (save_mb v (marker_file v f) (AList.update ''mailbox_scope'' (JStr s) m)) us" if "b = Some s" for s
    unfolding save_mb_def using 2 m assms(2) that by (intro keeps_logged accounted.adopts) simp_all
  have b: "keeps (accounted v t0) (quarantine_marker v f) us" if "b = Some s" "obj_get (JObj m) ''mailbox_scope'' \<noteq> JStr s" for s
    using 2 m that by (intro keeps_quarantine) (auto simp: bad_marker_def simp del: obj_get_JObj)
  show ?case
    by (intro keeps_option keeps_if keeps_leaf keeps_bind a b)
qed (auto intro: only_rules)

lemma keeps_load_marker [acct]:
  assumes "prefix t0 tr"
  shows "keeps (accounted v t0) (load_published_marker v f) tr"
proof -
  have bad: "keeps (accounted v t0) (quarantine_marker v f) us"
    if "happened (try_load v (marker_file v f)) r t0 us" "\<And>m. r = Some m \<Longrightarrow> \<not> marker_ok f (JObj m)" for r us
    using that by (intro keeps_quarantine) (cases r, auto simp: bad_marker_def)
  have step: "keeps (accounted v t0) (case r of
      Some m \<Rightarrow> if marker_ok f (JObj m) then scoped_marker v f m else bindC (quarantine_marker v f) (\<lambda>_. ret None)
    | None \<Rightarrow> bindC (quarantine_marker v f) (\<lambda>_. ret None)) us"
    if "happened (try_load v (marker_file v f)) r t0 us" "prefix t0 us" for r us
    using that by (cases r) (auto intro!: keeps_bind keeps_leaf keeps_scoped bad)
  show ?thesis
    unfolding load_published_marker_def using assms by - (rule step only_rules acct_flow acct | assumption)+
qed

lemma keeps_mark:
  assumes "backed v t0 tr f d" "prefix t0 tr"
  shows "keeps (accounted v t0) (mark_published v f src d) tr"
  unfolding mark_published_def save_mb_def
  using assms by (intro acc_step) (auto intro!: acct keeps_leaf keeps_logged accounted.publishes only_rules intro: seen_later_mb)

lemma shown_mark: "yields (mark_published v f src d) (\<lambda>_ t0 us. acknowledged v t0 us f)"
  unfolding acknowledged_def by (rule yields_mono [OF yields_happened]) auto

lemma keeps_retire:
  assumes "acknowledged v t0 tr f"
  shows "keeps (accounted v t0) (cleanup_remote_request v f) tr" "keeps (accounted v t0) (cleanup_local_artifacts v f) tr"
    "keeps (accounted v t0) (logged (MUnlink (local_result v f)) g) tr"
  unfolding cleanup_remote_request_def cleanup_local_artifacts_def
  by (intro keeps_logged accounted.retires [OF assms]; simp)+

lemma keeps_prune:
  "prefix t0 tr \<Longrightarrow> keeps (accounted v t0) (prune_oldest v fs n) tr"
proof (induction fs arbitrary: n tr)
  case (Cons f fs)
  have "keeps (accounted v t0) (bindC (logged (MUnlink (local_result v f)) (\<lambda>tr. Inr (mv_unlink v tr (local_result v f)))) (\<lambda>ok.
      if \<not> ok \<or> n \<le> 1 then ret () else prune_oldest v fs (n - 1))) us"
    if "happened (load_published_marker v f) (Some m) t0 us" "prefix t0 us" for m us
  proof (rule acc_step [OF keeps_retire(3) _ that(2)])
    show "acknowledged v t0 us f" using that(1) by (auto simp: acknowledged_def)
  qed (auto intro!: keeps_if keeps_leaf Cons.IH only_rules)
  with Cons show ?case
    unfolding prune_oldest.simps by (intro acc_step [OF keeps_load_marker]) (auto intro!: keeps_if only_rules)
qed (simp add: keeps_leaf)

lemma keeps_prune_results [acct]: "prefix t0 tr \<Longrightarrow> keeps (accounted v t0) (prune_local_results v) tr"
  unfolding prune_local_results_def Let_def by (rule only_rules acct_flow keeps_prune | assumption)+

lemma keeps_acknowledge:
  assumes "acknowledged v t0 tr f" "prefix t0 tr"
  shows "keeps (accounted v t0) (acknowledge v f) tr"
  unfolding acknowledge_def
proof (rule acc_step [OF keeps_retire(1) _ assms(2)], goal_cases)
  case (3 x us)
  then have "acknowledged v t0 us f" using assms(1) by (blast intro: seen_later_mb)
  with 3 show ?case by (auto intro!: acc_step [OF keeps_retire(2)] acct only_rules)
qed (auto intro: only_rules assms)

lemma keeps_marked:
  assumes "backed v t0 tr f d" "prefix t0 tr" "\<And>us. prefix t0 us \<Longrightarrow> keeps (accounted v t0) (m ()) us"
  shows "keeps (accounted v t0) (bindC (mark_published v f src d) (\<lambda>_. bindC (acknowledge v f) m)) tr"
proof (rule known_step [OF keeps_mark [OF assms(1,2)] only_logs shown_mark assms(2)], rule only_rules)
  fix us assume us: "\<And>vs. prefix us vs \<Longrightarrow> acknowledged v t0 vs f" "prefix t0 us"
  then show "keeps (accounted v t0) (bindC (acknowledge v f) m) us"
    by (auto intro!: acc_step keeps_acknowledge assms(3) only_rules)
qed

lemma keeps_reject_result:
  "bad_result v t0 tr f \<Longrightarrow> keeps (accounted v t0) (quarantine_result v f) tr"
  unfolding quarantine_result_def by (intro keeps_logged accounted.rejects_result)

lemma backed_intros:
  "happened (load_authentic_remote_result v f) (Some r) t0 us \<Longrightarrow> backed v t0 us f (digest_of r)"
  "happened (put_mb v (result_rel f) r) () t0 us \<Longrightarrow> backed v t0 us f (digest_of r)"
  unfolding backed_def by blast+

lemma keeps_republish:
  assumes "happened (try_load v (local_result v f)) (Some r) t0 tr" "happened (verify_result v f r) True t0 tr" "prefix t0 tr"
  shows "keeps (accounted v t0) (republish v f r) tr"
  unfolding republish_def
proof (rule acc_step [OF _ _ assms(3)])
  show "keeps (accounted v t0) (put_mb v (result_rel f) r) tr"
    unfolding put_mb_def by (intro keeps_logged accounted.uploads_again assms)
qed (auto intro!: keeps_marked backed_intros keeps_leaf only_rules)

lemma keeps_local_copy:
  assumes "happened (try_load v (local_result v f)) r t0 tr" "prefix t0 tr"
  shows "keeps (accounted v t0) (case r of
      None \<Rightarrow> bindC (quarantine_result v f) (\<lambda>_. ret Corrupt)
    | Some r \<Rightarrow>
        bindC (verify_result v f r) (\<lambda>ok.
          if \<not> ok then bindC (quarantine_result v f) (\<lambda>_. ret Corrupt)
          else bindC (ask (\<lambda>tr. mv_age v tr (local_result v f))) (\<lambda>delta.
            if result_age delta < retry_grace then ret Waiting else republish v f r))) tr"
proof (cases r)
  case None
  with assms show ?thesis by (auto intro!: keeps_bind keeps_leaf keeps_reject_result simp: bad_result_def)
next
  case (Some r)
  have "keeps (accounted v t0) (if \<not> ok then bindC (quarantine_result v f) (\<lambda>_. ret Corrupt)
      else bindC (ask (\<lambda>tr. mv_age v tr (local_result v f))) (\<lambda>delta.
        if result_age delta < retry_grace then ret Waiting else republish v f r)) us"
    if ok: "happened (verify_result v f r) ok t0 us" and us: "prefix tr us" "prefix t0 us" for ok us
  proof -
    have r: "happened (try_load v (local_result v f)) (Some r) t0 us" using assms(1) us Some by (auto elim: happened_later)
    then have bad: "\<not> ok \<Longrightarrow> bad_result v t0 us f" using ok by (auto simp: bad_result_def)
    show ?thesis
    proof (cases ok)
      case True
      with ok r us show ?thesis
        by (auto intro!: acc_step keeps_leaf keeps_republish only_rules elim: happened_later)
    qed (simp add: keeps_bind keeps_leaf keeps_reject_result bad)
  qed
  then show ?thesis using assms Some by (auto intro!: acc_step acct only_rules)
qed

lemma keeps_publish_local [acct]:
  assumes "prefix t0 tr"
  shows "keeps (accounted v t0) (publish_local_result v f) tr"
proof -
  have remote: "keeps (accounted v t0) (case r of
        None \<Rightarrow> refused m
      | Some r \<Rightarrow> bindC (mark_published v f src (digest_of r)) (\<lambda>_. bindC (acknowledge v f) (\<lambda>_. ret how))) us"
    if "happened (load_authentic_remote_result v f) r t0 us" "prefix t0 us" for r us m src and how :: recovery
    using that by (auto intro!: keeps_option keeps_leaf keeps_marked backed_intros(1))
  show ?thesis
    unfolding publish_local_result_def using assms
    by - (rule remote keeps_local_copy only_rules acct_flow acct | assumption)+
qed

lemma keeps_recover [acct]: "prefix t0 tr \<Longrightarrow> keeps (accounted v t0) (recover_durable_results v fs) tr"
proof (induction fs arbitrary: tr)
  case (Cons f fs)
  show ?case
    unfolding recover_durable_results.simps using Cons.prems
    by - (rule Cons.IH only_rules acct_flow acct | assumption)+
qed (simp add: keeps_leaf)

lemma keeps_classify_names [acct]: "prefix t0 tr \<Longrightarrow> keeps (accounted v t0) (classify_names v fs) tr"
proof (induction fs arbitrary: tr)
  case (Cons f fs)
  show ?case
    unfolding classify_names.simps using Cons.prems
    by - (rule Cons.IH only_rules acct_flow acct | assumption)+
qed (simp add: keeps_leaf)

lemma keeps_repair [acct]: "prefix t0 tr \<Longrightarrow> keeps (accounted v t0) (repair_markers v remote fs cp) tr"
proof (induction fs arbitrary: tr cp)
  case (Cons f fs)
  have step: "keeps (accounted v t0) (bindC (mark_published v f src (digest_of r)) (\<lambda>_. repair_markers v remote fs cp')) us"
    if "happened (load_authentic_remote_result v f) (Some r) t0 us" "prefix t0 us" for r us src cp'
    using that by (auto intro!: acc_step keeps_mark backed_intros(1) Cons.IH only_rules)
  show ?case
    unfolding repair_markers.simps
    by (intro keeps_if keeps_option Cons.IH Cons.prems acc_step [OF keeps_remote_result quiet_result(3)]) (auto intro: step Cons.IH)
qed (simp add: keeps_leaf)

lemma keeps_classify [acct]: "prefix t0 tr \<Longrightarrow> keeps (accounted v t0) (classify_mailbox v fs) tr"
  unfolding classify_mailbox_def by (rule only_rules acct_flow acct | assumption)+

subsection \<open>What the stages find out\<close>

lemma bind_happened:
  assumes "bindC m f tr = (Inr y, tr')" "prefix t0 tr" "prefix tr' us" "quiet m" "\<And>x. quiet (f x)"
  obtains x vs where "happened m x t0 us" "f x vs = (Inr y, tr')" "prefix t0 vs" "m tr = (Inr x, vs)" "prefix vs us"
proof -
  from assms(1) obtain x vs where x: "m tr = (Inr x, vs)" "f x vs = (Inr y, tr')" by (auto simp: bindC_Inr)
  have p: "prefix tr vs" "prefix vs tr'" using only_prefix [OF assms(4) x(1)] only_prefix [OF assms(5) x(2)] by auto
  with assms(2,3) have q: "prefix t0 vs" "prefix vs us" by (meson prefix_order.trans)+
  then have "happened m x t0 us" using x(1) assms(2) unfolding happened_def by blast
  with x q show ?thesis by (intro that)
qed

definition sorted_out :: "mb_env \<Rightarrow> str list \<Rightarrow> mb_event list \<Rightarrow> mb_event list \<Rightarrow> str list \<Rightarrow> str list \<Rightarrow> bool" where
  "sorted_out v fs t0 us c p =
     (set c \<subseteq> set fs \<and> (distinct fs \<longrightarrow> distinct c)
      \<and> (\<forall>f\<in>set c. happened (load_published_marker v f) None t0 us) \<and> (\<forall>f\<in>set p. acknowledged v t0 us f))"

lemma shown_classify_names:
  "yields (classify_names v fs) (\<lambda>x t0 us. sorted_out v fs t0 us (fst x) (fst (snd x)))"
proof (induction fs)
  case (Cons f fs)
  show ?case
  proof (rule yieldsI)
    fix tr x tr' t0 us
    assume run: "classify_names v (f # fs) tr = (Inr x, tr')" and t: "prefix t0 tr" "prefix tr' us"
    from run [unfolded classify_names.simps] t obtain ex vs where
      "bindC (load_published_marker v f) (\<lambda>m. bindC (classify_names v fs) (\<lambda>(c, p, i).
         ret (if m \<noteq> None then (c, f # p, i) else (f # c, p, if ex then f # i else i)))) vs = (Inr x, tr')" "prefix t0 vs"
      by (rule bind_happened) (auto intro!: only_rules only_flow)
    then obtain m ws where m: "happened (load_published_marker v f) m t0 us" and
      rest: "bindC (classify_names v fs) (\<lambda>(c, p, i).
         ret (if m \<noteq> None then (c, f # p, i) else (f # c, p, if ex then f # i else i))) ws = (Inr x, tr')" "prefix t0 ws"
      using t(2) by (rule bind_happened) (auto intro!: only_rules only_flow)
    then obtain c p i where z: "sorted_out v fs t0 us c p"
      and x: "x = (if m \<noteq> None then (c, f # p, i) else (f # c, p, if ex then f # i else i))"
      using yieldsD [OF Cons.IH _ rest(2)] t(2) by (fastforce simp: bindC_Inr)
    show "sorted_out v (f # fs) t0 us (fst x) (fst (snd x))"
      using z m unfolding x by (cases m) (auto simp: sorted_out_def acknowledged_def)
  qed
qed (simp add: yields_def sorted_out_def)

lemma shown_repair:
  "yields (repair_markers v remote fs cp) (\<lambda>x t0 us. set (fst x) \<subseteq> set (fst cp) \<and> (distinct (fst cp) \<longrightarrow> distinct (fst x))
     \<and> (\<forall>f\<in>set (snd x). f \<in> set (snd cp) \<or> acknowledged v t0 us f))"
proof (induction fs arbitrary: cp)
  case (Cons f fs)
  show ?case
  proof (rule yieldsI)
    fix tr x tr' t0 us
    assume run: "repair_markers v remote (f # fs) cp tr = (Inr x, tr')" and t: "prefix t0 tr" "prefix tr' us"
    let ?good = "\<lambda>x cp. set (fst x) \<subseteq> set (fst cp) \<and> (distinct (fst cp) \<longrightarrow> distinct (fst x))
     \<and> (\<forall>f\<in>set (snd x). f \<in> set (snd cp) \<or> acknowledged v t0 us f)"
    have IH: "?good x cp'" if "repair_markers v remote fs cp' vs = (Inr x, tr')" "prefix t0 vs" for cp' vs
      using yieldsD [OF Cons.IH that t(2)] .
    show "?good x cp"
    proof (cases "f \<in> set remote")
      case False
      with run IH t(1) show ?thesis by simp
    next
      case True
      then have "bindC (load_authentic_remote_result v f) (\<lambda>r. case r of
          None \<Rightarrow> repair_markers v remote fs cp
        | Some r \<Rightarrow> bindC (mark_published v f ''invalid-marker-authenticated-remote-result'' (digest_of r)) (\<lambda>_.
            repair_markers v remote fs (remove1 f (fst cp), snd cp @ [f]))) tr = (Inr x, tr')" using run by simp
      from this t obtain r vs where r: "(case r of
          None \<Rightarrow> repair_markers v remote fs cp
        | Some r \<Rightarrow> bindC (mark_published v f ''invalid-marker-authenticated-remote-result'' (digest_of r)) (\<lambda>_.
            repair_markers v remote fs (remove1 f (fst cp), snd cp @ [f]))) vs = (Inr x, tr')" "prefix t0 vs"
        by (rule bind_happened) (auto intro!: only_rules only_flow)
      show ?thesis
      proof (cases r)
        case None
        with r IH show ?thesis by simp
      next
        case (Some y)
        with r(1) have "bindC (mark_published v f ''invalid-marker-authenticated-remote-result'' (digest_of y)) (\<lambda>_.
            repair_markers v remote fs (remove1 f (fst cp), snd cp @ [f])) vs = (Inr x, tr')" by simp
        from this r(2) t(2) obtain ws where
          w: "happened (mark_published v f ''invalid-marker-authenticated-remote-result'' (digest_of y)) () t0 us"
          "repair_markers v remote fs (remove1 f (fst cp), snd cp @ [f]) ws = (Inr x, tr')" "prefix t0 ws"
          by (rule bind_happened) (auto intro!: only_rules)
        have "acknowledged v t0 us f" using w(1) by (auto simp: acknowledged_def)
        with IH [OF w(2,3)] show ?thesis by (auto dest: notin_set_remove1 distinct_remove1 set_mp [OF set_remove1_subset])
      qed
    qed
  qed
qed (simp add: yields_def)

lemma shown_classify: "yields (classify_mailbox v fs) (\<lambda>x t0 us. sorted_out v fs t0 us (fst x) (snd x))"
proof (rule yieldsI)
  fix tr x tr' t0 us
  assume run: "classify_mailbox v fs tr = (Inr x, tr')" and t: "prefix t0 tr" "prefix tr' us"
  from run [unfolded classify_mailbox_def] t obtain z vs where
    z: "(case z of (c, p, i) \<Rightarrow> if i = [] then ret (c, p)
        else bindC (list_mb v ''v2/results'') (\<lambda>es. repair_markers v (map rm_name es) i (c, p))) vs = (Inr x, tr')"
    and vs: "prefix t0 vs" "classify_names v fs tr = (Inr z, vs)" "prefix vs us"
    by (rule bind_happened) (auto intro!: only_rules only_flow)
  obtain c p i where cpi: "z = (c, p, i)" by (cases z)
  have s: "sorted_out v fs t0 us c p" using yieldsD [OF shown_classify_names vs(2) t(1) vs(3)] cpi by simp
  show "sorted_out v fs t0 us (fst x) (snd x)"
  proof (cases "i = []")
    case True
    with z s cpi show ?thesis by simp
  next
    case False
    with z cpi have "bindC (list_mb v ''v2/results'') (\<lambda>es. repair_markers v (map rm_name es) i (c, p)) vs = (Inr x, tr')" by simp
    from this vs(1) t(2) obtain es :: "remote_file list" and ws where "repair_markers v (map rm_name es) i (c, p) ws = (Inr x, tr')" "prefix t0 ws"
      by (rule bind_happened [OF _ _ _ quiet_list quiet_repair]) blast
    from yieldsD [OF shown_repair this t(2)] s show ?thesis by (auto simp: sorted_out_def)
  qed
qed

lemma shown_recover:
  "yields (recover_durable_results v fs) (\<lambda>x t0 us. set (snd x) \<subseteq> set fs \<and> (distinct fs \<longrightarrow> distinct (snd x))
     \<and> (\<forall>f\<in>set (snd x). happened (exists_mb v (local_result v f)) False t0 us \<or> happened (publish_local_result v f) Corrupt t0 us))"
proof (induction fs)
  case (Cons f fs)
  show ?case
  proof (rule yieldsI)
    fix tr x tr' t0 us
    assume run: "recover_durable_results v (f # fs) tr = (Inr x, tr')" and t: "prefix t0 tr" "prefix tr' us"
    let ?none = "\<lambda>f. happened (exists_mb v (local_result v f)) False t0 us \<or> happened (publish_local_result v f) Corrupt t0 us"
    from run [unfolded recover_durable_results.simps] t obtain there vs where
      there: "happened (exists_mb v (local_result v f)) there t0 us" and
      vs: "bindC (if there then publish_local_result v f else ret Corrupt) (\<lambda>how.
        bindC (recover_durable_results v fs) (\<lambda>(n, left).
          ret (if how = Published then Suc n else n, if how = Corrupt then f # left else left))) vs = (Inr x, tr')" "prefix t0 vs"
      by (rule bind_happened) (auto intro!: only_rules only_flow)
    from vs t(2) obtain how ws where
      how: "happened (if there then publish_local_result v f else ret Corrupt) how t0 us" and
      ws: "bindC (recover_durable_results v fs) (\<lambda>(n, left).
          ret (if how = Published then Suc n else n, if how = Corrupt then f # left else left)) ws = (Inr x, tr')" "prefix t0 ws"
      by (rule bind_happened) (auto intro!: only_rules only_flow)
    from ws t(2) obtain z xs where z: "prefix xs us" "recover_durable_results v fs ws = (Inr z, xs)"
      "(case z of (n, left) \<Rightarrow> ret (if how = Published then Suc n else n, if how = Corrupt then f # left else left)) xs = (Inr x, tr')"
      by (rule bind_happened) (auto intro!: only_rules only_flow)
    obtain n left where nl: "z = (n, left)" by (cases z)
    have x: "x = (if how = Published then Suc n else n, if how = Corrupt then f # left else left)" using z(3) nl by simp
    have "set left \<subseteq> set fs \<and> (distinct fs \<longrightarrow> distinct left) \<and> (\<forall>f\<in>set left. ?none f)"
      using yieldsD [OF Cons.IH z(2) ws(2) z(1)] nl by simp
    moreover have "how = Corrupt \<Longrightarrow> ?none f" using there how by (cases there) auto
    ultimately show "set (snd x) \<subseteq> set (f # fs) \<and> (distinct (f # fs) \<longrightarrow> distinct (snd x)) \<and> (\<forall>f\<in>set (snd x). ?none f)"
      unfolding x by auto
  qed
qed (simp add: yields_def)

subsection \<open>Every event of a cycle\<close>

lemma keeps_run:
  assumes "unanswered v t0 tr f" "happened (download_request v f n) (Some raw) t0 tr"
  shows "keeps (accounted v t0) (run_request v f raw) tr"
proof -
  have "keeps (accounted v t0) (logged (MExecute f kvs) (\<lambda>us. mv_execute v us f kvs)) tr" if "validated_request v f raw = Inr kvs" for kvs
    using assms that by (intro keeps_logged accounted.runs)
  then show ?thesis
    unfolding run_request_def lift_mb_def
    by (cases "validated_request v f raw") (auto intro!: keeps_bind keeps_leaf simp: ret_def refused_def)
qed

lemma keeps_deliver:
  assumes "prefix t0 tr"
  shows "keeps (accounted v t0) (deliver v f r raw) tr"
proof -
  have publish: "keeps (accounted v t0) (publish_and_cleanup v f s) us"
    if "happened (sign_result v f r') s t0 us" "happened (save_mb v (local_result v f) s) () t0 us" "prefix t0 us" for r' s us
    unfolding publish_and_cleanup_def
  proof (rule keeps_wrapped(4), rule acc_step [OF _ _ that(3)])
    show "keeps (accounted v t0) (put_mb v (result_rel f) s) us"
      unfolding put_mb_def by (intro keeps_logged accounted.uploads that(2)) (rule that(1))
    fix x vs assume "happened (put_mb v (result_rel f) s) x t0 vs" "prefix t0 vs"
    then show "keeps (accounted v t0) (bindC (mark_published v f ''processed'' (digest_of s)) (\<lambda>_. acknowledge v f)) vs"
      using keeps_marked [OF backed_intros(2), of v f s t0 vs ret] by (simp add: bindC_ret keeps_leaf)
  qed (rule only_rules)
  have tail: "keeps (accounted v t0) (bindC (sign_result v f r') (\<lambda>s. bindC (save_mb v (local_result v f) s) (\<lambda>_.
      bindC (publish_and_cleanup v f s) (\<lambda>_. ret (1 :: nat))))) us" if "prefix t0 us" for r' us
  proof (rule acc_step [OF keeps_sign(1) _ that])
    fix s vs assume s: "happened (sign_result v f r') s t0 vs" "prefix t0 vs"
    show "keeps (accounted v t0) (bindC (save_mb v (local_result v f) s) (\<lambda>_. bindC (publish_and_cleanup v f s) (\<lambda>_. ret 1))) vs"
    proof (rule acc_step [OF _ _ s(2)])
      show "keeps (accounted v t0) (save_mb v (local_result v f) s) vs"
        unfolding save_mb_def by (intro keeps_logged accounted.stores) (rule s(1))
      fix x ws assume ws: "happened (save_mb v (local_result v f) s) x t0 ws" "prefix vs ws" "prefix t0 ws"
      have "keeps (accounted v t0) (publish_and_cleanup v f s) ws"
        using ws by (intro publish [OF happened_later [OF s(1)]]) simp_all
      then show "keeps (accounted v t0) (bindC (publish_and_cleanup v f s) (\<lambda>_. ret 1)) ws"
        by (intro keeps_bind keeps_leaf)
    qed (rule only_rules)
  qed (auto intro: only_rules that)
  show ?thesis
    unfolding deliver_def build_signed_result_def Let_def bindC_assoc
    by (rule acc_step [OF keeps_leaf(3) only_basic(4) assms]) (rule tail)
qed


lemma keeps_answer:
  assumes "unanswered v t0 tr (fst fs)" "prefix t0 tr"
  shows "keeps (accounted v t0) (answer_request v fs) tr"
proof -
  obtain f n where fs: "fs = (f, n)" by (cases fs)
  have run: "keeps (accounted v t0) (bindC (caught (run_request v f raw)) (\<lambda>x.
      bindC (case x of Inl e \<Rightarrow> error_result v f e | Inr r \<Rightarrow> ret r) (\<lambda>r. deliver v f r (Some raw)))) us"
    if raw: "happened (download_request v f n) (Some raw) t0 us" and us: "prefix tr us" "prefix t0 us" for raw us
  proof (rule keeps_bind)
    have "unanswered v t0 us f" using assms(1) us(1) fs by (auto elim: seen_later_mb)
    then show "keeps (accounted v t0) (caught (run_request v f raw)) us" by (intro keeps_wrapped keeps_run [OF _ raw])
    fix x vs assume x: "caught (run_request v f raw) us = (Inr x, vs)"
    have "logs (run_request v f raw)" unfolding run_request_def by (auto intro!: only_rules)
    then have "prefix us vs" using x by (intro only_prefix [OF only_wrapped(2) x])
    with us(2) have vs: "prefix t0 vs" by (rule prefix_order.trans)
    show "keeps (accounted v t0) (bindC (case x of Inl e \<Rightarrow> error_result v f e | Inr r \<Rightarrow> ret r) (\<lambda>r. deliver v f r (Some raw))) vs"
      by (rule acc_step [OF _ _ vs]) (cases x; auto intro!: acct keeps_leaf keeps_deliver only_rules)+
  qed
  have got: "happened m y t0 us" if "happened (caught m) (Inr y) t0 us" for m :: "str option mb" and y us
  proof -
    from that obtain vs ws where "prefix t0 vs" "caught m vs = (Inr (Inr y), ws)" "prefix ws us" by (auto simp: happened_def)
    moreover then have "m vs = (Inr y, ws)" by (cases "m vs") (simp add: caught_def)
    ultimately show ?thesis unfolding happened_def by blast
  qed
  show ?thesis
    unfolding answer_request_def fs prod.case
  proof (rule acc_step [OF _ _ assms(2)])
    fix d us assume d: "happened (caught (download_request v f n)) d t0 us" "prefix tr us" "prefix t0 us"
    show "keeps (accounted v t0) (case d of
        Inl e \<Rightarrow> bindC (error_result v f e) (\<lambda>r. deliver v f r None)
      | Inr None \<Rightarrow> ret 0
      | Inr (Some raw) \<Rightarrow> bindC (caught (run_request v f raw)) (\<lambda>x.
          bindC (case x of Inl e \<Rightarrow> error_result v f e | Inr r \<Rightarrow> ret r) (\<lambda>r. deliver v f r (Some raw)))) us"
      using d by (auto intro!: acc_step [OF harmless_basic_mb(9) [THEN keeps_harmless_mb] quiet_answer(2)] keeps_deliver keeps_leaf run
        dest: got split: sum.split option.split)
  qed (auto intro!: keeps_wrapped acct only_rules)
qed

lemma logs_answer: "logs (answer_request v fs)"
  unfolding answer_request_def run_request_def
  by (auto intro!: only_rules only_logs [OF quiet_answer(1)] only_logs [OF quiet_answer(2)] only_logs [OF quiet_answer(5)]
    split: prod.split sum.split option.split)

lemma keeps_answer_all:
  "prefix t0 tr \<Longrightarrow> (\<And>fs. fs \<in> set xs \<Longrightarrow> unanswered v t0 tr (fst fs)) \<Longrightarrow> keeps (accounted v t0) (answer_all v xs) tr"
proof (induction xs arbitrary: tr)
  case (Cons x xs)
  show ?case
    unfolding answer_all.simps
  proof (rule keeps_bind)
    fix n us assume "answer_request v x tr = (Inr n, us)"
    then have us: "prefix tr us" by (rule only_prefix [OF logs_answer])
    then have "prefix t0 us" using Cons.prems(1) by (blast intro: prefix_order.trans)
    then show "keeps (accounted v t0) (bindC (answer_all v xs) (\<lambda>m. ret (n + m))) us"
      using Cons.prems(2) us by (auto intro!: keeps_bind keeps_leaf Cons.IH intro: seen_later_mb(3) [OF us])
  qed (rule keeps_answer [OF Cons.prems(2) Cons.prems(1)], simp)
qed (simp add: keeps_leaf)

lemma keeps_candidates:
  assumes "prefix t0 tr" "\<And>f. f \<in> set c \<Longrightarrow> happened (load_published_marker v f) None t0 tr"
  shows "keeps (accounted v t0) (answer_candidates v known es c) tr"
  unfolding answer_candidates_def
proof (rule known_step [OF keeps_recover only_logs [OF quiet_recover] shown_recover assms(1)], fact, goal_cases)
  case (1 x us)
  obtain n left where x: "x = (n, left)" by (cases x)
  have un: "unanswered v t0 vs f" if "f \<in> set left" "prefix us vs" for f vs
  proof -
    have "f \<in> set c" using 1(1) [OF prefix_order.refl] that x by auto
    then have "happened (load_published_marker v f) None t0 vs"
      using happened_later [OF assms(2) prefix_order.trans [OF 1(2) that(2)]] by blast
    then show ?thesis using 1(1) [OF that(2)] that(1) x by (auto simp: unanswered_def)
  qed
  have call: "keeps (accounted v t0) (if known then ret True else registry_mb v ''dispatch'') us"
    "quiet (if known then ret True else registry_mb v ''dispatch'')"
    by (auto intro!: acct keeps_leaf only_rules)
  have "keeps (accounted v t0) (bindC (answer_all v (map (\<lambda>f. (f, size_for es f)) left)) (\<lambda>m. ret (n + m))) vs"
    if "prefix us vs" "prefix t0 vs" for vs
    using that by (auto intro!: keeps_bind keeps_leaf keeps_answer_all un)
  then show ?case
    unfolding x prod.case by (intro keeps_if keeps_leaf acc_step [OF call 1(3)])
qed

lemma keeps_handle:
  assumes "prefix t0 tr"
  shows "keeps (accounted v t0) (handle_mailbox v known es) tr"
  unfolding handle_mailbox_def
proof (rule known_step [OF keeps_classify only_logs [OF quiet_classify(1)] shown_classify assms], fact, goal_cases)
  case (1 x us)
  obtain c p where x: "x = (c, p)" by (cases x)
  have s: "sorted_out v (map rm_name es) t0 us c p" using 1(1) [OF prefix_order.refl] x by simp
  have "keeps (accounted v t0) (idle_maintenance v p) us"
    unfolding idle_maintenance_def using s 1(3) by (auto intro!: keeps_leaf keeps_acknowledge simp: sorted_out_def split: list.split)
  with s 1(3) show ?case
    unfolding x by (auto intro!: keeps_bind keeps_leaf keeps_candidates simp: sorted_out_def)
qed

lemma keeps_cycle: "keeps (accounted v tr) (mailbox_cycle v) tr"
  unfolding mailbox_cycle_def
  by (intro acc_step [where ?t0.0 = tr] keeps_handle keeps_rescue keeps_calls prefix_order.refl only_rules)

subsection \<open>The start of the watcher\<close>

lemma keeps_unmarked [acct]: "prefix t0 tr \<Longrightarrow> keeps (accounted v t0) (unmarked_requests v fs) tr"
proof (induction fs arbitrary: tr)
  case (Cons f fs)
  show ?case
    unfolding unmarked_requests.simps using Cons.prems
    by - (rule Cons.IH only_rules acct_flow acct | assumption)+
qed (simp add: keeps_leaf)

lemma keeps_adopt [acct]: "prefix t0 tr \<Longrightarrow> keeps (accounted v t0) (adopt_results v fs) tr"
proof (induction fs arbitrary: tr)
  case (Cons f fs)
  have step: "keeps (accounted v t0) (bindC (mark_published v f src (digest_of r)) (\<lambda>_. bindC (adopt_results v fs) (\<lambda>n. ret (Suc n)))) us"
    if "happened (load_authentic_remote_result v f) (Some r) t0 us" "prefix t0 us" for r us src
    using that by (intro acc_step keeps_mark backed_intros(1) keeps_leaf Cons.IH only_rules)
  show ?case
    unfolding adopt_results.simps
    by (intro keeps_option Cons.IH Cons.prems acc_step [OF keeps_remote_result quiet_result(3)]) (auto intro: step Cons.IH)
qed (simp add: keeps_leaf)

lemma keeps_clean: "prefix t0 tr \<Longrightarrow> keeps (accounted v t0) (clean_acknowledged v fs) tr"
proof (induction fs arbitrary: tr)
  case (Cons f fs)
  have step: "keeps (accounted v t0) (bindC (cleanup_local_artifacts v f) (\<lambda>_. bindC (clean_acknowledged v fs) (\<lambda>n. ret (Suc n)))) us"
    if "happened (load_published_marker v f) (Some m) t0 us" "prefix t0 us" for m us
  proof -
    have "acknowledged v t0 us f" using that(1) by (auto simp: acknowledged_def)
    then show ?thesis using that(2) by (intro acc_step keeps_retire(2) keeps_leaf Cons.IH only_rules)
  qed
  show ?case
    unfolding clean_acknowledged.simps
    by (intro acc_step [OF keeps_load_marker quiet_marker(2)] Cons.prems keeps_if) (auto intro: step Cons.IH)
qed (simp add: keeps_leaf)

lemma keeps_bind_scope:
  "prefix t0 tr \<Longrightarrow> keeps (accounted v t0) (bind_mailbox_scope v c) tr"
  unfolding bind_mailbox_scope_def save_mb_def
  by (rule acc_step [OF keeps_document quiet_scope(1)]) (auto intro: keeps_logged accounted.binds)

lemma keeps_remote_scope: "prefix t0 tr \<Longrightarrow> keeps (accounted v t0) (remote_mailbox_scope v) tr"
  unfolding remote_mailbox_scope_def
  by (rule keeps_and_then keeps_unlink [of _ v "''mailbox-scope.json''"] only_rules acct_flow acct insertI1 insertI2 | assumption)+

lemma quiet_remote_scope: "quiet (remote_mailbox_scope v)"
  unfolding remote_mailbox_scope_def by (auto intro!: only_rules only_flow)

lemma keeps_new_scope:
  assumes "prefix t0 tr"
  shows "keeps (accounted v t0) (bindC (scope_document v c) (\<lambda>doc. bindC (put_mb v scope_rel doc) (\<lambda>_.
    bindC (bind_mailbox_scope v c) (\<lambda>_. ret c)))) tr"
proof (rule acc_step [OF keeps_document quiet_scope(1) assms], rule assms)
  fix doc us assume doc: "happened (scope_document v c) doc t0 us" "prefix t0 us"
  have "keeps (accounted v t0) (put_mb v scope_rel doc) us"
    unfolding put_mb_def by (intro keeps_logged accounted.announces) (rule doc)
  then show "keeps (accounted v t0) (bindC (put_mb v scope_rel doc) (\<lambda>_. bindC (bind_mailbox_scope v c) (\<lambda>_. ret c))) us"
    by (rule acc_step [OF _ quiet_basic(6) doc(2)]) (intro keeps_bind keeps_bind_scope keeps_leaf)
qed

lemma keeps_ensure [acct]: "prefix t0 tr \<Longrightarrow> keeps (accounted v t0) (ensure_mailbox_scope v) tr"
  unfolding ensure_mailbox_scope_def
  by (rule keeps_new_scope keeps_bind_scope keeps_remote_scope quiet_remote_scope
      acc_step [OF keeps_bound quiet_scope(2)] acc_step [OF keeps_remote_scope quiet_remote_scope] acc_step [OF keeps_leaf(3) only_basic(4)]
      keeps_bind keeps_option keeps_if keeps_leaf | assumption)+

lemma keeps_reconcile: "keeps (accounted v tr) (reconcile_remote_results v) tr"
  unfolding reconcile_remote_results_def
  by (intro acc_step [where ?t0.0 = tr] keeps_if keeps_leaf keeps_adopt keeps_unmarked keeps_ensure keeps_calls prefix_order.refl only_rules)

lemma keeps_local: "keeps (accounted v tr) (reconcile_local_artifacts v) tr"
proof -
  have staging: "keeps (accounted v t0) (each (\<lambda>f. unlink_mb v (staging_file v f)) fs) us" for t0 fs us
    by (rule keeps_harmless_mb, rule only_each) (auto simp: unlink_mb_def intro!: only_rules)
  show ?thesis
    unfolding reconcile_local_artifacts_def
    by (intro acc_step [where ?t0.0 = tr] staging keeps_leaf keeps_clean prefix_order.refl only_rules)
qed

definition explained :: "mb_env \<Rightarrow> mb_event list \<Rightarrow> mb_event list \<Rightarrow> bool" where
  "explained v tr us = list_all (\<lambda>i. accounted v tr (take i us) (us ! i)) [length tr..<length us]"


subsection \<open>A request runs at most once in a cycle\<close>

definition ran :: "mb_event list \<Rightarrow> str list" where
  "ran us = concat (map executes us)"

text \<open>The requests that a program runs: distinct ones among the given.\<close>

definition runs_in :: "str set \<Rightarrow> 'a mb \<Rightarrow> mb_event list \<Rightarrow> bool" where
  "runs_in F m tr = (\<exists>new. ran (snd (m tr)) = ran tr @ new \<and> distinct new \<and> set new \<subseteq> F)"

lemma runs_quiet: "quiet m \<Longrightarrow> runs_in F m tr"
  unfolding runs_in_def only_def adds_def
  by (drule spec [of _ tr]) (auto simp: ran_def list_all_iff intro!: exI [of _ "[]"])

lemma runs_bind:
  assumes "runs_in F m tr" "\<And>x us. m tr = (Inr x, us) \<Longrightarrow> runs_in G (f x) us" "F \<inter> G = {}" "F \<union> G \<subseteq> H"
  shows "runs_in H (bindC m f) tr"
proof (cases "m tr")
  case (Pair r us)
  obtain new where new: "ran us = ran tr @ new" "distinct new" "set new \<subseteq> F" using assms(1) Pair by (auto simp: runs_in_def)
  show ?thesis
  proof (cases r)
    case (Inl e)
    with Pair new assms(4) show ?thesis by (auto simp: runs_in_def bindC_def)
  next
    case (Inr x)
    then obtain more where "ran (snd (f x us)) = ran us @ more" "distinct more" "set more \<subseteq> G"
      using assms(2) Pair by (auto simp: runs_in_def)
    then have "ran (snd (bindC m f tr)) = ran tr @ (new @ more)" "distinct (new @ more)" "set (new @ more) \<subseteq> H"
      using Pair Inr new assms(3,4) by (auto simp: bindC_def)
    then show ?thesis unfolding runs_in_def by blast
  qed
qed

lemma runs_after_quiet:
  assumes "quiet m" "\<And>x us. m tr = (Inr x, us) \<Longrightarrow> runs_in F (f x) us"
  shows "runs_in F (bindC m f) tr"
  by (rule runs_bind [where F = "{}" and G = F, OF runs_quiet [OF assms(1)] assms(2)]) simp_all

lemma runs_if: "runs_in F m tr \<Longrightarrow> runs_in F n tr \<Longrightarrow> runs_in F (if b then m else n) tr"
  by simp

lemma runs_request: "runs_in {f} (run_request v f raw) tr"
proof -
  have "runs_in {f} (logged (MExecute f kvs) g) us" for kvs us and g :: "mb_event list \<Rightarrow> werror + fields"
    unfolding runs_in_def ran_def logged_def by simp
  then show ?thesis unfolding run_request_def by (auto intro!: runs_after_quiet only_rules)
qed

lemma runs_answer: "runs_in {fst fs} (answer_request v fs) tr"
proof -
  obtain f n where fs: "fs = (f, n)" by (cases fs)
  have caught: "runs_in {f} (caught (run_request v f raw)) us" for raw us
    using runs_request [of f v raw us] unfolding runs_in_def caught_def by (auto split: prod.split)
  have tail: "quiet (bindC (case x of Inl e \<Rightarrow> error_result v f e | Inr r \<Rightarrow> ret r) (\<lambda>r. deliver v f r raw))" for x raw
    by (cases x) (auto intro!: only_rules)
  have run: "runs_in {f} (bindC (caught (run_request v f raw)) (\<lambda>x.
      bindC (case x of Inl e \<Rightarrow> error_result v f e | Inr r \<Rightarrow> ret r) (\<lambda>r. deliver v f r (Some raw)))) us" for raw us
    by (rule runs_bind [OF caught runs_quiet [where F = "{}", OF tail]]) simp_all
  show ?thesis
    unfolding answer_request_def fs prod.case fst_conv
    by (rule runs_after_quiet) (auto intro!: run only_rules runs_quiet split: sum.split option.split)
qed

lemma runs_all: "distinct (map fst xs) \<Longrightarrow> runs_in (fst ` set xs) (answer_all v xs) tr"
proof (induction xs arbitrary: tr)
  case (Cons x xs)
  have rest: "runs_in (fst ` set xs) (bindC (answer_all v xs) (\<lambda>m. ret (n + m))) us" for n us
    by (rule runs_bind [OF Cons.IH runs_quiet [where F = "{}"]]) (use Cons.prems in \<open>auto intro: only_rules\<close>)
  show ?case
    unfolding answer_all.simps by (rule runs_bind [OF runs_answer rest]) (use Cons.prems in auto)
qed (simp add: runs_quiet only_rules)

lemma runs_handle:
  assumes "distinct (map rm_name es)"
  shows "runs_in UNIV (handle_mailbox v known es) tr"
  unfolding handle_mailbox_def
proof (rule runs_after_quiet [OF quiet_classify(1)])
  fix x us assume x: "classify_mailbox v (map rm_name es) tr = (Inr x, us)"
  obtain c p where cp: "x = (c, p)" by (cases x)
  have c: "distinct c"
    using yieldsD [OF shown_classify x prefix_order.refl prefix_order.refl] assms cp by (simp add: sorted_out_def)
  have "runs_in UNIV (answer_candidates v known es c) vs" for vs
    unfolding answer_candidates_def
  proof (rule runs_after_quiet [OF quiet_recover])
    fix z ws assume z: "recover_durable_results v c vs = (Inr z, ws)"
    obtain n left where nl: "z = (n, left)" by (cases z)
    have "distinct left" using yieldsD [OF shown_recover z prefix_order.refl prefix_order.refl] c nl by simp
    then have "distinct (map fst (map (\<lambda>f. (f, size_for es f)) left))" by (simp add: comp_def)
    then have all: "runs_in UNIV (bindC (answer_all v (map (\<lambda>f. (f, size_for es f)) left)) (\<lambda>m. ret (n + m))) xs" for xs
      by (rule runs_bind [OF runs_all runs_quiet [where F = "{}"]]) (auto intro: only_rules)
    have call: "quiet (if known then ret True else registry_mb v ''dispatch'')" by (auto intro!: only_rules)
    show "runs_in UNIV (case z of (n, left) \<Rightarrow> if left = [] then ret n
        else bindC (if known then ret True else registry_mb v ''dispatch'') (\<lambda>_.
          bindC (answer_all v (map (\<lambda>f. (f, size_for es f)) left)) (\<lambda>m. ret (n + m)))) ws"
      unfolding nl prod.case by (rule runs_if [OF runs_quiet [OF only_basic(1)] runs_after_quiet [OF call all]])
  qed
  then show "runs_in UNIV (case x of (c, p) \<Rightarrow> if c = [] then bindC (idle_maintenance v p) (\<lambda>_. ret 0) else answer_candidates v known es c) us"
    unfolding cp by (auto intro!: runs_quiet only_rules)
qed

lemma list_mb_distinct: "list_mb v rel tr = (Inr es, us) \<Longrightarrow> distinct (map rm_name es)"
  unfolding list_mb_def by (auto simp: bindC_Inr dest: validate_entries_Inr)

text \<open>C15: A cycle of the mailbox runs each request at most once, however the drive, the clock and the file system
  answer in between, and however the cycle ends.\<close>

theorem cycle_runs_once: "\<exists>new. ran (snd (mailbox_cycle v tr)) = ran tr @ new \<and> distinct new"
proof -
  have "runs_in UNIV (mailbox_cycle v) tr"
    unfolding mailbox_cycle_def
  proof (rule runs_after_quiet, goal_cases)
    case (2 x us)
    show ?case
    proof (rule runs_after_quiet, goal_cases)
      case (2 known vs)
      show ?case
      proof (rule runs_after_quiet [OF quiet_list])
        fix es ws assume "list_mb v ''v2/transactions'' vs = (Inr es, ws)"
        then have "distinct (map rm_name (filter (\<lambda>e. tx_filename (rm_name e)) es))"
          using list_mb_distinct by (auto simp: distinct_map inj_on_def)
        then show "runs_in UNIV (handle_mailbox v known (filter (\<lambda>e. tx_filename (rm_name e)) es)) ws" by (rule runs_handle)
      qed
    qed (rule only_rules)
  qed (intro only_rules)
  then show ?thesis by (auto simp: runs_in_def)
qed

subsection \<open>A signed result is accepted\<close>

lemma unsigned_update: "unsigned (AList.update ''bridge_auth'' x r) = unsigned r"
  unfolding unsigned_def by (induction r) auto

lemma get_update: "obj_get (JObj (AList.update k x r)) k' = (if k' = k then x else obj_get (JObj r) k')"
  by (simp add: update_conv')

text \<open>What the bridge signs it accepts again, as long as the key file keeps its content: a result with a valid identity
  that was signed for a file name verifies for that name, on whatever log.\<close>

theorem signed_result_verifies:
  assumes "sign_result v f r tr = (Inr s, us)" "result_identity_ok f (JObj r)"
    and key: "result_auth_key v tr = (Inr key, us)" "result_auth_key v vs = (Inr key, ws)"
    and hex: "\<And>m. sha_text (JStr (mv_hmac v key m))"
  shows "verify_result v f s vs = (Inr True, ws)"
proof -
  have s: "s = signed_with v key f r" using assms(1) key(1) by (simp add: sign_result_def bindC_def ret_def)
  have same: "result_tag v key f s = result_tag v key f r" unfolding s signed_with_def result_tag_def by (simp add: unsigned_update)
  have auth: "obj_get (JObj s) ''bridge_auth'' = JObj [(''alg'', auth_alg), (''tag'', JStr (result_tag v key f r))]"
    unfolding s signed_with_def by (simp add: get_update del: obj_get_JObj)
  have tag: "tagged s" "has_tag (result_tag v key f s) s"
    unfolding tagged_def has_tag_def auth same Let_def using hex by (simp_all add: result_tag_def)
  have "result_identity_ok f (JObj s)"
    using assms(2) unfolding result_identity_ok_def s signed_with_def by (simp add: get_update del: obj_get_JObj)
  with tag show ?thesis using key(2) by (simp add: verify_result_def bindC_def ret_def)
qed

subsection \<open>A sample mailbox\<close>

definition sample_result :: fields where
  "sample_result = [(''protocol'', JInt 2), (''kind'', JStr ''result''), (''transaction_id'', JStr ''tx1''), (''status'', JStr ''success'')]"

text \<open>One request waits, the key exists, and every call succeeds.\<close>

definition sample_mailbox :: mb_env where
  "sample_mailbox = \<lparr>
     mv_home = ''/h'',
     mv_list = (\<lambda>_ rel. Some (if rel = ''v2/transactions'' then [\<lparr>rm_name = ''tx1.json'', rm_size = Some 9\<rparr>] else [])),
     mv_get = (\<lambda>_ _. Got ''{}''), mv_put = (\<lambda>_ _. True),
     mv_exists = (\<lambda>_ p. p = ''/h/.config/llm-git-bridge/result-auth.key''),
     mv_load = (\<lambda>_ _. Inl (Refused ''none'')), mv_save = (\<lambda>_ _. True), mv_unlink = (\<lambda>_ _. True), mv_move = (\<lambda>_ _. True),
     mv_text = (\<lambda>_ _. Some (replicate 64 (CHR ''a''))),
     mv_registry = (\<lambda>_ _. Inr True), mv_strays = (\<lambda>_. []), mv_staging = (\<lambda>_. []), mv_link = (\<lambda>_ _. Inr True),
     mv_random = (\<lambda>_. replicate 64 (CHR ''b'')), mv_age = (\<lambda>_ _. None), mv_results = (\<lambda>_. Some []),
     mv_execute = (\<lambda>_ _ _. Inr sample_result), mv_now = (\<lambda>_. ''now''), mv_timings = (\<lambda>_. JObj []),
     mv_hmac = (\<lambda>_ _. replicate 64 (CHR ''0'')), mv_sha = (\<lambda>_. replicate 64 (CHR ''1'')), mv_fr = (\<lambda>_. ''0''),
     mv_parse = (\<lambda>_. Some (JObj [(''protocol'', JInt 2), (''transaction_id'', JStr ''tx1'')]))\<rparr>"

lemma sample_key: "result_auth_key sample_mailbox tr = (Inr (replicate 32 (CHR 0xAA)), tr)"
proof -
  have key: "bytes_fromhex (py_strip (replicate 64 (CHR ''a''))) = Some (replicate 32 (CHR 0xAA))" by code_simp
  show ?thesis
    by (simp add: result_auth_key_def exists_mb_def ask_def bindC_def ret_def read_result_auth_key_def sample_mailbox_def key_file_def
        config_dir_def key)
qed

theorem signed_result_verifies_witness:
  "verify_result sample_mailbox ''tx1.json'' (signed_with sample_mailbox (replicate 32 (CHR 0xAA)) ''tx1.json'' sample_result) []
     = (Inr True, [])"
proof (rule signed_result_verifies [of sample_mailbox _ sample_result "[]" _ "[]" "replicate 32 (CHR 0xAA)"])
  show "sign_result sample_mailbox ''tx1.json'' sample_result [] = (Inr (signed_with sample_mailbox (replicate 32 (CHR 0xAA)) ''tx1.json'' sample_result), [])"
    by (simp add: sign_result_def sample_key bindC_def ret_def)
  show "result_identity_ok ''tx1.json'' (JObj sample_result)" by code_simp
  have "sha_text (JStr (replicate 64 (CHR ''0'')))" by code_simp
  then show "sha_text (JStr (mv_hmac sample_mailbox (replicate 32 (CHR 0xAA)) m))" for m
    by (simp add: sample_mailbox_def)
qed (rule sample_key)+

lemma sample_message:
  "public_error_message sample_mailbox (Refused ''push to HTTPS://me:pw@host/x:y from /h/repo failed'')
     = ''push to HTTPS://<redacted>@host/x:y from <home>/repo failed''"
  by code_simp

lemma sample_cycle: "ran (snd (mailbox_cycle sample_mailbox [])) = [''tx1.json'']"
  by code_simp

lemma sample_cycle_outcome: "fst (mailbox_cycle sample_mailbox []) = Inr 1"
  by code_simp

end
